(* ===== verification/Prelude.thy ===== *)
theory Prelude
  imports Main "HOL-Library.AList" "HOL-Library.Word" "HOL-Library.List_Lexorder"
begin

text \<open>
  Shared vocabulary of the development: octets and big-endian integers, Python text as
  code points, Python dictionaries as insertion-ordered association lists, results of
  fallible operations as sums, and the generic lemmas the component theories rest on.
\<close>

named_theorems bytes_simps "normal forms for octet strings, slices and big-endian integers"
named_theorems dict_simps "lookup and domain laws of insertion-ordered dictionaries"
named_theorems result_simps "case analysis of fallible results"

subsection \<open>Results: a raised exception is the left summand\<close>

definition bind :: "'e + 'a \<Rightarrow> ('a \<Rightarrow> 'e + 'b) \<Rightarrow> 'e + 'b" where
  "bind r f = (case r of Inl e \<Rightarrow> Inl e | Inr x \<Rightarrow> f x)"

definition guard :: "bool \<Rightarrow> 'e \<Rightarrow> 'e + 'a \<Rightarrow> 'e + 'a" where
  "guard ok e k = (if ok then k else Inl e)"

lemma bind_simps [simp]: "bind (Inl e) f = Inl e" "bind (Inr x) f = f x"
  by (simp_all add: bind_def)

lemma bind_Inr_iff [result_simps]:
  "bind r f = Inr y \<longleftrightarrow> (\<exists>x. r = Inr x \<and> f x = Inr y)"
  by (cases r) auto

lemma bind_Inl_iff [result_simps]:
  "bind r f = Inl e \<longleftrightarrow> r = Inl e \<or> (\<exists>x. r = Inr x \<and> f x = Inl e)"
  by (cases r) auto

lemma bind_assoc: "bind (bind r f) g = bind r (\<lambda>x. bind (f x) g)"
  by (cases r) auto

lemma guard_simps [simp]: "guard True e k = k" "guard False e k = Inl e"
  by (simp_all add: guard_def)

lemma guard_Inr_iff [result_simps]: "guard ok e k = Inr y \<longleftrightarrow> ok \<and> k = Inr y"
  by (simp add: guard_def)

lemma guard_Inl_iff [result_simps]:
  "guard ok e k = Inl e' \<longleftrightarrow> (\<not> ok \<and> e = e') \<or> (ok \<and> k = Inl e')"
  by (auto simp: guard_def)

definition succeeds :: "'e + 'a \<Rightarrow> bool" where
  "succeeds r = (case r of Inl _ \<Rightarrow> False | Inr _ \<Rightarrow> True)"

lemma succeeds_simps [simp]: "\<not> succeeds (Inl e)" "succeeds (Inr x)"
  by (simp_all add: succeeds_def)

lemma succeeds_iff: "succeeds r \<longleftrightarrow> (\<exists>x. r = Inr x)"
  by (cases r) auto

subsection \<open>Octet strings\<close>

type_synonym byte = "8 word"
type_synonym bytes = "8 word list"

definition byte_of :: "nat \<Rightarrow> byte" where
  "byte_of n = of_nat n"

lemma unat_byte_of [simp]: "n < 256 \<Longrightarrow> unat (byte_of n) = n"
  by (simp add: byte_of_def unat_of_nat)

lemma byte_of_unat [simp]: "byte_of (unat b) = b"
  by (simp add: byte_of_def)

lemma unat_byte_lt: "unat (b :: byte) < 256"
  using unsigned_less [of b, where ?'a = nat] by simp

definition slice :: "nat \<Rightarrow> nat \<Rightarrow> 'a list \<Rightarrow> 'a list" where
  \<comment> \<open>Python's \<open>xs[i:j]\<close> for nonnegative bounds\<close>
  "slice i j xs = take (j - i) (drop i xs)"

lemma length_slice [bytes_simps]: "length (slice i j xs) = min (j - i) (length xs - i)"
  by (simp add: slice_def)

lemma slice_append_left: "j \<le> length xs \<Longrightarrow> slice i j (xs @ ys) = slice i j xs"
  by (cases "i \<le> length xs") (simp_all add: slice_def)

lemma slice_append_right:
  "length xs \<le> i \<Longrightarrow> slice i j (xs @ ys) = slice (i - length xs) (j - length xs) ys"
  by (simp add: slice_def)

lemma slice_whole: "length xs \<le> j \<Longrightarrow> slice 0 j xs = xs"
  by (simp add: slice_def)

lemma slice_take: "j \<le> n \<Longrightarrow> slice i j (take n xs) = slice i j xs"
  by (simp add: slice_def drop_take min_def)

fun be_bytes :: "nat \<Rightarrow> int \<Rightarrow> bytes" where
  \<comment> \<open>\<open>n.to_bytes(w, "big")\<close> of an in-range integer\<close>
  "be_bytes 0 n = []"
| "be_bytes (Suc w) n = be_bytes w (n div 256) @ [word_of_int (n mod 256)]"

definition be_int :: "bytes \<Rightarrow> int" where
  \<comment> \<open>\<open>int.from_bytes(bs, "big")\<close>\<close>
  "be_int bs = foldl (\<lambda>a b. a * 256 + uint b) 0 bs"

lemma length_be_bytes [simp]: "length (be_bytes w n) = w"
  by (induction w arbitrary: n) auto

lemma be_int_Nil [simp]: "be_int [] = 0"
  by (simp add: be_int_def)

lemma be_int_snoc [simp]: "be_int (bs @ [b]) = be_int bs * 256 + uint b"
  by (simp add: be_int_def)

lemma uint_byte_lt: "uint (b :: byte) < 256"
  using uint_bounded [of b] by simp

lemma uint_byte_ge [simp]: "0 \<le> uint (b :: byte)"
  by simp

lemma be_int_nonneg [simp]: "0 \<le> be_int bs"
  by (induction bs rule: rev_induct) simp_all

lemma be_int_lt: "be_int bs < 256 ^ length bs"
proof (induction bs rule: rev_induct)
  case Nil
  show ?case by simp
next
  case (snoc b bs)
  then have "be_int bs * 256 + uint b < (be_int bs + 1) * 256"
    using uint_byte_lt [of b] by simp
  also have "\<dots> \<le> 256 ^ length bs * 256"
    using snoc by (intro mult_right_mono) auto
  finally show ?case by simp
qed

lemma be_int_be_bytes: "0 \<le> n \<Longrightarrow> n < 256 ^ w \<Longrightarrow> be_int (be_bytes w n) = n"
proof (induction w arbitrary: n)
  case 0
  then show ?case by simp
next
  case (Suc w)
  have "n div 256 < 256 ^ w"
    using Suc.prems by (simp add: div_less_iff_less_mult mult.commute)
  moreover have "0 \<le> n div 256"
    using Suc.prems by simp
  ultimately have "be_int (be_bytes w (n div 256)) = n div 256"
    by (rule Suc.IH [rotated])
  then show ?case
    by (simp add: unsigned_of_int take_bit_eq_mod)
qed

lemma be_bytes_be_int: "be_bytes (length bs) (be_int bs) = bs"
proof (induction bs rule: rev_induct)
  case Nil
  show ?case by simp
next
  case (snoc b bs)
  have "(be_int bs * 256 + uint b) div 256 = be_int bs"
    using uint_byte_lt [of b] by simp
  moreover have "(be_int bs * 256 + uint b) mod 256 = uint b"
    using uint_byte_lt [of b] by simp
  ultimately show ?case using snoc by simp
qed

lemma be_int_inject: "length xs = length ys \<Longrightarrow> be_int xs = be_int ys \<longleftrightarrow> xs = ys"
  by (metis be_bytes_be_int)

definition bxor :: "bytes \<Rightarrow> bytes \<Rightarrow> bytes" where
  \<comment> \<open>\<open>bytes(a ^ b for a, b in zip(xs, ys))\<close>\<close>
  "bxor xs ys = map2 xor xs ys"

lemma length_bxor [simp]: "length (bxor xs ys) = min (length xs) (length ys)"
  by (simp add: bxor_def)

lemma bxor_cancel: "length xs \<le> length ys \<Longrightarrow> bxor (bxor xs ys) ys = xs"
proof (induction xs arbitrary: ys)
  case Nil
  then show ?case by (simp add: bxor_def)
next
  case (Cons x xs)
  then obtain y ys' where "ys = y # ys'" by (cases ys) auto
  with Cons show ?case by (simp add: bxor_def xor.assoc)
qed

subsection \<open>Dictionaries\<close>

text \<open>
  A Python \<open>dict\<close> keeps insertion order, and several operations of the program depend
  on it (the oldest session is the first key). It is an association list with distinct
  keys: \<open>d[k] = v\<close> is \<^term>\<open>AList.update\<close>, which overwrites in place or appends;
  \<open>del d[k]\<close> and \<open>d.pop(k, None)\<close> are \<^term>\<open>AList.delete\<close>; \<open>d.get(k)\<close> is
  \<^term>\<open>map_of\<close>.
\<close>

type_synonym ('k, 'v) dict = "('k \<times> 'v) list"

abbreviation put :: "'k \<Rightarrow> 'v \<Rightarrow> ('k, 'v) dict \<Rightarrow> ('k, 'v) dict" where
  "put \<equiv> AList.update"

abbreviation drop_key :: "'k \<Rightarrow> ('k, 'v) dict \<Rightarrow> ('k, 'v) dict" where
  "drop_key \<equiv> AList.delete"

abbreviation keys :: "('k, 'v) dict \<Rightarrow> 'k list" where
  "keys d \<equiv> map fst d"

definition is_dict :: "('k, 'v) dict \<Rightarrow> bool" where
  "is_dict d \<longleftrightarrow> distinct (keys d)"

lemma lookup_put [dict_simps]:
  "map_of (put k v d) k' = (if k = k' then Some v else map_of d k')"
  by (simp add: update_conv')

lemma lookup_drop_key [dict_simps]:
  "map_of (drop_key k d) k' = (if k = k' then None else map_of d k')"
  by (simp add: delete_conv')

lemma keys_put [dict_simps]:
  "keys (put k v d) = (if k \<in> set (keys d) then keys d else keys d @ [k])"
  by (rule update_keys)

lemma keys_drop_key [dict_simps]: "keys (drop_key k d) = filter (\<lambda>x. x \<noteq> k) (keys d)"
  by (induction d) auto

lemma is_dict_put [intro]: "is_dict d \<Longrightarrow> is_dict (put k v d)"
  by (simp add: is_dict_def distinct_update)

lemma is_dict_drop_key [intro]: "is_dict d \<Longrightarrow> is_dict (drop_key k d)"
  by (simp add: is_dict_def distinct_delete)

lemma is_dict_filter [intro]: "is_dict d \<Longrightarrow> is_dict (filter P d)"
  by (simp add: is_dict_def distinct_map_filter)

lemma is_dict_Nil [simp]: "is_dict []"
  by (simp add: is_dict_def)

lemma is_dict_lookup: "is_dict d \<Longrightarrow> (k, v) \<in> set d \<Longrightarrow> map_of d k = Some v"
  by (simp add: is_dict_def)

lemma lookup_in_set: "map_of d k = Some v \<Longrightarrow> (k, v) \<in> set d"
  by (rule map_of_SomeD)

lemma lookup_None_iff: "map_of d k = None \<longleftrightarrow> k \<notin> set (keys d)"
  by (auto simp: map_of_eq_None_iff)

lemma put_set_subset: "set (put k v d) \<subseteq> insert (k, v) (set d)"
  by (induction d) auto

lemma put_values: "x \<in> set (put k v d) \<Longrightarrow> x = (k, v) \<or> x \<in> set d"
  using put_set_subset [of k v d] by auto

lemma length_put [dict_simps]:
  "length (put k v d) = (if k \<in> set (keys d) then length d else Suc (length d))"
  by (induction d) auto

lemma length_drop_key_le: "length (drop_key k d) \<le> length d"
  by (simp add: AList.delete_eq)

lemma length_drop_key: "is_dict d \<Longrightarrow>
  length (drop_key k d) = (if k \<in> set (keys d) then length d - 1 else length d)"
proof (induction d)
  case Nil
  then show ?case by simp
next
  case (Cons x d)
  obtain a b where x: "x = (a, b)" by (cases x)
  have d: "is_dict d" and a: "a \<notin> set (keys d)"
    using Cons.prems by (auto simp: is_dict_def x)
  show ?case
  proof (cases "a = k")
    case True
    then have "drop_key k d = d"
      using a by (simp add: delete_idem)
    then show ?thesis using True by (simp add: x)
  next
    case False
    then show ?thesis
      using Cons.IH [OF d] length_pos_if_in_set [of _ d] by (fastforce simp: x)
  qed
qed

lemma drop_key_set: "set (drop_key k d) = {x \<in> set d. fst x \<noteq> k}"
  by (auto simp: AList.delete_eq)

text \<open>What a client of a keyed store relies on; the insertion-ordered dictionary provides it.\<close>

locale keyed_store =
  fixes lookup :: "'m \<Rightarrow> 'k \<Rightarrow> 'v option"
    and insert_row :: "'k \<Rightarrow> 'v \<Rightarrow> 'm \<Rightarrow> 'm"
    and remove_row :: "'k \<Rightarrow> 'm \<Rightarrow> 'm"
    and count :: "'m \<Rightarrow> nat"
    and wf :: "'m \<Rightarrow> bool"
  assumes lookup_insert: "lookup (insert_row k v m) k' = (if k = k' then Some v else lookup m k')"
    and lookup_remove: "lookup (remove_row k m) k' = (if k = k' then None else lookup m k')"
    and wf_insert: "wf m \<Longrightarrow> wf (insert_row k v m)"
    and wf_remove: "wf m \<Longrightarrow> wf (remove_row k m)"
    and count_insert: "wf m \<Longrightarrow>
      count (insert_row k v m) = (if lookup m k = None then Suc (count m) else count m)"
    and count_remove: "wf m \<Longrightarrow>
      count (remove_row k m) = (if lookup m k = None then count m else count m - 1)"
begin

lemma replace_keeps_count:
  "wf m \<Longrightarrow> lookup m k \<noteq> None \<Longrightarrow> count (insert_row k v m) = count m"
  by (simp add: count_insert)

lemma count_remove_le: "wf m \<Longrightarrow> count (remove_row k m) \<le> count m"
  by (simp add: count_remove)

lemma bounded_insert:
  "wf m \<Longrightarrow> count m < n \<or> lookup m k \<noteq> None \<and> count m \<le> n \<Longrightarrow> count (insert_row k v m) \<le> n"
  by (auto simp: count_insert)

lemma insert_after_remove:
  "wf m \<Longrightarrow> count m \<le> n \<Longrightarrow> lookup m k \<noteq> None \<Longrightarrow> 0 < count m \<Longrightarrow>
    count (insert_row k' v (remove_row k m)) \<le> n"
  by (auto simp: count_insert count_remove wf_remove lookup_remove)

end

interpretation dict: keyed_store "\<lambda>d k. map_of d k" put drop_key length is_dict
proof unfold_locales
  fix d :: "('a, 'b) dict" and k v
  assume d: "is_dict d"
  show "length (put k v d) = (if map_of d k = None then Suc (length d) else length d)"
    by (simp add: length_put lookup_None_iff)
  show "length (drop_key k d) = (if map_of d k = None then length d else length d - 1)"
    using d by (simp add: length_drop_key lookup_None_iff)
qed (auto simp: dict_simps)

end
