(* ===== verification/Text.thy ===== *)
theory Text
  imports Prelude
begin

text \<open>
  Python text. A \<open>str\<close> is the list of its code points; \<open>s.encode("utf-8")\<close> and the strict
  \<open>b.decode("utf-8")\<close> are written out with their failures (lone surrogates, overlong and
  truncated sequences), since wire limits of the program are counted in octets and its text
  limits in code points. Decimal conversion and ASCII case are those of \<open>str(int)\<close>,
  \<open>int(bytes)\<close>, \<open>bytes.isdigit\<close> and \<open>str.upper\<close> on hexadecimal digits.
\<close>

type_synonym pystr = "nat list"

definition str :: "string \<Rightarrow> pystr" where
  "str s = map of_char s"

subsection \<open>UTF-8\<close>

definition utf8_char :: "nat \<Rightarrow> bytes option" where
  "utf8_char c =
     (if c < 0x80 then Some [byte_of c]
      else if c < 0x800 then Some [byte_of (0xC0 + c div 64), byte_of (0x80 + c mod 64)]
      else if 0xD800 \<le> c \<and> c < 0xE000 then None
      else if c < 0x10000 then
        Some [byte_of (0xE0 + c div 4096), byte_of (0x80 + c div 64 mod 64), byte_of (0x80 + c mod 64)]
      else if c < 0x110000 then
        Some [byte_of (0xF0 + c div 262144), byte_of (0x80 + c div 4096 mod 64),
              byte_of (0x80 + c div 64 mod 64), byte_of (0x80 + c mod 64)]
      else None)"

fun utf8_encode :: "pystr \<Rightarrow> bytes option" where
  "utf8_encode [] = Some []"
| "utf8_encode (c # cs) =
     (case utf8_char c of None \<Rightarrow> None
      | Some b \<Rightarrow> (case utf8_encode cs of None \<Rightarrow> None | Some bs \<Rightarrow> Some (b @ bs)))"

definition cont :: "byte \<Rightarrow> bool" where
  "cont b \<longleftrightarrow> 0x80 \<le> unat b \<and> unat b < 0xC0"

definition low6 :: "byte \<Rightarrow> nat" where
  "low6 b = unat b - 0x80"

definition utf8_step :: "bytes \<Rightarrow> (nat \<times> bytes) option" where
  "utf8_step bs = (case bs of [] \<Rightarrow> None
     | b0 # r0 \<Rightarrow>
       if unat b0 < 0x80 then Some (unat b0, r0)
       else if 0xC2 \<le> unat b0 \<and> unat b0 < 0xE0 then
         (case r0 of b1 # r1 \<Rightarrow>
            if cont b1 then Some ((unat b0 - 0xC0) * 64 + low6 b1, r1) else None
          | _ \<Rightarrow> None)
       else if 0xE0 \<le> unat b0 \<and> unat b0 < 0xF0 then
         (case r0 of b1 # b2 # r2 \<Rightarrow>
            (let c = (unat b0 - 0xE0) * 4096 + low6 b1 * 64 + low6 b2
             in if cont b1 \<and> cont b2 \<and> 0x800 \<le> c \<and> \<not> (0xD800 \<le> c \<and> c < 0xE000)
                then Some (c, r2) else None)
          | _ \<Rightarrow> None)
       else if 0xF0 \<le> unat b0 \<and> unat b0 < 0xF5 then
         (case r0 of b1 # b2 # b3 # r3 \<Rightarrow>
            (let c = (unat b0 - 0xF0) * 262144 + low6 b1 * 4096 + low6 b2 * 64 + low6 b3
             in if cont b1 \<and> cont b2 \<and> cont b3 \<and> 0x10000 \<le> c \<and> c < 0x110000
                then Some (c, r3) else None)
          | _ \<Rightarrow> None)
       else None)"

lemma utf8_step_shorter: "utf8_step bs = Some (c, rest) \<Longrightarrow> length rest < length bs"
  by (auto simp: utf8_step_def Let_def split: list.splits if_splits)

function utf8_decode :: "bytes \<Rightarrow> pystr option" where
  "utf8_decode bs =
     (if bs = [] then Some []
      else case utf8_step bs of None \<Rightarrow> None
           | Some (c, rest) \<Rightarrow>
               (case utf8_decode rest of None \<Rightarrow> None | Some cs \<Rightarrow> Some (c # cs)))"
  by pat_completeness auto
termination
  by (relation "measure length") (auto dest: utf8_step_shorter)

declare utf8_decode.simps [simp del]

lemma cont_byte_of [simp]: "n < 64 \<Longrightarrow> cont (byte_of (0x80 + n))"
  by (simp add: cont_def)

lemma low6_byte_of [simp]: "n < 64 \<Longrightarrow> low6 (byte_of (0x80 + n)) = n"
  by (simp add: low6_def)

lemma utf8_step2:
  "2 \<le> p \<Longrightarrow> p < 32 \<Longrightarrow> q < 64 \<Longrightarrow>
    utf8_step (byte_of (0xC0 + p) # byte_of (0x80 + q) # rest) = Some (p * 64 + q, rest)"
  by (simp add: utf8_step_def)

lemma utf8_step3:
  assumes "p < 16" "q < 64" "r < 64" and c: "c = p * 4096 + q * 64 + r"
    and "0x800 \<le> c" "\<not> (0xD800 \<le> c \<and> c < 0xE000)"
  shows "utf8_step (byte_of (0xE0 + p) # byte_of (0x80 + q) # byte_of (0x80 + r) # rest)
    = Some (c, rest)"
  using assms(1-3,5,6) by (simp add: utf8_step_def c)

lemma utf8_step4:
  assumes "p < 5" "q < 64" "r < 64" "s < 64"
    and c: "c = p * 262144 + q * 4096 + r * 64 + s" and "0x10000 \<le> c" "c < 0x110000"
  shows "utf8_step (byte_of (0xF0 + p) # byte_of (0x80 + q) # byte_of (0x80 + r)
      # byte_of (0x80 + s) # rest) = Some (c, rest)"
  using assms(1-4,6,7) by (simp add: utf8_step_def c)

lemma base64_split3: "(c :: nat) = c div 4096 * 4096 + c div 64 mod 64 * 64 + c mod 64"
proof -
  have "c div 4096 = c div 64 div 64" by (simp add: div_mult2_eq [symmetric])
  moreover have "c div 64 = c div 64 div 64 * 64 + c div 64 mod 64" by simp
  moreover have "c = c div 64 * 64 + c mod 64" by simp
  ultimately show ?thesis by linarith
qed

lemma base64_split4:
  "(c :: nat) = c div 262144 * 262144 + c div 4096 mod 64 * 4096 + c div 64 mod 64 * 64 + c mod 64"
proof -
  have "c div 262144 = c div 4096 div 64" by (simp add: div_mult2_eq [symmetric])
  moreover have "c div 4096 = c div 4096 div 64 * 64 + c div 4096 mod 64" by simp
  ultimately show ?thesis using base64_split3 [of c] by linarith
qed

lemma utf8_step_char: "utf8_char c = Some b \<Longrightarrow> utf8_step (b @ rest) = Some (c, rest)"
proof -
  assume enc: "utf8_char c = Some b"
  consider (one) "c < 0x80" | (two) "0x80 \<le> c" "c < 0x800"
    | (three) "0x800 \<le> c" "c < 0x10000" "\<not> (0xD800 \<le> c \<and> c < 0xE000)"
    | (four) "0x10000 \<le> c" "c < 0x110000"
    using enc by (fastforce simp: utf8_char_def split: if_splits)
  then show ?thesis
  proof cases
    case one
    then show ?thesis using enc by (auto simp: utf8_char_def utf8_step_def)
  next
    case two
    then have b: "b = [byte_of (0xC0 + c div 64), byte_of (0x80 + c mod 64)]"
      using enc by (simp add: utf8_char_def)
    show ?thesis
      using utf8_step2 [of "c div 64" "c mod 64" rest] two by (simp add: b)
  next
    case three
    then have b: "b = [byte_of (0xE0 + c div 4096), byte_of (0x80 + c div 64 mod 64),
        byte_of (0x80 + c mod 64)]"
      using enc by (auto simp: utf8_char_def)
    have e: "c = c div 4096 * 4096 + c div 64 mod 64 * 64 + c mod 64" by (rule base64_split3)
    have d: "c div 4096 < 16" using three by simp
    show ?thesis
      using utf8_step3 [OF d _ _ e three(1,3), of rest] by (simp add: b)
  next
    case four
    then have b: "b = [byte_of (0xF0 + c div 262144), byte_of (0x80 + c div 4096 mod 64),
        byte_of (0x80 + c div 64 mod 64), byte_of (0x80 + c mod 64)]"
      using enc by (auto simp: utf8_char_def)
    have e: "c = c div 262144 * 262144 + c div 4096 mod 64 * 4096 + c div 64 mod 64 * 64 + c mod 64"
      by (rule base64_split4)
    have d: "c div 262144 < 5" using four by simp
    show ?thesis
      using utf8_step4 [OF d _ _ _ e four, of rest] by (simp add: b)
  qed
qed

lemma utf8_char_nonempty: "utf8_char c = Some b \<Longrightarrow> b \<noteq> []"
  by (auto simp: utf8_char_def split: if_splits)

lemma utf8_roundtrip: "utf8_encode s = Some b \<Longrightarrow> utf8_decode b = Some s"
proof (induction s arbitrary: b)
  case Nil
  then show ?case by (simp add: utf8_decode.simps)
next
  case (Cons c s)
  then obtain x y where x: "utf8_char c = Some x" and y: "utf8_encode s = Some y"
    and b: "b = x @ y"
    by (auto split: option.splits)
  have "x \<noteq> []" using x by (rule utf8_char_nonempty)
  then show ?case
    using Cons.IH [OF y] utf8_step_char [OF x, of y] by (simp add: utf8_decode.simps [of "x @ y"] b)
qed

lemma utf8_length: "utf8_encode s = Some b \<Longrightarrow> length s \<le> length b"
proof (induction s arbitrary: b)
  case Nil
  then show ?case by simp
next
  case (Cons c s)
  then obtain x y where x: "utf8_char c = Some x" and y: "utf8_encode s = Some y"
    and b: "b = x @ y"
    by (auto split: option.splits)
  have "Suc 0 \<le> length x" using utf8_char_nonempty [OF x] by (cases x) simp_all
  then show ?case using Cons.IH [OF y] b by simp
qed

lemma utf8_ascii: "\<forall>c \<in> set s. c < 128 \<Longrightarrow> utf8_encode s = Some (map byte_of s)"
  by (induction s) (auto simp: utf8_char_def)

subsection \<open>Decimal text\<close>

fun decimal :: "nat \<Rightarrow> pystr" where
  "decimal n = (if n < 10 then [48 + n] else decimal (n div 10) @ [48 + n mod 10])"

declare decimal.simps [simp del]

definition decimal_value :: "pystr \<Rightarrow> nat" where
  "decimal_value cs = foldl (\<lambda>a c. a * 10 + (c - 48)) 0 cs"

lemma decimal_value_snoc [simp]:
  "decimal_value (cs @ [c]) = decimal_value cs * 10 + (c - 48)"
  by (simp add: decimal_value_def)

lemma decimal_value_decimal: "decimal_value (decimal n) = n"
proof (induction n rule: decimal.induct)
  case (1 n)
  show ?case
  proof (cases "n < 10")
    case True
    then show ?thesis by (simp add: decimal.simps [of n] decimal_value_def)
  next
    case False
    then show ?thesis using 1 by (simp add: decimal.simps [of n])
  qed
qed

lemma decimal_digits: "c \<in> set (decimal n) \<Longrightarrow> 48 \<le> c \<and> c \<le> 57"
proof (induction n rule: decimal.induct)
  case (1 n)
  then show ?case by (cases "n < 10") (auto simp: decimal.simps [of n])
qed

lemma decimal_nonempty: "decimal n \<noteq> []"
  by (subst decimal.simps) simp

definition ascii_digits :: "bytes \<Rightarrow> bool" where
  \<comment> \<open>\<open>bytes.isdigit()\<close>: nonempty and ASCII decimal digits only\<close>
  "ascii_digits bs \<longleftrightarrow> bs \<noteq> [] \<and> (\<forall>b \<in> set bs. 48 \<le> unat b \<and> unat b \<le> 57)"

definition bytes_decimal :: "bytes \<Rightarrow> int" where
  \<comment> \<open>\<open>int(bs)\<close> of an ASCII digit string\<close>
  "bytes_decimal bs = int (decimal_value (map unat bs))"

lemma bytes_decimal_nonneg [simp]: "0 \<le> bytes_decimal bs"
  by (simp add: bytes_decimal_def)

lemma ascii_digits_decimal: "ascii_digits (map byte_of (decimal n))"
  using decimal_nonempty decimal_digits [of _ n]
  by (force simp: ascii_digits_def)

lemma bytes_decimal_decimal: "bytes_decimal (map byte_of (decimal n)) = int n"
proof -
  have "map unat (map byte_of (decimal n) :: bytes) = decimal n"
    using decimal_digits [of _ n] by (fastforce simp: comp_def intro!: map_idI unat_byte_of)
  then show ?thesis by (simp add: bytes_decimal_def decimal_value_decimal del: map_map)
qed

end
