(* ===== verification/Digest.thy ===== *)
theory Digest
  imports Prelude
begin

text \<open>
  The two digests the RADIUS code takes from Python's standard library: \<open>hashlib.md5\<close>
  (RFC 1321) and \<open>hmac.digest(key, msg, "md5")\<close> (RFC 2104). They are written out so that
  packets can be computed; the proofs of the codec only use the interface \<open>keyed_digest\<close>
  below (both results have sixteen octets), so they do not depend on the compression function.
\<close>

unbundle bit_operations_syntax

subsection \<open>MD5\<close>

type_synonym md5_state = "32 word \<times> 32 word \<times> 32 word \<times> 32 word"

definition md5_sines :: "32 word list" where
  "md5_sines =
    [
     0xd76aa478, 0xe8c7b756, 0x242070db, 0xc1bdceee,
     0xf57c0faf, 0x4787c62a, 0xa8304613, 0xfd469501,
     0x698098d8, 0x8b44f7af, 0xffff5bb1, 0x895cd7be,
     0x6b901122, 0xfd987193, 0xa679438e, 0x49b40821,
     0xf61e2562, 0xc040b340, 0x265e5a51, 0xe9b6c7aa,
     0xd62f105d, 0x02441453, 0xd8a1e681, 0xe7d3fbc8,
     0x21e1cde6, 0xc33707d6, 0xf4d50d87, 0x455a14ed,
     0xa9e3e905, 0xfcefa3f8, 0x676f02d9, 0x8d2a4c8a,
     0xfffa3942, 0x8771f681, 0x6d9d6122, 0xfde5380c,
     0xa4beea44, 0x4bdecfa9, 0xf6bb4b60, 0xbebfbc70,
     0x289b7ec6, 0xeaa127fa, 0xd4ef3085, 0x04881d05,
     0xd9d4d039, 0xe6db99e5, 0x1fa27cf8, 0xc4ac5665,
     0xf4292244, 0x432aff97, 0xab9423a7, 0xfc93a039,
     0x655b59c3, 0x8f0ccc92, 0xffeff47d, 0x85845dd1,
     0x6fa87e4f, 0xfe2ce6e0, 0xa3014314, 0x4e0811a1,
     0xf7537e82, 0xbd3af235, 0x2ad7d2bb, 0xeb86d391]"

definition md5_shifts :: "nat list" where
  "md5_shifts = concat (replicate 4 [7, 12, 17, 22]) @ concat (replicate 4 [5, 9, 14, 20]) @
     concat (replicate 4 [4, 11, 16, 23]) @ concat (replicate 4 [6, 10, 15, 21])"

definition rotate_left :: "nat \<Rightarrow> 32 word \<Rightarrow> 32 word" where
  "rotate_left s x = (push_bit s x OR drop_bit (32 - s) x)"

definition md5_step :: "32 word list \<Rightarrow> nat \<Rightarrow> md5_state \<Rightarrow> md5_state" where
  "md5_step m i st = (case st of (a, b, c, d) \<Rightarrow>
     let (f, g) =
       (if i < 16 then ((b AND c) OR (NOT b AND d), i)
        else if i < 32 then ((d AND b) OR (NOT d AND c), (5 * i + 1) mod 16)
        else if i < 48 then (b XOR c XOR d, (3 * i + 5) mod 16)
        else (c XOR (b OR NOT d), 7 * i mod 16))
     in (d, b + rotate_left (md5_shifts ! i) (a + f + md5_sines ! i + m ! g), b, c))"

fun le_int :: "bytes \<Rightarrow> int" where
  "le_int [] = 0"
| "le_int (b # bs) = uint b + 256 * le_int bs"

fun le_bytes :: "nat \<Rightarrow> int \<Rightarrow> bytes" where
  "le_bytes 0 n = []"
| "le_bytes (Suc w) n = word_of_int (n mod 256) # le_bytes w (n div 256)"

fun chunks_of :: "nat \<Rightarrow> nat \<Rightarrow> 'a list \<Rightarrow> 'a list list" where
  \<comment> \<open>the first \<open>k\<close> consecutive blocks of \<open>n\<close> elements\<close>
  "chunks_of n 0 xs = []"
| "chunks_of n (Suc k) xs = take n xs # chunks_of n k (drop n xs)"

definition md5_block :: "md5_state \<Rightarrow> bytes \<Rightarrow> md5_state" where
  "md5_block st block = (case st of (a0, b0, c0, d0) \<Rightarrow>
     let m = map (\<lambda>w. word_of_int (le_int w)) (chunks_of 4 16 block);
         (a, b, c, d) = fold (md5_step m) [0..<64] st
     in (a0 + a, b0 + b, c0 + c, d0 + d))"

definition md5_padding :: "nat \<Rightarrow> bytes" where
  "md5_padding n = 0x80 # replicate ((119 - n mod 64) mod 64) 0 @ le_bytes 8 (int (8 * n) mod 2 ^ 64)"

definition md5 :: "bytes \<Rightarrow> bytes" where
  "md5 msg =
     (let padded = msg @ md5_padding (length msg);
          (a, b, c, d) = foldl md5_block (0x67452301, 0xefcdab89, 0x98badcfe, 0x10325476)
            (chunks_of 64 (length padded div 64) padded)
      in le_bytes 4 (uint a) @ le_bytes 4 (uint b) @ le_bytes 4 (uint c) @ le_bytes 4 (uint d))"

lemma length_le_bytes [simp]: "length (le_bytes w n) = w"
  by (induction w arbitrary: n) auto

lemma length_md5: "length (md5 msg) = 16"
  by (simp add: md5_def Let_def split: prod.splits)

lemma md5_padding_aligned: "(n + length (md5_padding n)) mod 64 = 0"
proof -
  define q r where "q = n div 64" and "r = n mod 64"
  have n: "n = 64 * q + r" and r: "r < 64" by (simp_all add: q_def r_def)
  have "r + (119 - r) mod 64 + 9 = (if r \<le> 55 then 64 else 128)"
    using r by (auto simp: mod_if)
  then have "n + ((119 - r) mod 64 + 9) = 64 * (q + (if r \<le> 55 then 1 else 2))"
    using n by (simp split: if_splits)
  then have "(n + ((119 - r) mod 64 + 9)) mod 64 = 0"
    by (simp only: mod_mult_self1_is_0)
  then show ?thesis by (simp add: md5_padding_def r_def ac_simps)
qed

subsection \<open>HMAC-MD5\<close>

definition hmac_key :: "bytes \<Rightarrow> bytes" where
  "hmac_key key = (let k = (if 64 < length key then md5 key else key)
     in k @ replicate (64 - length k) 0)"

definition hmac_md5 :: "bytes \<Rightarrow> bytes \<Rightarrow> bytes" where
  "hmac_md5 key msg =
     (let k = hmac_key key
      in md5 (map (\<lambda>b. b XOR 0x5c) k @ md5 (map (\<lambda>b. b XOR 0x36) k @ msg)))"

lemma length_hmac_md5: "length (hmac_md5 key msg) = 16"
  by (simp add: hmac_md5_def Let_def length_md5)

lemma length_hmac_key: "length (hmac_key key) = 64"
  by (auto simp: hmac_key_def Let_def length_md5)

subsection \<open>What the packet codec relies on\<close>

locale keyed_digest =
  fixes hash :: "bytes \<Rightarrow> bytes" and mac :: "bytes \<Rightarrow> bytes \<Rightarrow> bytes"
  assumes hash_size: "length (hash m) = 16" and mac_size: "length (mac k m) = 16"
begin

lemma signed_tail_length: "length (m @ mac k m') = length m + 16"
  by (simp add: mac_size)

lemma sealed_length:
  "length h = 4 \<Longrightarrow> length (h @ hash m @ body) = 20 + length body"
  by (simp add: hash_size)

lemma sealed_slices:
  assumes "length h = 4"
  shows "slice 4 20 (h @ hash m @ body) = hash m"
    and "drop 20 (h @ hash m @ body) = body"
    and "take 4 (h @ hash m @ body) = h"
  using assms hash_size [of m] by (simp_all add: slice_def)

end

interpretation md: keyed_digest md5 hmac_md5
  by unfold_locales (simp_all add: length_md5 length_hmac_md5)

subsection \<open>An RFC 1321 test vector\<close>

lemma md5_abc_vector:
  "md5 [0x61, 0x62, 0x63] = be_bytes 16 0x900150983cd24fb0d6963f7d28e17f72"
  by code_simp

end
