(* ===== verification/Radius_Packet.thy ===== *)
theory Radius_Packet
  imports Text Digest
begin

text \<open>
  The RADIUS packet codec of \<open>switchlab/radius.py\<close>: splitting a datagram into its
  type-length-value attributes, encoding attributes with their limits, and finding and
  blanking the Message-Authenticator. The scan for the Message-Authenticator trusts that its
  argument was parsed before; what it would do otherwise (an \<open>IndexError\<close>, or a loop that does
  not advance on a zero length octet) are outcomes of the model, and the theory proves that
  they do not occur on a parsed packet.
\<close>

datatype py_error = RadiusError string | IndexError | EndlessLoop | UnicodeError | KeyError | AttributeError
  | OverflowError

type_synonym attribute = "int \<times> bytes"

subsection \<open>Parsing\<close>

function attribute_loop ::
  "bytes \<Rightarrow> nat \<Rightarrow> nat \<Rightarrow> attribute list \<Rightarrow> py_error + attribute list" where
  "attribute_loop packet sz position values =
     (if position < sz then
        if sz < position + 2 \<or> unat (packet ! (position + 1)) < 2
        then Inl (RadiusError ''invalid_attribute_length'')
        else let e = position + unat (packet ! (position + 1))
             in if sz < e then Inl (RadiusError ''invalid_attribute_length'')
                else attribute_loop packet sz e
                  (values @ [(uint (packet ! position), slice (position + 2) e packet)])
      else Inr values)"
  by pat_completeness auto
termination
  by (relation "measure (\<lambda>(packet, sz, position, values). sz - position)") auto

declare attribute_loop.simps [simp del]

definition packet_attributes :: "bytes \<Rightarrow> py_error + (bytes \<times> attribute list)" where
  "packet_attributes packet =
     (if length packet < 20 then Inl (RadiusError ''short_packet'')
      else let sz = nat (be_int (slice 2 4 packet))
           in if \<not> (20 \<le> sz \<and> sz \<le> 4096) \<or> length packet < sz
              then Inl (RadiusError ''invalid_packet_length'')
              else let packet = take sz packet
                   in bind (attribute_loop packet sz 20 []) (\<lambda>values. Inr (packet, values)))"

subsection \<open>Encoding\<close>

fun encode_loop :: "attribute list \<Rightarrow> bytes \<Rightarrow> py_error + bytes" where
  "encode_loop [] encoded = Inr encoded"
| "encode_loop ((kind, value) # rest) encoded =
     (if \<not> (1 \<le> kind \<and> kind \<le> 255) \<or> 253 < length value
      then Inl (RadiusError ''invalid_attribute'')
      else encode_loop rest (encoded @ ([word_of_int kind, byte_of (length value + 2)] @ value)))"

definition encode_attributes :: "attribute list \<Rightarrow> py_error + bytes" where
  "encode_attributes values =
     bind (encode_loop values []) (\<lambda>encoded.
       if 4076 < length encoded then Inl (RadiusError ''packet_budget'') else Inr encoded)"

subsection \<open>The Message-Authenticator\<close>

definition splice :: "nat \<Rightarrow> nat \<Rightarrow> 'a list \<Rightarrow> 'a list \<Rightarrow> 'a list" where
  \<comment> \<open>\<open>xs[i:j] = ys\<close> on a \<open>bytearray\<close>\<close>
  "splice i j ys xs = take i xs @ ys @ drop j xs"

function authenticator_loop ::
  "bytes \<Rightarrow> nat \<Rightarrow> bytes \<Rightarrow> bytes option \<Rightarrow> py_error + (bytes \<times> bytes option)" where
  "authenticator_loop packet position zeroed found =
     (if position < length packet then
        if length packet \<le> position + 1 then Inl IndexError
        else let len = unat (packet ! (position + 1))
             in if packet ! position = 80 then
                  if found \<noteq> None \<or> len \<noteq> 18
                  then Inl (RadiusError ''invalid_message_authenticator'')
                  else authenticator_loop packet (position + 18)
                    (splice (position + 2) (position + 18) (replicate 16 0) zeroed)
                    (Some (slice (position + 2) (position + 18) packet))
                else if len = 0 then Inl EndlessLoop
                else authenticator_loop packet (position + len) zeroed found
      else Inr (zeroed, found))"
  by pat_completeness auto
termination
  by (relation "measure (\<lambda>(packet, position, zeroed, found). length packet - position)") auto

declare authenticator_loop.simps [simp del]

definition message_authenticator :: "bytes \<Rightarrow> py_error + (bytes \<times> bytes)" where
  "message_authenticator packet =
     bind (authenticator_loop packet 20 packet None) (\<lambda>(zeroed, found).
       case found of None \<Rightarrow> Inl (RadiusError ''missing_message_authenticator'')
       | Some ma \<Rightarrow> Inr (zeroed, ma))"

subsection \<open>Attributes as octets\<close>

definition tlv :: "attribute \<Rightarrow> bytes" where
  "tlv a = [word_of_int (fst a), byte_of (length (snd a) + 2)] @ snd a"

definition tlvs :: "attribute list \<Rightarrow> bytes" where
  "tlvs values = concat (map tlv values)"

definition wire_attribute :: "attribute \<Rightarrow> bool" where
  \<comment> \<open>an attribute that occurs in a packet: one octet each for type and length\<close>
  "wire_attribute a \<longleftrightarrow> 0 \<le> fst a \<and> fst a \<le> 255 \<and> length (snd a) \<le> 253"

definition wire_attributes :: "attribute list \<Rightarrow> bool" where
  "wire_attributes values \<longleftrightarrow> (\<forall>a \<in> set values. wire_attribute a)"

lemma tlvs_simps [simp]: "tlvs [] = []" "tlvs (a # as) = tlv a @ tlvs as"
  "tlvs (xs @ ys) = tlvs xs @ tlvs ys"
  by (simp_all add: tlvs_def)

lemma wire_attributes_simps [simp]: "wire_attributes []"
  "wire_attributes (a # as) \<longleftrightarrow> wire_attribute a \<and> wire_attributes as"
  "wire_attributes (xs @ ys) \<longleftrightarrow> wire_attributes xs \<and> wire_attributes ys"
  by (auto simp: wire_attributes_def)

lemma length_tlv [simp]: "length (tlv a) = length (snd a) + 2"
  by (simp add: tlv_def)

lemma uint_word_of_int_byte: "0 \<le> k \<Longrightarrow> k \<le> 255 \<Longrightarrow> uint (word_of_int k :: byte) = k"
  by (simp add: unsigned_of_int take_bit_eq_mod)

lemma tlv_nth [simp]:
  "tlv a ! 0 = word_of_int (fst a)" "tlv a ! Suc 0 = byte_of (length (snd a) + 2)"
  "drop 2 (tlv a) = snd a"
  by (simp_all add: tlv_def)

lemma tlv_unat_length [simp]:
  "wire_attribute a \<Longrightarrow> unat (byte_of (length (snd a) + 2)) = length (snd a) + 2"
  by (simp add: wire_attribute_def)

lemma tlv_uint_kind [simp]:
  "wire_attribute a \<Longrightarrow> uint (word_of_int (fst a) :: byte) = fst a"
  by (simp add: wire_attribute_def uint_word_of_int_byte)

lemma attribute_loop_step:
  assumes a: "wire_attribute a" and p: "p = pre @ tlv a @ post" and sz: "sz = length p"
  shows "attribute_loop p sz (length pre) values =
    attribute_loop p sz (length pre + length (tlv a)) (values @ [a])"
proof -
  have k: "uint (p ! length pre) = fst a"
    using a by (simp add: p nth_append)
  have l: "unat (p ! (length pre + 1)) = length (tlv a)"
    using a by (simp add: p nth_append wire_attribute_def)
  have s: "slice (length pre + 2) (length pre + length (tlv a)) p = snd a"
    by (simp add: p slice_def)
  have "length pre + length (tlv a) \<le> sz" "2 \<le> length (tlv a)" by (simp_all add: sz p)
  then show ?thesis
    by (subst attribute_loop.simps) (simp add: k l s Let_def del: length_tlv One_nat_def add_2_eq_Suc')
qed

lemma attribute_loop_tlvs:
  assumes "wire_attributes vs" and "p = pre @ tlvs vs"
  shows "attribute_loop p (length p) (length pre) acc = Inr (acc @ vs)"
  using assms
proof (induction vs arbitrary: pre acc)
  case Nil
  then show ?case by (subst attribute_loop.simps) simp
next
  case (Cons a vs)
  have "attribute_loop p (length p) (length pre) acc =
      attribute_loop p (length p) (length pre + length (tlv a)) (acc @ [a])"
    using Cons.prems by (intro attribute_loop_step [where post = "tlvs vs"]) simp_all
  also have "\<dots> = attribute_loop p (length p) (length (pre @ tlv a)) (acc @ [a])"
    by simp
  also have "\<dots> = Inr ((acc @ [a]) @ vs)"
    using Cons.prems by (intro Cons.IH) simp_all
  finally show ?case by simp
qed

lemma attribute_loop_sound:
  "attribute_loop p sz pos acc = Inr out \<Longrightarrow> sz = length p \<Longrightarrow> pos \<le> sz \<Longrightarrow>
    \<exists>vs. out = acc @ vs \<and> drop pos p = tlvs vs \<and> wire_attributes vs"
proof (induction p sz pos acc rule: attribute_loop.induct)
  case (1 p sz pos acc)
  show ?case
  proof (cases "pos < sz")
    case False
    then have "attribute_loop p sz pos acc = Inr acc"
      by (subst attribute_loop.simps) simp
    with 1 False have "out = acc" and "drop pos p = []"
      by simp_all
    then show ?thesis by (intro exI [of _ "[]"]) simp
  next
    case True
    define l where "l = unat (p ! (pos + 1))"
    let ?a = "(uint (p ! pos), slice (pos + 2) (pos + l) p)"
    have step: "\<not> (sz < pos + 2 \<or> l < 2)" "\<not> sz < pos + l"
      "attribute_loop p sz (pos + l) (acc @ [?a]) = Inr out"
      using 1(2) True
      by (simp_all add: attribute_loop.simps [of p sz pos acc] Let_def l_def split: if_splits)
    obtain vs where vs: "out = (acc @ [?a]) @ vs" "drop (pos + l) p = tlvs vs" "wire_attributes vs"
      using 1(1) [OF True _ refl] step 1(3) by (auto simp: l_def)
    have l: "l < 256" using unat_byte_lt by (simp add: l_def)
    have val: "length (slice (pos + 2) (pos + l) p) = l - 2"
      using step(1,2) 1(3) by (simp add: length_slice)
    have "l - 2 + 2 = unat (p ! (pos + 1))" using step(1) unfolding l_def by linarith
    then have b1: "byte_of (l - 2 + 2) = p ! (pos + 1)"
      by (simp only: byte_of_unat)
    have "drop pos p = p ! pos # p ! (pos + 1) # drop (pos + 2) p"
      using step(1) 1(3) by (simp add: Cons_nth_drop_Suc)
    also have "drop (pos + 2) p = take (l - 2) (drop (pos + 2) p) @ drop (l - 2 + (pos + 2)) p"
      by (simp only: append_take_drop_id flip: drop_drop)
    also have "\<dots> = slice (pos + 2) (pos + l) p @ drop (pos + l) p"
    proof -
      have "l - 2 + (pos + 2) = pos + l" and "l - 2 = pos + l - (pos + 2)"
        using step(1) by linarith+
      then show ?thesis by (simp only: slice_def)
    qed
    finally have "drop pos p = tlvs (?a # vs)"
      using vs(2) b1 val by (simp add: tlv_def)
    moreover have "wire_attribute ?a"
      using val l uint_byte_lt [of "p ! pos"] by (simp add: wire_attribute_def)
    ultimately show ?thesis
      using vs by (intro exI [of _ "?a # vs"]) simp
  qed
qed


lemma packet_attributes_build:
  assumes h: "length header = 20" and vs: "wire_attributes vs"
    and sz: "be_int (slice 2 4 header) = int (20 + length (tlvs vs))"
    and small: "length (tlvs vs) \<le> 4076"
  shows "packet_attributes (header @ tlvs vs @ padding) = Inr (header @ tlvs vs, vs)"
proof -
  have s: "slice 2 4 (header @ tlvs vs @ padding) = slice 2 4 header"
    using h by (simp add: slice_append_left)
  have t: "take (20 + length (tlvs vs)) (header @ tlvs vs @ padding) = header @ tlvs vs"
    using h by simp
  have l: "attribute_loop (header @ tlvs vs) (20 + length (tlvs vs)) 20 [] = Inr vs"
    using attribute_loop_tlvs [OF vs refl, of header "[]"] h by simp
  have n: "nat (be_int (slice 2 4 header)) = 20 + length (tlvs vs)"
    by (simp only: sz nat_int)
  show ?thesis
    using small h by (simp add: packet_attributes_def Let_def s n t l)
qed

lemma packet_attributes_sound:
  assumes "packet_attributes p = Inr (q, vs)"
  shows "q = take 20 p @ tlvs vs" and "wire_attributes vs" and "length q \<le> 4096"
    and "length q = nat (be_int (slice 2 4 p))" and "20 \<le> length q" and "\<exists>pad. p = q @ pad"
proof -
  define sz where "sz = nat (be_int (slice 2 4 p))"
  have sz: "20 \<le> sz" "sz \<le> 4096" "sz \<le> length p" and q: "q = take sz p"
    and loop: "attribute_loop q sz 20 [] = Inr vs"
    using assms
    by (auto simp: packet_attributes_def Let_def sz_def result_simps split: if_splits)
  have lq: "length q = sz" using sz q by simp
  obtain ws where ws: "vs = [] @ ws" "drop 20 q = tlvs ws" "wire_attributes ws"
    using attribute_loop_sound [OF loop lq [symmetric] sz(1)] by blast
  have "q = take 20 q @ drop 20 q" by simp
  moreover have "take 20 q = take 20 p" using sz(1) q by (simp add: min_def)
  ultimately show "q = take 20 p @ tlvs vs" using ws by simp
  show "wire_attributes vs" using ws by simp
  show "length q \<le> 4096" and "20 \<le> length q" using lq sz by simp_all
  show "length q = nat (be_int (slice 2 4 p))" using lq sz_def by simp
  show "\<exists>pad. p = q @ pad" using q by (metis append_take_drop_id)
qed

lemma packet_attributes_header:
  assumes "packet_attributes p = Inr (q, vs)"
  shows "take 20 q = take 20 p"
proof -
  obtain pad where "p = q @ pad"
    using packet_attributes_sound(6) [OF assms] by blast
  then show ?thesis using packet_attributes_sound(5) [OF assms] by simp
qed

lemma encode_loop_tlvs:
  "encode_loop vs acc =
    (if \<forall>(k, v) \<in> set vs. 1 \<le> k \<and> k \<le> 255 \<and> length v \<le> 253 then Inr (acc @ tlvs vs)
     else Inl (RadiusError ''invalid_attribute''))"
proof (induction vs acc rule: encode_loop.induct)
  case (1 acc)
  then show ?case by simp
next
  case (2 k v vs acc)
  then show ?case by (auto simp: tlv_def not_le)
qed

definition encodable :: "attribute list \<Rightarrow> bool" where
  "encodable vs \<longleftrightarrow> (\<forall>(k, v) \<in> set vs. 1 \<le> k \<and> k \<le> 255 \<and> length v \<le> 253)"

lemma encodable_simps [simp]: "encodable []"
  "encodable (a # vs) \<longleftrightarrow> (1 \<le> fst a \<and> fst a \<le> 255 \<and> length (snd a) \<le> 253) \<and> encodable vs"
  "encodable (vs @ ws) \<longleftrightarrow> encodable vs \<and> encodable ws"
  by (auto simp: encodable_def)

lemma encodable_wire: "encodable vs \<Longrightarrow> wire_attributes vs"
  by (force simp: encodable_def wire_attributes_def wire_attribute_def)

lemma encode_attributes_Inr_iff:
  "encode_attributes vs = Inr body \<longleftrightarrow>
    encodable vs \<and> length (tlvs vs) \<le> 4076 \<and> body = tlvs vs"
  by (auto simp: encode_attributes_def encode_loop_tlvs encodable_def not_less)

lemma encode_attributes_Inl_iff:
  "encode_attributes vs = Inl e \<longleftrightarrow>
    \<not> encodable vs \<and> e = RadiusError ''invalid_attribute'' \<or>
    encodable vs \<and> 4076 < length (tlvs vs) \<and> e = RadiusError ''packet_budget''"
  by (auto simp: encode_attributes_def encode_loop_tlvs encodable_def)

subsection \<open>The Message-Authenticator of a parsed packet\<close>

definition blank :: "attribute \<Rightarrow> attribute" where
  "blank a = (if fst a = 80 then (80, replicate 16 0) else a)"

definition authenticators :: "attribute list \<Rightarrow> bytes list" where
  "authenticators vs = map snd (filter (\<lambda>a. fst a = 80) vs)"

lemma authenticators_simps [simp]: "authenticators [] = []"
  "authenticators (a # vs) = (if fst a = 80 then [snd a] else []) @ authenticators vs"
  "authenticators (vs @ ws) = authenticators vs @ authenticators ws"
  by (simp_all add: authenticators_def)

fun scan_outcome :: "bytes option \<Rightarrow> attribute list \<Rightarrow> py_error + bytes option" where
  "scan_outcome found [] = Inr found"
| "scan_outcome found (a # vs) =
     (if fst a = 80 then
        if found \<noteq> None \<or> length (snd a) \<noteq> 16
        then Inl (RadiusError ''invalid_message_authenticator'')
        else scan_outcome (Some (snd a)) vs
      else scan_outcome found vs)"


lemma wire_head:
  assumes a: "wire_attribute a" and p: "p = pre @ tlv a @ post"
  shows "length pre + 2 \<le> length p" and "p ! length pre = word_of_int (fst a)"
    and "unat (p ! (length pre + 1)) = length (tlv a)"
    and "(p ! length pre = 80) = (fst a = 80)"
    and "slice (length pre + 2) (length pre + length (tlv a)) p = snd a"
    and "drop (length pre + length (tlv a)) p = post"
proof -
  show "length pre + 2 \<le> length p" by (simp add: p)
  show k: "p ! length pre = word_of_int (fst a)" by (simp add: p nth_append)
  show "unat (p ! (length pre + 1)) = length (tlv a)"
    using a by (simp add: p nth_append wire_attribute_def)
  have u: "uint (p ! length pre) = fst a" using a by (simp add: k)
  have "(p ! length pre = 80) = (uint (p ! length pre) = uint (80 :: byte))"
    by (simp only: word_uint_eq_iff)
  then show "(p ! length pre = 80) = (fst a = 80)" by (simp add: u)
  show "slice (length pre + 2) (length pre + length (tlv a)) p = snd a"
    by (simp add: p slice_def)
  show "drop (length pre + length (tlv a)) p = post" by (simp add: p)
qed

lemma authenticator_loop_tlvs:
  assumes "wire_attributes vs" and "p = pre @ tlvs vs" and "length zpre = length pre"
  shows "authenticator_loop p (length pre) (zpre @ tlvs vs) found =
    bind (scan_outcome found vs) (\<lambda>f. Inr (zpre @ tlvs (map blank vs), f))"
  using assms
proof (induction vs arbitrary: pre zpre found)
  case Nil
  then show ?case by (subst authenticator_loop.simps) simp
next
  case (Cons a vs)
  have a: "wire_attribute a" and p: "p = pre @ tlv a @ tlvs vs" using Cons.prems by simp_all
  note head = wire_head [OF a p]
  have lt: "length pre < length p" "\<not> length p \<le> length pre + 1" using head(1) by simp_all
  show ?case
  proof (cases "fst a = 80")
    case False
    then have b: "blank a = a" by (simp add: blank_def)
    have "authenticator_loop p (length pre) (zpre @ tlvs (a # vs)) found =
        authenticator_loop p (length (pre @ tlv a)) ((zpre @ tlv a) @ tlvs vs) found"
      using False lt head by (subst authenticator_loop.simps) (simp add: Let_def)
    also have "\<dots> = bind (scan_outcome found vs) (\<lambda>f. Inr ((zpre @ tlv a) @ tlvs (map blank vs), f))"
      using Cons.prems p by (intro Cons.IH) simp_all
    finally show ?thesis using False b by simp
  next
    case True
    show ?thesis
    proof (cases "found \<noteq> None \<or> length (snd a) \<noteq> 16")
      case True
      then show ?thesis
        using \<open>fst a = 80\<close> lt head by (subst authenticator_loop.simps) (auto simp: Let_def)
    next
      case False
      then have f: "found = None" and l: "length (tlv a) = 18" by simp_all
      have z: "splice (length pre + 2) (length pre + 18) (replicate 16 0) (zpre @ tlv a @ tlvs vs)
          = (zpre @ tlv (blank a)) @ tlvs vs"
        using l \<open>fst a = 80\<close> Cons.prems(3) by (simp add: splice_def blank_def tlv_def)
      have s: "slice (length pre + 2) (length pre + 18) p = snd a"
        using head(5) unfolding l .
      have u: "unat (p ! (length pre + 1)) = 18" using head(3) l by simp
      have "authenticator_loop p (length pre) (zpre @ tlvs (a # vs)) found =
          authenticator_loop p (length pre + 18) ((zpre @ tlv (blank a)) @ tlvs vs) (Some (snd a))"
        using True f lt head(4) u s z
        by (subst authenticator_loop.simps) (simp add: Let_def)
      also have "\<dots> = authenticator_loop p (length (pre @ tlv a))
          ((zpre @ tlv (blank a)) @ tlvs vs) (Some (snd a))"
        using l by simp
      also have "\<dots> = bind (scan_outcome (Some (snd a)) vs)
          (\<lambda>f. Inr ((zpre @ tlv (blank a)) @ tlvs (map blank vs), f))"
        using Cons.prems p True l by (intro Cons.IH) (simp_all add: blank_def)
      finally show ?thesis using True False by simp
    qed
  qed
qed

lemma scan_outcome_None_iff:
  "scan_outcome found vs = Inr f \<longleftrightarrow>
    (case found of
      None \<Rightarrow> (authenticators vs = [] \<and> f = None) \<or>
        (\<exists>ma. authenticators vs = [ma] \<and> length ma = 16 \<and> f = Some ma)
    | Some m \<Rightarrow> authenticators vs = [] \<and> f = Some m)"
  by (induction found vs rule: scan_outcome.induct) (auto split: option.splits)

lemma scan_outcome_errors:
  "scan_outcome found vs = Inl e \<Longrightarrow> e = RadiusError ''invalid_message_authenticator''"
  by (induction found vs rule: scan_outcome.induct) (auto split: if_splits)

lemma message_authenticator_parsed:
  assumes "wire_attributes vs" and "length header = 20"
  shows "message_authenticator (header @ tlvs vs) =
    (case authenticators vs of
       [] \<Rightarrow> Inl (RadiusError ''missing_message_authenticator'')
     | [ma] \<Rightarrow> if length ma = 16 then Inr (header @ tlvs (map blank vs), ma)
              else Inl (RadiusError ''invalid_message_authenticator'')
     | _ \<Rightarrow> Inl (RadiusError ''invalid_message_authenticator''))"
proof -
  have loop: "authenticator_loop (header @ tlvs vs) 20 (header @ tlvs vs) None =
      bind (scan_outcome None vs) (\<lambda>f. Inr (header @ tlvs (map blank vs), f))"
    using authenticator_loop_tlvs [OF assms(1) refl, of header header None] assms(2) by simp
  show ?thesis
  proof (cases "scan_outcome None vs")
    case (Inl e)
    then have e: "e = RadiusError ''invalid_message_authenticator''" by (rule scan_outcome_errors)
    have "\<not> (\<exists>f. scan_outcome None vs = Inr f)" using Inl by simp
    then have "authenticators vs \<noteq> []"
      and "\<And>ma. authenticators vs = [ma] \<Longrightarrow> length ma \<noteq> 16"
      by (auto simp: scan_outcome_None_iff)
    then show ?thesis
      using Inl e by (auto simp: message_authenticator_def loop split: list.split)
  next
    case (Inr f)
    then have "(authenticators vs = [] \<and> f = None) \<or>
        (\<exists>ma. authenticators vs = [ma] \<and> length ma = 16 \<and> f = Some ma)"
      using scan_outcome_None_iff [of None vs f] by simp
    then show ?thesis
      by (auto simp: message_authenticator_def loop Inr)
  qed
qed

lemma length_tlvs_blank:
  "\<forall>ma \<in> set (authenticators vs). length ma = 16 \<Longrightarrow> length (tlvs (map blank vs)) = length (tlvs vs)"
  by (induction vs) (auto simp: blank_def split: if_splits)


subsection \<open>The interface the packet builders use\<close>

locale packet_codec =
  fixes parse :: "bytes \<Rightarrow> 'e + (bytes \<times> attribute list)"
    and encode :: "attribute list \<Rightarrow> 'e + bytes"
  assumes parse_encoded: "encode vs = Inr body \<Longrightarrow> length header = 20 \<Longrightarrow>
      be_int (slice 2 4 header) = int (20 + length body) \<Longrightarrow>
      parse (header @ body @ padding) = Inr (header @ body, vs)"
    and encode_bound: "encode vs = Inr body \<Longrightarrow> length body \<le> 4076"
begin

lemma emitted:
  assumes "encode vs = Inr body" and "length lead = 2" and "length auth = 16"
  shows "parse ((lead @ be_bytes 2 (20 + int (length body)) @ auth) @ body @ padding) =
    Inr ((lead @ be_bytes 2 (20 + int (length body)) @ auth) @ body, vs)"
proof -
  have "be_int (be_bytes 2 (20 + int (length body))) = 20 + int (length body)"
    using encode_bound [OF assms(1)] by (intro be_int_be_bytes) simp_all
  then have "be_int (slice 2 4 (lead @ be_bytes 2 (20 + int (length body)) @ auth))
      = int (20 + length body)"
    using assms(2) by (simp add: slice_def)
  then show ?thesis
    using assms by (intro parse_encoded) simp_all
qed

lemma emitted_whole:
  assumes "encode vs = Inr body" and "length lead = 2" and "length auth = 16"
  shows "parse (lead @ be_bytes 2 (20 + int (length body)) @ auth @ body) =
    Inr (lead @ be_bytes 2 (20 + int (length body)) @ auth @ body, vs)"
  using emitted [OF assms, of "[]"] by simp

lemma emitted_length:
  assumes "encode vs = Inr body" and "length lead = 2" and "length auth = 16"
  shows "length (lead @ be_bytes 2 n @ auth @ body) \<le> 4096"
  using encode_bound [OF assms(1)] assms(2,3) by simp

end

interpretation tlv: packet_codec packet_attributes encode_attributes
proof unfold_locales
  fix vs body header and padding :: bytes
  assume "encode_attributes vs = Inr body" and "length header = 20"
    and "be_int (slice 2 4 header) = int (20 + length body)"
  then show "packet_attributes (header @ body @ padding) = Inr (header @ body, vs)"
    by (auto simp: encode_attributes_Inr_iff intro: packet_attributes_build encodable_wire)
qed (simp add: encode_attributes_Inr_iff)

subsection \<open>Properties\<close>

lemma parsed_body:
  assumes "packet_attributes p = Inr (q, vs)"
  shows "length (take 20 p) = 20" and "q = take 20 p @ tlvs vs" and "drop 20 q = tlvs vs"
    and "wire_attributes vs" and "length (tlvs vs) \<le> 4076"
proof -
  note snd = packet_attributes_sound [OF assms]
  show h: "length (take 20 p) = 20" using snd(5,6) by (auto simp: min_def)
  show "q = take 20 p @ tlvs vs" and "wire_attributes vs" by (rule snd)+
  then show d: "drop 20 q = tlvs vs" using h by simp
  show "length (tlvs vs) \<le> 4076" using snd(3) by (simp add: d [symmetric])
qed

lemma packet_attributes_again:
  assumes "packet_attributes p = Inr (q, vs)"
  shows "packet_attributes q = Inr (q, vs)"
proof -
  note snd = packet_attributes_sound [OF assms] and body = parsed_body [OF assms]
  obtain pad where "p = q @ pad" using snd(6) by blast
  then have "slice 2 4 p = slice 2 4 q" using snd(5) by (simp add: slice_append_left)
  then have sz: "be_int (slice 2 4 (take 20 p)) = int (20 + length (tlvs vs))"
    using snd(4,5) body(1,2) by (simp add: slice_take)
  show ?thesis
    using packet_attributes_build [OF body(1,4) sz body(5), of "[]"] body(2) by simp
qed

text \<open>C2: emitting and parsing are inverse. A packet whose attributes the encoder accepted is read
  back with exactly those attributes, in their order, whatever octets follow the declared
  length.\<close>

theorem packet_emit_parse:
  assumes "encode_attributes vs = Inr body" and "length lead = 2" and "length auth = 16"
  shows "packet_attributes ((lead @ be_bytes 2 (20 + int (length body)) @ auth) @ body @ padding) =
      Inr ((lead @ be_bytes 2 (20 + int (length body)) @ auth) @ body, vs)"
  by (rule tlv.emitted [OF assms])

lemma packet_emit_parse_witness:
  "packet_attributes (([2, 7] @ be_bytes 2 25 @ replicate 16 9) @ [1, 5, 65, 66, 67] @ [0xff]) =
    Inr (([2, 7] @ be_bytes 2 25 @ replicate 16 9) @ [1, 5, 65, 66, 67], [(1, [65, 66, 67])])"
proof -
  have e: "encode_attributes [(1, [65, 66, 67])] = Inr [1, 5, 65, 66, 67]" by code_simp
  show ?thesis
    using packet_emit_parse [OF e, of "[2, 7]" "replicate 16 9" "[0xff]"] by simp
qed

text \<open>C32: what the parser accepts is the prefix of the datagram that its length field declares, of
  20 to 4096 octets, and, where no attribute has type 0, its attributes encode to the same octets
  again: the parser neither drops nor invents an octet.\<close>

theorem packet_parse_emit:
  assumes "packet_attributes p = Inr (q, vs)" and "0 \<notin> fst ` set vs"
  shows "encode_attributes vs = Inr (drop 20 q) \<and> q = take (nat (be_int (slice 2 4 p))) p \<and>
    20 \<le> length q \<and> length q \<le> 4096"
proof -
  note snd = packet_attributes_sound [OF assms(1)] and body = parsed_body [OF assms(1)]
  have "encodable vs"
    using snd(2) assms(2) by (force simp: encodable_def wire_attributes_def wire_attribute_def)
  then have "encode_attributes vs = Inr (drop 20 q)"
    using body by (simp add: encode_attributes_Inr_iff)
  moreover have "q = take (nat (be_int (slice 2 4 p))) p"
    using snd(4,6) by (metis append_eq_conv_conj)
  ultimately show ?thesis using snd(3,5) by blast
qed

lemma packet_parse_emit_witness:
  "encode_attributes [(24, [1])] = Inr (drop 20 ([2, 7, 0, 23] @ replicate 16 9 @ [24, 3, 1]))"
proof -
  have p: "packet_attributes ([2, 7, 0, 23] @ replicate 16 9 @ [24, 3, 1, 0xff]) =
    Inr ([2, 7, 0, 23] @ replicate 16 9 @ [24, 3, 1], [(24, [1])])" by code_simp
  show ?thesis using conjunct1 [OF packet_parse_emit [OF p]] by simp
qed

text \<open>C33: the scan for the Message-Authenticator, which walks the octets again on its own, never
  leaves a packet the parser accepted. It fails exactly when the attribute is missing, repeated
  or not sixteen octets long, and otherwise returns its value and the packet with only that value
  zeroed.\<close>

theorem authenticator_scan:
  assumes "packet_attributes p = Inr (q, vs)"
  shows "message_authenticator q =
    (case authenticators vs of
       [] \<Rightarrow> Inl (RadiusError ''missing_message_authenticator'')
     | [ma] \<Rightarrow> if length ma = 16 then Inr (take 20 q @ tlvs (map blank vs), ma)
              else Inl (RadiusError ''invalid_message_authenticator'')
     | _ \<Rightarrow> Inl (RadiusError ''invalid_message_authenticator''))"
  using message_authenticator_parsed [OF parsed_body(4,1) [OF assms]]
  unfolding parsed_body(2) [OF assms, symmetric] packet_attributes_header [OF assms] .

lemma authenticator_scan_witness:
  "message_authenticator (([2, 7, 0, 43] @ replicate 16 9) @ [80, 18] @ replicate 16 3 @ [24, 5, 1, 2, 3]) =
    Inr (([2, 7, 0, 43] @ replicate 16 9) @ [80, 18] @ replicate 16 0 @ [24, 5, 1, 2, 3], replicate 16 3)"
proof -
  have p: "packet_attributes (([2, 7, 0, 43] @ replicate 16 9) @ [80, 18] @ replicate 16 3 @ [24, 5, 1, 2, 3]) =
    Inr (([2, 7, 0, 43] @ replicate 16 9) @ [80, 18] @ replicate 16 3 @ [24, 5, 1, 2, 3],
      [(80, replicate 16 3), (24, [1, 2, 3])])" by code_simp
  show ?thesis
    using authenticator_scan [OF p] by (simp add: authenticators_def blank_def tlv_def byte_of_def)
qed

end
