(* ===== verification/Identifiers.thy ===== *)
theory Identifiers
  imports Text
begin

text \<open>
  The identifiers the configuration normalises on intake (\<open>switchlab/models.py\<close>): MAC
  addresses in the four accepted spellings, numeric object identifiers and view prefixes, and
  Internet addresses as the packed octets \<open>ipaddress\<close> holds. The Unicode properties behind
  \<open>str.strip\<close> and \<open>\d\<close> are arguments (\<open>space\<close> and \<open>digit\<close>, the decimal value of a digit).
\<close>

datatype ip = IPv4 bytes | IPv6 bytes

record network =
  net_address :: ip
  net_prefix :: nat

fun ip_version :: "ip \<Rightarrow> nat" where
  "ip_version (IPv4 _) = 4"
| "ip_version (IPv6 _) = 6"

fun ip_packed :: "ip \<Rightarrow> bytes" where
  "ip_packed (IPv4 b) = b"
| "ip_packed (IPv6 b) = b"

definition in_network :: "ip \<Rightarrow> network \<Rightarrow> bool" where
  \<comment> \<open>\<open>peer in ip_network(n)\<close>: same family and equal leading bits\<close>
  "in_network a n \<longleftrightarrow> ip_version a = ip_version (net_address n) \<and>
     (let host = 8 * length (ip_packed a) - net_prefix n
      in be_int (ip_packed a) div 2 ^ host = be_int (ip_packed (net_address n)) div 2 ^ host)"

definition ipv4_mapped :: "ip \<Rightarrow> ip" where
  \<comment> \<open>\<open>ip.ipv4_mapped\<close> of \<open>::ffff:a.b.c.d\<close>, otherwise the address itself\<close>
  "ipv4_mapped a = (case a of IPv4 b \<Rightarrow> IPv4 b
     | IPv6 b \<Rightarrow> if take 12 b = replicate 10 0 @ [0xff, 0xff] then IPv4 (drop 12 b) else IPv6 b)"

subsection \<open>MAC addresses\<close>

definition hex_digit :: "nat \<Rightarrow> bool" where
  "hex_digit c \<longleftrightarrow> (48 \<le> c \<and> c \<le> 57) \<or> (97 \<le> c \<and> c \<le> 102) \<or> (65 \<le> c \<and> c \<le> 70)"

definition hex_value :: "nat \<Rightarrow> nat" where
  "hex_value c = (if c \<le> 57 then c - 48 else if c \<le> 70 then c - 55 else c - 87)"

definition hex_char :: "nat \<Rightarrow> nat" where
  "hex_char n = (if n < 10 then 48 + n else 87 + n)"

fun spelled :: "nat list \<Rightarrow> pystr \<Rightarrow> bool" where
  \<comment> \<open>full match against a pattern of hex digits (0) and literal separators\<close>
  "spelled [] [] = True"
| "spelled (p # ps) (c # cs) = ((if p = 0 then hex_digit c else c = p) \<and> spelled ps cs)"
| "spelled _ _ = False"

definition separated :: "nat \<Rightarrow> nat list" where
  \<comment> \<open>\<open>(?:[0-9a-fA-F]{2}s){5}[0-9a-fA-F]{2}\<close>\<close>
  "separated s = concat (replicate 5 [0, 0, s]) @ [0, 0]"

definition mac_spellings :: "nat list list" where
  "mac_spellings = [replicate 12 0, separated 58, separated 45,
     [0, 0, 0, 0, 46, 0, 0, 0, 0, 46, 0, 0, 0, 0]]"

fun from_hex :: "pystr \<Rightarrow> bytes" where
  "from_hex (a # b # cs) = byte_of (16 * hex_value a + hex_value b) # from_hex cs"
| "from_hex _ = []"

definition hex_pair :: "byte \<Rightarrow> pystr" where
  "hex_pair b = [hex_char (unat b div 16), hex_char (unat b mod 16)]"

fun join :: "'a list \<Rightarrow> 'a list list \<Rightarrow> 'a list" where
  "join sep [] = []"
| "join sep [x] = x"
| "join sep (x # y # xs) = x @ sep @ join sep (y # xs)"

definition mac_text :: "bytes \<Rightarrow> pystr" where
  \<comment> \<open>\<open>raw.hex(":")\<close>\<close>
  "mac_text raw = join [58] (map hex_pair raw)"

definition mac_octets :: "pystr \<Rightarrow> bytes" where
  "mac_octets value = from_hex (filter (\<lambda>c. c \<notin> {58, 46, 45}) value)"

definition unicast :: "bytes \<Rightarrow> bool" where
  "unicast raw \<longleftrightarrow> \<not> list_all (\<lambda>b. b = 0) raw \<and> even (unat (raw ! 0))"

definition mac :: "pystr \<Rightarrow> string + pystr" where
  "mac value =
     (if \<not> list_ex (\<lambda>p. spelled p value) mac_spellings
      then Inl ''Use a six-octet unicast MAC address''
      else let raw = mac_octets value
           in if \<not> unicast raw then Inl ''Source MAC must be nonzero unicast''
              else Inr (mac_text raw))"

subsection \<open>Object identifiers\<close>

type_synonym oid = "nat list"

fun split_on :: "nat \<Rightarrow> pystr \<Rightarrow> pystr list" where
  "split_on s [] = [[]]"
| "split_on s (c # cs) = (if c = s then [] # split_on s cs
     else (case split_on s cs of [] \<Rightarrow> [[c]] | w # ws \<Rightarrow> (c # w) # ws))"

definition strip :: "(nat \<Rightarrow> bool) \<Rightarrow> pystr \<Rightarrow> pystr" where
  "strip space s = rev (dropWhile space (rev (dropWhile space s)))"

definition number :: "(nat \<Rightarrow> nat option) \<Rightarrow> pystr \<Rightarrow> nat option" where
  \<comment> \<open>\<open>\d+\<close> and its \<open>int\<close> value\<close>
  "number digit w = (if w = [] \<or> list_ex (\<lambda>c. digit c = None) w then None
     else Some (foldl (\<lambda>a c. a * 10 + the (digit c)) 0 w))"

definition arcs_of :: "(nat \<Rightarrow> nat option) \<Rightarrow> pystr \<Rightarrow> oid option" where
  \<comment> \<open>the arcs of \<open>\d+(?:\.\d+)*\<close>\<close>
  "arcs_of digit s =
     (let ws = map (number digit) (split_on 46 s)
      in if list_ex (\<lambda>w. w = None) ws then None else Some (map the ws))"

definition smi_limits :: "oid \<Rightarrow> bool" where
  "smi_limits arcs \<longleftrightarrow> \<not> (\<not> (2 \<le> length arcs \<and> length arcs \<le> 128) \<or> arcs ! 0 > 2 \<or>
     (arcs ! 0 < 2 \<and> arcs ! 1 > 39) \<or> list_ex (\<lambda>x. x > 4294967295) arcs)"

definition numeric_oid ::
  "(nat \<Rightarrow> bool) \<Rightarrow> (nat \<Rightarrow> nat option) \<Rightarrow> pystr option \<Rightarrow> string + oid option" where
  "numeric_oid space digit value =
     (case value of None \<Rightarrow> Inr None
      | Some v \<Rightarrow>
        let v = strip space v in
        if v = [] then Inr None
        else case arcs_of digit v of
          None \<Rightarrow> Inl ''Enter a full numeric OID''
        | Some arcs \<Rightarrow>
            if length arcs < 2 then Inl ''Enter a full numeric OID''
            else if \<not> smi_limits arcs then Inl ''OID exceeds SMI limits''
            else Inr (Some arcs))"

definition numeric_oid_prefix ::
  "(nat \<Rightarrow> bool) \<Rightarrow> (nat \<Rightarrow> nat option) \<Rightarrow> pystr \<Rightarrow> string + oid option" where
  "numeric_oid_prefix space digit value =
     (let value = strip space value in
      case arcs_of digit value of
        None \<Rightarrow> Inl ''Enter a numeric OID prefix''
      | Some arcs \<Rightarrow>
          if 46 \<notin> set value then
            (if arcs ! 0 > 2 then Inl ''OID prefix root must be 0, 1, or 2'' else Inr (Some [arcs ! 0]))
          else numeric_oid space digit (Some value))"

subsection \<open>MAC normal form\<close>

lemma hex_char_ok [simp]: "n < 16 \<Longrightarrow> hex_digit (hex_char n)" "n < 16 \<Longrightarrow> hex_value (hex_char n) = n"
  by (auto simp: hex_char_def hex_digit_def hex_value_def)

lemma hex_char_not_separator: "n < 16 \<Longrightarrow> hex_char n \<notin> {58, 46, 45}"
  by (auto simp: hex_char_def)

lemma from_hex_pairs:
  "from_hex (concat (map hex_pair raw)) = raw"
proof (induction raw)
  case Nil
  then show ?case by simp
next
  case (Cons b raw)
  have d: "unat b div 16 < 16" and m: "unat b mod 16 < 16"
    using unat_byte_lt [of b] by auto
  have "16 * (unat b div 16) + unat b mod 16 = unat b" by simp
  then show ?case using Cons d m by (simp add: hex_pair_def)
qed

lemma filter_hex_pair: "filter (\<lambda>c. c \<notin> {58, 46, 45}) (hex_pair b) = hex_pair b"
proof -
  have "unat b div 16 < 16" and "unat b mod 16 < 16"
    using unat_byte_lt [of b] by auto
  then show ?thesis
    using hex_char_not_separator by (simp add: hex_pair_def)
qed

lemma filter_mac_text:
  "filter (\<lambda>c. c \<notin> {58, 46, 45}) (join [58] (map hex_pair raw)) = concat (map hex_pair raw)"
proof (induction raw rule: induct_list012)
  case (3 x y zs)
  then show ?case using filter_hex_pair by (simp del: set_simps)
qed (use filter_hex_pair in simp_all)

lemma mac_octets_text: "mac_octets (mac_text raw) = raw"
  unfolding mac_octets_def mac_text_def filter_mac_text by (rule from_hex_pairs)

lemma replicate_five: "replicate 5 x = [x, x, x, x, x]"
  by (simp add: eval_nat_numeral)

lemma hex_pair_digits: "\<exists>x y. hex_pair b = [x, y] \<and> hex_digit x \<and> hex_digit y"
proof -
  have "unat b div 16 < 16" and "unat b mod 16 < 16"
    using unat_byte_lt [of b] by auto
  then show ?thesis by (simp add: hex_pair_def)
qed

lemma spelled_mac_text: "length raw = 6 \<Longrightarrow> spelled (separated 58) (mac_text raw)"
proof -
  assume "length raw = 6"
  then have "length raw = Suc (Suc (Suc (Suc (Suc (Suc 0)))))" by simp
  then obtain a b c d e g where raw: "raw = [a, b, c, d, e, g]"
    by (auto simp: length_Suc_conv)
  have sep: "separated 58 = [0, 0, 58, 0, 0, 58, 0, 0, 58, 0, 0, 58, 0, 0, 58, 0, 0]"
    by (simp add: separated_def replicate_five)
  show ?thesis
    using hex_pair_digits [of a] hex_pair_digits [of b] hex_pair_digits [of c]
      hex_pair_digits [of d] hex_pair_digits [of e] hex_pair_digits [of g]
    by (elim exE conjE) (simp add: raw mac_text_def sep)
qed

lemma mac_of_text:
  assumes "length raw = 6" and "unicast raw"
  shows "mac (mac_text raw) = Inr (mac_text raw)"
  using assms spelled_mac_text [OF assms(1)]
  by (simp add: mac_def Let_def mac_octets_text mac_spellings_def)

lemma length_from_hex: "length (from_hex cs) = length cs div 2"
  by (induction cs rule: from_hex.induct) auto

lemma spelled_digits:
  "spelled ps cs \<Longrightarrow> set ps \<subseteq> {0, 58, 45, 46} \<Longrightarrow>
    length (filter (\<lambda>c. c \<notin> {58, 46, 45}) cs) = length (filter (\<lambda>p. p = 0) ps)"
  by (induction ps cs rule: spelled.induct) (auto simp: hex_digit_def)

lemma mac_octets_six: "list_ex (\<lambda>p. spelled p value) mac_spellings \<Longrightarrow> length (mac_octets value) = 6"
proof -
  assume "list_ex (\<lambda>p. spelled p value) mac_spellings"
  then obtain p where p: "p \<in> set mac_spellings" and s: "spelled p value"
    by (auto simp: list_ex_iff)
  from p have "set p \<subseteq> {0, 58, 45, 46}" and "length (filter (\<lambda>x. x = 0) p) = 12"
    by (auto simp: mac_spellings_def separated_def replicate_five)
  with spelled_digits [OF s] show ?thesis by (simp add: mac_octets_def length_from_hex)
qed

lemma mac_Inr:
  assumes "mac value = Inr m"
  shows "\<exists>raw. m = mac_text raw \<and> length raw = 6 \<and> unicast raw \<and> mac_octets value = raw"
  using assms mac_octets_six [of "value"]
  by (auto simp: mac_def Let_def split: if_splits)

subsection \<open>Properties\<close>

text \<open>MAC addresses have one normal form. Every accepted spelling denotes six octets of a nonzero
  unicast address, the result is their lower-case colon form, parsing the result returns it, and two
  spellings of the same octets get the same result.\<close>

theorem mac_normal_form:
  assumes "mac value = Inr m"
  shows "mac m = Inr m \<and> length (mac_octets value) = 6 \<and> unicast (mac_octets value) \<and>
    m = mac_text (mac_octets value)"
  using mac_Inr [OF assms] mac_of_text by auto

lemma mac_normal_form_witness:
  "mac (str ''0200.0000.AB01'') = Inr (str ''02:00:00:00:ab:01'') \<and>
   mac (str ''02:00:00:00:ab:01'') = Inr (str ''02:00:00:00:ab:01'')"
proof -
  have m: "mac (str ''0200.0000.AB01'') = Inr (str ''02:00:00:00:ab:01'')" by code_simp
  show ?thesis using mac_normal_form [OF m] m by blast
qed

end
