(* ===== verification/Radius_Codec.thy ===== *)
theory Radius_Codec
  imports Radius_Packet Identifiers
begin

text \<open>
  The authenticated packets of \<open>switchlab/radius.py\<close>: Access-Request with a hidden password
  and its verified reply, Accounting-Request and its verified reply, and the CoA/Disconnect
  request and response. Random octets (\<open>secrets.token_bytes\<close>) are an argument. The
  \<open>isinstance\<close> and \<open>type(...) is int\<close> tests of the source hold by typing and are not repeated.
\<close>

type_synonym address = "ip \<times> int"

record access_result =
  ar_code :: int
  ar_attributes :: "attribute list"
  ar_peer :: address
  ar_request_authenticator :: bytes
  ar_peer_result :: int
  ar_tls_errors :: int

record radius_packet =
  rp_packet :: bytes
  rp_attributes :: "attribute list"

record dynamic_request = radius_packet +
  dr_timestamp :: int

definition rp_code :: "('a) radius_packet_scheme \<Rightarrow> int" where
  "rp_code r = uint (rp_packet r ! 0)"

definition rp_identifier :: "('a) radius_packet_scheme \<Rightarrow> int" where
  "rp_identifier r = uint (rp_packet r ! 1)"

definition rp_authenticator :: "('a) radius_packet_scheme \<Rightarrow> bytes" where
  "rp_authenticator r = slice 4 20 (rp_packet r)"

definition pack_header :: "int \<Rightarrow> int \<Rightarrow> nat \<Rightarrow> bytes" where
  \<comment> \<open>\<open>struct.pack("!BBH", code, identifier, length)\<close>\<close>
  "pack_header code identifier len = [word_of_int code, word_of_int identifier] @ be_bytes 2 (int len)"

definition has_kind :: "int set \<Rightarrow> attribute list \<Rightarrow> bool" where
  "has_kind ks values \<longleftrightarrow> list_ex (\<lambda>(kind, _). kind \<in> ks) values"

definition values_of :: "int \<Rightarrow> attribute list \<Rightarrow> bytes list" where
  \<comment> \<open>\<open>[value for kind, value in attributes if kind == k]\<close>\<close>
  "values_of k attrs = map snd (filter (\<lambda>(kind, _). kind = k) attrs)"

subsection \<open>Access replies\<close>

fun eap_loop :: "attribute list \<Rightarrow> bytes \<Rightarrow> bool \<Rightarrow> bool \<Rightarrow> py_error + (bytes \<times> bool)" where
  "eap_loop [] eap seen ended = Inr (eap, seen)"
| "eap_loop ((kind, value) # rest) eap seen ended =
     (if kind = 79 then
        if ended then Inl (RadiusError ''nonconsecutive_eap_fragments'')
        else eap_loop rest (eap @ value) True ended
      else eap_loop rest eap seen (ended \<or> seen))"

definition malformed_eap :: "bytes \<Rightarrow> bool" where
  "malformed_eap eap \<longleftrightarrow>
     length eap < 4 \<or> be_int (slice 2 4 eap) \<noteq> int (length eap) \<or>
     eap ! 0 \<notin> {1, 2, 3, 4} \<or>
     (if eap ! 0 \<in> {1, 2} then length eap < 5 else length eap \<noteq> 4)"

definition verify_access :: "bytes \<Rightarrow> bytes \<Rightarrow> bytes \<Rightarrow> address \<Rightarrow> py_error + access_result" where
  "verify_access request response secret peer =
     bind (packet_attributes request) (\<lambda>(request, _).
     bind (packet_attributes response) (\<lambda>(response, values).
       if request ! 0 \<noteq> 1 \<or> response ! 0 \<notin> {2, 3, 11} \<or> response ! 1 \<noteq> request ! 1
       then Inl (RadiusError ''uncorrelated_response'')
       else bind (message_authenticator response) (\<lambda>(zeroed, actual_ma).
         let zeroed = splice 4 20 (slice 4 20 request) zeroed in
         if hmac_md5 secret zeroed \<noteq> actual_ma
         then Inl (RadiusError ''invalid_message_authenticator'')
         else if md5 (take 4 response @ slice 4 20 request @ drop 20 response @ secret)
                 \<noteq> slice 4 20 response
         then Inl (RadiusError ''invalid_response_authenticator'')
         else bind (eap_loop values [] False False) (\<lambda>(eap, seen).
           if seen \<and> malformed_eap eap then Inl (RadiusError ''malformed_eap'')
           else Inr \<lparr>ar_code = uint (response ! 0), ar_attributes = values, ar_peer = peer,
                     ar_request_authenticator = slice 4 20 request,
                     ar_peer_result = 0, ar_tls_errors = 0\<rparr>))))"

subsection \<open>MAC authentication bypass requests\<close>

definition pad16 :: "bytes \<Rightarrow> bytes" where
  "pad16 password = password @ replicate ((16 - length password mod 16) mod 16) 0"

fun hide_loop :: "bytes \<Rightarrow> bytes \<Rightarrow> bytes list \<Rightarrow> bytes" where
  "hide_loop secret previous [] = []"
| "hide_loop secret previous (block # blocks) =
     (let hidden = bxor block (md5 (secret @ previous)) in hidden @ hide_loop secret hidden blocks)"

definition hide_password :: "bytes \<Rightarrow> bytes \<Rightarrow> bytes \<Rightarrow> bytes" where
  "hide_password secret authenticator padded =
     hide_loop secret authenticator (chunks_of 16 (length padded div 16) padded)"

definition mab_request ::
  "bytes \<Rightarrow> int \<Rightarrow> bytes \<Rightarrow> attribute list \<Rightarrow> bytes \<Rightarrow> py_error + bytes" where
  "mab_request authenticator identifier password attributes secret =
     (if \<not> (0 \<le> identifier \<and> identifier \<le> 255) \<or> \<not> (1 \<le> length password \<and> length password \<le> 128)
      then Inl (RadiusError ''invalid_request'')
      else if has_kind {2, 79, 80} attributes
      then Inl (RadiusError ''reserved_request_attribute'')
      else let encrypted = hide_password secret authenticator (pad16 password)
           in bind (encode_attributes (attributes @ [(2, encrypted), (80, replicate 16 0)])) (\<lambda>body.
                let request = pack_header 1 identifier (20 + length body) @ authenticator @ body
                in Inr (take (length request - 16) request @ hmac_md5 secret request)))"

subsection \<open>CoA and Disconnect\<close>

definition verify_dynamic_request :: "bytes \<Rightarrow> bytes \<Rightarrow> py_error + dynamic_request" where
  "verify_dynamic_request packet secret =
     bind (packet_attributes packet) (\<lambda>(packet, attributes).
       if packet ! 0 \<notin> {40, 43} then Inl (RadiusError ''invalid_dynamic_code'')
       else bind (message_authenticator packet) (\<lambda>(zeroed, actual_ma).
         if md5 (take 4 packet @ replicate 16 0 @ drop 20 packet @ secret) \<noteq> slice 4 20 packet
         then Inl (RadiusError ''invalid_request_authenticator'')
         else let zeroed = splice 4 20 (replicate 16 0) zeroed in
           if hmac_md5 secret zeroed \<noteq> actual_ma
           then Inl (RadiusError ''invalid_message_authenticator'')
           else case values_of 55 attributes of
             [] \<Rightarrow> Inl (RadiusError ''missing_event_timestamp'')
           | [t] \<Rightarrow> if length t \<noteq> 4 then Inl (RadiusError ''invalid_event_timestamp'')
                   else Inr \<lparr>rp_packet = packet, rp_attributes = attributes, dr_timestamp = be_int t\<rparr>
           | _ \<Rightarrow> Inl (RadiusError ''invalid_event_timestamp'')))"

definition dynamic_pairs :: "(int \<times> int) set" where
  "dynamic_pairs = {(40, 41), (40, 42), (43, 44), (43, 45)}"

definition response_values :: "dynamic_request \<Rightarrow> int \<Rightarrow> int option \<Rightarrow> attribute list" where
  "response_values request response_code error_cause =
     (let states = values_of 24 (rp_attributes request);
          malformed_state = (1 < length states \<or> list_ex (\<lambda>v. v = []) states);
          omit_state = (rp_code request = 43 \<and> response_code = 45 \<and> error_cause = Some 404 \<and>
                        malformed_state);
          echoed = filter (\<lambda>(kind, _). kind = 33 \<or> kind = 24 \<and> rp_code request = 43 \<and> \<not> omit_state)
                     (rp_attributes request)
      in echoed @ (case error_cause of None \<Rightarrow> [] | Some c \<Rightarrow> [(101, be_bytes 4 c)]))"

definition dynamic_response ::
  "dynamic_request \<Rightarrow> int \<Rightarrow> bytes \<Rightarrow> int option \<Rightarrow> py_error + bytes" where
  "dynamic_response request response_code secret error_cause =
     (if (rp_code request, response_code) \<notin> dynamic_pairs
      then Inl (RadiusError ''invalid_dynamic_response'')
      else if (case error_cause of None \<Rightarrow> False | Some c \<Rightarrow> \<not> (0 \<le> c \<and> c \<le> 0xffffffff))
      then Inl (RadiusError ''invalid_error_cause'')
      else bind (encode_attributes
                  (response_values request response_code error_cause @ [(80, replicate 16 0)])) (\<lambda>body.
        let header = pack_header response_code (rp_identifier request) (20 + length body);
            response = header @ rp_authenticator request @ body;
            response = take (length response - 16) response @ hmac_md5 secret response;
            authenticator = md5 (response @ secret)
        in Inr (take 4 response @ authenticator @ drop 20 response)))"

subsection \<open>Accounting\<close>

definition codec_attributes :: "attribute list \<Rightarrow> py_error + (attribute list \<times> bytes)" where
  "codec_attributes attributes =
     (if 2038 < length attributes then Inl (RadiusError ''invalid_attribute'')
      else bind (encode_attributes attributes) (\<lambda>body. Inr (attributes, body)))"

definition accounting_request ::
  "int \<Rightarrow> int \<Rightarrow> attribute list \<Rightarrow> bytes \<Rightarrow> py_error + bytes" where
  "accounting_request identifier status_type attributes secret =
     (if \<not> (0 \<le> identifier \<and> identifier \<le> 255) then Inl (RadiusError ''invalid_request'')
      else if status_type \<notin> {1, 2, 3, 7, 8} then Inl (RadiusError ''invalid_accounting_status'')
      else bind (codec_attributes attributes) (\<lambda>(values, _).
        if has_kind {2, 3, 18, 24, 40, 60, 79, 80} values
        then Inl (RadiusError ''reserved_accounting_attribute'')
        else bind (encode_attributes (values @ [(40, be_bytes 4 status_type)])) (\<lambda>body.
          if 4095 < length body + 20 then Inl (RadiusError ''packet_budget'')
          else let header = pack_header 4 identifier (20 + length body);
                   authenticator = md5 (header @ replicate 16 0 @ body @ secret)
               in Inr (header @ authenticator @ body))))"

definition verify_accounting :: "bytes \<Rightarrow> bytes \<Rightarrow> bytes \<Rightarrow> py_error + radius_packet" where
  "verify_accounting request response secret =
     bind (packet_attributes request) (\<lambda>(request, request_values).
     bind (packet_attributes response) (\<lambda>(response, values).
       if 4095 < length request \<or> 4095 < length response
       then Inl (RadiusError ''invalid_packet_length'')
       else if request ! 0 \<noteq> 4 \<or> response ! 0 \<noteq> 5 \<or> response ! 1 \<noteq> request ! 1
       then Inl (RadiusError ''uncorrelated_response'')
       else if has_kind {79, 80} request_values
       then Inl (RadiusError ''reserved_accounting_attribute'')
       else if md5 (take 4 request @ replicate 16 0 @ drop 20 request @ secret) \<noteq> slice 4 20 request
       then Inl (RadiusError ''invalid_request_authenticator'')
       else if md5 (take 4 response @ slice 4 20 request @ drop 20 response @ secret)
               \<noteq> slice 4 20 response
       then Inl (RadiusError ''invalid_response_authenticator'')
       else Inr \<lparr>rp_packet = response, rp_attributes = values\<rparr>))"


subsection \<open>Building and parsing\<close>

lemma pack_header_split: "pack_header c i n = [word_of_int c, word_of_int i] @ be_bytes 2 (int n)"
  by (simp add: pack_header_def)

lemma length_pack_header [simp]: "length (pack_header c i n) = 4"
  by (simp add: pack_header_def)

lemma pack_header_nth [simp]:
  "(pack_header c i n @ r) ! 0 = word_of_int c" "(pack_header c i n @ r) ! Suc 0 = word_of_int i"
  by (simp_all add: pack_header_def)

lemma built_packet:
  assumes "encode_attributes vs = Inr body" and "length auth = 16"
  shows "packet_attributes (pack_header c i (20 + length body) @ auth @ body) =
    Inr (pack_header c i (20 + length body) @ auth @ body, vs)"
  using tlv.emitted_whole [OF assms(1) _ assms(2), of "[word_of_int c, word_of_int i]"]
  by (simp add: pack_header_def)

lemma header_slices:
  assumes "length h = 4" and "length auth = 16"
  shows "take 4 (h @ auth @ body) = h" and "slice 4 20 (h @ auth @ body) = auth"
    and "drop 20 (h @ auth @ body) = body"
  using assms by (simp_all add: slice_def)

lemma has_kind_iff: "has_kind ks vs \<longleftrightarrow> (\<exists>a \<in> set vs. fst a \<in> ks)"
  by (force simp: has_kind_def list_ex_iff)

lemma has_kind_simps [simp]: "\<not> has_kind ks []"
  "has_kind ks (a # vs) \<longleftrightarrow> fst a \<in> ks \<or> has_kind ks vs"
  "has_kind ks (vs @ ws) \<longleftrightarrow> has_kind ks vs \<or> has_kind ks ws"
  by (auto simp: has_kind_iff)

lemma no_kind_authenticators: "\<not> has_kind {k} vs \<Longrightarrow> k = 80 \<Longrightarrow> authenticators vs = []"
  by (induction vs) auto

lemma values_of_simps [simp]: "values_of k [] = []"
  "values_of k (a # vs) = (if fst a = k then [snd a] else []) @ values_of k vs"
  "values_of k (vs @ ws) = values_of k vs @ values_of k ws"
  by (auto simp: values_of_def split: prod.splits)

lemma values_of_authenticators: "values_of 80 vs = authenticators vs"
  by (induction vs) auto

subsection \<open>Accounting packets\<close>

lemma accounting_request_shape:
  assumes "accounting_request i st attrs secret = Inr req"
  shows "\<exists>body. encode_attributes (attrs @ [(40, be_bytes 4 st)]) = Inr body \<and>
    req = pack_header 4 i (20 + length body) @
      md5 (pack_header 4 i (20 + length body) @ replicate 16 0 @ body @ secret) @ body \<and>
    length body \<le> 4075 \<and> 0 \<le> i \<and> i \<le> 255 \<and> st \<in> {1, 2, 3, 7, 8} \<and>
    \<not> has_kind {2, 3, 18, 24, 40, 60, 79, 80} attrs"
  using assms
  by (auto simp: accounting_request_def codec_attributes_def Let_def result_simps split: if_splits)

lemma accounting_request_parses:
  assumes "accounting_request i st attrs secret = Inr req"
  shows "packet_attributes req = Inr (req, attrs @ [(40, be_bytes 4 st)])"
    and "length req \<le> 4095" and "req ! 0 = 4" and "uint (req ! 1) = i"
    and "md5 (take 4 req @ replicate 16 0 @ drop 20 req @ secret) = slice 4 20 req"
    and "\<not> has_kind {79, 80} (attrs @ [(40, be_bytes 4 st)])"
proof -
  obtain body where body: "encode_attributes (attrs @ [(40, be_bytes 4 st)]) = Inr body"
    and req: "req = pack_header 4 i (20 + length body) @
      md5 (pack_header 4 i (20 + length body) @ replicate 16 0 @ body @ secret) @ body"
    and b: "length body \<le> 4075" and i: "0 \<le> i" "i \<le> 255"
    and k: "\<not> has_kind {2, 3, 18, 24, 40, 60, 79, 80} attrs"
    using accounting_request_shape [OF assms] by blast
  show "packet_attributes req = Inr (req, attrs @ [(40, be_bytes 4 st)])"
    unfolding req by (rule built_packet [OF body length_md5])
  show "length req \<le> 4095" using b by (simp add: req length_md5)
  show "req ! 0 = 4" by (simp add: req)
  show "uint (req ! 1) = i" using i by (simp add: req uint_word_of_int_byte)
  show "md5 (take 4 req @ replicate 16 0 @ drop 20 req @ secret) = slice 4 20 req"
    unfolding req by (simp add: header_slices length_md5)
  show "\<not> has_kind {79, 80} (attrs @ [(40, be_bytes 4 st)])"
    using k by (auto simp: has_kind_iff)
qed

lemma verify_accounting_of_request:
  assumes req: "accounting_request i st attrs secret = Inr req"
    and resp: "packet_attributes resp = Inr (q, vs)"
  shows "verify_accounting req resp secret = Inr r \<longleftrightarrow>
    length q \<le> 4095 \<and> q ! 0 = 5 \<and> uint (q ! 1) = i \<and>
    md5 (take 4 q @ slice 4 20 req @ drop 20 q @ secret) = slice 4 20 q \<and>
    r = \<lparr>rp_packet = q, rp_attributes = vs\<rparr>"
proof -
  note req = accounting_request_parses [OF req]
  have id: "q ! 1 = req ! 1 \<longleftrightarrow> uint (q ! 1) = i"
    unfolding req(4) [symmetric] by (simp only: word_uint_eq_iff)
  show ?thesis
    unfolding verify_accounting_def req(1) resp bind_simps prod.case
    using req(2,3,5,6) id by (auto simp: not_less)
qed

definition accounting_reply :: "bytes \<Rightarrow> bytes \<Rightarrow> bytes \<Rightarrow> bytes" where
  \<comment> \<open>what a conforming server answers (RFC 2866 section 3): the echoed identifier and the
     Response Authenticator over the request's authenticator\<close>
  "accounting_reply req body secret =
     (let header = pack_header 5 (uint (req ! 1)) (20 + length body)
      in header @ md5 (header @ slice 4 20 req @ body @ secret) @ body)"

lemma accounting_reply_accepted:
  assumes req: "accounting_request i st attrs secret = Inr req"
    and body: "encode_attributes vs = Inr body" and small: "length body \<le> 4075"
  shows "verify_accounting req (accounting_reply req body secret) secret =
    Inr \<lparr>rp_packet = accounting_reply req body secret, rp_attributes = vs\<rparr>"
proof -
  let ?h = "pack_header 5 (uint (req ! 1)) (20 + length body)"
  let ?a = "md5 (?h @ slice 4 20 req @ body @ secret)"
  have reply: "accounting_reply req body secret = ?h @ ?a @ body"
    by (simp add: accounting_reply_def Let_def)
  have parse: "packet_attributes (?h @ ?a @ body) = Inr (?h @ ?a @ body, vs)"
    by (rule built_packet [OF body length_md5])
  have i: "0 \<le> i" "i \<le> 255" using accounting_request_shape [OF req] by blast+
  show ?thesis
    unfolding reply verify_accounting_of_request [OF req parse]
    using small i accounting_request_parses(4) [OF req]
    by (simp add: header_slices length_md5 uint_word_of_int_byte)
qed


subsection \<open>Hidden passwords\<close>

fun reveal_loop :: "bytes \<Rightarrow> bytes \<Rightarrow> bytes list \<Rightarrow> bytes" where
  \<comment> \<open>the server's inverse (RFC 2865 section 5.2): unmask each block with the digest of the
     previous hidden block\<close>
  "reveal_loop secret previous [] = []"
| "reveal_loop secret previous (block # blocks) =
     bxor block (md5 (secret @ previous)) @ reveal_loop secret block blocks"

definition reveal_password :: "bytes \<Rightarrow> bytes \<Rightarrow> bytes \<Rightarrow> bytes" where
  "reveal_password secret authenticator hidden =
     reveal_loop secret authenticator (chunks_of 16 (length hidden div 16) hidden)"

lemma length_hide_loop: "\<forall>b \<in> set bs. length b = 16 \<Longrightarrow> length (hide_loop s p bs) = 16 * length bs"
  by (induction bs arbitrary: p) (auto simp: Let_def length_md5)

lemma chunks_of_length: "length xs = n * k \<Longrightarrow> b \<in> set (chunks_of n k xs) \<Longrightarrow> length b = n"
proof (induction k arbitrary: xs)
  case 0
  then show ?case by simp
next
  case (Suc k)
  have "length (drop n xs) = n * k" using Suc.prems(1) by simp
  then show ?case using Suc.IH [of "drop n xs"] Suc.prems by auto
qed

lemma length_chunks_of [simp]: "length (chunks_of n k xs) = k"
  by (induction k arbitrary: xs) auto

lemma concat_chunks_of: "length xs = n * k \<Longrightarrow> concat (chunks_of n k xs) = xs"
  by (induction k arbitrary: xs) auto

lemma reveal_hide_loop:
  "\<forall>b \<in> set bs. length b = 16 \<Longrightarrow>
    reveal_loop s p (chunks_of 16 (length bs) (hide_loop s p bs)) = concat bs"
proof (induction bs arbitrary: p)
  case Nil
  then show ?case by simp
next
  case (Cons b bs)
  let ?h = "bxor b (md5 (s @ p))"
  have l: "length ?h = 16" and b: "length b \<le> length (md5 (s @ p))"
    using Cons.prems by (simp_all add: length_md5)
  have "chunks_of 16 (length (b # bs)) (hide_loop s p (b # bs)) =
      ?h # chunks_of 16 (length bs) (hide_loop s ?h bs)"
    using l by (simp add: Let_def)
  then show ?case
    using Cons bxor_cancel [OF b] by simp
qed

lemma pad16_aligned: "length (pad16 p) mod 16 = 0"
proof -
  define q r where "q = length p div 16" and "r = length p mod 16"
  have n: "length p = 16 * q + r" and r: "r < 16" by (simp_all add: q_def r_def)
  have "length (pad16 p) = 16 * q + (r + (16 - r) mod 16)"
    by (simp add: pad16_def n r)
  also have "r + (16 - r) mod 16 = (if r = 0 then 0 else 16)"
    using r by simp
  finally show ?thesis by simp
qed

lemma length_pad16: "length (pad16 p) = 16 * (length (pad16 p) div 16)"
  using pad16_aligned [of p] by presburger

lemma length_pad16_le: "length p \<le> 128 \<Longrightarrow> length (pad16 p) \<le> 128"
proof -
  assume p: "length p \<le> 128"
  have "length (pad16 p) < length p + 16" by (simp add: pad16_def)
  then have "length (pad16 p) div 16 < 9" using p by simp
  then show ?thesis using length_pad16 [of p] by linarith
qed

lemma reveal_hide_password:
  "length padded = 16 * n \<Longrightarrow>
    reveal_password s a (hide_password s a padded) = padded"
proof -
  assume l: "length padded = 16 * n"
  let ?bs = "chunks_of 16 n padded"
  have all: "\<forall>b \<in> set ?bs. length b = 16" using chunks_of_length [OF l] by blast
  have n: "length padded div 16 = n" using l by simp
  have h: "hide_password s a padded = hide_loop s a ?bs" by (simp add: hide_password_def n)
  have "length (hide_loop s a ?bs) div 16 = n" using length_hide_loop [OF all] by simp
  then show ?thesis
    using reveal_hide_loop [OF all, of s a] concat_chunks_of [OF l]
    by (simp add: reveal_password_def h)
qed

lemma length_hide_password: "length padded = 16 * n \<Longrightarrow> length (hide_password s a padded) = 16 * n"
  using length_hide_loop [of "chunks_of 16 n padded" s a] chunks_of_length [of padded 16 n]
  by (simp add: hide_password_def)

lemma take_pad16: "take (length p) (pad16 p) = p"
  by (simp add: pad16_def)


subsection \<open>Signing the last attribute\<close>

lemma signed_tail:
  assumes "encode_attributes (vs @ [(80, replicate 16 0)]) = Inr body" and m: "length m = 16"
  shows "take (length (p @ body) - 16) (p @ body) @ m = p @ tlvs (vs @ [(80, m)])"
    and "encode_attributes (vs @ [(80, m)]) = Inr (tlvs (vs @ [(80, m)]))"
    and "length (tlvs (vs @ [(80, m)])) = length body"
proof -
  have b: "body = tlvs vs @ tlv (80, replicate 16 0)" and e: "encodable vs"
    and l: "length (tlvs vs) + 18 \<le> 4076"
    using assms(1) by (auto simp: encode_attributes_Inr_iff)
  have "p @ body = (p @ tlvs vs @ [80, byte_of 18]) @ replicate 16 0"
    by (simp add: b tlv_def)
  then have "take (length (p @ body) - 16) (p @ body) = p @ tlvs vs @ [80, byte_of 18]"
    by (simp only: length_append length_replicate add_diff_cancel_right' take_append take_all) simp
  then show "take (length (p @ body) - 16) (p @ body) @ m = p @ tlvs (vs @ [(80, m)])"
    using m by (simp add: tlv_def)
  show "encode_attributes (vs @ [(80, m)]) = Inr (tlvs (vs @ [(80, m)]))"
    using e l m by (simp add: encode_attributes_Inr_iff)
  show "length (tlvs (vs @ [(80, m)])) = length body"
    using m by (simp add: b)
qed

lemma signed_scan:
  assumes "encode_attributes (vs @ [(80, replicate 16 0)]) = Inr body" and m: "length m = 16"
    and none: "authenticators vs = []" and h: "length header = 20"
  shows "message_authenticator (header @ tlvs (vs @ [(80, m)])) = Inr (header @ body, m)"
proof -
  have b: "body = tlvs (vs @ [(80, replicate 16 0)])" and e: "encodable vs"
    using assms(1) by (auto simp: encode_attributes_Inr_iff)
  have w: "wire_attributes (vs @ [(80, m)])"
    using encodable_wire [OF e] m by (simp add: wire_attribute_def)
  have "map blank vs = vs"
    using none by (induction vs) (auto simp: blank_def split: if_splits)
  then show ?thesis
    using none m message_authenticator_parsed [OF w h] by (simp add: b blank_def)
qed

lemma mab_request_shape:
  assumes "mab_request auth i pw attrs secret = Inr req"
  shows "\<exists>body m. encode_attributes (attrs @ [(2, hide_password secret auth (pad16 pw)),
      (80, replicate 16 0)]) = Inr body \<and>
    m = hmac_md5 secret (pack_header 1 i (20 + length body) @ auth @ body) \<and>
    req = pack_header 1 i (20 + length body) @ auth @
      tlvs (attrs @ [(2, hide_password secret auth (pad16 pw)), (80, m)]) \<and>
    0 \<le> i \<and> i \<le> 255 \<and> 1 \<le> length pw \<and> length pw \<le> 128 \<and> \<not> has_kind {2, 79, 80} attrs"
proof -
  let ?vs = "attrs @ [(2, hide_password secret auth (pad16 pw))]"
  obtain body where body: "encode_attributes (?vs @ [(80, replicate 16 0)]) = Inr body"
    and req: "req = take (length (pack_header 1 i (20 + length body) @ auth @ body) - 16)
        (pack_header 1 i (20 + length body) @ auth @ body) @
      hmac_md5 secret (pack_header 1 i (20 + length body) @ auth @ body)"
    and rest: "0 \<le> i" "i \<le> 255" "1 \<le> length pw" "length pw \<le> 128" "\<not> has_kind {2, 79, 80} attrs"
    using assms by (auto simp: mab_request_def Let_def result_simps split: if_splits)
  have "req = (pack_header 1 i (20 + length body) @ auth) @
      tlvs (?vs @ [(80, hmac_md5 secret (pack_header 1 i (20 + length body) @ auth @ body))])"
    unfolding req
    using signed_tail(1) [OF body length_hmac_md5, of "pack_header 1 i (20 + length body) @ auth"]
    by (simp only: append_assoc)
  then show ?thesis using body rest by auto
qed

lemma mab_request_valid:
  assumes "mab_request auth i pw attrs secret = Inr req" and auth: "length auth = 16"
  shows "\<exists>hidden ma zeroed.
    packet_attributes req = Inr (req, attrs @ [(2, hidden), (80, ma)]) \<and>
    take (length pw) (reveal_password secret auth hidden) = pw \<and>
    message_authenticator req = Inr (zeroed, ma) \<and> hmac_md5 secret zeroed = ma \<and>
    slice 4 20 req = auth \<and> req ! 0 = 1 \<and> uint (req ! 1) = i"
proof -
  let ?hid = "hide_password secret auth (pad16 pw)"
  let ?vs = "attrs @ [(2, ?hid)]"
  obtain body m where body: "encode_attributes (?vs @ [(80, replicate 16 0)]) = Inr body"
    and m: "m = hmac_md5 secret (pack_header 1 i (20 + length body) @ auth @ body)"
    and req: "req = pack_header 1 i (20 + length body) @ auth @ tlvs (?vs @ [(80, m)])"
    and i: "0 \<le> i" "i \<le> 255" and k: "\<not> has_kind {2, 79, 80} attrs"
    using mab_request_shape [OF assms(1)] by auto
  have lm: "length m = 16" by (simp add: m length_hmac_md5)
  note tail = signed_tail [OF body lm]
  have none: "authenticators ?vs = []"
    using k no_kind_authenticators [of 80 attrs] by (auto simp: has_kind_iff)
  have "packet_attributes req = Inr (req, ?vs @ [(80, m)])"
    using built_packet [OF tail(2) auth, of 1 i] by (simp only: req tail(3))
  moreover have "message_authenticator req =
      Inr (pack_header 1 i (20 + length body) @ auth @ body, m)"
    using signed_scan [OF body lm none, of "pack_header 1 i (20 + length body) @ auth"] auth
    by (simp add: req)
  moreover have "take (length pw) (reveal_password secret auth ?hid) = pw"
    by (simp only: reveal_hide_password [OF length_pad16] take_pad16)
  moreover have "slice 4 20 req = auth" "req ! 0 = 1" "uint (req ! 1) = i"
    using auth i by (simp_all add: req header_slices uint_word_of_int_byte)
  ultimately show ?thesis using m by auto
qed


subsection \<open>CoA and Disconnect packets\<close>

lemma verify_dynamic_request_sound:
  assumes "verify_dynamic_request p secret = Inr r"
  shows "\<exists>ma zeroed t. packet_attributes p = Inr (rp_packet r, rp_attributes r) \<and>
    rp_packet r ! 0 \<in> {40, 43} \<and>
    message_authenticator (rp_packet r) = Inr (zeroed, ma) \<and>
    hmac_md5 secret (splice 4 20 (replicate 16 0) zeroed) = ma \<and>
    md5 (take 4 (rp_packet r) @ replicate 16 0 @ drop 20 (rp_packet r) @ secret)
      = slice 4 20 (rp_packet r) \<and>
    values_of 55 (rp_attributes r) = [t] \<and> length t = 4 \<and> dr_timestamp r = be_int t"
  using assms
  by (fastforce simp: verify_dynamic_request_def Let_def result_simps
      split: if_splits list.splits prod.splits)

lemma verified_dynamic_request:
  assumes "verify_dynamic_request p secret = Inr r"
  shows "wire_attributes (rp_attributes r)" and "length (rp_authenticator r) = 16"
    and "rp_code r \<in> {40, 43}" and "0 \<le> rp_identifier r" and "rp_identifier r \<le> 255"
    and "\<exists>ma. authenticators (rp_attributes r) = [ma] \<and> length ma = 16"
    and "\<exists>t. values_of 55 (rp_attributes r) = [t] \<and> length t = 4 \<and> dr_timestamp r = be_int t"
    and "length (tlvs (rp_attributes r)) \<le> 4076"
proof -
  obtain ma zeroed t where parse: "packet_attributes p = Inr (rp_packet r, rp_attributes r)"
    and code: "rp_packet r ! 0 \<in> {40, 43}"
    and scan: "message_authenticator (rp_packet r) = Inr (zeroed, ma)"
    and t: "values_of 55 (rp_attributes r) = [t]" "length t = 4" "dr_timestamp r = be_int t"
    using verify_dynamic_request_sound [OF assms] by blast
  note snd = packet_attributes_sound [OF parse]
  show w: "wire_attributes (rp_attributes r)" by (rule snd)
  show "length (rp_authenticator r) = 16"
    using snd(5) by (simp add: rp_authenticator_def length_slice)
  show "rp_code r \<in> {40, 43}" using code by (auto simp: rp_code_def)
  show "0 \<le> rp_identifier r" "rp_identifier r \<le> 255"
    using uint_byte_lt [of "rp_packet r ! 1"] by (simp_all add: rp_identifier_def)
  have h: "length (take 20 p) = 20" and q: "rp_packet r = take 20 p @ tlvs (rp_attributes r)"
    using snd(1,5,6) by (auto simp: min_def)
  have "message_authenticator (take 20 p @ tlvs (rp_attributes r)) = Inr (zeroed, ma)"
    using scan by (simp only: q [symmetric])
  then show "\<exists>ma. authenticators (rp_attributes r) = [ma] \<and> length ma = 16"
    unfolding message_authenticator_parsed [OF w h] by (auto split: list.splits if_splits)
  show "\<exists>t. values_of 55 (rp_attributes r) = [t] \<and> length t = 4 \<and> dr_timestamp r = be_int t"
    using t by blast
  have "length (rp_packet r) = 20 + length (tlvs (rp_attributes r))"
    by (subst q) (simp only: length_append h)
  then show "length (tlvs (rp_attributes r)) \<le> 4076" using snd(3) by simp
qed

lemma filter_tlvs_split:
  "length (tlvs (filter P vs)) + length (tlvs (filter (\<lambda>a. \<not> P a) vs)) = length (tlvs vs)"
  by (induction vs) auto

lemma filter_two_kinds:
  "j \<noteq> k \<Longrightarrow> values_of j vs = [x] \<Longrightarrow> values_of k vs = [y] \<Longrightarrow>
    length x + length y + 4 \<le> length (tlvs (filter (\<lambda>a. fst a \<in> {j, k}) vs))"
proof -
  assume jk: "j \<noteq> k" and x: "values_of j vs = [x]" and y: "values_of k vs = [y]"
  have one: "length (tlvs (filter (\<lambda>a. fst a = i) vs)) =
      (\<Sum>v \<leftarrow> values_of i vs. length v + 2)" for i
    by (induction vs) (auto simp: values_of_def)
  have "length (tlvs (filter (\<lambda>a. fst a = j) vs)) + length (tlvs (filter (\<lambda>a. fst a = k) vs)) \<le>
      length (tlvs (filter (\<lambda>a. fst a \<in> {j, k}) vs))"
    using jk by (induction vs) auto
  then show ?thesis by (simp add: one x y)
qed


lemma filter_tlvs_mono:
  "(\<And>a. P a \<Longrightarrow> Q a) \<Longrightarrow> length (tlvs (filter P vs)) \<le> length (tlvs (filter Q vs))"
  by (induction vs) auto

lemma response_values_split:
  "\<exists>P. response_values r c e = filter P (rp_attributes r) @
      (case e of None \<Rightarrow> [] | Some c \<Rightarrow> [(101, be_bytes 4 c)]) \<and>
    (\<forall>a. P a \<longrightarrow> fst a \<in> {24, 33})"
  unfolding response_values_def Let_def
  by (rule exI, rule conjI, rule refl) auto

lemma response_values_fit:
  assumes "verify_dynamic_request p secret' = Inr r"
  shows "encodable (response_values r c e)"
    and "length (tlvs (response_values r c e)) + 18 \<le> 4076"
    and "authenticators (response_values r c e) = []"
proof -
  note ver = verified_dynamic_request [OF assms]
  obtain P where P: "response_values r c e = filter P (rp_attributes r) @
      (case e of None \<Rightarrow> [] | Some c \<Rightarrow> [(101, be_bytes 4 c)])"
    and kinds: "\<And>a. P a \<Longrightarrow> fst a \<in> {24, 33}"
    using response_values_split [of r c e] by blast
  have wire: "wire_attribute a" if "a \<in> set (rp_attributes r)" for a
    using ver(1) that by (simp add: wire_attributes_def)
  show "encodable (response_values r c e)"
    using wire kinds by (fastforce simp: P encodable_def wire_attribute_def split: option.split)
  obtain ma t where ma: "values_of 80 (rp_attributes r) = [ma]" "length ma = 16"
    and t: "values_of 55 (rp_attributes r) = [t]" "length t = 4"
    using ver(6,7) by (auto simp: values_of_authenticators)
  have "24 \<le> length (tlvs (filter (\<lambda>a. fst a \<in> {80, 55}) (rp_attributes r)))"
    using filter_two_kinds [OF _ ma(1) t(1)] ma(2) t(2) by simp
  moreover have "length (tlvs (filter P (rp_attributes r)))
      \<le> length (tlvs (filter (\<lambda>a. \<not> fst a \<in> {80, 55}) (rp_attributes r)))"
    by (rule filter_tlvs_mono) (auto dest: kinds)
  moreover have "length (tlvs (case e of None \<Rightarrow> [] | Some c \<Rightarrow> [(101, be_bytes 4 c)])) \<le> 6"
    by (simp split: option.split)
  ultimately show "length (tlvs (response_values r c e)) + 18 \<le> 4076"
    using filter_tlvs_split [of "\<lambda>a. fst a \<in> {80, 55}" "rp_attributes r"] ver(8)
    by (simp add: P)
  have "authenticators (filter P (rp_attributes r)) = []"
    using kinds by (induction "rp_attributes r") (force simp: authenticators_def filter_empty_conv)+
  then show "authenticators (response_values r c e) = []"
    by (simp add: P split: option.split)
qed

definition dynamic_choice :: "dynamic_request \<Rightarrow> int \<Rightarrow> int option \<Rightarrow> bool" where
  \<comment> \<open>a response code that answers the request, and an error cause that fits its field\<close>
  "dynamic_choice r code cause \<longleftrightarrow> (rp_code r, code) \<in> dynamic_pairs \<and>
     (case cause of None \<Rightarrow> True | Some c \<Rightarrow> 0 \<le> c \<and> c \<le> 0xffffffff)"

lemma dynamic_response_total:
  assumes "verify_dynamic_request p secret' = Inr r" and "dynamic_choice r code cause"
  shows "\<exists>resp. dynamic_response r code secret cause = Inr resp"
proof -
  have "encode_attributes (response_values r code cause @ [(80, replicate 16 0)]) =
      Inr (tlvs (response_values r code cause @ [(80, replicate 16 0)]))"
    using response_values_fit [OF assms(1), of code cause]
    by (simp add: encode_attributes_Inr_iff)
  then show ?thesis
    using assms(2) by (auto simp: dynamic_response_def dynamic_choice_def Let_def split: option.splits)
qed

lemma dynamic_response_valid:
  assumes "verify_dynamic_request p secret' = Inr r"
    and resp: "dynamic_response r code secret cause = Inr resp"
  shows "\<exists>ma zeroed. packet_attributes resp =
      Inr (resp, response_values r code cause @ [(80, ma)]) \<and>
    uint (resp ! 0) = code \<and> uint (resp ! 1) = rp_identifier r \<and>
    md5 (take 4 resp @ rp_authenticator r @ drop 20 resp @ secret) = slice 4 20 resp \<and>
    message_authenticator (splice 4 20 (rp_authenticator r) resp) = Inr (zeroed, ma) \<and>
    hmac_md5 secret zeroed = ma"
proof -
  note ver = verified_dynamic_request [OF assms(1)]
  let ?vs = "response_values r code cause"
  obtain body where body: "encode_attributes (?vs @ [(80, replicate 16 0)]) = Inr body"
    using resp by (auto simp: dynamic_response_def result_simps split: if_splits)
  define h where "h = pack_header code (rp_identifier r) (20 + length body)"
  define m where "m = hmac_md5 secret (h @ rp_authenticator r @ body)"
  define out where "out = tlvs (?vs @ [(80, m)])"
  have pair: "(rp_code r, code) \<in> dynamic_pairs"
    using resp by (auto simp: dynamic_response_def split: if_splits)
  then have code: "0 \<le> code" "code \<le> 255" by (auto simp: dynamic_pairs_def)
  have lm: "length m = 16" by (simp add: m_def length_hmac_md5)
  have lh: "length h = 4" by (simp add: h_def)
  note tail = signed_tail [OF body lm]
  have signed: "take (length (h @ rp_authenticator r @ body) - 16) (h @ rp_authenticator r @ body) @ m
      = h @ rp_authenticator r @ out"
    using tail(1) [of "h @ rp_authenticator r"] by (simp only: out_def append_assoc)
  have resp_eq: "resp = h @ md5 (h @ rp_authenticator r @ out @ secret) @ out"
  proof -
    let ?s = "take (length (h @ rp_authenticator r @ body) - 16) (h @ rp_authenticator r @ body) @ m"
    have "resp = take 4 ?s @ md5 (?s @ secret) @ drop 20 ?s"
      using resp unfolding dynamic_response_def body bind_simps Let_def h_def m_def
      by (simp only: sum.inject split: if_splits) (simp_all only: sum.distinct)
    then show ?thesis
      unfolding signed using lh ver(2) by simp
  qed
  have parse: "packet_attributes resp = Inr (resp, ?vs @ [(80, m)])"
    using built_packet [OF tail(2) length_md5, of code "rp_identifier r"]
    by (simp only: resp_eq h_def tail(3) out_def)
  have "splice 4 20 (rp_authenticator r) resp = (h @ rp_authenticator r) @ tlvs (?vs @ [(80, m)])"
    using lh by (simp add: resp_eq splice_def length_md5 out_def)
  then have scan: "message_authenticator (splice 4 20 (rp_authenticator r) resp) =
      Inr (h @ rp_authenticator r @ body, m)"
    using signed_scan [OF body lm response_values_fit(3) [OF assms(1)], of "h @ rp_authenticator r"]
      lh ver(2) by simp
  have "uint (resp ! 0) = code" "uint (resp ! 1) = rp_identifier r"
    using code ver(4,5) by (simp_all add: resp_eq h_def uint_word_of_int_byte)
  moreover have "md5 (take 4 resp @ rp_authenticator r @ drop 20 resp @ secret) = slice 4 20 resp"
    using lh by (simp add: resp_eq header_slices length_md5)
  ultimately show ?thesis using parse scan m_def by blast
qed

subsection \<open>An authentic CoA or Disconnect request\<close>

definition signed_dynamic :: "bytes \<Rightarrow> int \<Rightarrow> int \<Rightarrow> attribute list \<Rightarrow> bytes" where
  \<comment> \<open>what a conforming dynamic authorization client sends (RFC 5176 section 2.3, 3.3)\<close>
  "signed_dynamic secret code identifier vs =
     (let body = tlvs (vs @ [(80, replicate 16 0)]);
          header = pack_header code identifier (20 + length body);
          ma = hmac_md5 secret (header @ replicate 16 0 @ body);
          signed = tlvs (vs @ [(80, ma)])
      in header @ md5 (header @ replicate 16 0 @ signed @ secret) @ signed)"

lemma signed_dynamic_nth [simp]:
  "signed_dynamic secret c i vs ! 0 = word_of_int c" "signed_dynamic secret c i vs ! Suc 0 = word_of_int i"
  by (simp_all add: signed_dynamic_def Let_def)

lemma signed_dynamic_accepted:
  assumes code: "code \<in> {40, 43}" and vs: "encodable vs" "length (tlvs vs) \<le> 4058" "\<not> has_kind {80} vs"
    and t: "values_of 55 vs = [t]" "length t = 4"
  shows "\<exists>ma. verify_dynamic_request (signed_dynamic secret code i vs) secret =
    Inr \<lparr>rp_packet = signed_dynamic secret code i vs, rp_attributes = vs @ [(80, ma)],
         dr_timestamp = be_int t\<rparr>"
proof -
  define body where "body = tlvs (vs @ [(80, replicate 16 0)])"
  define h where "h = pack_header code i (20 + length body)"
  define m where "m = hmac_md5 secret (h @ replicate 16 0 @ body)"
  define out where "out = tlvs (vs @ [(80, m)])"
  define auth where "auth = md5 (h @ replicate 16 0 @ out @ secret)"
  have p: "signed_dynamic secret code i vs = h @ auth @ out"
    by (simp only: signed_dynamic_def Let_def body_def h_def m_def out_def auth_def)
  have enc: "encode_attributes (vs @ [(80, replicate 16 0)]) = Inr body"
    using vs by (simp add: encode_attributes_Inr_iff body_def)
  have lm: "length m = 16" and lh: "length h = 4" and la: "length auth = 16"
    by (simp_all add: m_def length_hmac_md5 h_def auth_def length_md5)
  note tail = signed_tail [OF enc lm]
  have none: "authenticators vs = []"
    using vs(3) no_kind_authenticators by blast
  have parse: "packet_attributes (h @ auth @ out) = Inr (h @ auth @ out, vs @ [(80, m)])"
    using built_packet [OF tail(2) la, of code i]
    by (simp only: h_def tail(3) out_def)
  have scan: "message_authenticator (h @ auth @ out) = Inr ((h @ auth) @ body, m)"
    using signed_scan [OF enc lm none, of "h @ auth"] lh la by (simp add: out_def)
  have zero: "splice 4 20 (replicate 16 0) ((h @ auth) @ body) = h @ replicate 16 0 @ body"
    using lh la by (simp add: splice_def)
  have first: "(h @ auth @ out) ! 0 \<in> {40, 43}"
    using code by (auto simp: h_def)
  have md: "md5 (take 4 (h @ auth @ out) @ replicate 16 0 @ drop 20 (h @ auth @ out) @ secret)
      = slice 4 20 (h @ auth @ out)"
    using lh la by (simp add: header_slices auth_def)
  have stamp: "values_of 55 (vs @ [(80, m)]) = [t]" using t(1) by simp
  show ?thesis
    using first md t(2) zero
    by (intro exI [of _ m])
      (simp add: p verify_dynamic_request_def parse scan stamp Let_def m_def [symmetric] del: values_of_simps)
qed

subsection \<open>Properties\<close>

text \<open>C29: the response to a verified CoA or Disconnect request can always be built. Whatever the
  request carried, any response code that answers it and any error cause that fits four octets
  give a packet within the budget; it parses to the echoed attributes and its
  Message-Authenticator, repeats the identifier, and both its authenticators verify against the
  request's authenticator.\<close>

theorem dynamic_response_answers:
  assumes "verify_dynamic_request p secret' = Inr r" and "dynamic_choice r code cause"
  shows "\<exists>resp ma zeroed. dynamic_response r code secret cause = Inr resp \<and>
    packet_attributes resp = Inr (resp, response_values r code cause @ [(80, ma)]) \<and>
    uint (resp ! 0) = code \<and> uint (resp ! 1) = rp_identifier r \<and>
    md5 (take 4 resp @ rp_authenticator r @ drop 20 resp @ secret) = slice 4 20 resp \<and>
    message_authenticator (splice 4 20 (rp_authenticator r) resp) = Inr (zeroed, ma) \<and>
    hmac_md5 secret zeroed = ma"
  using dynamic_response_total [OF assms] dynamic_response_valid [OF assms(1)] by blast

lemma dynamic_response_answers_witness:
  "\<exists>r resp ma. verify_dynamic_request (signed_dynamic [115] 43 7 [(55, [0, 0, 0, 9]), (31, [65])]) [115] = Inr r \<and>
     dynamic_response r 45 [115] (Some 403) = Inr resp \<and>
     packet_attributes resp = Inr (resp, [(101, be_bytes 4 403), (80, ma)]) \<and> uint (resp ! 1) = 7"
proof -
  obtain ma where v: "verify_dynamic_request (signed_dynamic [115] 43 7 [(55, [0, 0, 0, 9]), (31, [65])]) [115] =
      Inr \<lparr>rp_packet = signed_dynamic [115] 43 7 [(55, [0, 0, 0, 9]), (31, [65])],
           rp_attributes = [(55, [0, 0, 0, 9]), (31, [65])] @ [(80, ma)], dr_timestamp = be_int [0, 0, 0, 9]\<rparr>"
    using signed_dynamic_accepted [of 43 "[(55, [0, 0, 0, 9]), (31, [65])]" "[0, 0, 0, 9]" "[115]" 7]
    by auto
  let ?r = "\<lparr>rp_packet = signed_dynamic [115] 43 7 [(55, [0, 0, 0, 9]), (31, [65])],
           rp_attributes = [(55, [0, 0, 0, 9]), (31, [65])] @ [(80, ma)], dr_timestamp = be_int [0, 0, 0, 9]\<rparr>"
  have head: "rp_code ?r = 43" "rp_identifier ?r = 7"
    unfolding rp_code_def rp_identifier_def by simp_all
  have "dynamic_choice ?r 45 (Some 403)"
    unfolding dynamic_choice_def head by (simp add: dynamic_pairs_def)
  moreover have "response_values ?r 45 (Some 403) = [(101, be_bytes 4 403)]"
    unfolding response_values_def head by (simp add: values_of_def)
  ultimately show ?thesis
    using dynamic_response_answers [OF v, of 45 "Some 403" "[115]"] v head by auto
qed

text \<open>C30: a MAB Access-Request is a packet that the parser reads back with the caller's attributes,
  the hidden password and the Message-Authenticator, from which the server, knowing the secret
  and the Request Authenticator, recovers the password, and whose Message-Authenticator
  verifies.\<close>

theorem mab_request_recoverable:
  assumes "mab_request auth i password attrs secret = Inr req" and "length auth = 16"
  shows "\<exists>hidden ma zeroed.
    packet_attributes req = Inr (req, attrs @ [(2, hidden), (80, ma)]) \<and>
    take (length password) (reveal_password secret auth hidden) = password \<and>
    message_authenticator req = Inr (zeroed, ma) \<and> hmac_md5 secret zeroed = ma \<and>
    slice 4 20 req = auth \<and> req ! 0 = 1 \<and> uint (req ! 1) = i"
  by (rule mab_request_valid [OF assms])

lemma mab_request_recoverable_witness:
  "\<exists>req hidden. mab_request (replicate 16 7) 3 [97, 98] [(1, [97])] [115] = Inr req \<and>
     take 2 (reveal_password [115] (replicate 16 7) hidden) = [97, 98] \<and> uint (req ! 1) = 3"
proof -
  have "\<exists>req. mab_request (replicate 16 7) 3 [97, 98] [(1, [97])] [115] = Inr req"
    by (simp add: mab_request_def Let_def result_simps encode_attributes_Inr_iff pad16_def
        length_hide_password [of _ 1])
  then obtain req where r: "mab_request (replicate 16 7) 3 [97, 98] [(1, [97])] [115] = Inr req" by blast
  show ?thesis using mab_request_recoverable [OF r] r by (auto simp: eval_nat_numeral)
qed

text \<open>C34: an accounting reply is accepted exactly when it is the answer of the server that shares
  the secret: it parses, is an Accounting-Response of at most 4095 octets with the request's
  identifier, and its authenticator is the digest over the request's authenticator. Nothing of the
  request itself can make the check fail.\<close>

theorem accounting_verified_iff:
  assumes "accounting_request i st attrs secret = Inr req"
  shows "verify_accounting req resp secret = Inr r \<longleftrightarrow>
    packet_attributes resp = Inr (rp_packet r, rp_attributes r) \<and>
    length (rp_packet r) \<le> 4095 \<and> rp_packet r ! 0 = 5 \<and> uint (rp_packet r ! 1) = i \<and>
    md5 (take 4 (rp_packet r) @ slice 4 20 req @ drop 20 (rp_packet r) @ secret)
      = slice 4 20 (rp_packet r)"
proof (cases "packet_attributes resp")
  case (Inl e)
  then show ?thesis
    by (simp add: verify_accounting_def accounting_request_parses(1) [OF assms])
next
  case (Inr qv)
  then obtain q vs where p: "packet_attributes resp = Inr (q, vs)" by (cases qv) auto
  show ?thesis
    unfolding verify_accounting_of_request [OF assms p] p by (cases r) auto
qed

lemma accounting_verified_iff_witness:
  "\<exists>req. accounting_request 7 1 [(44, [65])] [115] = Inr req \<and>
     \<not> succeeds (verify_accounting req [5, 7, 0, 19] [115])"
proof -
  have "\<exists>req. accounting_request 7 1 [(44, [65])] [115] = Inr req"
    by (simp add: accounting_request_def codec_attributes_def Let_def result_simps encode_attributes_Inr_iff)
  then obtain req where r: "accounting_request 7 1 [(44, [65])] [115] = Inr req" by blast
  have "packet_attributes [5, 7, 0, 19] = Inl (RadiusError ''short_packet'')" by code_simp
  then show ?thesis
    using accounting_verified_iff [OF r, of "[5, 7, 0, 19]"] r by (auto simp: succeeds_iff)
qed

text \<open>The reply of a conforming accounting server to a request this code built is accepted,
  with exactly the attributes the server sent.\<close>

theorem honest_accounting_reply:
  assumes "accounting_request i st attrs secret = Inr req"
    and "encode_attributes vs = Inr body" and "length body \<le> 4075"
  shows "verify_accounting req (accounting_reply req body secret) secret =
    Inr \<lparr>rp_packet = accounting_reply req body secret, rp_attributes = vs\<rparr>"
  by (rule accounting_reply_accepted [OF assms])

lemma honest_accounting_reply_witness:
  "\<exists>req. accounting_request 7 1 [(44, [65])] [115] = Inr req \<and>
     verify_accounting req (accounting_reply req [33, 3, 9] [115]) [115] =
       Inr \<lparr>rp_packet = accounting_reply req [33, 3, 9] [115], rp_attributes = [(33, [9])]\<rparr>"
proof -
  have "\<exists>req. accounting_request 7 1 [(44, [65])] [115] = Inr req"
    by (simp add: accounting_request_def codec_attributes_def Let_def result_simps encode_attributes_Inr_iff)
  then obtain req where r: "accounting_request 7 1 [(44, [65])] [115] = Inr req" by blast
  have "encode_attributes [(33, [9])] = Inr [33, 3, 9]" by code_simp
  then show ?thesis using honest_accounting_reply [OF r, of "[(33, [9])]" "[33, 3, 9]"] r by simp
qed

end
