(* ===== verification/Radius_Reply.thy ===== *)
theory Radius_Reply
  imports Radius_Codec
begin

text \<open>
  What \<open>verify_access\<close> of \<open>switchlab/radius.py\<close> accepts: an abstract description of an
  authentic Access reply, the proof that every accepted reply is one, and the proof that the
  reply a conforming server builds is accepted with exactly its attributes.
\<close>

subsection \<open>Contiguous EAP fragments\<close>

definition eap_run :: "attribute list \<Rightarrow> bytes \<Rightarrow> bool \<Rightarrow> bool" where
  \<comment> \<open>the EAP-Message attributes form one uninterrupted run whose concatenation is \<open>eap\<close>\<close>
  "eap_run vs eap seen \<longleftrightarrow>
     (\<exists>pre frags post. vs = pre @ frags @ post \<and>
        \<not> has_kind {79} pre \<and> \<not> has_kind {79} post \<and> (\<forall>a \<in> set frags. fst a = 79) \<and>
        eap = concat (map snd frags) \<and> seen = (frags \<noteq> []))"

lemma eap_loop_after:
  "eap_loop vs eap True True = Inr out \<longleftrightarrow> \<not> has_kind {79} vs \<and> out = (eap, True)"
  by (induction vs eap True True rule: eap_loop.induct) (auto split: if_splits)

lemma eap_loop_within:
  "eap_loop vs eap True False = Inr out \<longleftrightarrow>
    (\<exists>frags post. vs = frags @ post \<and> (\<forall>a \<in> set frags. fst a = 79) \<and> \<not> has_kind {79} post \<and>
      out = (eap @ concat (map snd frags), True))"
proof (induction vs arbitrary: eap)
  case Nil
  show ?case by auto
next
  case (Cons a vs)
  obtain k v where a: "a = (k, v)" by (cases a)
  show ?case
  proof (cases "k = 79")
    case True
    have "(\<exists>frags post. a # vs = frags @ post \<and> (\<forall>a \<in> set frags. fst a = 79) \<and>
          \<not> has_kind {79} post \<and> out = (eap @ concat (map snd frags), True)) \<longleftrightarrow>
        (\<exists>frags post. vs = frags @ post \<and> (\<forall>a \<in> set frags. fst a = 79) \<and>
          \<not> has_kind {79} post \<and> out = ((eap @ v) @ concat (map snd frags), True))"
      (is "?l \<longleftrightarrow> ?r")
    proof
      assume ?l
      then obtain frags post where f: "a # vs = frags @ post" "\<forall>a \<in> set frags. fst a = 79"
        "\<not> has_kind {79} post" "out = (eap @ concat (map snd frags), True)" by blast
      then obtain fs where "frags = a # fs"
        using True a by (cases frags) auto
      then show ?r using f a by auto
    next
      assume ?r
      then obtain frags post where "vs = frags @ post" "\<forall>a \<in> set frags. fst a = 79"
        "\<not> has_kind {79} post" "out = ((eap @ v) @ concat (map snd frags), True)" by blast
      then have "a # vs = (a # frags) @ post" "\<forall>a \<in> set (a # frags). fst a = 79"
        "\<not> has_kind {79} post" "out = (eap @ concat (map snd (a # frags)), True)"
        using True a by auto
      then show ?l by blast
    qed
    then show ?thesis using True a by (simp add: Cons.IH)
  next
    case False
    have none: "frags = []" if "a # vs = frags @ post" "\<forall>a \<in> set frags. fst a = 79" for frags post
      using False a that by (cases frags) auto
    have "(\<exists>frags post. a # vs = frags @ post \<and> (\<forall>a \<in> set frags. fst a = 79) \<and>
          \<not> has_kind {79} post \<and> out = (eap @ concat (map snd frags), True)) \<longleftrightarrow>
        \<not> has_kind {79} (a # vs) \<and> out = (eap, True)"
      (is "?l \<longleftrightarrow> ?r")
    proof
      assume ?l
      then obtain frags post where f: "a # vs = frags @ post" "\<forall>a \<in> set frags. fst a = 79"
        "\<not> has_kind {79} post" "out = (eap @ concat (map snd frags), True)" by blast
      with none [OF f(1,2)] show ?r by simp
    next
      assume ?r
      then show ?l by (intro exI [of _ "[]"] exI [of _ "a # vs"]) simp
    qed
    then show ?thesis using False by (simp add: a eap_loop_after)
  qed
qed

lemma eap_loop_runs: "eap_loop vs [] False False = Inr (eap, seen) \<longleftrightarrow> eap_run vs eap seen"
proof (induction vs)
  case Nil
  show ?case by (auto simp: eap_run_def)
next
  case (Cons a vs)
  obtain k v where a: "a = (k, v)" by (cases a)
  show ?case
  proof (cases "k = 79")
    case True
    have "eap_run (a # vs) eap seen \<longleftrightarrow>
        (\<exists>frags post. vs = frags @ post \<and> (\<forall>a \<in> set frags. fst a = 79) \<and> \<not> has_kind {79} post \<and>
          (eap, seen) = (v @ concat (map snd frags), True))" (is "?l \<longleftrightarrow> ?r")
    proof
      assume ?l
      then obtain pre frags post where f: "a # vs = pre @ frags @ post" "\<not> has_kind {79} pre"
        "\<not> has_kind {79} post" "\<forall>a \<in> set frags. fst a = 79"
        "eap = concat (map snd frags)" "seen = (frags \<noteq> [])"
        by (auto simp: eap_run_def)
      have "pre = []" using f(1,2) True a by (cases pre) auto
      moreover obtain fs where "frags = a # fs"
        using f(1,3) True a \<open>pre = []\<close> by (cases frags) auto
      ultimately show ?r using f a by auto
    next
      assume ?r
      then obtain frags post where "vs = frags @ post" "\<forall>a \<in> set frags. fst a = 79"
        "\<not> has_kind {79} post" "eap = v @ concat (map snd frags)" "seen"
        by blast
      then have "a # vs = [] @ (a # frags) @ post" "\<forall>a \<in> set (a # frags). fst a = 79"
        "\<not> has_kind {79} []" "\<not> has_kind {79} post"
        "eap = concat (map snd (a # frags))" "seen = (a # frags \<noteq> [])"
        using True a by auto
      then show ?l unfolding eap_run_def by blast
    qed
    then show ?thesis using True a by (simp add: eap_loop_within)
  next
    case False
    have "eap_run (a # vs) eap seen \<longleftrightarrow> eap_run vs eap seen" (is "?l \<longleftrightarrow> ?r")
    proof
      assume ?l
      then obtain pre frags post where f: "a # vs = pre @ frags @ post" "\<not> has_kind {79} pre"
        "\<not> has_kind {79} post" "\<forall>a \<in> set frags. fst a = 79"
        "eap = concat (map snd frags)" "seen = (frags \<noteq> [])"
        by (auto simp: eap_run_def)
      show ?r
      proof (cases pre)
        case Nil
        then have "frags = []" using f(1,4) False a by (cases frags) auto
        then have "vs = vs @ [] @ []" "\<not> has_kind {79} vs" using f Nil by auto
        then show ?r unfolding eap_run_def using f \<open>frags = []\<close>
          by (intro exI [of _ vs] exI [of _ "[]"]) simp
      next
        case (Cons b pre')
        then show ?r unfolding eap_run_def using f
          by (intro exI [of _ pre'] exI [of _ frags] exI [of _ post]) simp
      qed
    next
      assume ?r
      then obtain pre frags post where f: "vs = pre @ frags @ post" "\<not> has_kind {79} pre"
        "\<not> has_kind {79} post" "\<forall>a \<in> set frags. fst a = 79"
        "eap = concat (map snd frags)" "seen = (frags \<noteq> [])"
        by (auto simp: eap_run_def)
      then show ?l unfolding eap_run_def using False a
        by (intro exI [of _ "a # pre"] exI [of _ frags] exI [of _ post]) simp
    qed
    then show ?thesis using False a by (simp add: Cons.IH)
  qed
qed

subsection \<open>Authentic replies\<close>

definition authentic_reply ::
  "bytes \<Rightarrow> bytes \<Rightarrow> bytes \<Rightarrow> attribute list \<Rightarrow> bool" where
  \<comment> \<open>\<open>response\<close>, whose attributes are \<open>vs\<close>, answers the Access-Request \<open>request\<close> and carries
     both authenticators of RFC 2865 section 3 and RFC 3579 section 3.2\<close>
  "authentic_reply secret request response vs \<longleftrightarrow>
     request ! 0 = 1 \<and> response ! 0 \<in> {2, 3, 11} \<and> response ! 1 = request ! 1 \<and>
     (\<exists>ma zeroed. message_authenticator response = Inr (zeroed, ma) \<and>
        hmac_md5 secret (splice 4 20 (slice 4 20 request) zeroed) = ma) \<and>
     md5 (take 4 response @ slice 4 20 request @ drop 20 response @ secret) = slice 4 20 response \<and>
     (\<exists>eap seen. eap_run vs eap seen \<and> (seen \<longrightarrow> \<not> malformed_eap eap))"

lemma verify_access_iff:
  assumes "packet_attributes req = Inr (request, rvs)"
    and "packet_attributes resp = Inr (response, vs)"
  shows "verify_access req resp secret peer = Inr r \<longleftrightarrow>
    authentic_reply secret request response vs \<and>
    r = \<lparr>ar_code = uint (response ! 0), ar_attributes = vs, ar_peer = peer,
         ar_request_authenticator = slice 4 20 request, ar_peer_result = 0, ar_tls_errors = 0\<rparr>"
  unfolding verify_access_def assms bind_simps prod.case Let_def authentic_reply_def
    eap_loop_runs [symmetric]
  by (auto simp: result_simps)

lemma verify_access_parses:
  assumes "verify_access req resp secret peer = Inr r"
  shows "\<exists>request rvs response. packet_attributes req = Inr (request, rvs) \<and>
    packet_attributes resp = Inr (response, ar_attributes r) \<and>
    authentic_reply secret request response (ar_attributes r)"
proof -
  obtain request rvs response vs where p: "packet_attributes req = Inr (request, rvs)"
    "packet_attributes resp = Inr (response, vs)"
    using assms by (auto simp: verify_access_def result_simps)
  then show ?thesis using assms verify_access_iff [OF p] by auto
qed

definition access_reply :: "bytes \<Rightarrow> bytes \<Rightarrow> int \<Rightarrow> attribute list \<Rightarrow> bytes" where
  \<comment> \<open>what a conforming server sends: Message-Authenticator last, then the Response Authenticator\<close>
  "access_reply secret request code vs =
     (let body = tlvs (vs @ [(80, replicate 16 0)]);
          header = pack_header code (uint (request ! 1)) (20 + length body);
          ma = hmac_md5 secret (header @ slice 4 20 request @ body);
          signed = tlvs (vs @ [(80, ma)])
      in header @ md5 (header @ slice 4 20 request @ signed @ secret) @ signed)"

lemma access_reply_accepted:
  assumes req: "packet_attributes request = Inr (request, rvs)" and acc: "request ! 0 = 1"
    and code: "code \<in> {2, 3, 11}"
    and vs: "encodable vs" "length (tlvs vs) \<le> 4058" "\<not> has_kind {80} vs"
    and eap: "eap_run vs eap seen" "seen \<Longrightarrow> \<not> malformed_eap eap"
  shows "\<exists>ma. verify_access request (access_reply secret request code vs) secret peer =
    Inr \<lparr>ar_code = code, ar_attributes = vs @ [(80, ma)], ar_peer = peer,
         ar_request_authenticator = slice 4 20 request, ar_peer_result = 0, ar_tls_errors = 0\<rparr>"
proof -
  let ?auth = "slice 4 20 request"
  define body where "body = tlvs (vs @ [(80, replicate 16 0)])"
  define h where "h = pack_header code (uint (request ! 1)) (20 + length body)"
  define m where "m = hmac_md5 secret (h @ ?auth @ body)"
  define out where "out = tlvs (vs @ [(80, m)])"
  define resp where "resp = h @ md5 (h @ ?auth @ out @ secret) @ out"
  have auth: "length ?auth = 16"
    using packet_attributes_sound(5) [OF req] by (simp add: length_slice)
  have enc: "encode_attributes (vs @ [(80, replicate 16 0)]) = Inr body"
    using vs by (simp add: encode_attributes_Inr_iff body_def)
  have lm: "length m = 16" and lh: "length h = 4"
    by (simp_all add: m_def length_hmac_md5 h_def)
  note tail = signed_tail [OF enc lm]
  have none: "authenticators vs = []"
    using vs(3) no_kind_authenticators by blast
  have parse: "packet_attributes resp = Inr (resp, vs @ [(80, m)])"
    using built_packet [OF tail(2) length_md5, of code "uint (request ! 1)"]
    by (simp only: resp_def h_def tail(3) out_def)
  have "message_authenticator resp = Inr ((h @ md5 (h @ ?auth @ out @ secret)) @ body, m)"
    using signed_scan [OF enc lm none, of "h @ md5 (h @ ?auth @ out @ secret)"] lh
    by (simp add: resp_def out_def length_md5)
  moreover have "splice 4 20 ?auth ((h @ md5 (h @ ?auth @ out @ secret)) @ body) = h @ ?auth @ body"
    using lh by (simp add: splice_def length_md5)
  moreover have "md5 (take 4 resp @ ?auth @ drop 20 resp @ secret) = slice 4 20 resp"
    using lh by (simp add: resp_def header_slices length_md5)
  moreover have rc: "uint (resp ! 0) = code" "resp ! 0 \<in> {2, 3, 11}" "resp ! 1 = request ! 1"
    using code by (auto simp: resp_def h_def)
  moreover have "eap_run (vs @ [(80, m)]) eap seen"
    using eap(1) unfolding eap_run_def
    by (elim exE conjE) (rule exI, rule exI, rule_tac x = "post @ [(80, m)]" in exI, auto)
  ultimately have "authentic_reply secret request resp (vs @ [(80, m)])"
    unfolding authentic_reply_def using acc eap(2) by (auto simp: m_def)
  then have "verify_access request resp secret peer =
    Inr \<lparr>ar_code = code, ar_attributes = vs @ [(80, m)], ar_peer = peer,
         ar_request_authenticator = ?auth, ar_peer_result = 0, ar_tls_errors = 0\<rparr>"
    unfolding verify_access_iff [OF req parse] using rc(1) by simp
  moreover have "resp = access_reply secret request code vs"
    by (simp only: access_reply_def Let_def resp_def out_def m_def h_def body_def)
  ultimately show ?thesis by blast
qed

lemma verified_reply_wire:
  assumes "verify_access req resp secret peer = Inr r"
  shows "ar_code r \<in> {2, 3, 11}" and "wire_attributes (ar_attributes r)"
    and "length (ar_request_authenticator r) = 16" and "ar_peer r = peer"
proof -
  obtain request rvs response where p: "packet_attributes req = Inr (request, rvs)"
    "packet_attributes resp = Inr (response, ar_attributes r)"
    and a: "authentic_reply secret request response (ar_attributes r)"
    using verify_access_parses [OF assms] by blast
  have "verify_access req resp secret peer = Inr r" by (rule assms)
  note eq = this [unfolded verify_access_iff [OF p]]
  have code: "ar_code r = uint (response ! 0)" and "ar_peer r = peer"
    and ra: "ar_request_authenticator r = slice 4 20 request"
    using eq by (metis access_result.simps)+
  then show "ar_peer r = peer" by blast
  show "ar_code r \<in> {2, 3, 11}"
    using a by (auto simp: code authentic_reply_def)
  show "wire_attributes (ar_attributes r)"
    using packet_attributes_sound(2) [OF p(2)] .
  show "length (ar_request_authenticator r) = 16"
    using packet_attributes_sound(5) [OF p(1)] by (simp add: ra length_slice)
qed

subsection \<open>Every malformed reply is a \<open>RadiusError\<close>\<close>

lemma attribute_loop_error:
  "attribute_loop packet sz position values = Inl e \<Longrightarrow> e = RadiusError ''invalid_attribute_length''"
  by (induction packet sz position "values" rule: attribute_loop.induct)
    (subst (asm) (2) attribute_loop.simps, auto simp: Let_def split: if_splits)

lemma packet_attributes_error: "packet_attributes packet = Inl e \<Longrightarrow> \<exists>reason. e = RadiusError reason"
  by (auto simp: packet_attributes_def result_simps Let_def split: if_splits dest: attribute_loop_error)

lemma message_authenticator_error:
  assumes "packet_attributes p = Inr (q, vs)" and "message_authenticator q = Inl e"
  shows "\<exists>reason. e = RadiusError reason"
proof -
  have h: "length (take 20 p) = 20"
    using packet_attributes_sound(5,6) [OF assms(1)] by (auto simp: min_def)
  have q: "q = take 20 p @ tlvs vs" and w: "wire_attributes vs"
    using packet_attributes_sound [OF assms(1)] by blast+
  show ?thesis
    using assms(2) unfolding q message_authenticator_parsed [OF w h]
    by (auto split: list.splits if_splits)
qed

lemma eap_loop_error:
  "eap_loop vs eap seen ended = Inl e \<Longrightarrow> e = RadiusError ''nonconsecutive_eap_fragments''"
  by (induction vs eap seen ended rule: eap_loop.induct) (auto split: if_splits)

lemma verify_access_error:
  "verify_access req resp secret peer = Inl e \<Longrightarrow> \<exists>reason. e = RadiusError reason"
  by (auto simp: verify_access_def result_simps Let_def split: if_splits
      dest: packet_attributes_error message_authenticator_error eap_loop_error)

subsection \<open>Properties\<close>

text \<open>C4: \<open>verify_access\<close> accepts a reply if and only if request and reply parse and the reply is
  authentic: it answers an Access-Request, repeats its identifier, has the code of an Accept,
  Reject or Challenge, both authenticators verify against the Request Authenticator, and its EAP
  fragments form one contiguous, well-formed packet. The result carries exactly the reply's code
  and attributes.\<close>

theorem access_verified_iff:
  "verify_access req resp secret peer = Inr r \<longleftrightarrow>
    (\<exists>request rvs response vs. packet_attributes req = Inr (request, rvs) \<and>
       packet_attributes resp = Inr (response, vs) \<and>
       authentic_reply secret request response vs \<and>
       r = \<lparr>ar_code = uint (response ! 0), ar_attributes = vs, ar_peer = peer,
            ar_request_authenticator = slice 4 20 request, ar_peer_result = 0, ar_tls_errors = 0\<rparr>)"
    (is "?l \<longleftrightarrow> ?r")
proof
  assume l: ?l
  then obtain request rvs response vs where p: "packet_attributes req = Inr (request, rvs)"
    "packet_attributes resp = Inr (response, vs)"
    using verify_access_parses [OF l] by blast
  with l show ?r using verify_access_iff [OF p, of secret peer r] by blast
next
  assume ?r
  then show ?l using verify_access_iff by blast
qed

text \<open>Whatever octets arrive, \<open>verify_access\<close> either accepts or raises \<open>RadiusError\<close>: no
  index leaves a packet and no loop runs on.\<close>

theorem access_checked_total:
  "case verify_access req resp secret peer of
     Inl e \<Rightarrow> \<exists>reason. e = RadiusError reason
   | Inr r \<Rightarrow> ar_code r \<in> {2, 3, 11} \<and> wire_attributes (ar_attributes r) \<and> ar_peer r = peer"
  by (cases "verify_access req resp secret peer")
    (auto dest: verify_access_error verified_reply_wire)

text \<open>The reply a conforming server builds for an Access-Request is accepted, and its
  attributes are returned unchanged and in order, followed by the Message-Authenticator.\<close>

theorem honest_access_reply:
  assumes "packet_attributes request = Inr (request, rvs)" and "request ! 0 = 1"
    and "code \<in> {2, 3, 11}"
    and "encodable vs" and "length (tlvs vs) \<le> 4058" and "\<not> has_kind {80} vs"
    and "eap_run vs eap seen" and "\<not> (seen \<and> malformed_eap eap)"
  shows "\<exists>ma. verify_access request (access_reply secret request code vs) secret peer =
    Inr \<lparr>ar_code = code, ar_attributes = vs @ [(80, ma)], ar_peer = peer,
         ar_request_authenticator = slice 4 20 request, ar_peer_result = 0, ar_tls_errors = 0\<rparr>"
  using access_reply_accepted [OF assms(1-7), of secret peer] assms(8) by blast

lemma honest_access_reply_witness:
  "\<exists>ma. verify_access ([1, 7, 0, 25] @ replicate 16 9 @ [1, 5, 65, 66, 67])
      (access_reply [115] ([1, 7, 0, 25] @ replicate 16 9 @ [1, 5, 65, 66, 67]) 2
         [(79, [3, 7]), (79, [0, 4]), (24, [1])]) [115] (IPv4 [127, 0, 0, 1], 1812) =
    Inr \<lparr>ar_code = 2, ar_attributes = [(79, [3, 7]), (79, [0, 4]), (24, [1])] @ [(80, ma)],
         ar_peer = (IPv4 [127, 0, 0, 1], 1812),
         ar_request_authenticator = replicate 16 9, ar_peer_result = 0, ar_tls_errors = 0\<rparr>"
proof -
  let ?q = "[1, 7, 0, 25] @ replicate 16 9 @ [1, 5, 65, 66, 67] :: bytes"
  have p: "packet_attributes ?q = Inr (?q, [(1, [65, 66, 67])])" by code_simp
  have e: "eap_run [(79, [3, 7]), (79, [0, 4]), (24, [1])] [3, 7, 0, 4] True"
    by (simp add: eap_loop_runs [symmetric])
  have m: "\<not> malformed_eap [3, 7, 0, 4]" by code_simp
  have "slice 4 20 ?q = replicate 16 9" by (simp add: slice_def)
  then show ?thesis
    using honest_access_reply [OF p _ _ _ _ _ e, of 2 "[115]"] m by (simp add: tlv_def)
qed

end
