(* ===== verification/Configuration.thy ===== *)
theory Configuration
  imports Identifiers
begin

text \<open>
  The configuration of \<open>switchlab/models.py\<close>: one record per model class, with the field
  constraints and validators of that class as a predicate or a check that returns the error.
  Text is stored as code points, addresses as packed octets and object identifiers as arcs
  (their normal forms). The dictionaries are insertion ordered. Certificate parsing
  (\<open>cryptography\<close>) is not under the repository: \<open>RadiusMaterial\<close> keeps its octets as text, and
  their validity is no part of the model.
\<close>

type_synonym uid = pystr

definition fits :: "nat \<Rightarrow> pystr \<Rightarrow> bool" where
  \<comment> \<open>the wire limit of \<open>Record.octet_limits\<close>: encodable and at most so many octets\<close>
  "fits limit s = (case utf8_encode s of None \<Rightarrow> False | Some b \<Rightarrow> length b \<le> limit)"

subsection \<open>Switch and ports\<close>

record identity =
  sys_descr :: pystr
  sys_object_id :: "oid option"

definition valid_identity :: "identity \<Rightarrow> bool" where
  "valid_identity i \<longleftrightarrow> length (sys_descr i) \<le> 255 \<and> fits 255 (sys_descr i)"

record switch =
  sw_id :: uid
  sw_name :: pystr
  sw_description :: pystr
  sw_contact :: pystr
  sw_location :: pystr
  sw_identity :: identity
  base_mac :: pystr
  port_count :: int
  next_bridge_port :: int
  next_if_index :: int
  legacy_vlan :: int
  aging_seconds :: int
  fdb_limit :: int
  endpoint_limit :: int
  source_limit :: int
  queue_limit :: int

definition between :: "int \<Rightarrow> int \<Rightarrow> int \<Rightarrow> bool" where
  "between lo hi x \<longleftrightarrow> lo \<le> x \<and> x \<le> hi"

definition valid_switch :: "switch \<Rightarrow> bool" where
  "valid_switch s \<longleftrightarrow>
     list_all (\<lambda>t. length t \<le> 255 \<and> fits 255 t)
       [sw_name s, sw_description s, sw_contact s, sw_location s] \<and>
     valid_identity (sw_identity s) \<and> mac (base_mac s) = Inr (base_mac s) \<and>
     between 0 256 (port_count s) \<and> between 1 65536 (next_bridge_port s) \<and>
     between 1 2147483648 (next_if_index s) \<and> between 1 4094 (legacy_vlan s) \<and>
     between 10 1000000 (aging_seconds s) \<and> between 1 100000 (fdb_limit s) \<and>
     between 1 10000 (endpoint_limit s) \<and> between 1 40000 (source_limit s) \<and>
     between 1 10000 (queue_limit s)"

datatype control = Force_authorized | Auto | Force_unauthorized
datatype port_method = Dot1x | Mab | Dot1x_mab
datatype host_mode = Single_host | Multi_auth | Multi_host
datatype port_mode = Direct | Shared

record port_authentication =
  pa_control :: control
  pa_method :: port_method
  pa_host_mode :: host_mode
  fallback_no_supplicant :: bool
  fallback_reject :: bool

record port =
  p_id :: uid
  bridge_port :: int
  if_index :: int
  p_name :: pystr
  p_alias :: pystr
  admin_up :: bool
  mode :: port_mode
  shared_partner :: bool
  forced_down :: bool
  speed :: int
  mtu :: int
  pvid :: int
  admitted :: "int list"
  untagged :: "int list"
  forbidden :: "int list"
  link_notifications :: bool
  authentication :: port_authentication

definition valid_port :: "port \<Rightarrow> bool" where
  "valid_port p \<longleftrightarrow>
     between 1 65535 (bridge_port p) \<and> between 1 2147483647 (if_index p) \<and>
     length (p_name p) \<le> 255 \<and> fits 255 (p_name p) \<and> length (p_alias p) \<le> 64 \<and> fits 64 (p_alias p) \<and>
     between 1 400000000000 (speed p) \<and> between 64 9216 (mtu p) \<and> between 1 4094 (pvid p) \<and>
     length (admitted p) \<le> 4094 \<and> length (untagged p) \<le> 4094 \<and> length (forbidden p) \<le> 4094"

record vlan =
  vid :: int
  vl_name :: pystr
  fdb_id :: int

definition valid_vlan :: "vlan \<Rightarrow> bool" where
  "valid_vlan v \<longleftrightarrow> between 1 4094 (vid v) \<and> fits 32 (vl_name v) \<and> between 1 4294967295 (fdb_id v)"

subsection \<open>RADIUS\<close>

datatype eap_method = Tls | Peap

record supplicant_profile =
  sp_method :: eap_method
  sp_identity :: pystr
  sp_username :: pystr
  sp_password :: "pystr option"
  trust_id :: uid
  client_identity_id :: "uid option"
  server_name :: pystr

definition truthy :: "'a list option \<Rightarrow> bool" where
  \<comment> \<open>Python truth of an optional text: present and nonempty\<close>
  "truthy s = (case s of None \<Rightarrow> False | Some t \<Rightarrow> t \<noteq> [])"

definition supplicant_credentials :: "supplicant_profile \<Rightarrow> string + unit" where
  "supplicant_credentials p =
     (if sp_method p = Tls \<and> \<not> truthy (client_identity_id p)
      then Inl ''Select a client certificate and key''
      else if sp_method p = Peap \<and> (sp_username p = [] \<or> \<not> truthy (sp_password p))
      then Inl ''PEAP requires an inner username and password''
      else Inr ())"

datatype material_kind = Ca | Client

record radius_material =
  m_id :: uid
  m_label :: pystr
  m_kind :: material_kind
  certificate :: pystr
  private_key :: "pystr option"
  key_password :: "pystr option"

record supplicant_template =
  t_id :: uid
  t_label :: pystr
  t_revision :: int
  t_profile :: supplicant_profile

record radius_server =
  rs_id :: uid
  rs_label :: pystr
  rs_enabled :: bool
  rs_address :: ip
  rs_port :: int
  rs_secret :: pystr
  rs_source :: "ip option"

definition secret_bytes :: "pystr \<Rightarrow> string + pystr" where
  "secret_bytes secret =
     (if 0 \<notin> set secret \<and>
         (case utf8_encode secret of None \<Rightarrow> False | Some b \<Rightarrow> 1 \<le> length b \<and> length b \<le> 4096)
      then Inr secret
      else Inl ''Shared secret must be UTF-8 without NUL, at most 4096 octets'')"

definition address_family :: "radius_server \<Rightarrow> string + unit" where
  "address_family s =
     (case rs_source s of
        Some src \<Rightarrow> if ip_version src \<noteq> ip_version (rs_address s)
          then Inl ''RADIUS source and destination address families must match'' else Inr ()
      | None \<Rightarrow> Inr ())"

record accounting_settings =
  ac_enabled :: bool
  ac_response_timeout :: int
  ac_attempts :: int
  ac_retry_backoff :: int
  ac_interim :: "int option"
  ac_targets :: "radius_server list"

definition interim_interval :: "int option \<Rightarrow> string + int option" where
  "interim_interval i =
     (case i of Some n \<Rightarrow>
        if 0 < n \<and> n < 60 then Inl ''Interim interval must be zero, absent, or at least 60 seconds''
        else Inr i
      | None \<Rightarrow> Inr i)"

definition target_ids :: "accounting_settings \<Rightarrow> string + unit" where
  "target_ids a = (if distinct (map rs_id (ac_targets a)) then Inr ()
     else Inl ''Accounting target IDs must be distinct'')"

record dynamic_sender =
  ds_id :: uid
  ds_label :: pystr
  ds_enabled :: bool
  ds_address :: ip
  ds_secret :: pystr

record dynamic_settings =
  dy_enabled :: bool
  dy_host :: ip
  dy_port :: int
  dy_senders :: "dynamic_sender list"

definition check_sender_addresses :: "dynamic_settings \<Rightarrow> string + unit" where
  "check_sender_addresses d =
     (if distinct (map ds_address (filter ds_enabled (dy_senders d))) then Inr ()
      else Inl ''Enabled dynamic sender IPs must be distinct'')"

definition sender_ids :: "dynamic_settings \<Rightarrow> string + unit" where
  "sender_ids d = (if distinct (map ds_id (dy_senders d)) then check_sender_addresses d
     else Inl ''Dynamic sender IDs must be distinct'')"

datatype text_case = Lower | Upper

record radius_settings =
  response_timeout_seconds :: int
  attempts :: int
  exchange_timeout_seconds :: int
  failed_cycle_retry_seconds :: int
  discovery_seconds :: int
  reauthentication_seconds :: int
  inactivity_seconds :: int
  nas_identifier :: "pystr option"
  nas_ip_address :: "bytes option"
  mab_case :: text_case
  mab_separator :: pystr
  station_case :: text_case
  station_separator :: pystr
  accounting :: accounting_settings
  dynamic_authorization :: dynamic_settings
  servers :: "radius_server list"
  materials :: "(uid, radius_material) dict"
  templates :: "(uid, supplicant_template) dict"

definition valid_radius_options :: "radius_settings \<Rightarrow> bool" where
  "valid_radius_options r \<longleftrightarrow>
     between 1 60 (response_timeout_seconds r) \<and> between 1 10 (attempts r) \<and>
     between 1 60 (exchange_timeout_seconds r) \<and> between 1 86400 (failed_cycle_retry_seconds r) \<and>
     between 1 3600 (discovery_seconds r) \<and> between 0 1000000 (reauthentication_seconds r) \<and>
     between 0 1000000 (inactivity_seconds r) \<and>
     mab_separator r \<in> {[], [58], [45]} \<and> station_separator r \<in> {[], [58], [45]}"

definition identifier_octets :: "pystr option \<Rightarrow> string + pystr option" where
  "identifier_octets i =
     (case i of None \<Rightarrow> Inr i
      | Some s \<Rightarrow>
          if (case utf8_encode s of None \<Rightarrow> False | Some b \<Rightarrow> 1 \<le> length b \<and> length b \<le> 253)
          then Inr i else Inl ''NAS identifier must contain 1-253 UTF-8 octets'')"

definition radius_ids :: "radius_settings \<Rightarrow> string + unit" where
  "radius_ids r =
     (if \<not> distinct (map rs_id (servers r)) then Inl ''RADIUS server IDs must be distinct''
      else if list_ex (\<lambda>(k, m). k \<noteq> m_id m) (materials r) \<or> list_ex (\<lambda>(k, t). k \<noteq> t_id t) (templates r)
      then Inl ''RADIUS record keys must match IDs''
      else Inr ())"

subsection \<open>Endpoints\<close>

datatype vtag = Untagged | Tag int

record source =
  src_id :: uid
  src_mac :: pystr
  tag :: vtag
  initial_delay_ms :: int
  interval_ms :: int
  octets :: int
  supplicant :: "supplicant_profile option"

definition tag_range :: "vtag \<Rightarrow> string + vtag" where
  "tag_range t = (case t of Untagged \<Rightarrow> Inr t
     | Tag v \<Rightarrow> if between 1 4094 v then Inr t else Inl ''VID must be 1-4094, or untagged'')"

definition valid_source :: "source \<Rightarrow> bool" where
  "valid_source s \<longleftrightarrow> mac (src_mac s) = Inr (src_mac s) \<and> succeeds (tag_range (tag s)) \<and>
     between 1 86400000 (initial_delay_ms s) \<and> between 1 86400000 (interval_ms s) \<and>
     between 64 9216 (octets s)"

record endpoint =
  e_id :: uid
  e_name :: pystr
  metadata :: "(pystr, pystr) dict"
  active :: bool
  sources :: "source list"
  e_revision :: int

definition unique_sources :: "endpoint \<Rightarrow> string + unit" where
  "unique_sources e = (if distinct (map src_id (sources e)) then Inr ()
     else Inl ''Source IDs must be unique within an endpoint'')"

definition valid_endpoint :: "endpoint \<Rightarrow> bool" where
  "valid_endpoint e \<longleftrightarrow> 1 \<le> length (e_name e) \<and> length (e_name e) \<le> 255 \<and>
     length (metadata e) \<le> 30 \<and> length (sources e) \<le> 4096 \<and>
     list_all valid_source (sources e) \<and> succeeds (unique_sources e)"


subsection \<open>SNMP access\<close>

record view =
  v_id :: uid
  v_name :: pystr
  includes_oids :: "oid list"

record polling_access =
  pl_enabled :: bool
  pl_view_id :: uid
  pl_networks :: "network list"

record writing_access =
  wr_enabled :: bool
  wr_view_id :: "uid option"
  wr_networks :: "network list"

datatype security_level = NoAuthNoPriv | AuthNoPriv | AuthPriv
datatype auth_protocol = Md5 | Sha1 | Sha224 | Sha256 | Sha384 | Sha512
datatype priv_protocol = Des | Aes128 | Aes192 | Aes256

datatype access =
  V2c polling_access writing_access  \<comment> \<open>\<open>Community\<close>: its own policy\<close>
| V3 "uid option"                    \<comment> \<open>\<open>UsmUser\<close>: the policy of a group\<close>

record credential =
  c_id :: uid
  c_enabled :: bool
  c_label :: pystr
  c_username :: pystr
  c_security_level :: security_level
  c_auth_protocol :: auth_protocol
  c_priv_protocol :: priv_protocol
  c_community :: "pystr option"
  c_auth_key :: "pystr option"
  c_priv_key :: "pystr option"
  c_access :: access

fun is_v3 :: "access \<Rightarrow> bool" where
  "is_v3 (V3 _) = True"
| "is_v3 (V2c _ _) = False"

definition key_length :: "pystr option \<Rightarrow> nat" where
  "key_length k = (case k of None \<Rightarrow> 0 | Some t \<Rightarrow> length t)"

definition credential_security :: "credential \<Rightarrow> string + unit" where
  "credential_security c =
     (if \<not> is_v3 (c_access c) \<and> \<not> truthy (c_community c) then Inl ''A community is required''
      else if \<not> is_v3 (c_access c) \<and> c_security_level c \<noteq> NoAuthNoPriv
      then Inl ''SNMPv2c uses noAuthNoPriv; select SNMPv3 for authentication/privacy''
      else if is_v3 (c_access c) \<and> c_username c = [] then Inl ''A v3 username is required''
      else if is_v3 (c_access c) \<and> c_security_level c \<noteq> NoAuthNoPriv \<and> key_length (c_auth_key c) < 8
      then Inl ''Authentication passphrase requires at least 8 characters''
      else if is_v3 (c_access c) \<and> c_security_level c = AuthPriv \<and> key_length (c_priv_key c) < 8
      then Inl ''Privacy passphrase requires at least 8 characters''
      else Inr ())"

record access_group =
  g_id :: uid
  g_label :: pystr
  minimum_security_level :: security_level
  g_polling :: polling_access
  g_writing :: writing_access

datatype trap_type = LinkUp | LinkDown | ColdStart

record target =
  tg_id :: uid
  tg_address :: ip
  tg_port :: int
  tg_credential_id :: uid
  tg_enabled :: bool
  tg_types :: "trap_type list"
  tg_source :: "ip option"

record snmp_settings =
  sn_enabled :: bool
  sn_host :: ip
  sn_port :: int
  max_varbinds :: int

record configuration =
  radius :: radius_settings
  cfg_switch :: switch
  ports :: "(uid, port) dict"
  vlans :: "(int, vlan) dict"
  endpoints :: "(uid, endpoint) dict"
  attachments :: "(uid, uid) dict"
  paused :: bool
  snmp :: snmp_settings
  views :: "(uid, view) dict"
  credentials :: "(uid, credential) dict"
  groups :: "(uid, access_group) dict"
  targets :: "(uid, target) dict"

definition has :: "('k, 'v) dict \<Rightarrow> 'k \<Rightarrow> bool" where
  "has d k \<longleftrightarrow> map_of d k \<noteq> None"

definition vals :: "('k, 'v) dict \<Rightarrow> 'v list" where
  "vals d = map snd d"

definition incoming_policy ::
  "configuration \<Rightarrow> credential \<Rightarrow> (polling_access \<times> writing_access \<times> security_level option) option" where
  \<comment> \<open>the policy object: a community itself, or the group a user selects\<close>
  "incoming_policy cfg c =
     (case c_access c of V2c pl wr \<Rightarrow> Some (pl, wr, None)
      | V3 g \<Rightarrow> (case g of None \<Rightarrow> None
          | Some gid \<Rightarrow> (case map_of (groups cfg) gid of None \<Rightarrow> None
              | Some grp \<Rightarrow> Some (g_polling grp, g_writing grp, Some (minimum_security_level grp)))))"

subsection \<open>Cross references\<close>

fun first_error :: "(string + unit) list \<Rightarrow> string + unit" where
  \<comment> \<open>checks run in order; the first failure is raised\<close>
  "first_error [] = Inr ()"
| "first_error (r # rs) = bind r (\<lambda>_. first_error rs)"

definition check :: "bool \<Rightarrow> string \<Rightarrow> string + unit" where
  "check ok message = (if ok then Inr () else Inl message)"

definition check_port :: "configuration \<Rightarrow> uid \<Rightarrow> port \<Rightarrow> string + unit" where
  "check_port cfg key p =
     (if key \<noteq> p_id p \<or> pvid p \<notin> set (admitted p) \<or> list_ex (\<lambda>v. \<not> has (vlans cfg) v) (admitted p)
      then Inl ''Every PVID must be admitted; all memberships must exist''
      else bind (first_error (map (\<lambda>memberships.
          if \<not> distinct memberships then Inl ''Duplicate VLAN membership''
          else if list_ex (\<lambda>v. \<not> has (vlans cfg) v) memberships
          then Inl ''All VLAN memberships must exist''
          else Inr ()) [admitted p, untagged p, forbidden p])) (\<lambda>_.
        if \<not> set (untagged p) \<subseteq> set (admitted p) \<or> set (forbidden p) \<inter> set (admitted p) \<noteq> {}
        then Inl ''Untagged VLANs must be admitted; forbidden VLANs cannot be admitted''
        else Inr ()))"

definition supplicant_profiles :: "configuration \<Rightarrow> supplicant_profile list" where
  "supplicant_profiles cfg =
     map t_profile (vals (templates (radius cfg))) @
     concat (map (\<lambda>e. List.map_filter supplicant (sources e)) (vals (endpoints cfg)))"

definition optional_lookup :: "('k, 'v) dict \<Rightarrow> 'k option \<Rightarrow> 'v option" where
  "optional_lookup d k = (case k of None \<Rightarrow> None | Some k \<Rightarrow> map_of d k)"

definition check_profile :: "configuration \<Rightarrow> supplicant_profile option \<Rightarrow> string + unit" where
  "check_profile cfg profile =
     (case profile of None \<Rightarrow> Inr ()
      | Some p \<Rightarrow>
        let trust = map_of (materials (radius cfg)) (trust_id p);
            ident = optional_lookup (materials (radius cfg)) (client_identity_id p);
            no_client = (case ident of None \<Rightarrow> True | Some m \<Rightarrow> m_kind m \<noteq> Client)
        in if (case trust of None \<Rightarrow> True | Some m \<Rightarrow> m_kind m \<noteq> Ca)
           then Inl ''Select an existing RADIUS trust bundle''
           else if sp_method p = Tls \<and> no_client
           then Inl ''Select an existing client certificate and key''
           else if client_identity_id p \<noteq> None \<and> no_client
           then Inl ''Unknown client identity reference''
           else Inr ())"

definition check_material_dependents :: "configuration \<Rightarrow> uid \<Rightarrow> string + unit" where
  "check_material_dependents cfg ident =
     first_error (map (\<lambda>p. if trust_id p = ident \<or> client_identity_id p = Some ident
       then check_profile cfg (Some p) else Inr ()) (supplicant_profiles cfg))"

definition check_policy :: "configuration \<Rightarrow> polling_access \<Rightarrow> writing_access \<Rightarrow> string + unit" where
  "check_policy cfg pl wr =
     (if pl_enabled pl \<and> \<not> has (views cfg) (pl_view_id pl) then Inl ''Unknown read view''
      else if wr_enabled wr \<and> optional_lookup (views cfg) (wr_view_id wr) = None
      then Inl ''Select an existing write view''
      else Inr ())"

definition credential_identity :: "credential \<Rightarrow> bool \<times> pystr option" where
  "credential_identity c =
     (if is_v3 (c_access c) then (True, Some (c_username c)) else (False, c_community c))"

definition check_credential_identities :: "configuration \<Rightarrow> string + unit" where
  "check_credential_identities cfg =
     check (distinct (map credential_identity (filter c_enabled (vals (credentials cfg)))))
       ''Enabled communities and usernames must be unique''"

definition check_credential :: "configuration \<Rightarrow> credential \<Rightarrow> bool \<Rightarrow> string + unit" where
  "check_credential cfg c unique =
     bind (case c_access c of
         V3 g \<Rightarrow> check (g = None \<or> optional_lookup (groups cfg) g \<noteq> None) ''Unknown SNMPv3 group''
       | V2c pl wr \<Rightarrow> check_policy cfg pl wr) (\<lambda>_.
       if unique \<and> c_enabled c then check_credential_identities cfg else Inr ())"

definition check_target :: "configuration \<Rightarrow> target \<Rightarrow> string + unit" where
  "check_target cfg t =
     (if \<not> has (credentials cfg) (tg_credential_id t) then Inl ''Unknown target credential''
      else case tg_source t of
        Some src \<Rightarrow> check (ip_version src = ip_version (tg_address t))
          ''Target and source IP families must match''
      | None \<Rightarrow> Inr ())"

definition snmp_limit :: "('k, 'v) dict \<Rightarrow> string + unit" where
  "snmp_limit d = check (length d \<le> 100) ''At most 100 credentials, groups, targets and views''"

definition references :: "configuration \<Rightarrow> string + unit" where
  "references cfg = first_error (
     [check (has (vlans cfg) 1 \<and> has (vlans cfg) (legacy_vlan (cfg_switch cfg)))
        ''VLAN 1 and the legacy VLAN must exist'',
      check (distinct (map fdb_id (vals (vlans cfg)))) ''FDB IDs must be distinct'',
      check (int (length (ports cfg)) = port_count (cfg_switch cfg))
        ''Port count must match the physical inventory'',
      check (distinct (map if_index (vals (ports cfg)))) ''Port indexes must be unique'',
      check (list_all (\<lambda>p. if_index p < next_if_index (cfg_switch cfg)) (vals (ports cfg)))
        ''Port allocator must exceed every issued live index'',
      check (distinct (map bridge_port (vals (ports cfg)))) ''Port indexes must be unique'',
      check (list_all (\<lambda>p. bridge_port p < next_bridge_port (cfg_switch cfg)) (vals (ports cfg)))
        ''Port allocator must exceed every issued live index''] @
     map (\<lambda>(key, p). bind (check_port cfg key p) (\<lambda>_.
        check (\<not> (mode p = Direct \<and> 1 < count_list (vals (attachments cfg)) key))
          ''Direct ports accept one endpoint'')) (ports cfg) @
     [check (list_all (\<lambda>(k, e). k = e_id e) (endpoints cfg) \<and> list_all (\<lambda>(k, v). k = vid v) (vlans cfg))
        ''Record keys must match their IDs'',
      check (list_all (\<lambda>(e, p). has (endpoints cfg) e \<and> has (ports cfg) p) (attachments cfg))
        ''Invalid attachment reference''] @
     map (\<lambda>p. check_profile cfg (Some p)) (supplicant_profiles cfg) @
     map (\<lambda>c. check_credential cfg c False) (vals (credentials cfg)) @
     [check (list_all (\<lambda>(k, g). k = g_id g) (groups cfg)) ''Group keys must match their IDs''] @
     map (\<lambda>g. check_policy cfg (g_polling g) (g_writing g)) (vals (groups cfg)) @
     [check_credential_identities cfg] @
     map (check_target cfg) (vals (targets cfg)) @
     [snmp_limit (credentials cfg), snmp_limit (groups cfg), snmp_limit (targets cfg),
      snmp_limit (views cfg)])"

subsection \<open>Initial configuration\<close>

definition default_port_authentication :: port_authentication where
  "default_port_authentication =
     \<lparr>pa_control = Force_authorized, pa_method = Dot1x_mab, pa_host_mode = Single_host,
      fallback_no_supplicant = True, fallback_reject = False\<rparr>"

definition default_port :: "uid \<Rightarrow> int \<Rightarrow> int \<Rightarrow> pystr \<Rightarrow> port" where
  "default_port ident bridge index nm =
     \<lparr>p_id = ident, bridge_port = bridge, if_index = index, p_name = nm, p_alias = [], admin_up = True,
      mode = Direct, shared_partner = False, forced_down = False, speed = 1000000000, mtu = 1500,
      pvid = 1, admitted = [1], untagged = [1], forbidden = [], link_notifications = True,
      authentication = default_port_authentication\<rparr>"

definition default_vlan :: vlan where
  "default_vlan = \<lparr>vid = 1, vl_name = str ''Default'', fdb_id = 1001\<rparr>"

definition default_views :: "bool \<Rightarrow> (uid, view) dict" where
  "default_views legacy =
     [(str ''all'', \<lparr>v_id = str ''all'', v_name = str (if legacy then ''All implemented objects'' else ''iso''),
        includes_oids = (if legacy then [[1, 3, 6, 1, 2, 1]] else [[1]])\<rparr>)] @
     (if legacy then [] else
       [(str ''internet'', \<lparr>v_id = str ''internet'', v_name = str ''internet'',
          includes_oids = [[1, 3, 6, 1]]\<rparr>)]) @
     [(str ''interfaces'', \<lparr>v_id = str ''interfaces'', v_name = str ''Identity and interfaces'',
        includes_oids = [[1, 3, 6, 1, 2, 1, 1], [1, 3, 6, 1, 2, 1, 2], [1, 3, 6, 1, 2, 1, 31]]\<rparr>)]"

definition default_accounting :: accounting_settings where
  "default_accounting = \<lparr>ac_enabled = False, ac_response_timeout = 3, ac_attempts = 3,
     ac_retry_backoff = 1, ac_interim = None, ac_targets = []\<rparr>"

definition default_dynamic :: dynamic_settings where
  "default_dynamic = \<lparr>dy_enabled = False, dy_host = IPv4 [127, 0, 0, 1], dy_port = 3799,
     dy_senders = []\<rparr>"

definition default_radius :: radius_settings where
  "default_radius = \<lparr>response_timeout_seconds = 3, attempts = 3, exchange_timeout_seconds = 60,
     failed_cycle_retry_seconds = 60, discovery_seconds = 3, reauthentication_seconds = 0,
     inactivity_seconds = 0, nas_identifier = None, nas_ip_address = None, mab_case = Lower,
     mab_separator = [], station_case = Upper, station_separator = [45],
     accounting = default_accounting, dynamic_authorization = default_dynamic,
     servers = [], materials = [], templates = []\<rparr>"

definition default_snmp :: snmp_settings where
  "default_snmp = \<lparr>sn_enabled = False, sn_host = IPv4 [127, 0, 0, 1], sn_port = 161, max_varbinds = 256\<rparr>"

definition default_identity :: identity where
  "default_identity = \<lparr>sys_descr = str ''Generic SNMP Switch Emulator'', sys_object_id = None\<rparr>"

definition default_switch :: "uid \<Rightarrow> switch" where
  "default_switch ident =
     \<lparr>sw_id = ident, sw_name = str ''Switch Lab'',
      sw_description = str ''Generic Ethernet switch management simulation'',
      sw_contact = [], sw_location = [], sw_identity = default_identity,
      base_mac = str ''02:00:00:00:00:01'', port_count = 0, next_bridge_port = 1,
      next_if_index = 101, legacy_vlan = 1, aging_seconds = 300, fdb_limit = 16384,
      endpoint_limit = 10000, source_limit = 40000, queue_limit = 1024\<rparr>"

definition initial_configuration :: "uid \<Rightarrow> uid list \<Rightarrow> configuration" where
  \<comment> \<open>the \<open>uuid4\<close> results are arguments: the switch's, then one per port\<close>
  "initial_configuration switch_uid port_uids =
     (let n = int (length port_uids);
          sw = (default_switch switch_uid)\<lparr>port_count := n, next_bridge_port := n + 1,
                  next_if_index := 101 + n\<rparr>;
          ps = map (\<lambda>(i, u). default_port u (int i) (100 + int i) (str ''Ethernet'' @ decimal i))
                 (enumerate 1 port_uids)
      in \<lparr>radius = default_radius, cfg_switch = sw,
          ports = foldl (\<lambda>d p. put (p_id p) p d) [] ps,
          vlans = [(1, default_vlan)], endpoints = [], attachments = [], paused = False,
          snmp = default_snmp, views = default_views False, credentials = [], groups = [],
          targets = []\<rparr>)"

subsection \<open>The initial configuration is valid\<close>

lemma put_fresh: "k \<notin> set (keys d) \<Longrightarrow> put k v d = d @ [(k, v)]"
  by (induction d) auto

lemma foldl_put_fresh:
  "distinct (map f xs) \<Longrightarrow> set (map f xs) \<inter> set (keys d) = {} \<Longrightarrow>
    foldl (\<lambda>d x. put (f x) x d) d xs = d @ map (\<lambda>x. (f x, x)) xs"
proof (induction xs arbitrary: d)
  case (Cons x xs)
  then show ?case using put_fresh [of "f x" d x] by simp
qed simp

definition initial_port :: "nat \<times> uid \<Rightarrow> port" where
  "initial_port iu = (case iu of (i, u) \<Rightarrow>
     default_port u (int i) (100 + int i) (str ''Ethernet'' @ decimal i))"

lemma initial_ports:
  assumes "distinct us"
  shows "ports (initial_configuration u us) = map (\<lambda>iu. (snd iu, initial_port iu)) (enumerate 1 us)"
proof -
  let ?ps = "map initial_port (enumerate 1 us)"
  have id: "p_id (initial_port iu) = snd iu" for iu
    by (cases iu) (simp add: initial_port_def default_port_def)
  have "map p_id ?ps = us" by (simp add: id comp_def)
  then have "foldl (\<lambda>d p. put (p_id p) p d) [] ?ps = map (\<lambda>p. (p_id p, p)) ?ps"
    using foldl_put_fresh [of p_id ?ps "[]"] assms by simp
  then show ?thesis
    by (simp add: initial_configuration_def Let_def initial_port_def [abs_def, symmetric] id comp_def)
qed

text \<open>The first configuration of an installation satisfies every cross reference, for any number
  of ports with distinct identifiers.\<close>

theorem initial_configuration_valid:
  assumes "distinct us"
  shows "references (initial_configuration u us) = Inr () \<and> is_dict (ports (initial_configuration u us))"
proof -
  let ?c = "initial_configuration u us"
  have cfgd: "vlans ?c = [(1, default_vlan)]" "endpoints ?c = []" "attachments ?c = []"
    "credentials ?c = []" "groups ?c = []" "targets ?c = []" "views ?c = default_views False"
    "radius ?c = default_radius" "legacy_vlan (cfg_switch ?c) = 1"
    "port_count (cfg_switch ?c) = int (length us)" "next_bridge_port (cfg_switch ?c) = int (length us) + 1"
    "next_if_index (cfg_switch ?c) = 101 + int (length us)"
    by (simp_all add: initial_configuration_def Let_def default_switch_def)
  have fields: "p_id (initial_port iu) = snd iu" "bridge_port (initial_port iu) = int (fst iu)"
    "if_index (initial_port iu) = 100 + int (fst iu)" "pvid (initial_port iu) = 1"
    "admitted (initial_port iu) = [1]" "untagged (initial_port iu) = [1]" "forbidden (initial_port iu) = []"
    for iu by (cases iu, simp add: initial_port_def default_port_def)+
  have ps: "ports ?c = map (\<lambda>iu. (snd iu, initial_port iu)) (enumerate 1 us)"
    by (rule initial_ports [OF assms])
  have upt: "distinct (map f (map fst (enumerate 1 us)))" if "inj f" for f :: "nat \<Rightarrow> int"
    unfolding map_fst_enumerate distinct_map by (meson distinct_upt inj_on_subset subset_UNIV that)
  have d: "distinct (map (\<lambda>iu. int (fst iu)) (enumerate 1 us))"
    "distinct (map (\<lambda>iu. 100 + int (fst iu)) (enumerate 1 us))"
    using upt [of int, unfolded map_map comp_def] upt [of "\<lambda>n. 100 + int n", unfolded map_map comp_def]
    by (auto simp: inj_def)
  have le: "fst iu \<le> length us" if "iu \<in> set (enumerate 1 us)" for iu
    using imageI [OF that, of fst] unfolding set_map [symmetric] map_fst_enumerate set_upt by simp
  have checks: "first_error (rs @ rs') = Inr () \<longleftrightarrow> first_error rs = Inr () \<and> first_error rs' = Inr ()"
    for rs rs' :: "(string + unit) list"
    by (induction rs) (auto simp: result_simps)
  have each: "first_error (map f xs) = Inr () \<longleftrightarrow> (\<forall>x \<in> set xs. f x = Inr ())"
    for f :: "'c \<Rightarrow> string + unit" and xs
    by (induction xs) (auto simp: result_simps)
  have "check_port ?c (snd iu) (initial_port iu) = Inr ()" for iu
    by (simp add: check_port_def fields cfgd has_def result_simps)
  then have "references ?c = Inr ()"
    using d
    by (simp add: references_def checks each cfgd ps vals_def has_def default_vlan_def check_def
        fields comp_def default_radius_def supplicant_profiles_def
        check_credential_identities_def snmp_limit_def default_views_def list_all_iff)
      (use le in force)
  then show ?thesis using assms by (simp add: is_dict_def ps comp_def)
qed

lemma initial_configuration_valid_witness:
  "references (initial_configuration [115] [[112], [113], [114]]) = Inr ()"
  using initial_configuration_valid [of "[[112], [113], [114]]"] by simp

end
