(* ===== verification/Radius_Access.thy ===== *)
theory Radius_Access
  imports Radius_Reply Configuration "HOL-Library.Multiset"
begin

text \<open>
  What an authenticated Access-Accept permits (\<open>authorization\<close> of \<open>switchlab/radius.py\<close>): the
  attribute loop with its recognised and refused controls, the tunnel group that selects a VLAN,
  and the session limits. Also the attributes of an outgoing request (NAS identity, station
  identifiers) and the public summary of a reply.
\<close>

record nas_identity =
  nas_id :: bytes
  nas_ipv4 :: "bytes option"

definition resolve_nas_identity :: "configuration \<Rightarrow> py_error + nas_identity" where
  "resolve_nas_identity cfg =
     (let nm = (case nas_identifier (radius cfg) of Some i \<Rightarrow> i | None \<Rightarrow> sw_name (cfg_switch cfg))
      in case utf8_encode nm of
           None \<Rightarrow> Inl (RadiusError ''nas_identifier_override_required'')
         | Some encoded \<Rightarrow>
             if \<not> (1 \<le> length encoded \<and> length encoded \<le> 253)
             then Inl (RadiusError ''nas_identifier_override_required'')
             else Inr \<lparr>nas_id = encoded, nas_ipv4 = nas_ip_address (radius cfg)\<rparr>)"

datatype vlan_source = Port_default | From_radius

record authorization =
  au_vid :: int
  au_source :: vlan_source
  session_timeout :: "int option"
  idle_timeout :: "int option"
  termination_action :: int
  classes :: "bytes list"
  au_state :: "bytes option"
  interim_seconds :: "int option"
  accounting_warning :: "string option"
  au_username :: "bytes option"

subsection \<open>The attribute loop\<close>

definition unsupported_access_controls :: "int list" where
  "unsupported_access_controls =
     [7, 13, 8, 9, 10, 22, 23, 11, 12, 14, 15, 16, 19, 20, 34, 35, 36, 37, 38, 39, 62, 63,
      88, 96, 97, 98, 99, 100, 66, 67, 69, 82, 90, 91]"

datatype decoded = Number int | Octets bytes

record authorization_state =
  st_groups :: "(int, (int, decoded) dict) dict"
  st_controls :: "(int, int) dict"
  st_classes :: "bytes list"
  st_state :: "bytes option"
  st_service_seen :: bool

definition initial_authorization :: authorization_state where
  "initial_authorization = \<lparr>st_groups = [], st_controls = [], st_classes = [], st_state = None,
     st_service_seen = False\<rparr>"

function vendor_loop :: "bytes \<Rightarrow> nat \<Rightarrow> py_error + unit" where
  "vendor_loop v position =
     (if position < length v then
        if length v < position + 2 \<or> unat (v ! (position + 1)) < 2
        then Inl (RadiusError ''malformed_vendor'')
        else let e = position + unat (v ! (position + 1))
             in if length v < e then Inl (RadiusError ''malformed_vendor'')
                else if v ! position \<notin> {16, 17} then Inl (RadiusError ''unsupported_vendor'')
                else vendor_loop v e
      else Inr ())"
  by pat_completeness auto
termination
  by (relation "measure (\<lambda>(v, position). length v - position)") auto

declare vendor_loop.simps [simp del]

definition decode_tunnel :: "int \<Rightarrow> bytes \<Rightarrow> py_error + (int \<times> decoded)" where
  \<comment> \<open>the tag and value of Tunnel-Type, Tunnel-Medium-Type and Tunnel-Private-Group-ID\<close>
  "decode_tunnel kind v =
     (if kind \<in> {64, 65} then
        if length v \<noteq> 4 \<or> 31 < uint (v ! 0) then Inl (RadiusError ''malformed_tunnel'')
        else Inr (uint (v ! 0), Number (be_int (drop 1 v)))
      else if v = [] then Inl (RadiusError ''malformed_tunnel'')
      else if uint (v ! 0) \<le> 31 then Inr (uint (v ! 0), Octets (drop 1 v))
      else Inr (0, Octets v))"

definition group_of :: "int \<Rightarrow> authorization_state \<Rightarrow> (int, decoded) dict" where
  "group_of t st = (case map_of (st_groups st) t of None \<Rightarrow> [] | Some g \<Rightarrow> g)"

definition authorization_step ::
  "attribute \<Rightarrow> authorization_state \<Rightarrow> py_error + authorization_state" where
  "authorization_step a st = (case a of (kind, v) \<Rightarrow>
     if kind \<in> set unsupported_access_controls then Inl (RadiusError ''unsupported_access_control'')
     else if kind = 6 then
       if st_service_seen st \<or> length v \<noteq> 4 \<or> be_int v \<noteq> 2
       then Inl (RadiusError ''unsupported_service'')
       else Inr (st\<lparr>st_service_seen := True\<rparr>)
     else if kind = 26 then
       if length v < 6 \<or> be_int (take 4 v) \<noteq> 311 then Inl (RadiusError ''unsupported_vendor'')
       else bind (vendor_loop v 4) (\<lambda>_. Inr st)
     else if kind \<in> {64, 65, 81} then
       bind (decode_tunnel kind v) (\<lambda>(t, value).
         if has (group_of t st) kind then Inl (RadiusError ''ambiguous_tunnel'')
         else Inr (st\<lparr>st_groups := put t (put kind value (group_of t st)) (st_groups st)\<rparr>))
     else if kind \<in> {27, 28, 29} then
       if has (st_controls st) kind \<or> length v \<noteq> 4
       then Inl (RadiusError ''invalid_session_control'')
       else if kind = 29 \<and> be_int v \<notin> {0, 1}
       then Inl (RadiusError ''unsupported_termination_action'')
       else Inr (st\<lparr>st_controls := put kind (be_int v) (st_controls st)\<rparr>)
     else if kind = 25 then
       if v = [] then Inl (RadiusError ''invalid_class'')
       else Inr (st\<lparr>st_classes := st_classes st @ [v]\<rparr>)
     else if kind = 24 then
       if v = [] \<or> st_state st \<noteq> None then Inl (RadiusError ''ambiguous_state'')
       else Inr (st\<lparr>st_state := Some v\<rparr>)
     else Inr st)"

fun authorization_loop ::
  "attribute list \<Rightarrow> authorization_state \<Rightarrow> py_error + authorization_state" where
  "authorization_loop [] st = Inr st"
| "authorization_loop (a # as) st = bind (authorization_step a st) (authorization_loop as)"

definition tunnel_vlan :: "(int, decoded) dict \<Rightarrow> py_error + int" where
  "tunnel_vlan grp =
     (case (map_of grp 64, map_of grp 65, map_of grp 81) of
        (Some (Number t), Some (Number m), Some (Octets raw)) \<Rightarrow>
          if t \<noteq> 13 \<or> m \<noteq> 6 then Inl (RadiusError ''unsupported_tunnel'')
          else if \<not> ascii_digits raw then Inl (RadiusError ''invalid_vlan'')
          else Inr (bytes_decimal raw)
      | _ \<Rightarrow> Inl (RadiusError ''unsupported_tunnel''))"

definition select_vlan ::
  "(int, (int, decoded) dict) dict \<Rightarrow> port \<Rightarrow> py_error + (int \<times> vlan_source)" where
  "select_vlan gs p =
     (case gs of [] \<Rightarrow> Inr (pvid p, Port_default)
      | [(_, grp)] \<Rightarrow> bind (tunnel_vlan grp) (\<lambda>v. Inr (v, From_radius))
      | _ \<Rightarrow> Inl (RadiusError ''ambiguous_tunnel''))"

definition interim_of :: "attribute list \<Rightarrow> int option \<times> string option" where
  "interim_of attrs =
     (case values_of 85 attrs of [] \<Rightarrow> (None, None)
      | [v] \<Rightarrow> if length v = 4 \<and> 60 \<le> be_int v then (Some (be_int v), None)
               else (None, Some ''invalid-server-interim-interval'')
      | _ \<Rightarrow> (None, Some ''invalid-server-interim-interval''))"

definition username_of :: "attribute list \<Rightarrow> bytes option" where
  "username_of attrs =
     (case values_of 1 attrs of [v] \<Rightarrow> if v \<noteq> [] then Some v else None | _ \<Rightarrow> None)"

definition authorization ::
  "access_result \<Rightarrow> port \<Rightarrow> (int, vlan) dict \<Rightarrow> py_error + authorization" where
  "authorization result p vs =
     (if ar_code result \<noteq> 2 then Inl (RadiusError ''not_access_accept'')
      else bind (authorization_loop (ar_attributes result) initial_authorization) (\<lambda>st.
        bind (select_vlan (st_groups st) p) (\<lambda>(v, src).
          if \<not> (1 \<le> v \<and> v \<le> 4094) \<or> \<not> has vs v \<or> v \<in> set (forbidden p)
          then Inl (RadiusError ''unusable_vlan'')
          else Inr \<lparr>au_vid = v, au_source = src,
                session_timeout = map_of (st_controls st) 27,
                idle_timeout = map_of (st_controls st) 28,
                termination_action = (case map_of (st_controls st) 29 of None \<Rightarrow> 0 | Some t \<Rightarrow> t),
                classes = st_classes st, au_state = st_state st,
                interim_seconds = fst (interim_of (ar_attributes result)),
                accounting_warning = snd (interim_of (ar_attributes result)),
                au_username = username_of (ar_attributes result)\<rparr>)))"

subsection \<open>Station identifiers and request attributes\<close>

definition ascii_upper :: "pystr \<Rightarrow> pystr" where
  "ascii_upper s = map (\<lambda>c. if 97 \<le> c \<and> c \<le> 122 then c - 32 else c) s"

fun pairs_of :: "nat \<Rightarrow> pystr \<Rightarrow> pystr list" where
  \<comment> \<open>\<open>[value[i:i+2] for i in range(0, 2*n, 2)]\<close>\<close>
  "pairs_of 0 s = []"
| "pairs_of (Suc n) s = take 2 s # pairs_of n (drop 2 s)"

definition format_station :: "text_case \<Rightarrow> pystr \<Rightarrow> pystr \<Rightarrow> pystr" where
  "format_station c sep address =
     (let v = filter (\<lambda>x. x \<noteq> 58) address;
          v = (if c = Upper then ascii_upper v else v)
      in join sep (pairs_of 6 v))"

definition station_id :: "pystr \<Rightarrow> radius_settings \<Rightarrow> pystr" where
  "station_id address settings =
     format_station (station_case settings) (station_separator settings) address"

definition mab_username :: "pystr \<Rightarrow> radius_settings \<Rightarrow> py_error + bytes" where
  "mab_username address settings =
     (case utf8_encode (format_station (mab_case settings) (mab_separator settings) address) of
        None \<Rightarrow> Inl UnicodeError | Some b \<Rightarrow> Inr b)"

definition encoded :: "pystr \<Rightarrow> py_error + bytes" where
  "encoded s = (case utf8_encode s of None \<Rightarrow> Inl UnicodeError | Some b \<Rightarrow> Inr b)"

definition access_attributes ::
  "radius_settings \<Rightarrow> port \<Rightarrow> pystr \<Rightarrow> pystr \<Rightarrow> bytes option \<Rightarrow> nas_identity \<Rightarrow>
     py_error + attribute list" where
  "access_attributes settings p address session_id state nas =
     bind (encoded (p_name p)) (\<lambda>nm.
     bind (encoded (station_id address settings)) (\<lambda>station.
     bind (encoded session_id) (\<lambda>session.
       let vals = [(5, be_bytes 4 (bridge_port p)), (61, be_bytes 4 15), (87, nm), (31, station),
                   (44, session)]
       in if \<not> (1 \<le> length (nas_id nas) \<and> length (nas_id nas) \<le> 253)
          then Inl (RadiusError ''nas_identifier_override_required'')
          else let vals = vals @ [(32, nas_id nas)]
            in if (case nas_ipv4 nas of None \<Rightarrow> False | Some a \<Rightarrow> length a \<noteq> 4)
               then Inl (RadiusError ''invalid_advertised_ipv4'')
               else let vals = vals @ (case nas_ipv4 nas of None \<Rightarrow> [] | Some a \<Rightarrow> [(4, a)]) @
                                 (case state of None \<Rightarrow> [] | Some s \<Rightarrow> [(24, s)])
                 in bind (encode_attributes vals) (\<lambda>_. Inr vals))))"

subsection \<open>The public summary of a reply\<close>

datatype summary_status = Absent | Invalid | Present int

definition summary_names :: "(int \<times> string) list" where
  "summary_names = [(6, ''Service-Type''), (64, ''Tunnel-Type''), (65, ''Tunnel-Medium-Type''),
     (81, ''Tunnel-Private-Group-ID''), (27, ''Session-Timeout''), (28, ''Idle-Timeout''),
     (29, ''Termination-Action''), (85, ''Acct-Interim-Interval'')]"

definition hidden_names :: "(int \<times> string) list" where
  "hidden_names = [(1, ''User-Name''), (24, ''State''), (25, ''Class''), (26, ''Vendor-Specific''),
     (33, ''Proxy-State''), (79, ''EAP-Message''), (80, ''Message-Authenticator'')]"

definition summary_value :: "int \<Rightarrow> bytes \<Rightarrow> int option" where
  "summary_value kind raw =
     (if kind = 81 then
        let txt = (if raw \<noteq> [] \<and> uint (raw ! 0) \<le> 31 then drop 1 raw else raw)
        in if ascii_digits txt \<and> 1 \<le> bytes_decimal txt \<and> bytes_decimal txt \<le> 4094
           then Some (bytes_decimal txt) else None
      else if kind \<in> {64, 65} then
        if length raw = 4 \<and> uint (raw ! 0) \<le> 31 then Some (be_int (drop 1 raw)) else None
      else if length raw = 4 then
        if (kind = 29 \<and> be_int raw \<notin> {0, 1}) \<or> (kind = 85 \<and> be_int raw < 60) then None
        else Some (be_int raw)
      else None)"

definition summary_item :: "attribute list \<Rightarrow> int \<times> string \<Rightarrow> string \<times> summary_status" where
  "summary_item attrs kn = (case kn of (kind, nm) \<Rightarrow>
     (nm, case values_of kind attrs of [] \<Rightarrow> Absent
        | [raw] \<Rightarrow> (case summary_value kind raw of None \<Rightarrow> Invalid | Some v \<Rightarrow> Present v)
        | _ \<Rightarrow> Invalid))"

record access_summary =
  sum_nas_code :: int
  sum_attributes :: "(string \<times> summary_status) list"
  sum_omitted :: "((string + int) \<times> nat) list"
    \<comment> \<open>a hidden attribute's name, or the number of an unnamed one (\<open>Attribute n\<close>), with its count\<close>

definition safe_access_summary :: "access_result \<Rightarrow> access_summary" where
  "safe_access_summary result =
     (let attrs = ar_attributes result;
          kinds = filter (\<lambda>k. \<not> has summary_names k) (sort (remdups (map fst attrs)))
      in \<lparr>sum_nas_code = ar_code result,
          sum_attributes = map (summary_item attrs) summary_names,
          sum_omitted = map (\<lambda>k. (case map_of hidden_names k of Some nm \<Rightarrow> Inl nm | None \<Rightarrow> Inr k,
                                   length (values_of k attrs))) kinds\<rparr>)"

subsection \<open>What the attribute loop has checked\<close>

lemma authorization_loop_append:
  "authorization_loop (xs @ ys) st = bind (authorization_loop xs st) (authorization_loop ys)"
  by (induction xs arbitrary: st) (simp_all add: bind_def split: sum.splits)

definition tunnel_kinds :: "int set" where
  "tunnel_kinds = {64, 65, 81}"

definition tunnel_key :: "attribute \<Rightarrow> int \<times> int" where
  \<comment> \<open>the tag and kind of a tunnel attribute\<close>
  "tunnel_key a = (case decode_tunnel (fst a) (snd a) of Inl _ \<Rightarrow> (0, fst a) | Inr (t, _) \<Rightarrow> (t, fst a))"

definition tunnels :: "attribute list \<Rightarrow> attribute list" where
  "tunnels attrs = filter (\<lambda>a. fst a \<in> tunnel_kinds) attrs"

definition controls_match :: "attribute list \<Rightarrow> (int, int) dict \<Rightarrow> bool" where
  \<comment> \<open>each of the three limits occurs at most once, as four octets\<close>
  "controls_match attrs cs \<longleftrightarrow> (\<forall>k \<in> {27, 28, 29}. case map_of cs k of
      None \<Rightarrow> values_of k attrs = []
    | Some n \<Rightarrow> (\<exists>v. values_of k attrs = [v] \<and> length v = 4 \<and> be_int v = n)) \<and>
    map_of cs 29 \<in> {None, Some 0, Some 1}"

definition groups_match :: "attribute list \<Rightarrow> authorization_state \<Rightarrow> bool" where
  \<comment> \<open>the groups hold exactly the decoded tunnel attributes, one per tag and kind\<close>
  "groups_match attrs st \<longleftrightarrow>
     is_dict (st_groups st) \<and> (\<forall>t g. map_of (st_groups st) t = Some g \<longrightarrow> g \<noteq> []) \<and>
     (\<forall>t k d. map_of (group_of t st) k = Some d \<longleftrightarrow>
        (\<exists>v. (k, v) \<in> set (tunnels attrs) \<and> decode_tunnel k v = Inr (t, d))) \<and>
     (\<forall>(k, v) \<in> set (tunnels attrs). succeeds (decode_tunnel k v)) \<and>
     distinct (map tunnel_key (tunnels attrs))"

definition accounted :: "attribute list \<Rightarrow> authorization_state \<Rightarrow> bool" where
  "accounted attrs st \<longleftrightarrow>
     \<not> has_kind (set unsupported_access_controls) attrs \<and>
     st_classes st = values_of 25 attrs \<and> [] \<notin> set (values_of 25 attrs) \<and>
     values_of 24 attrs = (case st_state st of None \<Rightarrow> [] | Some s \<Rightarrow> [s]) \<and>
     controls_match attrs (st_controls st) \<and> groups_match attrs st"

lemma accounted_initial: "accounted [] initial_authorization"
  by (simp add: accounted_def initial_authorization_def controls_match_def groups_match_def
      tunnels_def group_of_def)

lemma tunnels_simps [simp]: "tunnels [] = []"
  "tunnels (xs @ ys) = tunnels xs @ tunnels ys"
  "tunnels [a] = (if fst a \<in> tunnel_kinds then [a] else [])"
  by (simp_all add: tunnels_def)

lemma groups_match_other:
  "groups_match attrs st \<Longrightarrow> fst a \<notin> tunnel_kinds \<Longrightarrow> st_groups st' = st_groups st \<Longrightarrow>
    groups_match (attrs @ [a]) st'"
  by (simp add: groups_match_def group_of_def)

lemma controls_match_other:
  "controls_match attrs cs \<Longrightarrow> fst a \<notin> {27, 28, 29} \<Longrightarrow> controls_match (attrs @ [a]) cs"
  by (auto simp: controls_match_def split: option.splits)

lemma controls_match_put:
  assumes "controls_match attrs cs" and "\<not> has cs k" and "k \<in> {27, 28, 29}" and "length v = 4"
    and "k = 29 \<Longrightarrow> be_int v \<in> {0, 1}"
  shows "controls_match (attrs @ [(k, v)]) (put k (be_int v) cs)"
  using assms by (auto simp: controls_match_def lookup_put has_def split: option.splits)

lemma groups_match_put:
  assumes g: "groups_match attrs st" and k: "kind \<in> tunnel_kinds"
    and dec: "decode_tunnel kind v = Inr (t, d)" and new: "\<not> has (group_of t st) kind"
  shows "groups_match (attrs @ [(kind, v)])
    (st\<lparr>st_groups := put t (put kind d (group_of t st)) (st_groups st)\<rparr>)"
proof -
  let ?st = "st\<lparr>st_groups := put t (put kind d (group_of t st)) (st_groups st)\<rparr>"
  have grp: "group_of t' ?st = (if t' = t then put kind d (group_of t st) else group_of t' st)" for t'
    by (simp add: group_of_def lookup_put)
  have none: "map_of (group_of t st) kind = None"
    using new by (simp add: has_def)
  have "(t, kind) \<notin> set (map tunnel_key (tunnels attrs))"
  proof
    assume "(t, kind) \<in> set (map tunnel_key (tunnels attrs))"
    then obtain w where w: "(kind, w) \<in> set (tunnels attrs)" "tunnel_key (kind, w) = (t, kind)"
      by (auto simp: tunnel_key_def split: sum.splits prod.splits)
    then obtain d' where "decode_tunnel kind w = Inr (t, d')"
      using g by (fastforce simp: groups_match_def tunnel_key_def succeeds_iff split: sum.splits prod.splits)
    then show False using w none g unfolding groups_match_def by force
  qed
  moreover have "tunnel_key (kind, v) = (t, kind)"
    by (simp add: tunnel_key_def dec)
  moreover have "\<forall>t g. map_of (st_groups ?st) t = Some g \<longrightarrow> g \<noteq> []"
    using g by (auto simp: groups_match_def lookup_put update_nonempty)
  moreover have "map_of (group_of t' ?st) k' = Some d' \<longleftrightarrow>
      (\<exists>w. (k', w) \<in> set (tunnels (attrs @ [(kind, v)])) \<and> decode_tunnel k' w = Inr (t', d'))" for t' k' d'
  proof -
    have old: "map_of (group_of t' st) k' = Some d' \<longleftrightarrow>
      (\<exists>w. (k', w) \<in> set (tunnels attrs) \<and> decode_tunnel k' w = Inr (t', d'))"
      using g by (simp add: groups_match_def)
    show ?thesis
      using old none k dec by (auto simp: grp lookup_put)
  qed
  ultimately show ?thesis
    using g k dec by (auto simp: groups_match_def)
qed

lemma accounted_step:
  assumes acc: "accounted attrs st" and step: "authorization_step a st = Inr st'"
  shows "accounted (attrs @ [a]) st'"
proof -
  obtain kind v where a: "a = (kind, v)" by (cases a)
  have ok: "kind \<notin> set unsupported_access_controls"
    using step by (auto simp: authorization_step_def a split: if_splits)
  consider (tunnel) "kind \<in> tunnel_kinds" | (control) "kind \<in> {27, 28, 29}" | (cls) "kind = 25"
    | (state) "kind = 24"
    | (other) "kind \<notin> tunnel_kinds" "kind \<notin> {27, 28, 29}" "kind \<noteq> 25" "kind \<noteq> 24"
    by blast
  then show ?thesis
  proof cases
    case tunnel
    then have "kind \<noteq> 6" "kind \<noteq> 26" "kind \<noteq> 25" "kind \<noteq> 24" "kind \<notin> {27, 28, 29}" "kind \<in> {64, 65, 81}"
      by (auto simp: tunnel_kinds_def)
    moreover from this obtain t d where dec: "decode_tunnel kind v = Inr (t, d)"
      and new: "\<not> has (group_of t st) kind"
      and st': "st' = st\<lparr>st_groups := put t (put kind d (group_of t st)) (st_groups st)\<rparr>"
      using step ok by (auto simp: authorization_step_def a result_simps split: if_splits)
    ultimately show ?thesis
      using acc ok groups_match_put [OF _ tunnel dec new] controls_match_other [of attrs _ a]
      by (simp add: accounted_def a)
  next
    case control
    then have k: "kind \<noteq> 6" "kind \<noteq> 26" "kind \<noteq> 25" "kind \<noteq> 24" "kind \<notin> {64, 65, 81}" by auto
    then have new: "\<not> has (st_controls st) kind" "length v = 4" "kind = 29 \<Longrightarrow> be_int v \<in> {0, 1}"
      and st': "st' = st\<lparr>st_controls := put kind (be_int v) (st_controls st)\<rparr>"
      using step ok control by (auto simp: authorization_step_def a split: if_splits)
    have "groups_match (attrs @ [a]) st'"
      using acc k by (intro groups_match_other [of attrs st]) (auto simp: accounted_def a st' tunnel_kinds_def)
    then show ?thesis
      using acc ok k st' controls_match_put [OF _ new(1) control new(2,3)]
      by (simp add: accounted_def a)
  next
    case cls
    then have st': "st' = st\<lparr>st_classes := st_classes st @ [v]\<rparr>" "v \<noteq> []"
      using step ok by (auto simp: authorization_step_def a split: if_splits)
    have "groups_match (attrs @ [a]) st'"
      using acc cls by (intro groups_match_other [of attrs st]) (auto simp: accounted_def a st' tunnel_kinds_def)
    then show ?thesis
      using acc ok st' cls controls_match_other [of attrs _ a] by (simp add: accounted_def a)
  next
    case state
    then have st': "st' = st\<lparr>st_state := Some v\<rparr>" "st_state st = None"
      using step ok by (auto simp: authorization_step_def a split: if_splits)
    have "groups_match (attrs @ [a]) st'"
      using acc state by (intro groups_match_other [of attrs st]) (auto simp: accounted_def a st' tunnel_kinds_def)
    then show ?thesis
      using acc ok st' state controls_match_other [of attrs _ a] by (simp add: accounted_def a)
  next
    case other
    then have st': "st_groups st' = st_groups st" "st_controls st' = st_controls st"
      "st_classes st' = st_classes st" "st_state st' = st_state st"
      using step by (auto simp: authorization_step_def a tunnel_kinds_def result_simps split: if_splits)
    have "groups_match (attrs @ [a]) st'"
      using acc other by (intro groups_match_other [of attrs st]) (auto simp: accounted_def a st')
    then show ?thesis
      using acc ok st' other controls_match_other [of attrs _ a] by (simp add: accounted_def a)
  qed
qed

lemma accounted_loop:
  "authorization_loop attrs initial_authorization = Inr st \<Longrightarrow> accounted attrs st"
proof (induction attrs arbitrary: st rule: rev_induct)
  case Nil
  then show ?case by (simp add: accounted_initial)
next
  case (snoc a attrs)
  then show ?case
    by (auto simp: authorization_loop_append result_simps intro: accounted_step)
qed

subsection \<open>What an authorization grants\<close>

lemma one_group:
  assumes g: "groups_match attrs st" and one: "st_groups st = [(t, grp)]"
    and v: "tunnel_vlan grp = Inr vlan_id"
  shows "\<exists>tt tm raw. mset (tunnels attrs) = {#(64, tt), (65, tm), (81, raw)#} \<and>
    decode_tunnel 64 tt = Inr (t, Number 13) \<and> decode_tunnel 65 tm = Inr (t, Number 6) \<and>
    (\<exists>digits. decode_tunnel 81 raw = Inr (t, Octets digits) \<and> ascii_digits digits \<and>
       vlan_id = bytes_decimal digits)"
proof -
  have lk: "map_of (group_of t' st) k = Some d \<longleftrightarrow>
      (\<exists>v. (k, v) \<in> set (tunnels attrs) \<and> decode_tunnel k v = Inr (t', d))" for t' k d
    using g by (simp add: groups_match_def)
  have grp: "group_of t st = grp" and none: "t' \<noteq> t \<Longrightarrow> group_of t' st = []" for t'
    by (simp_all add: group_of_def one)
  obtain digits where d: "map_of grp 64 = Some (Number 13)" "map_of grp 65 = Some (Number 6)"
    "map_of grp 81 = Some (Octets digits)" "ascii_digits digits" "vlan_id = bytes_decimal digits"
    using v by (auto simp: tunnel_vlan_def split: option.splits decoded.splits if_splits)
  obtain tt tm raw where m: "(64, tt) \<in> set (tunnels attrs)" "decode_tunnel 64 tt = Inr (t, Number 13)"
    "(65, tm) \<in> set (tunnels attrs)" "decode_tunnel 65 tm = Inr (t, Number 6)"
    "(81, raw) \<in> set (tunnels attrs)" "decode_tunnel 81 raw = Inr (t, Octets digits)"
    using d(1-3) lk [of t] by (auto simp: grp)
  have key: "tunnel_key a = (t, fst a)" "fst a \<in> {64, 65, 81}" if "a \<in> set (tunnels attrs)" for a
  proof -
    obtain k v where a: "a = (k, v)" by (cases a)
    have "succeeds (decode_tunnel k v)"
      using g that by (auto simp: groups_match_def a)
    then obtain t' d where dec: "decode_tunnel k v = Inr (t', d)"
      by (auto simp: succeeds_iff)
    then have "map_of (group_of t' st) k = Some d" using lk that a by blast
    then have "t' = t" using none by (cases "t' = t") auto
    then show "tunnel_key a = (t, fst a)" by (simp add: tunnel_key_def a dec)
    show "fst a \<in> {64, 65, 81}" using that by (auto simp: tunnels_def tunnel_kinds_def)
  qed
  have dist: "distinct (map tunnel_key (tunnels attrs))"
    using g by (simp add: groups_match_def)
  then have inj: "inj_on tunnel_key (set (tunnels attrs))" and dt: "distinct (tunnels attrs)"
    by (auto simp: distinct_map)
  have "set (tunnels attrs) = {(64, tt), (65, tm), (81, raw)}"
  proof
    show "set (tunnels attrs) \<subseteq> {(64, tt), (65, tm), (81, raw)}"
    proof
      fix a assume a: "a \<in> set (tunnels attrs)"
      have "a = b" if "b \<in> set (tunnels attrs)" "fst a = fst b" for b
        using inj_onD [OF inj _ a that(1)] key(1) [OF a] key(1) [OF that(1)] that(2) by simp
      then show "a \<in> {(64, tt), (65, tm), (81, raw)}"
        using key(2) [OF a] m(1,3,5) by fastforce
    qed
  qed (use m in auto)
  then have "mset (tunnels attrs) = {#(64, tt), (65, tm), (81, raw)#}"
    using mset_set_set [OF dt] by simp
  then show ?thesis using m d(4,5) by blast
qed

definition vlan_choice :: "attribute list \<Rightarrow> port \<Rightarrow> vlan_source \<Rightarrow> int \<Rightarrow> bool" where
  \<comment> \<open>without tunnel attributes the port's own VLAN; otherwise one complete tagged group of type
     VLAN (13) over IEEE 802 (6) that names it in digits\<close>
  "vlan_choice attrs p src v = (case src of
      Port_default \<Rightarrow> tunnels attrs = [] \<and> v = pvid p
    | From_radius \<Rightarrow> (\<exists>t tt tm raw digits.
        mset (tunnels attrs) = {#(64, tt), (65, tm), (81, raw)#} \<and>
        decode_tunnel 64 tt = Inr (t, Number 13) \<and> decode_tunnel 65 tm = Inr (t, Number 6) \<and>
        decode_tunnel 81 raw = Inr (t, Octets digits) \<and> ascii_digits digits \<and>
        v = bytes_decimal digits))"

definition limit :: "int \<Rightarrow> attribute list \<Rightarrow> int option" where
  \<comment> \<open>the integer of the only attribute of a kind\<close>
  "limit k attrs = (case values_of k attrs of [v] \<Rightarrow> Some (be_int v) | _ \<Rightarrow> None)"

lemma selected_vlan:
  assumes g: "groups_match attrs st" and sel: "select_vlan (st_groups st) p = Inr (v, src)"
  shows "vlan_choice attrs p src v"
proof (cases "st_groups st")
  case Nil
  then have none: "group_of t st = []" for t by (simp add: group_of_def)
  have "tunnels attrs = []"
  proof (rule ccontr)
    assume "tunnels attrs \<noteq> []"
    then obtain a where "a \<in> set (tunnels attrs)" by (cases "tunnels attrs") auto
    moreover obtain k w where "a = (k, w)" by (cases a)
    ultimately have kw: "(k, w) \<in> set (tunnels attrs)" by simp
    then have "succeeds (decode_tunnel k w)"
      using g unfolding groups_match_def by blast
    with kw obtain t d where "(k, w) \<in> set (tunnels attrs)" "decode_tunnel k w = Inr (t, d)"
      by (auto simp: succeeds_iff)
    then have "map_of (group_of t st) k = Some d"
      using g unfolding groups_match_def by blast
    then show False by (simp add: none)
  qed
  then show ?thesis using sel Nil by (auto simp: vlan_choice_def select_vlan_def)
next
  case (Cons x xs)
  obtain t grp where x: "x = (t, grp)" by (cases x)
  have "xs = []" using sel Cons x by (cases xs) (auto simp: select_vlan_def)
  then have one: "st_groups st = [(t, grp)]" using Cons x by simp
  have v: "tunnel_vlan grp = Inr v" and "src = From_radius"
    using sel by (auto simp: select_vlan_def one result_simps)
  obtain tt tm raw digits where "mset (tunnels attrs) = {#(64, tt), (65, tm), (81, raw)#}"
    "decode_tunnel 64 tt = Inr (t, Number 13)" "decode_tunnel 65 tm = Inr (t, Number 6)"
    "decode_tunnel 81 raw = Inr (t, Octets digits)" "ascii_digits digits" "v = bytes_decimal digits"
    using one_group [OF g one v] by blast
  then show ?thesis
    unfolding vlan_choice_def vlan_source.case \<open>src = From_radius\<close>
    by (intro exI conjI)
qed

lemma matched_limit:
  "controls_match attrs cs \<Longrightarrow> k \<in> {27, 28, 29} \<Longrightarrow> map_of cs k = limit k attrs"
  unfolding controls_match_def limit_def
  by (drule conjunct1, drule (1) bspec) (auto split: option.splits)

lemma authorization_sound:
  assumes "authorization r p vs = Inr a"
  shows "ar_code r = 2"
    and "1 \<le> au_vid a \<and> au_vid a \<le> 4094 \<and> has vs (au_vid a) \<and> au_vid a \<notin> set (forbidden p)"
    and "vlan_choice (ar_attributes r) p (au_source a) (au_vid a)"
    and "\<not> has_kind (set unsupported_access_controls) (ar_attributes r)"
    and "session_timeout a = limit 27 (ar_attributes r)" "idle_timeout a = limit 28 (ar_attributes r)"
    and "termination_action a = (case limit 29 (ar_attributes r) of None \<Rightarrow> 0 | Some t \<Rightarrow> t)"
    and "termination_action a \<in> {0, 1}"
    and "classes a = values_of 25 (ar_attributes r) \<and> [] \<notin> set (classes a)"
    and "values_of 24 (ar_attributes r) = (case au_state a of None \<Rightarrow> [] | Some s \<Rightarrow> [s])"
proof -
  obtain st v src where loop: "authorization_loop (ar_attributes r) initial_authorization = Inr st"
    and sel: "select_vlan (st_groups st) p = Inr (v, src)"
    and code: "ar_code r = 2" and ok: "1 \<le> v" "v \<le> 4094" "has vs v" "v \<notin> set (forbidden p)"
    and a: "au_vid a = v" "au_source a = src" "session_timeout a = map_of (st_controls st) 27"
      "idle_timeout a = map_of (st_controls st) 28"
      "termination_action a = (case map_of (st_controls st) 29 of None \<Rightarrow> 0 | Some t \<Rightarrow> t)"
      "classes a = st_classes st" "au_state a = st_state st"
    using assms by (auto simp: authorization_def result_simps split: if_splits)
  have acc: "accounted (ar_attributes r) st" by (rule accounted_loop [OF loop])
  have cm: "controls_match (ar_attributes r) (st_controls st)"
    and gm: "groups_match (ar_attributes r) st"
    using acc by (simp_all add: accounted_def)
  show "ar_code r = 2" by (rule code)
  show "1 \<le> au_vid a \<and> au_vid a \<le> 4094 \<and> has vs (au_vid a) \<and> au_vid a \<notin> set (forbidden p)"
    using ok a by simp
  show "vlan_choice (ar_attributes r) p (au_source a) (au_vid a)"
    using selected_vlan [OF gm sel] a by simp
  show "\<not> has_kind (set unsupported_access_controls) (ar_attributes r)"
    using acc by (simp add: accounted_def)
  show "session_timeout a = limit 27 (ar_attributes r)" "idle_timeout a = limit 28 (ar_attributes r)"
    "termination_action a = (case limit 29 (ar_attributes r) of None \<Rightarrow> 0 | Some t \<Rightarrow> t)"
    using a matched_limit [OF cm] by simp_all
  show "termination_action a \<in> {0, 1}"
    using a cm by (auto simp: controls_match_def split: option.splits)
  show "classes a = values_of 25 (ar_attributes r) \<and> [] \<notin> set (classes a)"
    "values_of 24 (ar_attributes r) = (case au_state a of None \<Rightarrow> [] | Some s \<Rightarrow> [s])"
    using a acc by (auto simp: accounted_def)
qed

subsection \<open>Station identifiers name their MAC address\<close>

definition spelling :: "text_case \<Rightarrow> nat \<Rightarrow> nat" where
  "spelling c x = (if c = Upper \<and> 97 \<le> x \<and> x \<le> 122 then x - 32 else x)"

lemma spelling_hex_char:
  assumes "n < 16"
  shows "hex_digit (spelling c (hex_char n))" and "hex_value (spelling c (hex_char n)) = n"
    and "spelling c (hex_char n) \<notin> {58, 46, 45}"
  using assms by (auto simp: spelling_def hex_char_def hex_digit_def hex_value_def)

lemma pairs_of_concat: "\<forall>x \<in> set xs. length x = 2 \<Longrightarrow> pairs_of (length xs) (concat xs) = xs"
  by (induction xs) auto

lemma filter_join: "filter P (join sep xs) = join (filter P sep) (map (filter P) xs)"
  by (induction sep xs rule: join.induct) auto

lemma join_Nil: "join [] xs = concat xs"
proof -
  have "sep = [] \<Longrightarrow> join sep xs = concat xs" for sep :: "'a list"
    by (induction sep xs rule: join.induct) auto
  then show ?thesis by simp
qed

lemma ascii_upper_spelling: "(if c = Upper then ascii_upper v else v) = map (spelling c) v"
proof (cases "c = Upper")
  case True
  then show ?thesis by (auto simp: ascii_upper_def spelling_def)
next
  case False
  then have "spelling c = (\<lambda>x. x)" by (auto simp: spelling_def)
  then show ?thesis using False by simp
qed

lemma hex_pair_spelled:
  "filter (\<lambda>x. x \<notin> {58, 46, 45}) (map (spelling c) (hex_pair b)) = map (spelling c) (hex_pair b)"
  "filter (\<lambda>x. x \<noteq> 58) (hex_pair b) = hex_pair b"
proof -
  have "unat b div 16 < 16" and "unat b mod 16 < 16"
    using unat_byte_lt [of b] by auto
  note n = spelling_hex_char(3) [OF this(1)] spelling_hex_char(3) [OF this(2)]
  show "filter (\<lambda>x. x \<notin> {58, 46, 45}) (map (spelling c) (hex_pair b)) = map (spelling c) (hex_pair b)"
    using n [of c] by (simp add: hex_pair_def)
  show "filter (\<lambda>x. x \<noteq> 58) (hex_pair b) = hex_pair b"
    using n [of Lower] by (simp add: hex_pair_def spelling_def)
qed

lemma format_station_octets:
  assumes "length raw = 6"
  shows "format_station c sep (mac_text raw) =
    join sep (map (\<lambda>b. map (spelling c) (hex_pair b)) raw)"
proof -
  have "filter (\<lambda>x. x \<noteq> 58) (mac_text raw) = concat (map hex_pair raw)"
    by (simp add: mac_text_def filter_join join_Nil hex_pair_spelled(2) comp_def)
  then have "map (spelling c) (filter (\<lambda>x. x \<noteq> 58) (mac_text raw)) =
      concat (map (\<lambda>b. map (spelling c) (hex_pair b)) raw)"
    by (simp add: map_concat comp_def)
  moreover have "pairs_of 6 (concat (map (\<lambda>b. map (spelling c) (hex_pair b)) raw)) =
      map (\<lambda>b. map (spelling c) (hex_pair b)) raw"
    using pairs_of_concat [of "map (\<lambda>b. map (spelling c) (hex_pair b)) raw"] assms
    by (simp add: hex_pair_def)
  ultimately show ?thesis
    by (simp only: format_station_def Let_def ascii_upper_spelling)
qed

lemma from_hex_spelled:
  "from_hex (concat (map (\<lambda>b. map (spelling c) (hex_pair b)) raw)) = raw"
proof (induction raw)
  case (Cons b raw)
  have "unat b div 16 < 16" and "unat b mod 16 < 16"
    using unat_byte_lt [of b] by auto
  note n = spelling_hex_char(2) [OF this(1)] spelling_hex_char(2) [OF this(2)]
  show ?case
    using n [of c] Cons by (simp add: hex_pair_def)
qed simp

lemma format_station_mac:
  assumes "length raw = 6" and "unicast raw" and sep: "sep \<in> {[], [58], [45]}"
  shows "mac (format_station c sep (mac_text raw)) = Inr (mac_text raw)"
proof -
  let ?ps = "map (\<lambda>b. map (spelling c) (hex_pair b)) raw"
  have "mac_octets (join sep ?ps) = raw"
  proof -
    have "filter (\<lambda>c. c \<notin> {58, 46, 45}) sep = []" using sep by auto
    then have "filter (\<lambda>c. c \<notin> {58, 46, 45}) (join sep ?ps) = concat ?ps"
      by (simp only: filter_join join_Nil map_map comp_def hex_pair_spelled(1))
    then show ?thesis by (simp only: mac_octets_def from_hex_spelled)
  qed
  moreover have "list_ex (\<lambda>p. spelled p (join sep ?ps)) mac_spellings"
  proof -
    have "length raw = Suc (Suc (Suc (Suc (Suc (Suc 0)))))" using assms by simp
    then obtain a b d e g h where raw: "raw = [a, b, d, e, g, h]"
      by (auto simp: length_Suc_conv)
    have two: "\<exists>x y. map (spelling c) (hex_pair b) = [x, y] \<and> hex_digit x \<and> hex_digit y" for b
    proof -
      have "unat b div 16 < 16" and "unat b mod 16 < 16"
        using unat_byte_lt [of b] by auto
      then show ?thesis using spelling_hex_char(1) by (simp add: hex_pair_def)
    qed
    have tw: "replicate 12 0 = [0, 0, 0, 0, 0, 0, 0, 0, 0, 0, 0, 0 :: nat]"
      by (simp add: numeral_eq_Suc)
    show ?thesis
      using two [of a] two [of b] two [of d] two [of e] two [of g] two [of h] sep
      by (elim exE conjE insertE)
        (simp_all add: raw mac_spellings_def separated_def replicate_five tw)
  qed
  ultimately show ?thesis
    using assms(2) by (simp add: format_station_octets [OF assms(1)] mac_def Let_def)
qed

lemma access_attributes_shape:
  assumes "access_attributes settings p address sess state nas = Inr vs"
  shows "encodable vs" and "length (tlvs vs) \<le> 4076" and "\<not> has_kind {2, 79, 80} vs"
    and "values_of 5 vs = [be_bytes 4 (bridge_port p)]" and "values_of 32 vs = [nas_id nas]"
    and "values_of 24 vs = (case state of None \<Rightarrow> [] | Some s \<Rightarrow> [s])"
    and "\<exists>st. utf8_encode (station_id address settings) = Some st \<and> values_of 31 vs = [st]"
proof -
  obtain nm st se where e: "encoded (p_name p) = Inr nm" "encoded (station_id address settings) = Inr st"
      "encoded sess = Inr se"
    and vs: "vs = [(5, be_bytes 4 (bridge_port p)), (61, be_bytes 4 15), (87, nm), (31, st), (44, se)] @
      [(32, nas_id nas)] @ (case nas_ipv4 nas of None \<Rightarrow> [] | Some a \<Rightarrow> [(4, a)]) @
      (case state of None \<Rightarrow> [] | Some s \<Rightarrow> [(24, s)])"
    and enc: "encode_attributes vs = Inr (tlvs vs)"
    using assms by (auto simp: access_attributes_def result_simps Let_def encode_attributes_Inr_iff split: if_splits)
  show "encodable vs" "length (tlvs vs) \<le> 4076"
    using enc by (simp_all add: encode_attributes_Inr_iff)
  show "\<not> has_kind {2, 79, 80} vs" "values_of 5 vs = [be_bytes 4 (bridge_port p)]"
    "values_of 32 vs = [nas_id nas]" "values_of 24 vs = (case state of None \<Rightarrow> [] | Some s \<Rightarrow> [s])"
    by (simp_all add: vs split: option.split)
  show "\<exists>st. utf8_encode (station_id address settings) = Some st \<and> values_of 31 vs = [st]"
    using e(2) by (auto simp: vs encoded_def split: option.splits)
qed

subsection \<open>The request attributes can be encoded\<close>

lemma hex_pair_ascii: "c \<in> set (map (spelling k) (hex_pair b)) \<Longrightarrow> c < 128"
proof -
  have "unat b div 16 < 16" and "unat b mod 16 < 16"
    using unat_byte_lt [of b] by auto
  moreover assume "c \<in> set (map (spelling k) (hex_pair b))"
  ultimately show ?thesis by (auto simp: hex_pair_def hex_char_def spelling_def split: text_case.split if_splits)
qed

lemma set_join: "set (join sep xs) \<subseteq> set sep \<union> \<Union> (set ` set xs)"
  by (induction sep xs rule: join.induct) auto

lemma length_join_pairs:
  "xs \<noteq> [] \<Longrightarrow> \<forall>x \<in> set xs. length x = 2 \<Longrightarrow>
    length (join sep xs) = 2 * length xs + length sep * (length xs - 1)"
  by (induction sep xs rule: join.induct) auto

lemma station_octets:
  assumes "length raw = 6" and "sep \<in> {[], [58], [45]}"
  shows "\<exists>b. utf8_encode (format_station c sep (mac_text raw)) = Some b \<and> 12 \<le> length b \<and> length b \<le> 17"
proof -
  let ?v = "format_station c sep (mac_text raw)"
  have v: "?v = join sep (map (\<lambda>b. map (spelling c) (hex_pair b)) raw)"
    by (rule format_station_octets [OF assms(1)])
  have "x < 128" if x: "x \<in> set ?v" for x
  proof -
    have "x \<in> set sep \<or> (\<exists>b \<in> set raw. x \<in> set (map (spelling c) (hex_pair b)))"
      using x set_join [of sep "map (\<lambda>b. map (spelling c) (hex_pair b)) raw"]
      unfolding v by auto
    then show ?thesis using assms(2) hex_pair_ascii by (elim disjE) auto
  qed
  then have "utf8_encode ?v = Some (map byte_of ?v)" by (intro utf8_ascii) blast
  moreover have "length ?v = 12 + length sep * 5"
    using assms(1) by (simp add: v) (subst length_join_pairs, auto simp: hex_pair_def)
  ultimately show ?thesis using assms(2) by auto
qed

definition identified :: "nas_identity \<Rightarrow> bool" where
  \<comment> \<open>what \<open>resolve_nas_identity\<close> returns for an address of four octets\<close>
  "identified nas \<longleftrightarrow> 1 \<le> length (nas_id nas) \<and> length (nas_id nas) \<le> 253 \<and>
     (case nas_ipv4 nas of None \<Rightarrow> True | Some a \<Rightarrow> length a = 4)"

lemma resolved_identity:
  assumes "resolve_nas_identity c = Inr nas"
    and "case nas_ip_address (radius c) of None \<Rightarrow> True | Some a \<Rightarrow> length a = 4"
  shows "identified nas"
  using assms by (auto simp: resolve_nas_identity_def identified_def Let_def split: option.splits if_splits)

lemma encoded_fits: "fits n s \<Longrightarrow> \<exists>b. encoded s = Inr b \<and> length b \<le> n"
  by (auto simp: fits_def encoded_def split: option.splits)

lemma access_attributes_encoded:
  assumes settings: "valid_radius_options settings" and raw: "length raw = 6"
    and nm: "encoded (p_name p) = Inr nm" and se: "encoded sid = Inr se"
    and nas: "identified nas"
  shows "\<exists>st. 12 \<le> length st \<and> length st \<le> 17 \<and> access_attributes settings p (mac_text raw) sid state nas =
    (let vs = [(5, be_bytes 4 (bridge_port p)), (61, be_bytes 4 15), (87, nm), (31, st), (44, se),
               (32, nas_id nas)] @ (case nas_ipv4 nas of None \<Rightarrow> [] | Some a \<Rightarrow> [(4, a)]) @
              (case state of None \<Rightarrow> [] | Some s \<Rightarrow> [(24, s)])
     in bind (encode_attributes vs) (\<lambda>_. Inr vs))"
proof -
  obtain st where "utf8_encode (station_id (mac_text raw) settings) = Some st"
    and l: "12 \<le> length st" "length st \<le> 17"
    using station_octets [OF raw, of "station_separator settings"] settings
    unfolding valid_radius_options_def station_id_def by blast
  then have st: "encoded (station_id (mac_text raw) settings) = Inr st" by (simp add: encoded_def)
  show ?thesis
    using nas l by (intro exI [of _ st]) (auto simp: access_attributes_def nm se st identified_def split: option.splits)
qed

lemma access_attributes_encodable:
  assumes "valid_radius_options settings" and "length raw = 6"
    and "fits 253 (p_name p)" and "fits 253 sid" and "identified nas"
    and "case state of None \<Rightarrow> True | Some s \<Rightarrow> length s \<le> 253"
  shows "\<exists>vs. access_attributes settings p (mac_text raw) sid state nas = Inr vs \<and>
    length (tlvs vs) \<le> 1100"
proof -
  obtain nm where nm: "encoded (p_name p) = Inr nm" "length nm \<le> 253"
    using encoded_fits [OF assms(3)] by blast
  obtain se where se: "encoded sid = Inr se" "length se \<le> 253"
    using encoded_fits [OF assms(4)] by blast
  show ?thesis
    using access_attributes_encoded [OF assms(1,2) nm(1) se(1) assms(5), of state] nm(2) se(2) assms(5,6)
    by (auto simp: Let_def result_simps encode_attributes_Inr_iff identified_def split: option.splits)
qed

subsection \<open>Properties\<close>

text \<open>C14: an authorization is granted only by an Access-Accept. Its VLAN exists, lies in
  1..4094, is not forbidden on the port, and is either the port's own (when the reply carries no
  tunnel attribute) or named by one complete tunnel group of the reply; no attribute that demands
  a control the emulator does not have is present; the session and idle limits, the termination
  action, the Class values and the State are those of the reply, in its order.\<close>

theorem authorization_granted:
  assumes "authorization r p vs = Inr a"
  shows "ar_code r = 2 \<and>
    (1 \<le> au_vid a \<and> au_vid a \<le> 4094 \<and> has vs (au_vid a) \<and> au_vid a \<notin> set (forbidden p)) \<and>
    vlan_choice (ar_attributes r) p (au_source a) (au_vid a) \<and>
    \<not> has_kind (set unsupported_access_controls) (ar_attributes r) \<and>
    session_timeout a = limit 27 (ar_attributes r) \<and> idle_timeout a = limit 28 (ar_attributes r) \<and>
    termination_action a = (case limit 29 (ar_attributes r) of None \<Rightarrow> 0 | Some t \<Rightarrow> t) \<and>
    termination_action a \<in> {0, 1} \<and>
    classes a = values_of 25 (ar_attributes r) \<and> [] \<notin> set (classes a) \<and>
    values_of 24 (ar_attributes r) = (case au_state a of None \<Rightarrow> [] | Some s \<Rightarrow> [s])"
  using authorization_sound [OF assms] by blast

definition example_accept :: access_result where
  "example_accept = \<lparr>ar_code = 2,
     ar_attributes = [(64, [1, 0, 0, 13]), (65, [1, 0, 0, 6]), (81, [1, 50, 48]), (27, [0, 0, 14, 16])],
     ar_peer = (IPv4 [127, 0, 0, 1], 1812), ar_request_authenticator = replicate 16 0,
     ar_peer_result = 0, ar_tls_errors = 0\<rparr>"

lemma authorization_granted_witness:
  "\<exists>a. authorization example_accept (default_port [] 1 101 [])
      [(1, default_vlan), (20, \<lparr>vid = 20, vl_name = [], fdb_id = 1020\<rparr>)] = Inr a \<and>
    au_vid a = 20 \<and> au_source a = From_radius \<and> session_timeout a = limit 27 (ar_attributes example_accept)"
proof -
  let ?vs = "[(1, default_vlan), (20, \<lparr>vid = 20, vl_name = [], fdb_id = 1020\<rparr>)]"
  have "(case authorization example_accept (default_port [] 1 101 []) ?vs of
      Inl _ \<Rightarrow> False | Inr a \<Rightarrow> au_vid a = 20 \<and> au_source a = From_radius)"
    by code_simp
  then obtain a where a: "authorization example_accept (default_port [] 1 101 []) ?vs = Inr a"
    "au_vid a = 20" "au_source a = From_radius"
    by (auto split: sum.splits)
  then show ?thesis using authorization_granted [OF a(1)] by blast
qed

text \<open>The station identifiers the NAS reports and the MAB user name are spellings of the
  endpoint's MAC address: parsing them gives the address back, in every configured case and
  separator.\<close>

theorem station_names_mac:
  assumes "mac s = Inr m" and "valid_radius_options settings"
  shows "mac (station_id m settings) = Inr m \<and>
    mac (format_station (mab_case settings) (mab_separator settings) m) = Inr m"
proof -
  obtain raw where "m = mac_text raw" "length raw = 6" "unicast raw"
    using mac_Inr [OF assms(1)] by blast
  then show ?thesis
    using assms(2) format_station_mac
    by (simp add: station_id_def valid_radius_options_def del: insert_iff)
qed

lemma station_names_mac_witness:
  "mac (station_id (str ''02:00:00:00:ab:01'') default_radius) = Inr (str ''02:00:00:00:ab:01'') \<and>
   station_id (str ''02:00:00:00:ab:01'') default_radius = str ''02-00-00-00-AB-01''"
proof -
  have m: "mac (str ''0200.0000.AB01'') = Inr (str ''02:00:00:00:ab:01'')" by code_simp
  have v: "valid_radius_options default_radius" by code_simp
  have "station_id (str ''02:00:00:00:ab:01'') default_radius = str ''02-00-00-00-AB-01''" by code_simp
  then show ?thesis using station_names_mac [OF m v] by simp
qed

text \<open>C35: a port whose name takes 254 or 255 octets, which the port model accepts, cannot
  authenticate: the name does not fit NAS-Port-Id, and every Access-Request for the port fails
  with \<open>invalid_attribute\<close>, whatever the endpoint, session and identity.\<close>

theorem long_port_name:
  assumes "valid_radius_options settings" and "mac s = Inr m"
    and "fits 255 (p_name p)" and "\<not> fits 253 (p_name p)" and "fits 253 sid" and "identified nas"
  shows "access_attributes settings p m sid state nas = Inl (RadiusError ''invalid_attribute'')"
proof -
  obtain raw where m: "m = mac_text raw" "length raw = 6"
    using mac_Inr [OF assms(2)] by blast
  obtain nm where nm: "encoded (p_name p) = Inr nm" "253 < length nm"
    using assms(3,4) by (auto simp: fits_def encoded_def split: option.splits)
  obtain se where se: "encoded sid = Inr se" using encoded_fits [OF assms(5)] by blast
  show ?thesis
    using access_attributes_encoded [OF assms(1) m(2) nm(1) se assms(6), of state] nm(2)
    by (auto simp: m(1) Let_def result_simps encode_attributes_Inl_iff)
qed

lemma long_port_name_witness:
  "valid_port (default_port [] 1 101 (replicate 254 65)) \<and>
   access_attributes default_radius (default_port [] 1 101 (replicate 254 65))
     (str ''02:00:00:00:ab:01'') [49] None \<lparr>nas_id = [76], nas_ipv4 = None\<rparr> =
     Inl (RadiusError ''invalid_attribute'')"
proof -
  let ?p = "default_port [] 1 101 (replicate 254 65)"
  have v: "valid_radius_options default_radius" by code_simp
  have m: "mac (str ''0200.0000.AB01'') = Inr (str ''02:00:00:00:ab:01'')" by code_simp
  have s: "fits 253 [49]" by code_simp
  have i: "identified \<lparr>nas_id = [76], nas_ipv4 = None\<rparr>" by (simp add: identified_def)
  have u: "utf8_encode (replicate 254 65) = Some (map byte_of (replicate 254 65))"
    by (rule utf8_ascii) simp
  have f: "fits 255 (p_name ?p)" "\<not> fits 253 (p_name ?p)"
    by (simp_all add: default_port_def fits_def u)
  have "fits 64 []" by (simp add: fits_def)
  then have "valid_port ?p"
    using f(1) by (simp add: valid_port_def between_def default_port_def)
  then show ?thesis using long_port_name [OF v m f s i] by blast
qed

end
