(* ===== verification/Radius_Native.thy ===== *)
theory Radius_Native
  imports Radius_Reply
begin

text \<open>
  The bounded decoder of the native EAP helper's event channel (\<open>_NativeDecoder\<close> and
  \<open>native_observation\<close> of \<open>switchlab/radius.py\<close>). An exception leaves the fields as the
  statements before it left them, so every operation returns the state together with the error
  it raised, if any. Addresses are compared as values: \<open>str(ip_address(...))\<close> is injective.
\<close>

record native_observation =
  no_result :: "access_result option"
  peer_result :: int
  tls_errors :: int
  eap_frames :: nat
  no_challenges :: nat
  timed_out :: bool
  preparation_failed :: bool
  no_invalid_replies :: nat
  unanswered_retries :: nat

type_synonym native_key = "byte \<times> bytes"

record native =
  n_peer :: address
  secret :: bytes
  source_address :: "ip option"
  buffer :: bytes
  total :: nat
  n_sequence :: nat
  requests :: "(native_key, bytes) dict"
  consumed :: "native_key list"
  transmissions :: "(native_key, nat) dict"
  local_address :: "address option"
  n_result :: "access_result option"
  terminal :: "int list option"
  frames :: nat
  challenges :: nat
  invalid_replies :: nat
  eap_events :: "bytes list"
  responses :: nat \<comment> \<open>calls of \<open>on_response\<close>\<close>
  failed :: bool
  ended :: bool

definition new_native :: "address \<Rightarrow> bytes \<Rightarrow> ip option \<Rightarrow> native" where
  "new_native peer sec source = \<lparr>n_peer = peer, secret = sec, source_address = source, buffer = [],
     total = 0, n_sequence = 1, requests = [], consumed = [], transmissions = [],
     local_address = None, n_result = None, terminal = None, frames = 0, challenges = 0,
     invalid_replies = 0, eap_events = [], responses = 0, failed = False, ended = False\<rparr>"

type_synonym stepped = "native \<times> py_error option"

definition raised :: "string \<Rightarrow> native \<Rightarrow> stepped" where
  "raised reason d = (d, Some (RadiusError reason))"

definition any_set :: "bytes \<Rightarrow> bool" where
  \<comment> \<open>\<open>any(bs)\<close>: some octet is not zero\<close>
  "any_set bs = list_ex (\<lambda>b. b \<noteq> 0) bs"

subsection \<open>One frame\<close>

definition decode_endpoint :: "bytes \<Rightarrow> nat \<Rightarrow> nat \<Rightarrow> address" where
  \<comment> \<open>the address at offset \<open>at\<close> and the port at offset \<open>port_at\<close> of a packet record\<close>
  "decode_endpoint payload at port_at =
     ((if payload ! 0 = 4 then IPv4 (slice at (at + 4) payload) else IPv6 (slice at (at + 16) payload)),
      be_int (slice port_at (port_at + 2) payload))"

definition request_record :: "native \<Rightarrow> native_key \<Rightarrow> bytes \<Rightarrow> stepped" where
  "request_record d key packet =
     (if n_result d \<noteq> None \<or> packet ! 0 \<noteq> 1 \<or> snd key \<noteq> slice 4 20 packet \<or> key \<in> set (consumed d)
      then raised ''native_request_record'' d
      else case message_authenticator packet of
        Inl e \<Rightarrow> (d, Some e)
      | Inr (zeroed, authenticator) \<Rightarrow>
          if authenticator \<noteq> hmac_md5 (secret d) zeroed then raised ''native_request_integrity'' d
          else if map_of (requests d) key \<noteq> None \<and> map_of (requests d) key \<noteq> Some packet
          then raised ''native_request_reuse'' d
          else (d\<lparr>requests := put key packet (requests d),
                  transmissions := put key
                    ((case map_of (transmissions d) key of None \<Rightarrow> 0 | Some n \<Rightarrow> n) + 1)
                    (transmissions d)\<rparr>, None))"

definition response_record :: "native \<Rightarrow> native_key \<Rightarrow> bytes \<Rightarrow> stepped" where
  "response_record d key packet =
     (case map_of (requests d) key of
        None \<Rightarrow> raised ''native_uncorrelated_response'' d
      | Some request \<Rightarrow>
          if key \<in> set (consumed d) \<or> n_result d \<noteq> None
          then raised ''native_uncorrelated_response'' d
          else case verify_access request packet (secret d) (n_peer d) of
            Inl e \<Rightarrow> (d, Some e)
          | Inr received \<Rightarrow>
              let d = d\<lparr>consumed := consumed d @ [key]\<rparr>;
                  d = (if ar_code received = 11 then d\<lparr>challenges := challenges d + 1\<rparr>
                       else d\<lparr>n_result := Some received\<rparr>)
              in (d\<lparr>responses := responses d + 1\<rparr>, None))"

definition packet_record :: "native \<Rightarrow> nat \<Rightarrow> bytes \<Rightarrow> stepped" where
  "packet_record d kind payload =
     (if length payload < 84 \<or> payload ! 0 \<notin> {4, 6} \<or> any_set (slice 1 4 payload) \<or>
         any_set (slice 60 64 payload)
      then raised ''native_packet_metadata'' d
      else
        let remote = decode_endpoint payload 8 4; loc = decode_endpoint payload 24 6
        in if remote \<noteq> n_peer d \<or> snd loc = 0 \<or>
              (case source_address d of None \<Rightarrow> False | Some s \<Rightarrow> fst loc \<noteq> s) \<or>
              (case local_address d of None \<Rightarrow> False | Some l \<Rightarrow> loc \<noteq> l)
           then raised ''native_peer_mismatch'' d
           else
             let d = d\<lparr>local_address := Some loc\<rparr>
             in if payload ! 0 = 4 \<and> (any_set (slice 12 24 payload) \<or> any_set (slice 28 40 payload))
                then raised ''native_address_padding'' d
                else case packet_attributes (drop 64 payload) of
                  Inl e \<Rightarrow> (d, Some e)
                | Inr (packet, _) \<Rightarrow>
                    if length packet \<noteq> length payload - 64 \<or>
                       int (length packet) \<noteq> be_int (slice 56 60 payload)
                    then raised ''native_packet_size'' d
                    else let key = (packet ! 1, slice 40 56 payload)
                         in if kind = 1 then request_record d key packet
                            else response_record d key packet)"

definition eap_record :: "native \<Rightarrow> bytes \<Rightarrow> stepped" where
  "eap_record d payload =
     (if length payload \<noteq> 16 \<or> payload ! 0 \<notin> {1, 2} \<or> payload ! 1 \<notin> {1, 2, 3} \<or>
         4 < unat (payload ! 2) \<or> any_set (drop 14 payload)
      then raised ''native_eap_event'' d
      else (d\<lparr>frames := frames d + 1, eap_events := eap_events d @ [payload]\<rparr>, None))"

definition numeric_record :: "native \<Rightarrow> nat \<Rightarrow> bytes \<Rightarrow> stepped" where
  "numeric_record d kind payload =
     (if length payload \<noteq> 4 then raised ''native_numeric_event'' d
      else let n = be_int payload
        in if (kind = 5 \<and> n \<notin> {1, 2, 3}) \<or> (kind = 6 \<and> n \<noteq> 1)
           then raised ''native_numeric_value'' d
           else if kind = 6 then (d\<lparr>invalid_replies := invalid_replies d + 1\<rparr>, None)
           else (d, None))"

definition terminal_record :: "native \<Rightarrow> bytes \<Rightarrow> stepped" where
  "terminal_record d payload =
     (if length payload \<noteq> 32 then raised ''native_terminal_size'' d
      else
        let t = map be_int (chunks_of 4 8 payload); d = d\<lparr>terminal := Some t\<rparr>
        in if t ! 0 \<notin> {0, 1} \<or> t ! 1 \<notin> {0, 1} \<or> t ! 2 \<notin> {0, 1} \<or> t ! 7 \<notin> {0, 1} \<or>
              t ! 6 \<notin> {0, 1, 2, 3} \<or> 2147483647 < t ! 3 \<or> 2147483647 < t ! 4
           then raised ''native_terminal_value'' d
           else (d, None))"

definition native_frame :: "native \<Rightarrow> nat \<Rightarrow> bytes \<Rightarrow> stepped" where
  "native_frame d kind payload =
     (if kind \<in> {1, 2} then packet_record d kind payload
      else if kind = 3 then eap_record d payload
      else if kind \<in> {4, 5, 6} then numeric_record d kind payload
      else if kind = 7 then terminal_record d payload
      else raised ''native_unknown_frame'' d)"

subsection \<open>The channel\<close>

definition frame_size :: "bytes \<Rightarrow> nat" where
  "frame_size b = nat (be_int (slice 8 12 b))"

definition bad_header :: "native \<Rightarrow> bool" where
  "bad_header d \<longleftrightarrow> (let b = buffer d in
     terminal d \<noteq> None \<or> slice 0 4 b \<noteq> [0x53, 0x4c, 0x52, 0x31] \<or> b ! 5 \<noteq> 0 \<or> any_set (slice 6 8 b) \<or>
     be_int (slice 12 16 b) \<noteq> int (n_sequence d) \<or> 512 < be_int (slice 12 16 b) \<or> 8176 < frame_size b)"

lemma record_buffer [simp]:
  "buffer (fst (raised e d)) = buffer d"
  "buffer (fst (request_record d key packet)) = buffer d"
  "buffer (fst (response_record d key packet)) = buffer d"
  "buffer (fst (eap_record d payload)) = buffer d"
  "buffer (fst (numeric_record d kind payload)) = buffer d"
  "buffer (fst (terminal_record d payload)) = buffer d"
  by (simp_all add: raised_def request_record_def response_record_def eap_record_def
      numeric_record_def terminal_record_def Let_def split: sum.split option.split)

lemma packet_record_buffer [simp]: "buffer (fst (packet_record d kind payload)) = buffer d"
  unfolding packet_record_def Let_def
  by (simp split del: if_split split: sum.split) (simp split: if_split)

lemma native_frame_buffer: "buffer (fst (native_frame d kind payload)) = buffer d"
  by (simp add: native_frame_def)

function feed_loop :: "native \<Rightarrow> stepped" where
  "feed_loop d =
     (if 16 \<le> length (buffer d) then
        if bad_header d then raised ''native_frame_header'' d
        else let size = frame_size (buffer d)
          in if length (buffer d) < 16 + size then (d, None)
             else let kind = unat (buffer d ! 4);
                      payload = slice 16 (16 + size) (buffer d);
                      d = d\<lparr>buffer := drop (16 + size) (buffer d), n_sequence := n_sequence d + 1\<rparr>;
                      out = native_frame d kind payload
               in case snd out of
                    None \<Rightarrow> feed_loop (fst out)
                  | Some e \<Rightarrow> (fst out, Some e)
      else (d, None))"
  by pat_completeness auto
termination
  by (relation "measure (\<lambda>d. length (buffer d))") (auto simp: native_frame_buffer Let_def)

declare feed_loop.simps [simp del]

definition feed_inner :: "bytes \<Rightarrow> native \<Rightarrow> stepped" where
  "feed_inner block d =
     (let d = d\<lparr>total := total d + length block\<rparr>
      in if 1048576 < total d then raised ''native_channel_size'' d
         else feed_loop (d\<lparr>buffer := buffer d @ block\<rparr>))"

definition feed :: "bytes \<Rightarrow> native \<Rightarrow> stepped" where
  "feed block d =
     (if failed d \<or> ended d then raised ''native_failed_channel'' d
      else case feed_inner block d of
        (d, None) \<Rightarrow> (d, None)
      | (d, Some e) \<Rightarrow> (d\<lparr>failed := True\<rparr>, Some e))"

definition unanswered :: "native \<Rightarrow> nat" where
  "unanswered d = foldr max (map snd (filter (\<lambda>(key, _). key \<notin> set (consumed d)) (transmissions d))) 0"

definition finish :: "native \<Rightarrow> native \<times> (py_error + native_observation)" where
  "finish d =
     (if failed d \<or> ended d then (d, Inl (RadiusError ''native_failed_channel''))
      else
        let d = d\<lparr>ended := True\<rparr>
        in if total d = 0 \<or> buffer d \<noteq> []
           then (d, Inl (RadiusError ''native_partial_or_empty_channel''))
           else case terminal d of
             None \<Rightarrow> (d, Inl (RadiusError ''native_missing_terminal''))
           | Some t \<Rightarrow>
               let code = map_option ar_code (n_result d)
               in if (t ! 0 = 1) \<noteq> (code = Some 2) \<or> (t ! 1 = 1) \<noteq> (code = Some 3)
                  then (d, Inl (RadiusError ''native_terminal_disagreement''))
                  else (d, Inr \<lparr>no_result = map_option (\<lambda>r. r\<lparr>ar_peer_result := t ! 6,
                                   ar_tls_errors := t ! 5\<rparr>) (n_result d),
                                peer_result = t ! 6, tls_errors = t ! 5, eap_frames = frames d,
                                no_challenges = challenges d, timed_out = (t ! 2 \<noteq> 0),
                                preparation_failed = (t ! 7 \<noteq> 0),
                                no_invalid_replies = invalid_replies d,
                                unanswered_retries = unanswered d\<rparr>))"

definition native_observation ::
  "bytes \<Rightarrow> address \<Rightarrow> bytes \<Rightarrow> ip option \<Rightarrow> py_error + native_observation" where
  "native_observation stream peer sec source =
     (case feed stream (new_native peer sec source) of
        (_, Some e) \<Rightarrow> Inl e
      | (d, None) \<Rightarrow> snd (finish d))"

subsection \<open>Records do not depend on how the channel is cut\<close>

definition retune :: "bytes \<Rightarrow> nat \<Rightarrow> bytes list \<Rightarrow> native \<Rightarrow> native" where
  \<comment> \<open>the same decoder with other unread octets, another total and events already taken\<close>
  "retune b n taken d = d\<lparr>buffer := b, total := n, eap_events := taken @ eap_events d\<rparr>"

lemma retune_simps [simp]:
  "n_peer (retune b n q d) = n_peer d" "secret (retune b n q d) = secret d"
  "source_address (retune b n q d) = source_address d" "requests (retune b n q d) = requests d"
  "consumed (retune b n q d) = consumed d" "transmissions (retune b n q d) = transmissions d"
  "local_address (retune b n q d) = local_address d" "n_result (retune b n q d) = n_result d"
  "terminal (retune b n q d) = terminal d" "frames (retune b n q d) = frames d"
  "challenges (retune b n q d) = challenges d" "buffer (retune b n q d) = b"
  "invalid_replies (retune b n q d) = invalid_replies d" "total (retune b n q d) = n"
  "eap_events (retune b n q d) = q @ eap_events d" "responses (retune b n q d) = responses d"
  "n_sequence (retune b n q d) = n_sequence d"
  "failed (retune b n q d) = failed d" "ended (retune b n q d) = ended d"
  by (simp_all add: retune_def)

lemma retune_updates:
  "(retune b n q d)\<lparr>local_address := x\<rparr> = retune b n q (d\<lparr>local_address := x\<rparr>)"
  "(retune b n q d)\<lparr>terminal := t\<rparr> = retune b n q (d\<lparr>terminal := t\<rparr>)"
  "(retune b n q d)\<lparr>invalid_replies := i\<rparr> = retune b n q (d\<lparr>invalid_replies := i\<rparr>)"
  "(retune b n q d)\<lparr>requests := r, transmissions := t'\<rparr> = retune b n q (d\<lparr>requests := r, transmissions := t'\<rparr>)"
  "(retune b n q d)\<lparr>n_result := nr\<rparr> = retune b n q (d\<lparr>n_result := nr\<rparr>)"
  "(retune b n q d)\<lparr>challenges := i\<rparr> = retune b n q (d\<lparr>challenges := i\<rparr>)"
  "(retune b n q d)\<lparr>consumed := c\<rparr> = retune b n q (d\<lparr>consumed := c\<rparr>)"
  "(retune b n q d)\<lparr>responses := i\<rparr> = retune b n q (d\<lparr>responses := i\<rparr>)"
  "(retune b n q d)\<lparr>failed := f\<rparr> = retune b n q (d\<lparr>failed := f\<rparr>)"
  "(retune b n q d)\<lparr>ended := f\<rparr> = retune b n q (d\<lparr>ended := f\<rparr>)"
  "(retune b n q d)\<lparr>frames := i, eap_events := q @ e\<rparr> = retune b n q (d\<lparr>frames := i, eap_events := e\<rparr>)"
  "(retune b n q d)\<lparr>buffer := b', n_sequence := i\<rparr> = retune b' n q (d\<lparr>n_sequence := i\<rparr>)"
  by (simp_all add: retune_def)

definition lifted :: "(native \<Rightarrow> native) \<Rightarrow> stepped \<Rightarrow> stepped" where
  "lifted f out = (f (fst out), snd out)"

lemma lifted_simps [simp]: "lifted f (d, e) = (f d, e)" "lifted f (raised x d) = raised x (f d)"
  "fst (lifted f out) = f (fst out)" "snd (lifted f out) = snd out"
  by (simp_all add: lifted_def raised_def)

lemma record_retune:
  "request_record (retune b n q d) key packet = lifted (retune b n q) (request_record d key packet)"
  "response_record (retune b n q d) key packet = lifted (retune b n q) (response_record d key packet)"
  "eap_record (retune b n q d) payload = lifted (retune b n q) (eap_record d payload)"
  "numeric_record (retune b n q d) kind payload = lifted (retune b n q) (numeric_record d kind payload)"
  "terminal_record (retune b n q d) payload = lifted (retune b n q) (terminal_record d payload)"
  by (auto simp: request_record_def response_record_def eap_record_def numeric_record_def
      terminal_record_def Let_def retune_updates split: sum.split option.split)

lemma packet_record_retune:
  "packet_record (retune b n q d) kind payload = lifted (retune b n q) (packet_record d kind payload)"
  unfolding packet_record_def Let_def retune_updates record_retune retune_simps
  by (auto split: sum.split)

lemma native_frame_retune:
  "native_frame (retune b n q d) kind payload = lifted (retune b n q) (native_frame d kind payload)"
  by (simp add: native_frame_def packet_record_retune record_retune)

lemma native_frame_total: "total (fst (native_frame d kind payload)) = total d"
proof -
  have "native_frame (retune (buffer d) (total d) [] d) kind payload =
      lifted (retune (buffer d) (total d) []) (native_frame d kind payload)"
    by (rule native_frame_retune)
  moreover have "retune (buffer d) (total d) [] d = d" by (simp add: retune_def)
  ultimately have "native_frame d kind payload =
      lifted (retune (buffer d) (total d) []) (native_frame d kind payload)" by simp
  then show ?thesis by (metis lifted_simps(3) retune_simps(14))
qed

lemma bad_header_more: "16 \<le> length (buffer d) \<Longrightarrow> bad_header (retune (buffer d @ c) n q d) = bad_header d"
  by (simp add: bad_header_def frame_size_def slice_append_left nth_append Let_def)

lemma frame_size_more: "16 \<le> length b \<Longrightarrow> frame_size (b @ c) = frame_size b"
  by (simp add: frame_size_def slice_append_left)

definition continued :: "bytes \<Rightarrow> nat \<Rightarrow> bytes list \<Rightarrow> stepped \<Rightarrow> stepped" where
  \<comment> \<open>the outcome once \<open>c\<close> follows: an error stays, otherwise the loop goes on\<close>
  "continued c n q out = (case snd out of
      None \<Rightarrow> feed_loop (retune (buffer (fst out) @ c) n q (fst out))
    | Some e \<Rightarrow> (retune (buffer (fst out) @ c) n q (fst out), Some e))"

lemma retune_retune [simp]: "retune b n q (retune b' n' q' d) = retune b n (q @ q') d"
  by (simp add: retune_def)

definition take_frame :: "native \<Rightarrow> stepped" where
  \<comment> \<open>consume the frame at the head of the buffer\<close>
  "take_frame d =
     native_frame (d\<lparr>buffer := drop (16 + frame_size (buffer d)) (buffer d),
                     n_sequence := n_sequence d + 1\<rparr>)
       (unat (buffer d ! 4)) (slice 16 (16 + frame_size (buffer d)) (buffer d))"

definition frame_ready :: "native \<Rightarrow> bool" where
  "frame_ready d \<longleftrightarrow>
     16 \<le> length (buffer d) \<and> \<not> bad_header d \<and> 16 + frame_size (buffer d) \<le> length (buffer d)"

lemma feed_loop_ready:
  assumes "frame_ready d"
  shows "feed_loop d = (case snd (take_frame d) of
      None \<Rightarrow> feed_loop (fst (take_frame d)) | Some e \<Rightarrow> (fst (take_frame d), Some e))"
proof -
  have "16 \<le> length (buffer d)" "\<not> bad_header d"
    "\<not> length (buffer d) < 16 + frame_size (buffer d)"
    using assms by (simp_all add: frame_ready_def)
  then show ?thesis
    by (subst feed_loop.simps) (simp only: take_frame_def Let_def if_True if_False simp_thms)
qed

lemma feed_loop_stop:
  assumes "\<not> frame_ready d"
  shows "feed_loop d =
    (if 16 \<le> length (buffer d) \<and> bad_header d then raised ''native_frame_header'' d else (d, None))"
  using assms by (subst feed_loop.simps) (auto simp: frame_ready_def Let_def)

lemma take_frame_buffer: "buffer (fst (take_frame d)) = drop (16 + frame_size (buffer d)) (buffer d)"
  by (simp add: take_frame_def native_frame_buffer)

lemma feed_loop_cases [case_names stop error go]:
  assumes "\<And>d. \<not> frame_ready d \<Longrightarrow> P d"
    and "\<And>d e. frame_ready d \<Longrightarrow> snd (take_frame d) = Some e \<Longrightarrow> P d"
    and "\<And>d. frame_ready d \<Longrightarrow> snd (take_frame d) = None \<Longrightarrow> P (fst (take_frame d)) \<Longrightarrow> P d"
  shows "P d"
proof (induction "length (buffer d)" arbitrary: d rule: less_induct)
  case less
  show ?case
  proof (cases "frame_ready d")
    case True
    then have "length (buffer (fst (take_frame d))) < length (buffer d)"
      by (auto simp: take_frame_buffer frame_ready_def)
    then show ?thesis
      using less assms(2,3) True by (cases "snd (take_frame d)") auto
  qed (rule assms(1))
qed

lemma frame_ready_more:
  "frame_ready d \<Longrightarrow> frame_ready (retune (buffer d @ c) n q d)"
  by (simp add: frame_ready_def bad_header_more frame_size_more)

lemma take_frame_more:
  assumes "frame_ready d"
  shows "take_frame (retune (buffer d @ c) n q d) =
    lifted (retune (buffer (fst (take_frame d)) @ c) n q) (take_frame d)"
proof -
  have sz: "frame_size (buffer d @ c) = frame_size (buffer d)" and four: "(buffer d @ c) ! 4 = buffer d ! 4"
    and p: "slice 16 (16 + frame_size (buffer d)) (buffer d @ c) =
      slice 16 (16 + frame_size (buffer d)) (buffer d)"
    and drop: "drop (16 + frame_size (buffer d)) (buffer d @ c) =
      drop (16 + frame_size (buffer d)) (buffer d) @ c"
    using assms by (simp_all add: frame_ready_def frame_size_more nth_append slice_append_left)
  have pop: "(retune (buffer d @ c) n q d)\<lparr>buffer := b, n_sequence := i\<rparr> =
      retune b n q (d\<lparr>buffer := b', n_sequence := i\<rparr>)" for b b' i
    by (rule native.equality) (simp_all add: retune_def)
  have "take_frame (retune (buffer d @ c) n q d) = native_frame
      (retune (drop (16 + frame_size (buffer d)) (buffer d) @ c) n q
        (d\<lparr>buffer := drop (16 + frame_size (buffer d)) (buffer d), n_sequence := n_sequence d + 1\<rparr>))
      (unat (buffer d ! 4)) (slice 16 (16 + frame_size (buffer d)) (buffer d))"
    by (simp only: take_frame_def retune_simps sz four p drop
        pop [where b' = "drop (16 + frame_size (buffer d)) (buffer d)"])
  then show ?thesis
    by (simp only: native_frame_retune take_frame_buffer) (simp only: take_frame_def)
qed

lemma feed_loop_more: "feed_loop (retune (buffer d @ c) n q d) = continued c n q (feed_loop d)"
proof (induction d rule: feed_loop_cases)
  case (stop d)
  then show ?case
    using feed_loop_stop [of "retune (buffer d @ c) n q d"]
    by (auto simp: feed_loop_stop [OF stop] continued_def raised_def frame_ready_def bad_header_more)
next
  case (error d e)
  then show ?case
    by (simp add: feed_loop_ready frame_ready_more take_frame_more continued_def)
next
  case (go d)
  then show ?case
    by (simp add: feed_loop_ready [of d] feed_loop_ready [OF frame_ready_more] take_frame_more)
qed

subsection \<open>Feeding a channel block by block\<close>

lemma feed_loop_total: "total (fst (feed_loop d)) = total d"
proof (induction d rule: feed_loop_cases)
  case (stop d)
  then show ?case by (simp add: feed_loop_stop raised_def)
next
  case (error d e)
  then show ?case by (simp add: feed_loop_ready) (simp add: take_frame_def native_frame_total)
next
  case (go d)
  moreover have "total (fst (take_frame d)) = total d" by (simp add: take_frame_def native_frame_total)
  ultimately show ?case by (simp add: feed_loop_ready)
qed

lemma record_open [simp]:
  "failed (fst (raised e d)) = failed d" "ended (fst (raised e d)) = ended d"
  "failed (fst (request_record d key packet)) = failed d"
  "ended (fst (request_record d key packet)) = ended d"
  "failed (fst (response_record d key packet)) = failed d"
  "ended (fst (response_record d key packet)) = ended d"
  "failed (fst (eap_record d payload)) = failed d" "ended (fst (eap_record d payload)) = ended d"
  "failed (fst (numeric_record d kind payload)) = failed d"
  "ended (fst (numeric_record d kind payload)) = ended d"
  "failed (fst (terminal_record d payload)) = failed d"
  "ended (fst (terminal_record d payload)) = ended d"
  by (simp_all add: raised_def request_record_def response_record_def eap_record_def
      numeric_record_def terminal_record_def Let_def split: sum.split option.split)

lemma packet_record_open [simp]:
  "failed (fst (packet_record d kind payload)) = failed d"
  "ended (fst (packet_record d kind payload)) = ended d"
  unfolding packet_record_def Let_def
  by (simp split del: if_split split: sum.split; simp split: if_split)+

lemma native_frame_open:
  "failed (fst (native_frame d k p)) = failed d" "ended (fst (native_frame d k p)) = ended d"
  by (simp_all add: native_frame_def)

lemma feed_loop_open: "failed (fst (feed_loop d)) = failed d \<and> ended (fst (feed_loop d)) = ended d"
proof (induction d rule: feed_loop_cases)
  case (stop d)
  then show ?case by (simp add: feed_loop_stop raised_def)
next
  case (error d e)
  then show ?case by (simp add: feed_loop_ready) (simp add: take_frame_def native_frame_open)
next
  case (go d)
  moreover have "failed (fst (take_frame d)) = failed d" "ended (fst (take_frame d)) = ended d"
    by (simp_all add: take_frame_def native_frame_open)
  ultimately show ?case by (simp add: feed_loop_ready)
qed

fun exchange_loop :: "bytes list \<Rightarrow> native \<Rightarrow> bytes list \<Rightarrow> (native \<times> py_error option) \<times> bytes list" where
  \<comment> \<open>the read loop of \<open>native_exchange\<close>: feed every block and hand over the EAP events decoded
     so far; the second component is what \<open>on_eap_events\<close> received\<close>
  "exchange_loop [] d seen = ((d, None), seen)"
| "exchange_loop (block # rest) d seen =
     (case feed block d of
        (d, Some e) \<Rightarrow> ((d, Some e), seen)
      | (d, None) \<Rightarrow> exchange_loop rest (d\<lparr>eap_events := []\<rparr>) (seen @ eap_events d))"

definition native_decision ::
  "bytes list \<Rightarrow> address \<Rightarrow> bytes \<Rightarrow> ip option \<Rightarrow> (py_error + native_observation) \<times> bytes list" where
  "native_decision blocks peer sec source =
     (case exchange_loop blocks (new_native peer sec source) [] of
        ((d, Some e), seen) \<Rightarrow> (Inl e, seen)
      | ((d, None), seen) \<Rightarrow> (snd (finish d), seen))"

definition active :: "native \<Rightarrow> bool" where
  "active d \<longleftrightarrow> \<not> failed d \<and> \<not> ended d"

lemma feed_Inr:
  assumes "active d" and "total d + length block \<le> 1048576"
  shows "feed block d = (let out = feed_loop (retune (buffer d @ block) (total d + length block) [] d)
    in case snd out of None \<Rightarrow> out | Some e \<Rightarrow> ((fst out)\<lparr>failed := True\<rparr>, Some e))"
proof -
  have "feed_inner block d = feed_loop (retune (buffer d @ block) (total d + length block) [] d)"
  proof -
    let ?d = "d\<lparr>total := total d + length block\<rparr>"
    have "?d\<lparr>buffer := buffer ?d @ block\<rparr> =
        retune (buffer d @ block) (total d + length block) [] d"
      by (rule native.equality) (simp_all add: retune_def)
    moreover have "\<not> 1048576 < total ?d" using assms(2) by simp
    ultimately show ?thesis by (simp only: feed_inner_def Let_def if_False)
  qed
  then show ?thesis
    using assms by (auto simp: feed_def active_def Let_def split: prod.split option.split)
qed

lemma feed_active:
  assumes "feed block d = (d', None)"
  shows "active d'" "total d' = total d + length block" "total d' \<le> 1048576"
proof -
  have a: "active d" and le: "total d + length block \<le> 1048576"
    using assms by (auto simp: feed_def feed_inner_def active_def raised_def Let_def split: if_splits prod.splits option.splits)
  let ?r = "retune (buffer d @ block) (total d + length block) [] d"
  have "d' = fst (feed_loop ?r)"
    using assms unfolding feed_Inr [OF a le] Let_def by (auto split: option.splits)
  then show "active d'" "total d' = total d + length block" "total d' \<le> 1048576"
    using a le feed_loop_total [of ?r] feed_loop_open [of ?r] by (simp_all add: active_def)
qed

definition stable :: "native \<Rightarrow> bool" where
  \<comment> \<open>the buffer holds less than a frame\<close>
  "stable d \<longleftrightarrow> \<not> frame_ready d \<and> \<not> (16 \<le> length (buffer d) \<and> bad_header d)"

lemma feed_loop_stable: "snd (feed_loop d) = None \<Longrightarrow> stable (fst (feed_loop d))"
proof (induction d rule: feed_loop_cases)
  case (stop d)
  then show ?case by (auto simp: feed_loop_stop stable_def raised_def)
qed (auto simp: feed_loop_ready)

lemma stable_loop: "stable d \<Longrightarrow> feed_loop d = (d, None)"
  by (auto simp: stable_def feed_loop_stop)

lemma stable_retune [simp]:
  "stable (retune (buffer d) n q d) = stable d" "stable (d\<lparr>eap_events := e\<rparr>) = stable d"
  by (simp_all add: stable_def frame_ready_def bad_header_def Let_def)

lemma exchange_loop_whole:
  assumes "exchange_loop blocks d seen = ((d', r), seen')" and "active d" and "stable d"
    and "n = total d + length (concat blocks)" and "n \<le> 1048576"
  shows "case r of
      None \<Rightarrow> feed_loop (retune (buffer d @ concat blocks) n seen d) = (retune (buffer d') n seen' d', None)
        \<and> total d' = n \<and> active d'
    | Some e \<Rightarrow> snd (feed_loop (retune (buffer d @ concat blocks) n seen d)) = Some e"
  using assms
proof (induction blocks arbitrary: d seen)
  case Nil
  then show ?case using stable_loop [of "retune (buffer d) n seen d"] by simp
next
  case (Cons b rest)
  let ?r = "retune (buffer d @ b) (total d + length b) [] d"
  have le: "total d + length b \<le> 1048576" using Cons.prems(4,5) by simp
  note feed = feed_Inr [OF Cons.prems(2) le, unfolded Let_def]
  have more: "feed_loop (retune (buffer d @ concat (b # rest)) n seen d) =
      continued (concat rest) n seen (feed_loop ?r)"
    using feed_loop_more [of ?r "concat rest" n seen] by simp
  show ?case
  proof (cases "snd (feed_loop ?r)")
    case (Some e)
    then have "r = Some e" using Cons.prems(1) by (simp add: feed)
    then show ?thesis unfolding more by (simp add: continued_def Some)
  next
    case None
    let ?d = "fst (feed_loop ?r)"
    have fd: "feed b d = (?d, None)" by (simp add: feed None) (simp add: prod_eq_iff None)
    note act = feed_active [OF fd]
    have eq: "retune (buffer ?d @ concat rest) n (seen @ eap_events ?d) (?d\<lparr>eap_events := []\<rparr>) =
        retune (buffer ?d @ concat rest) n seen ?d"
      by (simp add: retune_def)
    have e1: "exchange_loop rest (?d\<lparr>eap_events := []\<rparr>) (seen @ eap_events ?d) = ((d', r), seen')"
      using Cons.prems(1) by (simp add: fd)
    have e2: "active (?d\<lparr>eap_events := []\<rparr>)" using act(1) by (simp add: active_def)
    have e3: "stable (?d\<lparr>eap_events := []\<rparr>)" using feed_loop_stable [OF None] by simp
    have e4: "n = total (?d\<lparr>eap_events := []\<rparr>) + length (concat rest)"
      using act(2) Cons.prems(4) by simp
    have e5: "buffer (?d\<lparr>eap_events := []\<rparr>) = buffer ?d" by simp
    have "case r of
        None \<Rightarrow> feed_loop (retune (buffer ?d @ concat rest) n seen ?d) = (retune (buffer d') n seen' d', None)
          \<and> total d' = n \<and> active d'
      | Some e \<Rightarrow> snd (feed_loop (retune (buffer ?d @ concat rest) n seen ?d)) = Some e"
      by (rule Cons.IH [OF e1 e2 e3 e4 Cons.prems(5), unfolded e5 eq])
    moreover have "continued (concat rest) n seen (feed_loop ?r) =
        feed_loop (retune (buffer ?d @ concat rest) n seen ?d)"
      by (simp only: continued_def None option.case)
    ultimately show ?thesis by (simp only: more)
  qed
qed

lemma finish_retune: "snd (finish (retune (buffer d) (total d) q d)) = snd (finish d)"
  by (auto simp: finish_def Let_def unanswered_def retune_updates split: option.split)

lemma new_native_open: "active (new_native peer sec source)" "stable (new_native peer sec source)"
  "total (new_native peer sec source) = 0" "buffer (new_native peer sec source) = []"
  by (simp_all add: active_def stable_def frame_ready_def new_native_def)

lemma native_decision_whole:
  assumes le: "length (concat blocks) \<le> 1048576"
  shows "fst (native_decision blocks peer sec source) =
    native_observation (concat blocks) peer sec source"
proof -
  let ?new = "new_native peer sec source"
  let ?whole = "retune (concat blocks) (length (concat blocks)) [] ?new"
  obtain d r seen where ex: "exchange_loop blocks ?new [] = ((d, r), seen)"
    by (metis prod.collapse)
  have feed: "feed (concat blocks) ?new = (let out = feed_loop ?whole
      in case snd out of None \<Rightarrow> out | Some e \<Rightarrow> ((fst out)\<lparr>failed := True\<rparr>, Some e))"
    using feed_Inr [of ?new "concat blocks"] le by (simp add: new_native_open)
  have w: "case r of
      None \<Rightarrow> feed_loop ?whole = (retune (buffer d) (length (concat blocks)) seen d, None)
        \<and> total d = length (concat blocks) \<and> active d
    | Some e \<Rightarrow> snd (feed_loop ?whole) = Some e"
    using exchange_loop_whole [OF ex new_native_open(1,2) _ le, unfolded new_native_open append_Nil]
    by simp
  show ?thesis
  proof (cases r)
    case None
    then have "feed_loop ?whole = (retune (buffer d) (total d) seen d, None)" using w by simp
    then show ?thesis
      using None ex by (simp add: native_decision_def native_observation_def feed finish_retune)
  next
    case (Some e)
    then have "snd (feed_loop ?whole) = Some e" using w by simp
    then show ?thesis
      using Some ex by (simp add: native_decision_def native_observation_def feed)
  qed
qed

subsection \<open>Only authenticated replies decide\<close>

definition authentic_request :: "bytes \<Rightarrow> native_key \<times> bytes \<Rightarrow> bool" where
  \<comment> \<open>a recorded Access-Request with the Request Authenticator of its key and a valid
     Message-Authenticator\<close>
  "authentic_request sec kp \<longleftrightarrow> snd kp ! 0 = 1 \<and> snd (fst kp) = slice 4 20 (snd kp) \<and>
     (\<exists>zeroed. message_authenticator (snd kp) = Inr (zeroed, hmac_md5 sec zeroed))"

definition native_ok :: "native \<Rightarrow> bool" where
  "native_ok d \<longleftrightarrow>
     (\<forall>kp \<in> set (requests d). authentic_request (secret d) kp) \<and>
     keys (transmissions d) = keys (requests d) \<and> is_dict (requests d) \<and>
     set (consumed d) \<subseteq> set (keys (requests d)) \<and> distinct (consumed d) \<and>
     (case n_result d of
        None \<Rightarrow> length (consumed d) = challenges d
      | Some r \<Rightarrow> ar_code r \<in> {2, 3} \<and> length (consumed d) = challenges d + 1 \<and>
          (\<exists>kp \<in> set (requests d). fst kp \<in> set (consumed d) \<and>
             (\<exists>resp. verify_access (snd kp) resp (secret d) (n_peer d) = Inr r))) \<and>
     responses d = length (consumed d)"

lemma native_ok_frame:
  "native_ok d \<Longrightarrow> requests d' = requests d \<Longrightarrow> transmissions d' = transmissions d \<Longrightarrow>
    consumed d' = consumed d \<Longrightarrow> n_result d' = n_result d \<Longrightarrow> challenges d' = challenges d \<Longrightarrow>
    responses d' = responses d \<Longrightarrow> secret d' = secret d \<Longrightarrow> n_peer d' = n_peer d \<Longrightarrow> native_ok d'"
  by (cases "n_result d") (simp_all add: native_ok_def)

lemma native_ok_raised: "native_ok d \<Longrightarrow> native_ok (fst (raised e d))"
  by (simp add: raised_def)

lemma request_record_outcome:
  "(\<exists>e. request_record d key packet = (d, Some e)) \<or>
   (n_result d = None \<and> packet ! 0 = 1 \<and> snd key = slice 4 20 packet \<and>
    (\<exists>zeroed. message_authenticator packet = Inr (zeroed, hmac_md5 (secret d) zeroed)) \<and>
    request_record d key packet = (d\<lparr>requests := put key packet (requests d),
      transmissions := put key
        ((case map_of (transmissions d) key of None \<Rightarrow> 0 | Some n \<Rightarrow> n) + 1) (transmissions d)\<rparr>, None))"
proof (cases "message_authenticator packet")
  case (Inl e)
  then show ?thesis by (simp add: request_record_def raised_def)
next
  case (Inr zm)
  obtain z m where zm: "zm = (z, m)" by (cases zm)
  show ?thesis
    unfolding request_record_def raised_def Inr zm sum.case prod.case
    by (simp only: split: if_split) blast
qed

lemma native_ok_request:
  assumes ok: "native_ok d"
  shows "native_ok (fst (request_record d key packet))"
  using request_record_outcome [of d key packet]
proof
  assume "\<exists>e. request_record d key packet = (d, Some e)"
  then show ?thesis using ok by auto
next
  assume fresh: "n_result d = None \<and> packet ! 0 = 1 \<and> snd key = slice 4 20 packet \<and>
    (\<exists>zeroed. message_authenticator packet = Inr (zeroed, hmac_md5 (secret d) zeroed)) \<and>
    request_record d key packet = (d\<lparr>requests := put key packet (requests d),
      transmissions := put key
        ((case map_of (transmissions d) key of None \<Rightarrow> 0 | Some n \<Rightarrow> n) + 1) (transmissions d)\<rparr>, None)"
  then have "authentic_request (secret d) (key, packet)"
    by (simp add: authentic_request_def)
  then have "\<forall>kp \<in> set (put key packet (requests d)). authentic_request (secret d) kp"
    using ok put_values [of _ key packet "requests d"] by (auto simp: native_ok_def)
  moreover have "keys (put key n (transmissions d)) = keys (put key packet (requests d))" for n
    using ok by (simp only: keys_put native_ok_def)
  ultimately show ?thesis
    using ok fresh by (simp add: native_ok_def is_dict_put keys_put) blast
qed

lemma native_ok_response: "native_ok d \<Longrightarrow> native_ok (fst (response_record d key packet))"
proof -
  assume ok: "native_ok d"
  show "native_ok (fst (response_record d key packet))"
  proof (cases "snd (response_record d key packet)")
    case None
    then obtain request r where fresh: "map_of (requests d) key = Some request"
      "key \<notin> set (consumed d)" "n_result d = None"
      "verify_access request packet (secret d) (n_peer d) = Inr r"
      and out: "fst (response_record d key packet) =
        (if ar_code r = 11
         then d\<lparr>consumed := consumed d @ [key], challenges := challenges d + 1,
                responses := responses d + 1\<rparr>
         else d\<lparr>consumed := consumed d @ [key], n_result := Some r,
                responses := responses d + 1\<rparr>)"
      by (auto simp: response_record_def raised_def Let_def split: if_splits sum.splits option.splits)
    have code: "ar_code r \<in> {2, 3, 11}"
      by (rule verified_reply_wire(1) [OF fresh(4)])
    have mem: "(key, request) \<in> set (requests d)"
      by (rule lookup_in_set [OF fresh(1)])
    then have key: "key \<in> set (keys (requests d))" by force
    show ?thesis
    proof (cases "ar_code r = 11")
      case True
      then show ?thesis using ok fresh key by (auto simp: out native_ok_def)
    next
      case False
      have "\<exists>kp \<in> set (requests d). fst kp \<in> set (consumed d @ [key]) \<and>
          (\<exists>resp. verify_access (snd kp) resp (secret d) (n_peer d) = Inr r)"
        using mem fresh(4) by (intro bexI [of _ "(key, request)"]) auto
      then show ?thesis using ok fresh key code False by (auto simp: out native_ok_def)
    qed
  next
    case (Some e)
    then show ?thesis
      using ok by (auto simp: response_record_def raised_def Let_def split: if_splits sum.splits option.splits)
  qed
qed

lemma native_ok_others:
  assumes "native_ok d"
  shows "native_ok (fst (eap_record d payload))" and "native_ok (fst (numeric_record d kind payload))"
    and "native_ok (fst (terminal_record d payload))"
  using assms
  by (auto simp: eap_record_def numeric_record_def terminal_record_def raised_def Let_def
      intro: native_ok_frame)

lemma native_ok_packet: "native_ok d \<Longrightarrow> native_ok (fst (packet_record d kind payload))"
proof -
  assume ok: "native_ok d"
  then have l: "native_ok (d\<lparr>local_address := x\<rparr>)" for x
    by (rule native_ok_frame) simp_all
  show "native_ok (fst (packet_record d kind payload))"
    unfolding packet_record_def Let_def
    using ok l
    by (simp split del: if_split split: sum.split)
      (simp add: native_ok_raised native_ok_request native_ok_response split: if_split)
qed

lemma native_ok_native_frame: "native_ok d \<Longrightarrow> native_ok (fst (native_frame d kind payload))"
  by (simp add: native_frame_def native_ok_packet native_ok_others native_ok_raised)

lemma native_ok_take_frame: "native_ok d \<Longrightarrow> native_ok (fst (take_frame d))"
  unfolding take_frame_def by (rule native_ok_native_frame) (erule native_ok_frame, simp_all)

lemma native_ok_feed_loop: "native_ok d \<Longrightarrow> native_ok (fst (feed_loop d))"
proof (induction d rule: feed_loop_cases)
  case (stop d)
  then show ?case by (simp add: feed_loop_stop raised_def)
qed (simp_all add: feed_loop_ready native_ok_take_frame)

lemma record_owner [simp]:
  "secret (fst (raised e d)) = secret d" "n_peer (fst (raised e d)) = n_peer d"
  "secret (fst (request_record d key packet)) = secret d"
  "n_peer (fst (request_record d key packet)) = n_peer d"
  "secret (fst (response_record d key packet)) = secret d"
  "n_peer (fst (response_record d key packet)) = n_peer d"
  "secret (fst (eap_record d payload)) = secret d" "n_peer (fst (eap_record d payload)) = n_peer d"
  "secret (fst (numeric_record d kind payload)) = secret d"
  "n_peer (fst (numeric_record d kind payload)) = n_peer d"
  "secret (fst (terminal_record d payload)) = secret d"
  "n_peer (fst (terminal_record d payload)) = n_peer d"
  by (simp_all add: raised_def request_record_def response_record_def eap_record_def
      numeric_record_def terminal_record_def Let_def split: sum.split option.split)

lemma packet_record_owner [simp]:
  "secret (fst (packet_record d kind payload)) = secret d"
  "n_peer (fst (packet_record d kind payload)) = n_peer d"
  unfolding packet_record_def Let_def
  by (simp split del: if_split split: sum.split; simp split: if_split)+

lemma native_frame_owner:
  "secret (fst (native_frame d k p)) = secret d \<and> n_peer (fst (native_frame d k p)) = n_peer d"
  by (simp add: native_frame_def)

lemma feed_loop_owner:
  "secret (fst (feed_loop d)) = secret d \<and> n_peer (fst (feed_loop d)) = n_peer d"
proof (induction d rule: feed_loop_cases)
  case (stop d)
  then show ?case by (simp add: feed_loop_stop raised_def)
next
  case (error d e)
  then show ?case by (simp add: feed_loop_ready) (simp add: take_frame_def native_frame_owner)
next
  case (go d)
  moreover have "secret (fst (take_frame d)) = secret d \<and> n_peer (fst (take_frame d)) = n_peer d"
    by (simp add: take_frame_def native_frame_owner)
  ultimately show ?case by (simp add: feed_loop_ready)
qed

lemma finish_Inr:
  assumes "snd (finish d) = Inr obs"
  shows "no_result obs = map_option (\<lambda>r. r\<lparr>ar_peer_result := peer_result obs,
      ar_tls_errors := tls_errors obs\<rparr>) (n_result d)"
    and "no_challenges obs = challenges d" and "eap_frames obs = frames d"
    and "unanswered_retries obs = unanswered d" and "no_invalid_replies obs = invalid_replies d"
    and "buffer d = []" and "0 < total d"
  using assms by (auto simp: finish_def unanswered_def Let_def split: if_splits option.splits)

lemma native_observation_sound:
  assumes obs: "native_observation stream peer sec source = Inr obs"
  shows "0 < length stream \<and> length stream \<le> 1048576"
    and "no_result obs = Some r \<Longrightarrow> \<exists>req resp r0. verify_access req resp sec peer = Inr r0 \<and>
      authentic_request sec ((req ! 1, slice 4 20 req), req) \<and> ar_code r0 \<in> {2, 3} \<and>
      r = r0\<lparr>ar_peer_result := peer_result obs, ar_tls_errors := tls_errors obs\<rparr>"
proof -
  let ?new = "new_native peer sec source"
  let ?r = "retune stream (length stream) [] ?new"
  obtain d where feed: "feed stream ?new = (d, None)" and fin: "snd (finish d) = Inr obs"
    using obs by (auto simp: native_observation_def split: prod.splits option.splits)
  note act = feed_active [OF feed]
  have le: "total ?new + length stream \<le> 1048576" using act(2,3) by simp
  have d: "d = fst (feed_loop ?r)"
    using feed unfolding feed_Inr [OF new_native_open(1) le] new_native_open append_Nil add_0
    by (auto simp: Let_def split: option.splits)
  show "0 < length stream \<and> length stream \<le> 1048576"
    using act(2,3) finish_Inr(7) [OF fin] by (simp add: new_native_open)
  have "native_ok ?r" by (simp add: native_ok_def new_native_def)
  then have ok: "native_ok d" unfolding d by (rule native_ok_feed_loop)
  have own: "secret d = sec" "n_peer d = peer"
    using feed_loop_owner [of ?r] by (simp_all add: d) (simp_all add: new_native_def)
  assume "no_result obs = Some r"
  then obtain r0 where r0: "n_result d = Some r0"
    and r: "r = r0\<lparr>ar_peer_result := peer_result obs, ar_tls_errors := tls_errors obs\<rparr>"
    using finish_Inr(1) [OF fin] by auto
  obtain kp resp where "kp \<in> set (requests d)" "verify_access (snd kp) resp sec peer = Inr r0"
    and code: "ar_code r0 \<in> {2, 3}"
    using ok own by (auto simp: native_ok_def r0)
  moreover from this have "authentic_request sec kp"
    using ok own by (simp add: native_ok_def)
  ultimately have "authentic_request sec ((snd kp ! 1, slice 4 20 (snd kp)), snd kp)"
    "verify_access (snd kp) resp sec peer = Inr r0"
    by (simp_all add: authentic_request_def)
  then show "\<exists>req resp r0. verify_access req resp sec peer = Inr r0 \<and>
      authentic_request sec ((req ! 1, slice 4 20 req), req) \<and> ar_code r0 \<in> {2, 3} \<and>
      r = r0\<lparr>ar_peer_result := peer_result obs, ar_tls_errors := tls_errors obs\<rparr>"
    using code r by blast
qed

subsection \<open>Where a result comes from\<close>

function stream_records :: "bytes \<Rightarrow> (nat \<times> bytes) list" where
  \<comment> \<open>the records of a channel: kind and payload of each complete frame\<close>
  "stream_records b =
     (if 16 \<le> length b \<and> 16 + frame_size b \<le> length b
      then (unat (b ! 4), slice 16 (16 + frame_size b) b) # stream_records (drop (16 + frame_size b) b)
      else [])"
  by pat_completeness auto
termination by (relation "measure length") auto

declare stream_records.simps [simp del]

definition answers :: "(nat \<times> bytes) list \<Rightarrow> bytes \<Rightarrow> address \<Rightarrow> access_result \<Rightarrow> bool" where
  \<comment> \<open>the last packet among the records is a reply, and an earlier one is the request it answers\<close>
  "answers recs sec peer r \<longleftrightarrow> (\<exists>xs q ys p zs. recs = xs @ (1, q) # ys @ (2, p) # zs \<and>
     decode_endpoint q 8 4 = peer \<and> decode_endpoint p 8 4 = peer \<and> slice 40 56 p = slice 40 56 q \<and>
     authentic_request sec ((drop 64 q ! 1, slice 40 56 q), drop 64 q) \<and>
     verify_access (drop 64 q) (drop 64 p) sec peer = Inr r \<and> (\<forall>x \<in> set zs. fst x \<noteq> 1 \<and> fst x \<noteq> 2))"

definition sourced :: "(nat \<times> bytes) list \<Rightarrow> native \<Rightarrow> bool" where
  "sourced recs d \<longleftrightarrow>
     (\<forall>(key, req) \<in> set (requests d). \<exists>q. (1, q) \<in> set recs \<and> req = drop 64 q \<and>
        decode_endpoint q 8 4 = n_peer d \<and> key = (req ! 1, slice 40 56 q)) \<and>
     (\<forall>r. n_result d = Some r \<longrightarrow> answers recs (secret d) (n_peer d) r)"

lemma packet_record_None:
  assumes "packet_record d kind payload = (d', None)"
  shows "\<exists>loc. decode_endpoint payload 8 4 = n_peer d \<and>
    (let packet = drop 64 payload; key = (packet ! 1, slice 40 56 payload); d = d\<lparr>local_address := loc\<rparr>
     in if kind = 1 then request_record d key packet else response_record d key packet) = (d', None)"
proof -
  obtain packet vs where p: "packet_attributes (drop 64 payload) = Inr (packet, vs)" "length packet = length payload - 64"
    and run: "decode_endpoint payload 8 4 = n_peer d"
      "(let key = (packet ! 1, slice 40 56 payload); d = d\<lparr>local_address := Some (decode_endpoint payload 24 6)\<rparr>
        in if kind = 1 then request_record d key packet else response_record d key packet) = (d', None)"
    using assms unfolding packet_record_def Let_def raised_def
    by (simp only: split: if_splits sum.splits prod.splits) (auto split: if_splits)
  obtain pad where "drop 64 payload = packet @ pad" using packet_attributes_sound(6) [OF p(1)] by blast
  then have "packet = drop 64 payload" using p(2) by (metis append_eq_conv_conj length_drop take_all_iff order_refl)
  then show ?thesis using run by (intro exI [of _ "Some (decode_endpoint payload 24 6)"]) (simp add: Let_def split: if_splits)
qed

lemma answersI:
  assumes "recs = xs @ (1, q) # ys @ (2, p) # zs"
    and "decode_endpoint q 8 4 = peer" "decode_endpoint p 8 4 = peer" "slice 40 56 p = slice 40 56 q"
      "authentic_request sec ((drop 64 q ! 1, slice 40 56 q), drop 64 q)"
      "verify_access (drop 64 q) (drop 64 p) sec peer = Inr r" "\<forall>x \<in> set zs. fst x \<noteq> 1 \<and> fst x \<noteq> 2"
  shows "answers recs sec peer r"
  using assms unfolding answers_def by blast

lemma answers_more:
  assumes "answers recs sec peer r" "fst x \<noteq> 1" "fst x \<noteq> 2"
  shows "answers (recs @ [x]) sec peer r"
proof -
  obtain xs q ys p zs where split: "recs = xs @ (1, q) # ys @ (2, p) # zs"
    and a: "decode_endpoint q 8 4 = peer" "decode_endpoint p 8 4 = peer" "slice 40 56 p = slice 40 56 q"
      "authentic_request sec ((drop 64 q ! 1, slice 40 56 q), drop 64 q)"
      "verify_access (drop 64 q) (drop 64 p) sec peer = Inr r" "\<forall>x \<in> set zs. fst x \<noteq> 1 \<and> fst x \<noteq> 2"
    using assms(1) unfolding answers_def by blast
  have "recs @ [x] = xs @ (1, q) # ys @ (2, p) # (zs @ [x])" by (simp add: split)
  then show ?thesis using a(1-5) by (rule answersI) (use a(6) assms(2,3) in auto)
qed

lemma sourced_apart:
  assumes "sourced recs d" and "requests d' = requests d" "n_result d' = n_result d" "secret d' = secret d" "n_peer d' = n_peer d"
    and "fst x \<noteq> 1" "fst x \<noteq> 2"
  shows "sourced (recs @ [x]) d'"
proof -
  have "answers (recs @ [x]) (secret d) (n_peer d) r" if "n_result d = Some r" for r
    using assms(1,6,7) that by (simp add: sourced_def answers_more)
  moreover have "\<exists>q. (1, q) \<in> set (recs @ [x]) \<and> req = drop 64 q \<and> decode_endpoint q 8 4 = n_peer d \<and>
      key = (req ! 1, slice 40 56 q)" if "(key, req) \<in> set (requests d)" for key req
  proof -
    obtain q where "(1, q) \<in> set recs \<and> req = drop 64 q \<and> decode_endpoint q 8 4 = n_peer d \<and> key = (req ! 1, slice 40 56 q)"
      using assms(1) \<open>(key, req) \<in> set (requests d)\<close> by (fastforce simp: sourced_def)
    then show ?thesis by (intro exI [of _ q]) simp
  qed
  ultimately show ?thesis unfolding sourced_def assms(2-5) by blast
qed

lemma sourced_request:
  assumes s: "sourced recs d" and d: "request_record (d\<lparr>local_address := loc\<rparr>) key packet = (d', None)"
    and k: "key = (packet ! 1, slice 40 56 payload)" "packet = drop 64 payload" "decode_endpoint payload 8 4 = n_peer d"
  shows "sourced (recs @ [(1, payload)]) d'"
proof -
  have n: "n_result d = None" and q: "requests d' = put key packet (requests d)" and "n_result d' = None" "n_peer d' = n_peer d"
    using request_record_outcome [of "d\<lparr>local_address := loc\<rparr>" key packet] d by auto
  moreover have "\<exists>q. (1, q) \<in> set (recs @ [(1, payload)]) \<and> snd kp = drop 64 q \<and> decode_endpoint q 8 4 = n_peer d \<and>
      fst kp = (snd kp ! 1, slice 40 56 q)" if "kp \<in> set (put key packet (requests d))" for kp
    using put_values [OF that] s k by (fastforce simp: sourced_def)
  ultimately show ?thesis by (auto simp: sourced_def)
qed

lemma sourced_response:
  assumes ok: "native_ok d" and s: "sourced recs d" and d: "response_record (d\<lparr>local_address := loc\<rparr>) key packet = (d', None)"
    and k: "key = (packet ! 1, slice 40 56 payload)" "packet = drop 64 payload" "decode_endpoint payload 8 4 = n_peer d"
  shows "sourced (recs @ [(2, payload)]) d'"
proof -
  obtain request r where found: "map_of (requests d) key = Some request" "n_result d = None"
      "verify_access request packet (secret d) (n_peer d) = Inr r"
    and d': "requests d' = requests d" "secret d' = secret d" "n_peer d' = n_peer d" "n_result d' = None \<or> n_result d' = Some r"
    using d by (auto simp: response_record_def raised_def Let_def split: if_splits sum.splits option.splits)
  have mem: "(key, request) \<in> set (requests d)" by (rule lookup_in_set [OF found(1)])
  obtain q where q: "(1, q) \<in> set recs" "request = drop 64 q" "decode_endpoint q 8 4 = n_peer d" "key = (request ! 1, slice 40 56 q)"
    using s mem by (fastforce simp: sourced_def)
  have auth: "authentic_request (secret d) (key, request)" using ok mem by (auto simp: native_ok_def)
  obtain xs ys where "recs = xs @ (1, q) # ys" using split_list [OF q(1)] by blast
  then have split: "recs @ [(2, payload)] = xs @ (1, q) # ys @ (2, payload) # []" by simp
  have same: "slice 40 56 payload = slice 40 56 q" using k(1) q(4) by simp
  have "answers (recs @ [(2, payload)]) (secret d) (n_peer d) r"
    using split q(3) k(3) same auth [unfolded q(4), unfolded q(2)] found(3) [unfolded k(2) q(2)]
    by (rule answersI) simp
  moreover have "\<forall>(key, req) \<in> set (requests d). \<exists>q. (1, q) \<in> set (recs @ [(2, payload)]) \<and> req = drop 64 q \<and>
      decode_endpoint q 8 4 = n_peer d \<and> key = (req ! 1, slice 40 56 q)"
    using s by (fastforce simp: sourced_def)
  ultimately show ?thesis using d' by (auto simp: sourced_def)
qed

lemma sourced_frame:
  assumes "native_ok d" and s: "sourced recs d" and d: "native_frame d kind payload = (d', None)"
  shows "sourced (recs @ [(kind, payload)]) d'"
proof (cases "kind \<in> {1, 2}")
  case True
  then have "packet_record d kind payload = (d', None)" using d by (simp add: native_frame_def)
  from packet_record_None [OF this] show ?thesis
    using True sourced_request [OF s] sourced_response [OF assms(1) s] by (auto simp: Let_def split: if_splits)
next
  case False
  then have "requests d' = requests d \<and> n_result d' = n_result d \<and> secret d' = secret d \<and> n_peer d' = n_peer d"
    using d by (auto simp: native_frame_def eap_record_def numeric_record_def terminal_record_def raised_def Let_def split: if_splits)
  then show ?thesis using False by (intro sourced_apart [OF s]) simp_all
qed

lemma sourced_loop:
  "native_ok d \<Longrightarrow> sourced recs d \<Longrightarrow> feed_loop d = (d', None) \<Longrightarrow> sourced (recs @ stream_records (buffer d)) d'"
proof (induction d arbitrary: recs rule: feed_loop_cases)
  case (stop d)
  then have "d' = d" "\<not> (16 \<le> length (buffer d) \<and> bad_header d)"
    by (auto simp: feed_loop_stop raised_def split: if_splits)
  then have "stream_records (buffer d) = []" using stop(1) by (subst stream_records.simps) (auto simp: frame_ready_def)
  then show ?case using stop \<open>d' = d\<close> by simp
next
  case (error d e)
  then show ?case by (simp add: feed_loop_ready)
next
  case (go d)
  let ?b = "buffer d"
  let ?x = "(unat (?b ! 4), slice 16 (16 + frame_size ?b) ?b)"
  let ?d = "d\<lparr>buffer := drop (16 + frame_size ?b) ?b, n_sequence := n_sequence d + 1\<rparr>"
  obtain u where u: "take_frame d = (u, None)" using go(2) by (cases "take_frame d") auto
  have ok: "native_ok ?d" by (rule native_ok_frame [OF go(4)]) simp_all
  have "sourced recs ?d" using go(5) by (simp add: sourced_def)
  from sourced_frame [OF ok this u [unfolded take_frame_def]] have "sourced (recs @ [?x]) u" .
  moreover have "native_ok u" using native_ok_take_frame [OF go(4)] u by simp
  moreover have "feed_loop u = (d', None)" using go(6) by (simp add: feed_loop_ready [OF go(1)] u)
  moreover have "stream_records ?b = ?x # stream_records (buffer u)"
    using go(1) take_frame_buffer [of d] u by (subst stream_records.simps) (simp add: frame_ready_def)
  ultimately show ?case using go(3) [of "recs @ [?x]"] u by simp
qed

lemma observed_records:
  assumes obs: "native_observation stream peer sec source = Inr obs" and "no_result obs = Some r"
  shows "\<exists>r0. answers (stream_records stream) sec peer r0 \<and> ar_code r0 \<in> {2, 3} \<and>
    r = r0\<lparr>ar_peer_result := peer_result obs, ar_tls_errors := tls_errors obs\<rparr>"
proof -
  let ?new = "new_native peer sec source"
  let ?r = "retune stream (length stream) [] ?new"
  obtain d where feed: "feed stream ?new = (d, None)" and fin: "snd (finish d) = Inr obs"
    using obs by (auto simp: native_observation_def split: prod.splits option.splits)
  note act = feed_active [OF feed]
  have le: "total ?new + length stream \<le> 1048576" using act(2,3) by simp
  have d: "feed_loop ?r = (d, None)"
    using feed unfolding feed_Inr [OF new_native_open(1) le] new_native_open append_Nil add_0
    by (cases "feed_loop ?r") (auto simp: Let_def split: option.splits)
  have ok: "native_ok ?r" by (simp add: native_ok_def new_native_def)
  have "sourced [] ?r" by (simp add: sourced_def new_native_def)
  from sourced_loop [OF ok this d] have s: "sourced (stream_records stream) d" by simp
  have own: "secret d = sec" "n_peer d = peer"
    using feed_loop_owner [of ?r] by (simp_all add: d) (simp_all add: new_native_def)
  obtain r0 where r0: "n_result d = Some r0"
    and r: "r = r0\<lparr>ar_peer_result := peer_result obs, ar_tls_errors := tls_errors obs\<rparr>"
    using finish_Inr(1) [OF fin] assms(2) by (cases "n_result d") auto
  have "ar_code r0 \<in> {2, 3}" using native_ok_feed_loop [OF ok] r0 by (simp add: d native_ok_def)
  then show ?thesis using s r0 r own by (auto simp: sourced_def)
qed

subsection \<open>An honest exchange is released\<close>

definition frame :: "byte \<Rightarrow> nat \<Rightarrow> bytes \<Rightarrow> bytes" where
  \<comment> \<open>what the helper writes for one record\<close>
  "frame kind sequence payload = [0x53, 0x4c, 0x52, 0x31, kind, 0, 0, 0] @
     be_bytes 4 (int (length payload)) @ be_bytes 4 (int sequence) @ payload"

definition packet_payload :: "bytes \<Rightarrow> int \<Rightarrow> bytes \<Rightarrow> int \<Rightarrow> bytes \<Rightarrow> bytes \<Rightarrow> bytes" where
  \<comment> \<open>the metadata of an IPv4 packet record: ports, addresses, the key and the packet's length\<close>
  "packet_payload a port la lport auth packet = [4, 0, 0, 0] @ be_bytes 2 port @ be_bytes 2 lport @
     (a @ replicate 12 0) @ (la @ replicate 12 0) @ auth @ be_bytes 4 (int (length packet)) @
     replicate 4 0 @ packet"

lemma frame_step:
  assumes b: "buffer d = frame kind (n_sequence d) payload @ rest" and t: "terminal d = None"
    and n: "n_sequence d \<le> 512" and l: "length payload \<le> 8176"
  shows "feed_loop d = (let out = native_frame (d\<lparr>buffer := rest, n_sequence := n_sequence d + 1\<rparr>)
      (unat kind) payload
    in case snd out of None \<Rightarrow> feed_loop (fst out) | Some e \<Rightarrow> (fst out, Some e))"
proof -
  let ?b = "buffer d"
  have len: "be_int (be_bytes 4 (int (length payload))) = int (length payload)"
    and sq: "be_int (be_bytes 4 (int (n_sequence d))) = int (n_sequence d)"
    using l n by (simp_all add: be_int_be_bytes)
  have size: "frame_size ?b = length payload"
    by (simp add: frame_size_def b frame_def slice_def len)
  have sequence: "slice 12 16 ?b = be_bytes 4 (int (n_sequence d))"
    by (simp add: b frame_def slice_def)
  have "\<not> bad_header d"
    using t n l by (simp add: bad_header_def sequence sq size, simp add: b frame_def slice_def any_set_def)
  moreover have "drop (16 + length payload) ?b = drop (length payload) (drop 16 ?b)" by (simp add: ac_simps)
  then have "drop (16 + length payload) ?b = rest" by (simp add: b frame_def)
  moreover have "slice 16 (16 + length payload) ?b = payload"
    "?b ! 4 = kind" "16 + length payload \<le> length ?b"
    by (simp_all add: b frame_def slice_def)
  ultimately show ?thesis
    by (subst feed_loop.simps) (simp add: size Let_def)
qed

lemma no_octet_set [simp]: "\<not> any_set (replicate n 0)" "\<not> any_set [0, 0, 0]"
  by (simp_all add: any_set_def list_ex_iff)

lemma packet_record_payload:
  assumes a: "length a = 4" "length la = 4" "length auth = 16"
    and port: "0 \<le> port" "port < 65536" "0 < lport" "lport < 65536"
    and peer: "n_peer d = (IPv4 a, port)" "source_address d = None"
      "local_address d \<in> {None, Some (IPv4 la, lport)}"
    and parse: "packet_attributes packet = Inr (packet, vs)"
  shows "packet_record d kind (packet_payload a port la lport auth packet) =
    (let d = d\<lparr>local_address := Some (IPv4 la, lport)\<rparr>; key = (packet ! 1, auth)
     in if kind = 1 then request_record d key packet else response_record d key packet)"
proof -
  let ?p = "packet_payload a port la lport auth packet"
  have small: "length packet \<le> 4096" using packet_attributes_sound(3) [OF parse] .
  have "be_int (be_bytes 2 port) = port" "be_int (be_bytes 2 lport) = lport"
    "be_int (be_bytes 4 (int (length packet))) = int (length packet)"
    using port small by (simp_all add: be_int_be_bytes)
  moreover have "slice 4 6 ?p = be_bytes 2 port" "slice 6 8 ?p = be_bytes 2 lport"
    "slice 8 12 ?p = a" "slice 24 28 ?p = la" "slice 40 56 ?p = auth"
    "slice 56 60 ?p = be_bytes 4 (int (length packet))" "drop 64 ?p = packet"
    "slice 12 24 ?p = replicate 12 0" "slice 28 40 ?p = replicate 12 0" "slice 60 64 ?p = replicate 4 0"
    "slice 1 4 ?p = [0, 0, 0]" "?p ! 0 = 4" "length ?p = 64 + length packet"
    using a by (simp_all add: packet_payload_def slice_def)
  moreover have "20 \<le> length packet" using packet_attributes_sound(5) [OF parse] .
  ultimately show ?thesis
    using port peer
    by (auto simp: packet_record_def decode_endpoint_def parse Let_def)
qed

definition honest_stream :: "bytes \<Rightarrow> int \<Rightarrow> bytes \<Rightarrow> int \<Rightarrow> bytes \<Rightarrow> bytes \<Rightarrow> int \<Rightarrow> bytes" where
  \<comment> \<open>the channel of a helper that sent one request, got its reply and ended with its code\<close>
  "honest_stream a port la lport request response code =
     frame 1 1 (packet_payload a port la lport (slice 4 20 request) request) @
     frame 2 2 (packet_payload a port la lport (slice 4 20 request) response) @
     frame 7 3 (concat (map (be_bytes 4)
       [if code = 2 then 1 else 0, if code = 3 then 1 else 0, 0, 0, 0, 0, 0, 0]))"

lemma length_frame [simp]: "length (frame k n p) = 16 + length p"
  by (simp add: frame_def)

lemma length_packet_payload [simp]:
  "length a = 4 \<Longrightarrow> length la = 4 \<Longrightarrow> length auth = 16 \<Longrightarrow>
    length (packet_payload a port la lport auth packet) = 64 + length packet"
  by (simp add: packet_payload_def)

lemma be_int_words: "be_int (be_bytes 4 0) = 0" "be_int (be_bytes 4 1) = 1"
  by (simp_all add: be_int_be_bytes)

lemma terminal_octets:
  assumes "x \<in> {0, 1}" and "y \<in> {0, 1}"
  shows "terminal_record d (concat (map (be_bytes 4) [x, y, 0, 0, 0, 0, 0, 0])) =
    (d\<lparr>terminal := Some [x, y, 0, 0, 0, 0, 0, 0]\<rparr>, None)"
proof -
  let ?p = "concat (map (be_bytes 4) [x, y, 0, 0, 0, 0, 0, 0])"
  have "chunks_of 4 8 ?p = map (be_bytes 4) [x, y, 0, 0, 0, 0, 0, 0]"
    by (simp add: numeral_eq_Suc)
  then have "map be_int (chunks_of 4 8 ?p) = [x, y, 0, 0, 0, 0, 0, 0]"
    using assms by (auto simp: be_int_words)
  then show ?thesis
    using assms by (auto simp: terminal_record_def Let_def)
qed

lemma honest_stream_released:
  assumes a: "length a = 4" "length la = 4"
    and port: "0 \<le> port" "port < 65536" "0 < lport" "lport < 65536"
    and req: "packet_attributes request = Inr (request, rvs)" "request ! 0 = 1"
      "message_authenticator request = Inr (zeroed, hmac_md5 sec zeroed)"
    and resp: "packet_attributes response = Inr (response, vs)"
      "verify_access request response sec (IPv4 a, port) = Inr r" "ar_code r \<in> {2, 3}"
  shows "\<exists>obs. native_observation (honest_stream a port la lport request response (ar_code r))
      (IPv4 a, port) sec None = Inr obs \<and> no_result obs = Some (r\<lparr>ar_peer_result := 0, ar_tls_errors := 0\<rparr>)"
proof -
  let ?s = "honest_stream a port la lport request response (ar_code r)"
  let ?auth = "slice 4 20 request" and ?loc = "(IPv4 la, lport)"
  let ?t = "[if ar_code r = 2 then 1 else 0, if ar_code r = 3 then 1 else 0, 0, 0, 0, 0, 0, 0] :: int list"
  let ?key = "(request ! 1, ?auth)"
  define d0 where "d0 = retune ?s (length ?s) [] (new_native (IPv4 a, port) sec None)"
  define f3 where "f3 = frame 7 3 (concat (map (be_bytes 4) ?t))"
  define f2 where "f2 = frame 2 2 (packet_payload a port la lport ?auth response)"
  have au: "length ?auth = 16" using packet_attributes_sound(5) [OF req(1)] by (simp add: length_slice)
  have small: "length request \<le> 4096" "length response \<le> 4096"
    using packet_attributes_sound(3) req(1) resp(1) by blast+
  have le: "length ?s \<le> 1048576"
    using small a au by (simp add: honest_stream_def length_concat)
  define d1 where "d1 = d0\<lparr>buffer := f2 @ f3, n_sequence := 2, local_address := Some ?loc,
      requests := [(?key, request)], transmissions := [(?key, 1)]\<rparr>"
  have p1: "length (packet_payload a port la lport ?auth request) \<le> 8176"
    "length (packet_payload a port la lport ?auth response) \<le> 8176"
    using small a au by simp_all
  have b0: "buffer d0 = frame 1 (n_sequence d0) (packet_payload a port la lport ?auth request) @ f2 @ f3"
    "terminal d0 = None" "n_sequence d0 = 1"
    by (simp_all add: d0_def new_native_def honest_stream_def f2_def f3_def)
  have n0: "native_frame (d0\<lparr>buffer := f2 @ f3, n_sequence := n_sequence d0 + 1\<rparr>) (unat (1 :: byte))
      (packet_payload a port la lport ?auth request) = (d1, None)" (is "native_frame ?d _ ?p = _")
  proof -
    have "packet_record ?d 1 ?p = (let d = ?d\<lparr>local_address := Some ?loc\<rparr>; key = (request ! 1, ?auth)
       in if 1 = (1 :: nat) then request_record d key request else response_record d key request)"
      by (rule packet_record_payload [OF a au port _ _ _ req(1)]) (simp_all add: d0_def new_native_def)
    then show ?thesis
      by (simp add: native_frame_def request_record_def req d1_def d0_def new_native_def Let_def)
  qed
  have k: "feed_loop d0 = feed_loop d1"
    by (simp add: frame_step [OF b0(1,2) _ p1(1), unfolded n0] b0(3))
  have same: "response ! 1 = request ! 1"
    using resp(2) verify_access_iff [OF req(1) resp(1)] by (auto simp: authentic_reply_def)
  define d2 where "d2 = d1\<lparr>buffer := f3, n_sequence := 3, consumed := [?key], n_result := Some r,
      responses := 1\<rparr>"
  have b1: "buffer d1 = frame 2 (n_sequence d1) (packet_payload a port la lport ?auth response) @ f3"
    "terminal d1 = None" "n_sequence d1 = 2"
    by (simp_all add: d1_def f2_def b0)
  have n1: "native_frame (d1\<lparr>buffer := f3, n_sequence := n_sequence d1 + 1\<rparr>) (unat (2 :: byte))
      (packet_payload a port la lport ?auth response) = (d2, None)" (is "native_frame ?d _ ?p = _")
  proof -
    have "packet_record ?d 2 ?p = (let d = ?d\<lparr>local_address := Some ?loc\<rparr>; key = (response ! 1, ?auth)
       in if 2 = (1 :: nat) then request_record d key response else response_record d key response)"
      by (rule packet_record_payload [OF a au port _ _ _ resp(1)])
        (simp_all add: d1_def d0_def new_native_def)
    then show ?thesis
      using resp(2,3)
      by (auto simp: native_frame_def response_record_def same [simplified] d2_def d1_def d0_def new_native_def Let_def)
  qed
  have k2: "feed_loop d1 = feed_loop d2"
    by (simp add: frame_step [OF b1(1,2) _ p1(2), unfolded n1] b1(3))
  define d3 where "d3 = d2\<lparr>buffer := [], n_sequence := 4, terminal := Some ?t\<rparr>"
  have b2: "buffer d2 = frame 7 (n_sequence d2) (concat (map (be_bytes 4) ?t)) @ []"
    "terminal d2 = None" "n_sequence d2 = 3"
    using b1 by (simp_all add: d2_def f3_def)
  have n2: "native_frame (d2\<lparr>buffer := [], n_sequence := n_sequence d2 + 1\<rparr>) (unat (7 :: byte))
      (concat (map (be_bytes 4) ?t)) = (d3, None)"
    unfolding native_frame_def using b2(3) terminal_octets
    by (simp add: d3_def del: list.map concat.simps)
  have k3: "feed_loop d2 = feed_loop d3"
    by (simp add: frame_step [OF b2(1,2), unfolded n2] b2(3) length_concat)
  have "buffer d3 = []" by (simp add: d3_def)
  then have stop: "feed_loop d3 = (d3, None)" by (subst feed_loop.simps) simp
  have fed: "feed ?s (new_native (IPv4 a, port) sec None) = (d3, None)"
    using feed_Inr [of "new_native (IPv4 a, port) sec None" ?s] le k k2 k3
    by (simp add: new_native_open d0_def [symmetric] stop)
  have "\<not> failed d3" "\<not> ended d3" "total d3 = length ?s" "buffer d3 = []" "terminal d3 = Some ?t"
    "n_result d3 = Some r"
    by (simp_all add: d3_def d2_def d1_def d0_def new_native_def)
  moreover have "0 < length ?s" by (simp add: honest_stream_def)
  ultimately show ?thesis
    using resp(3) unfolding native_observation_def fed
    by (auto simp: finish_def Let_def)
qed

subsection \<open>Properties\<close>

text \<open>C36: the outcome of an EAP exchange does not depend on how the operating system cuts the
  helper's channel into blocks: reading any blocks of at most a mebibyte in total gives the
  observation, or the error, of their concatenation read at once.\<close>

theorem native_channel_cut:
  assumes "length (concat blocks) \<le> 1048576"
  shows "fst (native_decision blocks peer sec source) = native_observation (concat blocks) peer sec source"
  by (rule native_decision_whole [OF assms])

lemma native_channel_cut_witness:
  "fst (native_decision [[82, 83], [82]] (IPv4 [127, 0, 0, 1], 1812) [115] None) =
    native_observation [82, 83, 82] (IPv4 [127, 0, 0, 1], 1812) [115] None"
  using native_channel_cut [of "[[82, 83], [82]]"] by simp

text \<open>C18: an EAP exchange releases a decision only for an authenticated reply on its own channel. If the
  channel parses and the observation carries a result, the records of the stream hold an Access-Request
  to the configured server, whose Message-Authenticator is valid under the shared secret, and after it a
  reply from that server, recorded under the request's authenticator; no packet follows the reply; and
  the result is the verified Accept or Reject that this reply is for this request, with only the peer's
  result and TLS counters added.\<close>

theorem native_result_authentic:
  assumes "native_observation stream peer sec source = Inr obs" and "no_result obs = Some r"
  shows "(\<exists>xs q ys p zs r0. stream_records stream = xs @ (1, q) # ys @ (2, p) # zs \<and>
      decode_endpoint q 8 4 = peer \<and> decode_endpoint p 8 4 = peer \<and>
      drop 64 q ! 0 = 1 \<and> slice 40 56 p = slice 4 20 (drop 64 q) \<and>
      (\<exists>zeroed. message_authenticator (drop 64 q) = Inr (zeroed, hmac_md5 sec zeroed)) \<and>
      (\<forall>x \<in> set zs. fst x \<noteq> 1 \<and> fst x \<noteq> 2) \<and>
      verify_access (drop 64 q) (drop 64 p) sec peer = Inr r0 \<and> ar_code r0 \<in> {2, 3} \<and>
      r = r0\<lparr>ar_peer_result := peer_result obs, ar_tls_errors := tls_errors obs\<rparr>) \<and>
    0 < length stream \<and> length stream \<le> 1048576"
proof -
  obtain r0 where r0: "answers (stream_records stream) sec peer r0" "ar_code r0 \<in> {2, 3}"
      "r = r0\<lparr>ar_peer_result := peer_result obs, ar_tls_errors := tls_errors obs\<rparr>"
    using observed_records [OF assms] by blast
  obtain xs q ys p zs where split: "stream_records stream = xs @ (1, q) # ys @ (2, p) # zs"
    and a: "decode_endpoint q 8 4 = peer" "decode_endpoint p 8 4 = peer" "slice 40 56 p = slice 40 56 q"
      "authentic_request sec ((drop 64 q ! 1, slice 40 56 q), drop 64 q)"
      "verify_access (drop 64 q) (drop 64 p) sec peer = Inr r0" "\<forall>x \<in> set zs. fst x \<noteq> 1 \<and> fst x \<noteq> 2"
    using r0(1) unfolding answers_def by blast
  have req: "drop 64 q ! 0 = 1 \<and> slice 40 56 p = slice 4 20 (drop 64 q) \<and>
      (\<exists>zeroed. message_authenticator (drop 64 q) = Inr (zeroed, hmac_md5 sec zeroed))"
    using a(3,4) by (simp add: authentic_request_def)
  show ?thesis
    using native_observation_sound(1) [OF assms(1)] split a(1,2,5,6) req r0(2,3) by blast
qed

definition example_request :: bytes where
  \<comment> \<open>an Access-Request with a Message-Authenticator under the secret \<open>[115]\<close>\<close>
  "example_request = (let h = pack_header 1 7 38 @ replicate 16 9
     in h @ tlv (80, hmac_md5 [115] (h @ tlv (80, replicate 16 0))))"

lemma example_request_valid:
  "\<exists>rvs zeroed. packet_attributes example_request = Inr (example_request, rvs) \<and>
    message_authenticator example_request = Inr (zeroed, hmac_md5 [115] zeroed)" 
  "example_request ! 0 = 1"
proof -
  define h :: bytes where "h = pack_header 1 7 38"
  define m where "m = hmac_md5 [115] ((h @ replicate 16 9) @ tlv (80, replicate 16 0))"
  have lm: "length m = 16" by (simp add: m_def length_hmac_md5)
  have e: "example_request = h @ replicate 16 9 @ tlvs ([] @ [(80, m)])"
    by (simp add: example_request_def Let_def h_def m_def)
  have body: "encode_attributes ([] @ [(80, replicate 16 0)]) = Inr (tlvs [(80, replicate 16 0)])"
    by (simp add: encode_attributes_Inr_iff)
  note tail = signed_tail [OF body lm]
  have "packet_attributes example_request = Inr (example_request, [(80, m)])"
    using built_packet [OF tail(2), of "replicate 16 9" 1 7] lm by (simp add: e h_def)
  moreover have "message_authenticator example_request =
      Inr ((h @ replicate 16 9) @ tlvs [(80, replicate 16 0)], m)"
    using signed_scan [OF body lm, of "h @ replicate 16 9"] by (simp add: e h_def)
  ultimately show "\<exists>rvs zeroed. packet_attributes example_request = Inr (example_request, rvs) \<and>
    message_authenticator example_request = Inr (zeroed, hmac_md5 [115] zeroed)"
    by (auto simp: m_def)
  show "example_request ! 0 = 1" by (simp add: e h_def)
qed

lemma example_exchange:
  "\<exists>rvs zeroed response vs r. packet_attributes example_request = Inr (example_request, rvs) \<and>
    message_authenticator example_request = Inr (zeroed, hmac_md5 [115] zeroed) \<and>
    packet_attributes response = Inr (response, vs) \<and> ar_code r = 2 \<and>
    verify_access example_request response [115] (IPv4 [127, 0, 0, 1], 1812) = Inr r"
proof -
  obtain rvs zeroed where q: "packet_attributes example_request = Inr (example_request, rvs)"
    and ma: "message_authenticator example_request = Inr (zeroed, hmac_md5 [115] zeroed)"
    using example_request_valid(1) by blast
  have "eap_run [] [] False" by (simp add: eap_loop_runs [symmetric])
  then obtain m where v: "verify_access example_request (access_reply [115] example_request 2 []) [115]
      (IPv4 [127, 0, 0, 1], 1812) =
    Inr \<lparr>ar_code = 2, ar_attributes = [] @ [(80, m)], ar_peer = (IPv4 [127, 0, 0, 1], 1812),
         ar_request_authenticator = slice 4 20 example_request, ar_peer_result = 0, ar_tls_errors = 0\<rparr>"
    using access_reply_accepted [OF q example_request_valid(2), of 2 "[]" "[]" False "[115]"]
    by auto
  obtain p vs where p: "packet_attributes (access_reply [115] example_request 2 []) = Inr (p, vs)"
    using verify_access_parses [OF v] by auto
  have "verify_access example_request p [115] (IPv4 [127, 0, 0, 1], 1812) =
      verify_access example_request (access_reply [115] example_request 2 []) [115]
        (IPv4 [127, 0, 0, 1], 1812)" and "packet_attributes p = Inr (p, vs)"
    using p packet_attributes_again [OF p] by (simp_all add: verify_access_def)
  with q ma v show ?thesis by auto
qed

lemma native_result_authentic_witness:
  "\<exists>stream obs r. native_observation stream (IPv4 [127, 0, 0, 1], 1812) [115] None = Inr obs \<and>
    no_result obs = Some r \<and> ar_code r \<in> {2, 3} \<and> length stream \<le> 1048576"
proof -
  obtain rvs zeroed response vs r where e: "packet_attributes example_request = Inr (example_request, rvs)"
    "message_authenticator example_request = Inr (zeroed, hmac_md5 [115] zeroed)"
    "packet_attributes response = Inr (response, vs)" "ar_code r = 2"
    "verify_access example_request response [115] (IPv4 [127, 0, 0, 1], 1812) = Inr r"
    using example_exchange by blast
  obtain obs where o: "native_observation
      (honest_stream [127, 0, 0, 1] 1812 [127, 0, 0, 1] 49152 example_request response (ar_code r))
      (IPv4 [127, 0, 0, 1], 1812) [115] None = Inr obs"
    "no_result obs = Some (r\<lparr>ar_peer_result := 0, ar_tls_errors := 0\<rparr>)"
    using honest_stream_released [OF _ _ _ _ _ _ e(1) example_request_valid(2) e(2,3,5),
      of "[127, 0, 0, 1]" 49152] e(4) by auto
  moreover have "ar_code (r\<lparr>ar_peer_result := 0, ar_tls_errors := 0\<rparr>) \<in> {2, 3}" using e(4) by simp
  ultimately show ?thesis using native_result_authentic [OF o] by blast
qed

text \<open>C37: an honest exchange is released. The channel of a helper that sent an authentic
  Access-Request to the configured IPv4 server, received its verified Accept or Reject and ended
  with the matching code decodes to an observation with exactly that reply as its result.\<close>

theorem native_honest_exchange:
  assumes "length a = 4" "length la = 4" "0 \<le> port" "port < 65536" "0 < lport" "lport < 65536"
    and "packet_attributes request = Inr (request, rvs)" "request ! 0 = 1"
    and "message_authenticator request = Inr (zeroed, hmac_md5 sec zeroed)"
    and "packet_attributes response = Inr (response, vs)"
    and "verify_access request response sec (IPv4 a, port) = Inr r" and "ar_code r \<in> {2, 3}"
  shows "\<exists>obs. native_observation (honest_stream a port la lport request response (ar_code r))
      (IPv4 a, port) sec None = Inr obs \<and> no_result obs = Some (r\<lparr>ar_peer_result := 0, ar_tls_errors := 0\<rparr>)"
  by (rule honest_stream_released [OF assms])

lemma native_honest_exchange_witness:
  "\<exists>response r obs. verify_access example_request response [115] (IPv4 [127, 0, 0, 1], 1812) = Inr r \<and>
    native_observation
      (honest_stream [127, 0, 0, 1] 1812 [127, 0, 0, 1] 49152 example_request response 2)
      (IPv4 [127, 0, 0, 1], 1812) [115] None = Inr obs \<and>
    no_result obs = Some (r\<lparr>ar_peer_result := 0, ar_tls_errors := 0\<rparr>)"
proof -
  obtain rvs zeroed response vs r where e: "packet_attributes example_request = Inr (example_request, rvs)"
    "message_authenticator example_request = Inr (zeroed, hmac_md5 [115] zeroed)"
    "packet_attributes response = Inr (response, vs)" "ar_code r = 2"
    "verify_access example_request response [115] (IPv4 [127, 0, 0, 1], 1812) = Inr r"
    using example_exchange by blast
  show ?thesis
    using native_honest_exchange [OF _ _ _ _ _ _ e(1) example_request_valid(2) e(2,3,5),
      of "[127, 0, 0, 1]" 49152] e(4,5) by auto
qed

end
