(* ===== verification/Radius_Exchange.thy ===== *)
theory Radius_Exchange
  imports Radius_Access Radius_Native
begin

text \<open>
  The two Access exchanges of \<open>switchlab/radius.py\<close> around the codec: \<open>mab_exchange\<close>, one UDP
  request with bounded retries, and the private files \<open>native_exchange\<close> hands to the EAP helper.
  The network is an argument: what each socket call returned or which category of \<open>OSError\<close> it
  raised, and, per attempt, the datagrams that arrived before its timeout. The exchange gives the
  datagrams it sent beside its outcome.
\<close>

subsection \<open>MAC authentication bypass\<close>












subsection \<open>No datagram escapes the exchange\<close>












subsection \<open>The private files of the EAP helper\<close>

definition hex_text :: "pystr \<Rightarrow> py_error + pystr" where
  \<comment> \<open>\<open>value.encode().hex()\<close>\<close>
  "hex_text v = bind (encoded v) (\<lambda>b. Inr (concat (map hex_pair b)))"

fun bind_all :: "('e + 'a) list \<Rightarrow> 'e + 'a list" where
  "bind_all [] = Inr []"
| "bind_all (r # rs) = bind r (\<lambda>x. bind (bind_all rs) (\<lambda>xs. Inr (x # xs)))"

definition setting :: "string \<Rightarrow> pystr \<Rightarrow> py_error + pystr" where
  \<comment> \<open>a line whose value is hexadecimal\<close>
  "setting name v = bind (hex_text v) (\<lambda>h. Inr (str name @ h))"

definition peer_lines :: "supplicant_profile \<Rightarrow> radius_settings \<Rightarrow> pystr \<Rightarrow> (py_error + pystr) list" where
  "peer_lines profile settings dir =
     (case sp_method profile of
        Peap \<Rightarrow> [setting ''anonymous_identity='' (sp_identity profile),
                 (case sp_password profile of None \<Rightarrow> Inl AttributeError
                  | Some w \<Rightarrow> setting ''password='' w),
                 Inr (str ''phase2='' @ [34] @ str ''auth=MSCHAPV2'' @ [34])]
      | Tls \<Rightarrow> (case optional_lookup (materials settings) (client_identity_id profile) of
                  None \<Rightarrow> [Inl KeyError]
                | Some m \<Rightarrow>
                    [setting ''client_cert='' (dir @ str ''/client.pem''),
                     setting ''private_key='' (dir @ str ''/client.key'')] @
                    (if truthy (key_password m)
                     then [setting ''private_key_passwd='' (the (key_password m))] else [])))"

definition network_lines :: "supplicant_profile \<Rightarrow> radius_settings \<Rightarrow> pystr \<Rightarrow> py_error + pystr list" where
  \<comment> \<open>\<open>network.conf\<close>, written beside the certificates in the private directory \<open>dir\<close>\<close>
  "network_lines profile settings dir =
     (case map_of (materials settings) (trust_id profile) of
        None \<Rightarrow> Inl KeyError
      | Some trust \<Rightarrow> bind_all (
         [Inr (str ''network={''), Inr (str ''key_mgmt=IEEE8021X''),
          Inr (str ''eap='' @ str (case sp_method profile of Peap \<Rightarrow> ''PEAP'' | Tls \<Rightarrow> ''TLS'')),
          setting ''identity='' (case sp_method profile of Peap \<Rightarrow> sp_username profile
                                 | Tls \<Rightarrow> sp_identity profile),
          setting ''ca_cert='' (dir @ str ''/ca.pem''),
          setting ''domain_match='' (server_name profile),
          Inr (str ''phase1='' @ [34] @
            str ''tls_disable_tlsv1_0=1 tls_disable_tlsv1_1=1 tls_disable_tlsv1_3=1'' @ [34]),
          Inr (str ''fragment_size=1024''), Inr (str ''eapol_flags=0'')] @
         peer_lines profile settings dir @ [Inr (str ''}''), Inr []]))"

definition network_conf :: "supplicant_profile \<Rightarrow> radius_settings \<Rightarrow> pystr \<Rightarrow> py_error + pystr" where
  "network_conf profile settings dir =
     bind (network_lines profile settings dir) (\<lambda>ls. Inr (join [10] ls))"

lemma split_on_join:
  "xs \<noteq> [] \<Longrightarrow> \<forall>x \<in> set xs. c \<notin> set x \<Longrightarrow> split_on c (join [c] xs) = xs"
proof (induction "[c]" xs rule: join.induct)
  case (2 x)
  then have "c \<notin> set x" by simp
  then show ?case by (induction x) auto
next
  case (3 x y xs)
  have "split_on c (x @ c # rest) = x # split_on c rest" if "c \<notin> set x" for x rest
    using that by (induction x) auto
  then show ?case using 3 by simp
qed simp

lemma bind_all_Inr: "bind_all rs = Inr xs \<longleftrightarrow> rs = map Inr xs"
proof (induction rs arbitrary: xs)
  case (Cons r rs)
  then show ?case by (cases xs) (auto simp: result_simps)
qed auto

lemma hex_text_line: "hex_text v = Inr h \<Longrightarrow> 10 \<notin> set h"
proof -
  have hex: "10 \<notin> set (hex_pair b)" for b by (simp add: hex_pair_def hex_char_def)
  assume "hex_text v = Inr h"
  then show ?thesis using hex by (auto simp: hex_text_def result_simps)
qed

lemma newline_str: "10 \<in> set (str s) \<longleftrightarrow> CHR 0x0A \<in> set s"
proof -
  have ten: "10 = (of_char (CHR 0x0A) :: nat)" by simp
  have "of_char c = (10 :: nat) \<longleftrightarrow> c = CHR 0x0A" for c
    unfolding ten by (simp only: of_char_eq_iff)
  then show ?thesis by (auto simp: str_def image_iff eq_commute)
qed

lemma setting_line:
  assumes "setting name v = Inr l" and "CHR 0x0A \<notin> set name"
  shows "10 \<notin> set l"
proof -
  obtain h where h: "hex_text v = Inr h" and l: "l = str name @ h"
    using assms(1) by (auto simp: setting_def result_simps)
  show ?thesis using hex_text_line [OF h] newline_str assms(2) by (simp add: l)
qed

lemma setting_line_of: "Inr l = setting name v \<Longrightarrow> CHR 0x0A \<notin> set name \<Longrightarrow> 10 \<notin> set l"
  by (rule setting_line) simp_all

lemma peer_lines_single: "Inr l \<in> set (peer_lines profile settings dir) \<Longrightarrow> 10 \<notin> set l"
  unfolding peer_lines_def
  by (auto simp: newline_str split: eap_method.splits option.splits if_splits
      dest: setting_line_of)

lemma network_lines_single:
  assumes "network_lines profile settings dir = Inr ls" and "l \<in> set ls"
  shows "10 \<notin> set l"
proof -
  obtain trust where "map_of (materials settings) (trust_id profile) = Some trust"
    using assms(1) by (auto simp: network_lines_def split: option.splits)
  note lines = assms(1) [unfolded network_lines_def this option.case bind_all_Inr]
  have "Inr l \<in> set (map Inr ls :: (py_error + pystr) list)" using assms(2) by auto
  then show ?thesis
    unfolding lines [symmetric]
    by (auto simp: newline_str dest: peer_lines_single split: eap_method.splits
        dest: setting_line_of)
qed

lemma network_conf_lines:
  assumes "network_conf profile settings dir = Inr conf"
  shows "network_lines profile settings dir = Inr (split_on 10 conf)"
proof -
  obtain ls where ls: "network_lines profile settings dir = Inr ls" and c: "conf = join [10] ls"
    using assms by (auto simp: network_conf_def result_simps)
  have "ls \<noteq> []"
  proof
    assume "ls = []"
    obtain trust where "map_of (materials settings) (trust_id profile) = Some trust"
      using ls by (auto simp: network_lines_def split: option.splits)
    from ls [unfolded network_lines_def this option.case bind_all_Inr] show False
      by (simp add: \<open>ls = []\<close>)
  qed
  then have "split_on 10 conf = ls"
    unfolding c using network_lines_single [OF ls] by (intro split_on_join) auto
  then show ?thesis using ls by simp
qed

subsection \<open>A valid configuration always gives a request\<close>



subsection \<open>Properties\<close>







text \<open>C38: no configured text can inject a line into the EAP helper's \<open>network.conf\<close>. Splitting the
  file at its line feeds gives exactly the list of settings the generator assembled.\<close>

theorem network_conf_settings:
  assumes "network_conf profile settings dir = Inr conf"
  shows "network_lines profile settings dir = Inr (split_on 10 conf)"
  by (rule network_conf_lines [OF assms])

definition example_profile :: supplicant_profile where
  "example_profile = \<lparr>sp_method = Peap, sp_identity = [97, 10, 125], sp_username = [34, 10, 97],
     sp_password = Some [10], trust_id = [116], client_identity_id = None, server_name = [10, 110]\<rparr>"

lemma network_conf_settings_witness:
  "\<exists>conf ls. network_conf example_profile (default_radius\<lparr>materials :=
       [([116], \<lparr>m_id = [116], m_label = [], m_kind = Ca, certificate = [], private_key = None,
         key_password = None\<rparr>)]\<rparr>) [47] = Inr conf \<and>
     network_lines example_profile (default_radius\<lparr>materials :=
       [([116], \<lparr>m_id = [116], m_label = [], m_kind = Ca, certificate = [], private_key = None,
         key_password = None\<rparr>)]\<rparr>) [47] = Inr ls \<and> split_on 10 conf = ls"
proof -
  let ?s = "default_radius\<lparr>materials :=
       [([116], \<lparr>m_id = [116], m_label = [], m_kind = Ca, certificate = [], private_key = None,
         key_password = None\<rparr>)]\<rparr>"
  have "succeeds (network_conf example_profile ?s [47])" by code_simp
  then obtain conf where c: "network_conf example_profile ?s [47] = Inr conf"
    by (auto simp: succeeds_iff)
  show ?thesis using network_conf_settings [OF c] c by blast
qed

end
