(* ===== verification/Validators.thy ===== *)
theory Validators
  imports Configuration
begin

text \<open>
  What \<open>Configuration.model_validate\<close> asks of the records of a configuration before it looks at
  their cross references: the field constraints and validators of every model class of
  \<open>switchlab/models.py\<close>. Each class has a check of its own, which the commands that edit one record
  use too; \<open>record_checks\<close> runs them over a whole configuration. Text that a validator rewrites
  (MAC addresses, DNS names, sender addresses) is checked for the normal form that \<open>model_dump\<close>
  writes. Whether \<open>cryptography\<close> accepts a certificate with its key is a parameter.
\<close>

subsection \<open>RADIUS records\<close>

definition label_ok :: "pystr \<Rightarrow> bool" where
  "label_ok l \<longleftrightarrow> 1 \<le> length l \<and> length l \<le> 80"

definition server_ok :: "radius_server \<Rightarrow> string + unit" where
  "server_ok v =
     bind (check (label_ok (rs_label v) \<and> between 1 65535 (rs_port v) \<and>
             1 \<le> length (rs_secret v) \<and> length (rs_secret v) \<le> 1024) ''Invalid server'') (\<lambda>_.
     bind (secret_bytes (rs_secret v)) (\<lambda>_. address_family v))"

definition sender_ok :: "dynamic_sender \<Rightarrow> string + unit" where
  "sender_ok d =
     bind (check (label_ok (ds_label d) \<and> 1 \<le> length (ds_secret d) \<and> length (ds_secret d) \<le> 1024) ''Invalid sender'') (\<lambda>_.
     bind (secret_bytes (ds_secret d)) (\<lambda>_. Inr ()))"

definition radius_options :: "radius_settings \<Rightarrow> string + unit" where
  "radius_options r =
     bind (check (valid_radius_options r) ''Invalid RADIUS options'') (\<lambda>_.
     bind (identifier_octets (nas_identifier r)) (\<lambda>_. Inr ()))"

definition accounting_options :: "accounting_settings \<Rightarrow> string + unit" where
  "accounting_options a =
     bind (check (between 1 60 (ac_response_timeout a) \<and> between 1 10 (ac_attempts a) \<and>
             between 0 30 (ac_retry_backoff a) \<and>
             (case ac_interim a of None \<Rightarrow> True | Some n \<Rightarrow> between 0 1000000 n)) ''Invalid accounting options'') (\<lambda>_.
     bind (interim_interval (ac_interim a)) (\<lambda>_. Inr ()))"

definition encodable_text :: "pystr \<Rightarrow> bool" where
  "encodable_text t \<longleftrightarrow> utf8_encode t \<noteq> None"

definition supplicant_ok :: "supplicant_profile \<Rightarrow> string + unit" where
  "supplicant_ok p =
     bind (check (1 \<le> length (sp_identity p) \<and> length (sp_identity p) \<le> 1024 \<and> length (sp_username p) \<le> 1024 \<and>
             key_length (sp_password p) \<le> 1024 \<and> 1 \<le> length (server_name p) \<and> length (server_name p) \<le> 253)
             ''Invalid supplicant profile'') (\<lambda>_.
     bind (check (encodable_text (sp_identity p) \<and> encodable_text (sp_username p) \<and>
             (case sp_password p of None \<Rightarrow> True | Some t \<Rightarrow> encodable_text t)) ''Supplicant text must be valid UTF-8'') (\<lambda>_.
       supplicant_credentials p))"

definition dns_char :: "nat \<Rightarrow> bool" where
  \<comment> \<open>\<open>[a-z0-9]\<close>\<close>
  "dns_char c \<longleftrightarrow> (97 \<le> c \<and> c \<le> 122) \<or> (48 \<le> c \<and> c \<le> 57)"

definition expected_name :: "pystr \<Rightarrow> string + unit" where
  \<comment> \<open>one lower-case DNS name: hyphens and dots inside, every label of 1 to 63 characters\<close>
  "expected_name n =
     check (n \<noteq> [] \<and> dns_char (hd n) \<and> dns_char (last n) \<and> list_all (\<lambda>c. dns_char c \<or> c = 46 \<or> c = 45) n \<and>
       list_all (\<lambda>l. l \<noteq> [] \<and> length l \<le> 63) (split_on 46 n)) ''Enter the expected server DNS name''"

definition profile_ok :: "supplicant_profile \<Rightarrow> string + unit" where
  "profile_ok p = bind (supplicant_ok p) (\<lambda>_. expected_name (server_name p))"

definition material_ok :: "bool \<Rightarrow> radius_material \<Rightarrow> string + unit" where
  "material_ok accepted m =
     bind (check (label_ok (m_label m) \<and> 1 \<le> length (certificate m) \<and> length (certificate m) \<le> 262144 \<and>
             key_length (private_key m) \<le> 65536 \<and> key_length (key_password m) \<le> 1024) ''Invalid material'') (\<lambda>_.
       check (accepted \<and> (m_kind m = Ca \<longrightarrow> \<not> truthy (private_key m) \<and> \<not> truthy (key_password m)))
         ''Invalid certificate, key, or key password'')"

definition template_ok :: "supplicant_template \<Rightarrow> string + unit" where
  "template_ok t =
     bind (check (label_ok (t_label t) \<and> 0 \<le> t_revision t) ''Invalid template'') (\<lambda>_. profile_ok (t_profile t))"

definition accounting_ok :: "accounting_settings \<Rightarrow> string + unit" where
  "accounting_ok a = first_error (
     [accounting_options a, check (length (ac_targets a) \<le> 16) ''Collection exceeds its limit''] @
     map server_ok (ac_targets a) @ [target_ids a])"

definition normal_sender :: "dynamic_sender \<Rightarrow> bool" where
  "normal_sender d \<longleftrightarrow> ipv4_mapped (ds_address d) = ds_address d"

definition dynamic_ok :: "dynamic_settings \<Rightarrow> string + unit" where
  "dynamic_ok d = first_error (
     [check (between 1 65535 (dy_port d)) ''Invalid port'',
      check (length (dy_senders d) \<le> 64) ''Collection exceeds its limit''] @
     map sender_ok (dy_senders d) @
     [check (list_all normal_sender (dy_senders d)) ''Invalid sender'', sender_ids d])"

definition settings_ok :: "(radius_material \<Rightarrow> bool) \<Rightarrow> radius_settings \<Rightarrow> string + unit" where
  "settings_ok accepts r = first_error (
     [radius_options r, accounting_ok (accounting r), dynamic_ok (dynamic_authorization r),
      check (length (servers r) \<le> 16 \<and> length (materials r) \<le> 128 \<and> length (templates r) \<le> 256)
        ''Collection exceeds its limit''] @
     map server_ok (servers r) @
     map (\<lambda>m. material_ok (accepts m) m) (vals (materials r)) @
     map template_ok (vals (templates r)) @
     [radius_ids r])"

subsection \<open>SNMP records\<close>

definition oid_prefix_ok :: "oid \<Rightarrow> bool" where
  \<comment> \<open>what \<open>numeric_oid_prefix\<close> accepts: a root alone, or a full identifier\<close>
  "oid_prefix_ok arcs \<longleftrightarrow> (if length arcs = 1 then hd arcs \<le> 2 else smi_limits arcs)"

definition view_ok :: "view \<Rightarrow> string + unit" where
  "view_ok v = check (length (v_name v) \<le> 80 \<and> 1 \<le> length (includes_oids v) \<and> length (includes_oids v) \<le> 32 \<and>
     list_all oid_prefix_ok (includes_oids v)) ''Invalid view''"

definition networks_fit :: "polling_access \<Rightarrow> writing_access \<Rightarrow> bool" where
  "networks_fit pl wr \<longleftrightarrow> length (pl_networks pl) \<le> 32 \<and> length (wr_networks wr) \<le> 32"

definition group_ok :: "access_group \<Rightarrow> string + unit" where
  "group_ok g = check (length (g_label g) \<le> 80 \<and> networks_fit (g_polling g) (g_writing g)) ''Invalid group''"

definition credential_ok :: "credential \<Rightarrow> string + unit" where
  "credential_ok c =
     bind (check (length (c_label c) \<le> 80 \<and> length (c_username c) \<le> 32 \<and> fits 32 (c_username c) \<and>
             key_length (c_community c) \<le> 255 \<and> key_length (c_auth_key c) \<le> 255 \<and> key_length (c_priv_key c) \<le> 255 \<and>
             (case c_access c of V2c pl wr \<Rightarrow> networks_fit pl wr | V3 _ \<Rightarrow> True)) ''Invalid credential'') (\<lambda>_.
       credential_security c)"

definition target_ok :: "target \<Rightarrow> string + unit" where
  "target_ok t = check (between 1 65535 (tg_port t)) ''Invalid target''"

definition agent_ok :: "snmp_settings \<Rightarrow> string + unit" where
  "agent_ok n = check (between 1 65535 (sn_port n) \<and> between 1 1000 (max_varbinds n)) ''Invalid SNMP settings''"

subsection \<open>The whole configuration\<close>

definition switch_ok :: "switch \<Rightarrow> string + unit" where
  "switch_ok w = check (valid_switch w \<and>
     (case sys_object_id (sw_identity w) of None \<Rightarrow> True | Some arcs \<Rightarrow> smi_limits arcs)) ''Invalid switch''"

definition endpoint_ok :: "endpoint \<Rightarrow> string + unit" where
  "endpoint_ok e =
     bind (check (valid_endpoint e) ''Invalid endpoint'') (\<lambda>_.
       first_error (map profile_ok (List.map_filter supplicant (sources e))))"

definition record_checks :: "(radius_material \<Rightarrow> bool) \<Rightarrow> configuration \<Rightarrow> string + unit" where
  \<comment> \<open>the fields in the order of the class; the cross references come after all of them\<close>
  "record_checks accepts cfg = first_error (
     [settings_ok accepts (radius cfg), switch_ok (cfg_switch cfg)] @
     map (\<lambda>p. check (valid_port p) ''Invalid port'') (vals (ports cfg)) @
     map (\<lambda>v. check (valid_vlan v) ''Invalid VLAN'') (vals (vlans cfg)) @
     map endpoint_ok (vals (endpoints cfg)) @
     [agent_ok (snmp cfg)] @
     map view_ok (vals (views cfg)) @
     map credential_ok (vals (credentials cfg)) @
     map group_ok (vals (groups cfg)) @
     map target_ok (vals (targets cfg)))"

definition model_validate :: "(radius_material \<Rightarrow> bool) \<Rightarrow> configuration \<Rightarrow> string + unit" where
  "model_validate accepts cfg = bind (record_checks accepts cfg) (\<lambda>_. references cfg)"

lemma model_validate_references: "model_validate accepts cfg = Inr () \<Longrightarrow> references cfg = Inr ()"
  by (auto simp: model_validate_def result_simps split: sum.splits)

end
