(* ===== verification/Startup.thy ===== *)
theory Startup
  imports Validators
begin

text \<open>
  How \<open>switchlab/storage.py\<close> divides a configuration: the physical lab, saved after every change,
  and the startup policy, saved on request; and how the two are put together again and validated as
  \<open>Configuration.model_validate\<close> does, record by record and then across records. The stored JSON
  fragments are records here, complete and of the current schema: what \<open>_shape\<close> and
  \<open>_complete_shape\<close> look for, keys that are missing or unknown, is excluded by the types, and the
  migration of older schemas is left out.
\<close>

record lab_switch =
  ls_id :: uid
  ls_port_count :: int
  ls_next_bridge_port :: int
  ls_next_if_index :: int
  ls_base_mac :: pystr
  ls_description :: pystr
  ls_fdb_limit :: int
  ls_endpoint_limit :: int
  ls_source_limit :: int

record switch_policy =
  sy_name :: pystr
  sy_contact :: pystr
  sy_location :: pystr
  sy_identity :: Configuration.identity
  sy_legacy_vlan :: int
  sy_aging_seconds :: int
  sy_queue_limit :: int

record lab_port =
  lp_id :: uid
  lp_if_index :: int
  lp_bridge_port :: int
  lp_name :: pystr
  lp_mode :: port_mode
  lp_shared_partner :: bool
  lp_forced_down :: bool
  lp_speed :: int
  lp_mtu :: int

record port_policy =
  pp_alias :: pystr
  pp_admin_up :: bool
  pp_pvid :: int
  pp_admitted :: "int list"
  pp_untagged :: "int list"
  pp_forbidden :: "int list"
  pp_link_notifications :: bool
  pp_authentication :: port_authentication

record lab_configuration =
  lab_switch :: lab_switch
  lab_ports :: "(uid, lab_port) dict"
  lab_materials :: "(uid, radius_material) dict"
  lab_templates :: "(uid, supplicant_template) dict"
  lab_endpoints :: "(uid, endpoint) dict"
  lab_attachments :: "(uid, uid) dict"
  lab_paused :: bool

record startup_configuration =
  su_switch :: switch_policy
  su_ports :: "(uid, port_policy) dict"
  su_radius :: radius_settings \<comment> \<open>without materials and templates\<close>
  su_vlans :: "(int, vlan) dict"
  su_snmp :: snmp_settings
  su_views :: "(uid, view) dict"
  su_credentials :: "(uid, credential) dict"
  su_groups :: "(uid, access_group) dict"
  su_targets :: "(uid, target) dict"

definition hardware_of :: "port \<Rightarrow> lab_port" where
  "hardware_of p = \<lparr>lp_id = p_id p, lp_if_index = if_index p, lp_bridge_port = bridge_port p,
     lp_name = p_name p, lp_mode = mode p, lp_shared_partner = shared_partner p,
     lp_forced_down = forced_down p, lp_speed = speed p, lp_mtu = mtu p\<rparr>"

definition policy_of :: "port \<Rightarrow> port_policy" where
  "policy_of p = \<lparr>pp_alias = p_alias p, pp_admin_up = admin_up p, pp_pvid = pvid p,
     pp_admitted = admitted p, pp_untagged = untagged p, pp_forbidden = forbidden p,
     pp_link_notifications = link_notifications p, pp_authentication = authentication p\<rparr>"

definition join_port :: "lab_port \<Rightarrow> port_policy \<Rightarrow> port" where
  "join_port h q = \<lparr>p_id = lp_id h, bridge_port = lp_bridge_port h, if_index = lp_if_index h,
     p_name = lp_name h, p_alias = pp_alias q, admin_up = pp_admin_up q, mode = lp_mode h,
     shared_partner = lp_shared_partner h, forced_down = lp_forced_down h, speed = lp_speed h,
     mtu = lp_mtu h, pvid = pp_pvid q, admitted = pp_admitted q, untagged = pp_untagged q,
     forbidden = pp_forbidden q, link_notifications = pp_link_notifications q,
     authentication = pp_authentication q\<rparr>"

definition map_values :: "('a \<Rightarrow> 'b) \<Rightarrow> ('k, 'a) dict \<Rightarrow> ('k, 'b) dict" where
  "map_values f d = map (\<lambda>(k, v). (k, f v)) d"

definition split_configuration :: "configuration \<Rightarrow> lab_configuration \<times> startup_configuration" where
  "split_configuration cfg =
     (let sw = cfg_switch cfg
      in (\<lparr>lab_switch = \<lparr>ls_id = sw_id sw, ls_port_count = port_count sw,
             ls_next_bridge_port = next_bridge_port sw, ls_next_if_index = next_if_index sw,
             ls_base_mac = base_mac sw, ls_description = sw_description sw,
             ls_fdb_limit = fdb_limit sw, ls_endpoint_limit = endpoint_limit sw,
             ls_source_limit = source_limit sw\<rparr>,
           lab_ports = map_values hardware_of (ports cfg),
           lab_materials = materials (radius cfg), lab_templates = templates (radius cfg),
           lab_endpoints = endpoints cfg, lab_attachments = attachments cfg, lab_paused = paused cfg\<rparr>,
          \<lparr>su_switch = \<lparr>sy_name = sw_name sw, sy_contact = sw_contact sw, sy_location = sw_location sw,
             sy_identity = sw_identity sw, sy_legacy_vlan = legacy_vlan sw,
             sy_aging_seconds = aging_seconds sw, sy_queue_limit = queue_limit sw\<rparr>,
           su_ports = map_values policy_of (ports cfg),
           su_radius = (radius cfg)\<lparr>materials := [], templates := []\<rparr>,
           su_vlans = vlans cfg, su_snmp = snmp cfg, su_views = views cfg,
           su_credentials = credentials cfg, su_groups = groups cfg, su_targets = targets cfg\<rparr>))"

definition default_port_policy :: port_policy where
  \<comment> \<open>the model's defaults, whatever the hardware\<close>
  "default_port_policy = policy_of (default_port [] 1 1 [])"

definition reconciled_startup ::
  "startup_configuration \<Rightarrow> (uid, lab_port) dict \<Rightarrow> startup_configuration" where
  "reconciled_startup startup hardware =
     startup\<lparr>su_ports := map (\<lambda>(pid, _). (pid, case map_of (su_ports startup) pid of
        Some q \<Rightarrow> q | None \<Rightarrow> default_port_policy)) hardware\<rparr>"

definition join_switch :: "lab_switch \<Rightarrow> switch_policy \<Rightarrow> Configuration.switch" where
  "join_switch h q = \<lparr>sw_id = ls_id h, sw_name = sy_name q, sw_description = ls_description h,
     sw_contact = sy_contact q, sw_location = sy_location q, sw_identity = sy_identity q,
     base_mac = ls_base_mac h, port_count = ls_port_count h,
     next_bridge_port = ls_next_bridge_port h, next_if_index = ls_next_if_index h,
     legacy_vlan = sy_legacy_vlan q, aging_seconds = sy_aging_seconds q, fdb_limit = ls_fdb_limit h,
     endpoint_limit = ls_endpoint_limit h, source_limit = ls_source_limit h,
     queue_limit = sy_queue_limit q\<rparr>"

definition joined :: "lab_configuration \<Rightarrow> startup_configuration \<Rightarrow> configuration" where
  "joined lab startup =
     (let logical = reconciled_startup startup (lab_ports lab)
      in \<lparr>radius = (su_radius logical)\<lparr>materials := lab_materials lab, templates := lab_templates lab\<rparr>,
          cfg_switch = join_switch (lab_switch lab) (su_switch logical),
          ports = map (\<lambda>(pid, h). (pid, join_port h (the (map_of (su_ports logical) pid)))) (lab_ports lab),
          vlans = su_vlans logical, endpoints = lab_endpoints lab, attachments = lab_attachments lab,
          paused = lab_paused lab, snmp = su_snmp logical, views = su_views logical,
          credentials = su_credentials logical, groups = su_groups logical,
          targets = su_targets logical\<rparr>)"

definition compose_configuration ::
  "(radius_material \<Rightarrow> bool) \<Rightarrow> lab_configuration \<Rightarrow> startup_configuration \<Rightarrow> string + configuration" where
  "compose_configuration accepts lab startup =
     (let cfg = joined lab startup in bind (model_validate accepts cfg) (\<lambda>_. Inr cfg))"

subsection \<open>Saving and restoring\<close>

lemma map_values_lookup: "map_of (map_values f d) k = map_option f (map_of d k)"
  by (induction d) (auto simp: map_values_def)

lemma keys_map_values [simp]: "keys (map_values f d) = keys d"
  by (simp add: map_values_def comp_def case_prod_beta)

lemma join_port_parts [simp]: "join_port (hardware_of p) (policy_of p) = p"
  by (simp add: join_port_def hardware_of_def policy_of_def)

lemma reconciled_lookup:
  "map_of (su_ports (reconciled_startup startup hw)) pid =
    (if pid \<in> set (keys hw) then Some (case map_of (su_ports startup) pid of
       Some q \<Rightarrow> q | None \<Rightarrow> default_port_policy) else None)"
proof -
  have *: "map_of (map (\<lambda>(k, _). (k, f k)) d) pid = (if pid \<in> set (keys d) then Some (f pid) else None)"
    for f :: "uid \<Rightarrow> port_policy" and d :: "(uid, lab_port) dict"
    by (induction d) auto
  show ?thesis
    using * [of "\<lambda>pid. case map_of (su_ports startup) pid of Some q \<Rightarrow> q | None \<Rightarrow> default_port_policy" hw]
    by (simp only: reconciled_startup_def startup_configuration.simps startup_configuration.ext_inject)
      (simp add: startup_configuration.surjective)
qed

lemma joined_ports:
  "ports (joined lab startup) = map (\<lambda>(pid, h). (pid, join_port h
     (case map_of (su_ports startup) pid of Some q \<Rightarrow> q | None \<Rightarrow> default_port_policy))) (lab_ports lab)"
  by (force simp: joined_def Let_def reconciled_lookup intro!: map_cong)

lemma joined_split:
  assumes "is_dict (ports cfg)"
  shows "joined (fst (split_configuration cfg)) (snd (split_configuration cfg)) = cfg"
proof -
  let ?lab = "fst (split_configuration cfg)" and ?startup = "snd (split_configuration cfg)"
  have "map (\<lambda>(pid, h). (pid, join_port h
      (case map_of (map_values policy_of (ports cfg)) pid of Some q \<Rightarrow> q | None \<Rightarrow> default_port_policy)))
      (map_values hardware_of (ports cfg)) = map id (ports cfg)"
    unfolding map_values_def map_map
  proof (rule map_cong [OF refl])
    fix kp assume kp: "kp \<in> set (ports cfg)"
    obtain k p where k: "kp = (k, p)" by (cases kp)
    have "map_of (ports cfg) k = Some p" using is_dict_lookup [OF assms] kp k by simp
    then have "map_of (map (\<lambda>(k, v). (k, policy_of v)) (ports cfg)) k = Some (policy_of p)"
      using map_values_lookup [of policy_of "ports cfg" k] by (simp add: map_values_def)
    then show "((\<lambda>(pid, h). (pid, join_port h (case map_of (map (\<lambda>(k, v). (k, policy_of v)) (ports cfg)) pid of
        Some q \<Rightarrow> q | None \<Rightarrow> default_port_policy))) \<circ> (\<lambda>(k, v). (k, hardware_of v))) kp = id kp"
      by (simp add: k)
  qed
  then have p: "ports (joined ?lab ?startup) = ports cfg"
    by (simp add: joined_ports split_configuration_def Let_def)
  have sw: "cfg_switch (joined ?lab ?startup) = cfg_switch cfg"
    by (simp add: joined_def split_configuration_def join_switch_def reconciled_startup_def Let_def)
  have "radius (joined ?lab ?startup) = radius cfg"
    by (simp add: joined_def split_configuration_def reconciled_startup_def Let_def)
  with p sw show ?thesis
    by (intro configuration.equality)
      (simp_all add: joined_def split_configuration_def reconciled_startup_def Let_def)
qed

lemma restored_port:
  assumes "is_dict (lab_ports lab)" and "(pid, h) \<in> set (lab_ports lab)"
  shows "map_of (ports (joined lab startup)) pid = Some (join_port h
    (case map_of (su_ports startup) pid of Some q \<Rightarrow> q | None \<Rightarrow> default_port_policy))"
proof -
  have "is_dict (ports (joined lab startup))"
    using assms(1) by (simp add: is_dict_def joined_ports comp_def case_prod_beta)
  then show ?thesis
    by (rule is_dict_lookup) (use assms(2) in \<open>force simp: joined_ports\<close>)
qed

subsection \<open>Properties\<close>

text \<open>C40: dividing a configuration into lab and startup policy loses nothing: composing the two parts
  runs the validators of every record and then the cross references over exactly the configuration
  that was divided, and gives it back when they all pass; where one fails, composing fails with its
  error. (Fragments are complete and in the normal form that a dump writes; whether a certificate is
  accepted is a parameter.)\<close>

theorem split_compose:
  assumes "is_dict (ports c)"
  shows "compose_configuration accepts (fst (split_configuration c)) (snd (split_configuration c)) =
    bind (record_checks accepts c) (\<lambda>_. bind (references c) (\<lambda>_. Inr c))"
  by (cases "record_checks accepts c") (simp_all add: compose_configuration_def model_validate_def joined_split [OF assms])

definition example_split :: configuration where
  "example_split = initial_configuration [115] [[112]]"

lemma example_parts:
  "settings_ok (\<lambda>_. True) default_radius = Inr ()" "switch_ok (default_switch [115]) = Inr ()"
  "valid_vlan default_vlan" "agent_ok default_snmp = Inr ()"
  by code_simp+

lemma vals_Nil: "vals [] = []"
  by (simp add: vals_def)

lemma default_views_ok: "first_error (map view_ok (vals (default_views False))) = Inr ()"
  by (simp add: default_views_def vals_def view_ok_def oid_prefix_ok_def smi_limits_def check_def str_def)

lemma example_ports: "list_all valid_port (vals (ports example_split))"
  by code_simp

lemma example_switch: "cfg_switch example_split = (default_switch [115])\<lparr>port_count := 1, next_bridge_port := 2, next_if_index := 102\<rparr>"
  by (simp add: example_split_def initial_configuration_def Let_def)

lemma initial_records_checked:
  assumes "switch_ok (cfg_switch (initial_configuration u us)) = Inr ()"
    and "list_all valid_port (vals (ports (initial_configuration u us)))"
  shows "record_checks (\<lambda>_. True) (initial_configuration u us) = Inr ()"
proof -
  let ?c = "initial_configuration u us"
  have a: "first_error (rs @ rs') = Inr () \<longleftrightarrow> first_error rs = Inr () \<and> first_error rs' = Inr ()"
    for rs rs' :: "(string + unit) list"
    by (induction rs) (auto simp: result_simps)
  have p: "first_error (map (\<lambda>x. check (P x) m) xs) = Inr () \<longleftrightarrow> list_all P xs"
    for P :: "'c \<Rightarrow> bool" and m xs
    by (induction xs) (auto simp: result_simps check_def)
  have "radius ?c = default_radius" "vlans ?c = [(1, default_vlan)]" "endpoints ?c = []"
    "snmp ?c = default_snmp" "views ?c = default_views False" "credentials ?c = []"
    "groups ?c = []" "targets ?c = []"
    by (simp_all add: initial_configuration_def Let_def)
  moreover have "vals [(1 :: int, default_vlan)] = [default_vlan]" by (simp add: vals_def)
  ultimately show ?thesis
    using example_parts default_views_ok assms
    unfolding record_checks_def a p by (simp add: check_def vals_Nil)
qed

lemma example_checks: "record_checks (\<lambda>_. True) example_split = Inr ()"
proof -
  have "switch_ok (cfg_switch example_split) = Inr ()"
    using example_parts(2) by (simp add: example_switch switch_ok_def valid_switch_def check_def between_def split: if_splits)
  then show ?thesis
    using example_ports initial_records_checked [of "[115]" "[[112]]"] by (simp add: example_split_def)
qed

lemma split_compose_witness:
  "compose_configuration (\<lambda>_. True) (fst (split_configuration example_split)) (snd (split_configuration example_split)) =
     Inr example_split \<and>
   \<not> succeeds (compose_configuration (\<lambda>_. True)
     (fst (split_configuration (example_split\<lparr>radius := default_radius\<lparr>attempts := 11\<rparr>\<rparr>)))
     (snd (split_configuration (example_split\<lparr>radius := default_radius\<lparr>attempts := 11\<rparr>\<rparr>))))"
proof -
  let ?bad = "example_split\<lparr>radius := default_radius\<lparr>attempts := 11\<rparr>\<rparr>"
  have d: "is_dict (ports example_split)" "is_dict (ports ?bad)" by code_simp+
  have r: "references example_split = Inr ()" by code_simp
  have "\<not> succeeds (radius_options (radius ?bad))"
    by (simp add: radius_options_def valid_radius_options_def between_def check_def)
  then have b: "\<not> succeeds (record_checks (\<lambda>_. True) ?bad)"
    by (auto simp: record_checks_def settings_ok_def succeeds_iff result_simps)
  show ?thesis
    using split_compose [OF d(1)] split_compose [OF d(2)] r example_checks b
    by (cases "record_checks (\<lambda>_. True) ?bad") auto
qed

end
