(* ===== verification/Runtime_State.thy ===== *)
theory Runtime_State
  imports Radius_Access Startup
begin

text \<open>
  The runtime of \<open>switchlab/engine.py\<close>: its records, the queries every operation shares, and the
  public event history. What the program reads from the outside is a field of the state: the
  sequence of \<open>uuid4\<close> results (\<open>fresh_ids\<close>, consumed in order), the clocks, and the number of
  octets \<open>json.dumps\<close> gives a queued accounting record. The SHA-256 captures of the source are
  represented by the values they digest, so two captures are equal exactly when the values are.
  A port identifier that an operation looks up in the configuration without a test is expected to be
  there, as the callers ensure (the source would raise \<open>KeyError\<close>).
  Boolean, numeric and text payloads of public events are \<open>json\<close> values.
\<close>

subsection \<open>Records\<close>

type_synonym subject = "uid \<times> pystr" \<comment> \<open>a port and a MAC address\<close>

datatype json = JNull | JBool bool | JInt int | JText pystr | JName string | JList "json list"
  | JObject "(string \<times> json) list"

type_synonym details = "(string, json) dict"

record event_record =
  ev_id :: int
  ev_kind :: string
  ev_ms :: int
  ev_uptime :: int
  ev_revision :: int
  ev_details :: details

record job =
  j_endpoint :: uid
  j_source :: uid
  j_port :: uid
  j_epoch :: uid
  j_endpoint_generation :: uid
  j_port_generation :: uid
  j_mac :: pystr
  j_vid :: int
  due :: int

datatype auth_method = By_tls | By_peap | By_mab

record capture =
  \<comment> \<open>what an authentication context digests\<close>
  cp_port_name :: pystr
  cp_authentication :: port_authentication
  cp_forbidden :: "int list"
  cp_sources :: "(uid \<times> uid \<times> source) list"
  cp_settings :: radius_settings
  cp_session :: "(uid \<times> subject \<times> uid \<times> uid \<times> uid) option"

type_synonym server_signature = "ip \<times> int \<times> ip option \<times> pystr"

definition server_signature :: "radius_server \<Rightarrow> server_signature" where
  "server_signature s = (rs_address s, rs_port s, rs_source s, rs_secret s)"

record attempt =
  at_id :: uid
  at_session :: uid
  at_port :: uid
  at_mac :: pystr
  at_epoch :: uid
  at_context :: capture
  at_method :: auth_method
  at_state :: "bytes option"
  prior_session :: "uid option"
  at_nas :: "nas_identity option"
  session_owned :: bool
  automatic_renewal :: bool
  prior_grant :: "uid option"
  at_username :: "bytes option"
  state_server :: "uid option"
  state_signature :: "server_signature option"
  pae_state :: "int option"
  pae_backend :: "int option"

record access_session =
  se_id :: uid
  se_port :: uid
  se_mac :: pystr
  se_method :: auth_method
  se_policy :: authorization
  started_ms :: int
  last_activity_ms :: "int option"
  in_octets :: int
  in_packets :: int
  se_nas :: "nas_identity option"
  grant_generation :: uid
  observation_generation :: uid
  last_auth_ms :: int
  idle_origin_ms :: int
  lease_deadline_ms :: "int option"
  renewal_started_ms :: "int option"
  renewal_automatic :: bool
  accounting_identity :: "attribute list"
  user_name :: "bytes option"
  accounting_interval :: int
  accounting_next_ms :: "int option"
  auth_server :: "uid option"
  auth_server_signature :: "server_signature option"

record status =
  \<comment> \<open>a \<open>radius_status\<close> entry; an absent key of the dict is \<open>None\<close>\<close>
  ss_status :: string
  ss_reason :: "string option"
  ss_method :: "string option"
  ss_context :: "capture option"
  ss_attempt :: "uid option"
  ss_session :: "uid option"
  ss_reauth_session :: "uid option"
  retry_at_ms :: "int option"
  discovery_due_ms :: "int option"
  ss_nas_code :: "int option"
  ss_response :: "access_summary option"

record fdb_row =
  f_fdb_id :: int
  f_mac :: pystr
  f_vid :: int
  f_port :: uid
  f_bridge_port :: int
  f_if_index :: int
  last_seen_ms :: int
  expires_at_ms :: int

record port_counters =
  c_in_octets :: int
  c_in_ucast :: int
  c_in_discards :: int
  c_last_change :: int
  c_discontinuity :: int

record pae_port =
  pae_counters :: "int list"
  pae_diagnostics :: "int list"
  precise :: bool
  pae_version :: "int option"
  pae_last_version :: "int option"
  pae_last_source :: "bytes option"
  pae_port_state :: "int option"
  pae_port_backend :: "int option"

record last_session =
  la_id :: uid
  la_octets :: int
  la_packets :: int
  la_started :: int
  la_ended :: int
  la_cause :: "int option"

record accounting_record =
  ar_id :: uid
  ar_sequence :: int
  ar_session :: "uid option" \<comment> \<open>\<open>None\<close> is the text \<open>nas-lifecycle\<close>\<close>
  status_type :: int
  acct_attributes :: "attribute list"
  simulation_ms :: int
  original_start_ms :: "int option"
  cumulative_octets :: "int option"
  cumulative_packets :: "int option"
  generated_wall :: int
  expires_wall :: int
  generated_elapsed :: int
  clock_origin :: uid
  ar_status :: string
  ar_attempts :: int
  late :: bool
  ar_reason :: "string option"
  ar_targets :: "(uid \<times> server_signature) list"
  delivery_policy :: "int \<times> int \<times> int"

record outbox_item =
  ob_event :: event_record
  ob_target :: uid
  ob_destination :: "pystr option" \<comment> \<open>absent from items of an older store\<close>

record advance_operation =
  ad_id :: uid
  ad_epoch :: uid
  ad_start_ms :: int
  ad_target_ms :: int
  ad_status :: string
  ad_waiting_reason :: "string option"
  ad_reached_ms :: int

record runtime =
  cfg :: configuration
  revision :: int
  configuration_revision :: int
  startup_policy :: startup_configuration
  startup_revision :: int
  configuration_dirty :: bool
  sim_ms :: int
  epoch :: uid
  incarnation :: uid
  activation :: uid
  entity_last_change :: int
  uptime_epoch :: int
  egens :: "(uid, uid) dict"
  pgens :: "(uid, uid) dict"
  credential_generations :: "(uid, uid) dict"
  jobs :: "(uid \<times> uid, job) dict"
  fdb :: "(int \<times> pystr, fdb_row) dict"
  port_stats :: "(uid, port_counters) dict"
  vlan_times :: "(int, int \<times> int) dict"
  events :: "event_record list"
  event_id :: int
  outbox :: "outbox_item list"
  learned_discards :: int
  vlan_deletes :: int
  notification_drops :: int
  radius_attempts :: "(subject, attempt) dict"
  radius_sessions :: "(subject, access_session) dict"
  radius_status :: "(subject, status) dict"
  advance_op :: "advance_operation option"
  renewal_budget_time :: int
  renewal_budget :: "(subject, int) dict"
  accounting_outbox :: "accounting_record list"
  accounting_sequence :: int
  accounting_drops :: "(string, int) dict"
  pae :: "(uid, pae_port) dict"
  last_auth_sessions :: "(uid, last_session) dict"
  fresh_ids :: "nat \<Rightarrow> uid"
  drawn :: nat
  uptime_now :: int     \<comment> \<open>what \<open>uptime()\<close> returns\<close>
  uptime_wraps :: int   \<comment> \<open>how often the 32-bit ticks since the boot have wrapped\<close>
  wall_now :: int
  elapsed_now :: int
  process_origin :: uid \<comment> \<open>\<open>ACCOUNTING_CLOCK_ORIGIN\<close>\<close>
  record_octets :: "accounting_record \<Rightarrow> nat"
  ip_text :: "ip \<Rightarrow> pystr" \<comment> \<open>\<open>str(ip_address)\<close>, which depends on the version of Python\<close>

datatype command_error = Command_error int string

definition draw :: "runtime \<Rightarrow> uid \<times> runtime" where
  \<comment> \<open>\<open>uid()\<close>\<close>
  "draw s = (fresh_ids s (drawn s), s\<lparr>drawn := drawn s + 1\<rparr>)"

subsection \<open>Queries\<close>

definition the_port :: "runtime \<Rightarrow> uid \<Rightarrow> port" where
  \<comment> \<open>\<open>self.cfg.ports[pid]\<close> of a known port\<close>
  "the_port s pid = the (map_of (ports (cfg s)) pid)"

definition attached :: "runtime \<Rightarrow> uid \<Rightarrow> uid list" where
  "attached s pid = map fst (filter (\<lambda>(_, p). p = pid) (attachments (cfg s)))"

definition carrier :: "runtime \<Rightarrow> uid \<Rightarrow> bool" where
  "carrier s pid = (if mode (the_port s pid) = Shared then shared_partner (the_port s pid)
     else attached s pid \<noteq> [])"

definition up :: "runtime \<Rightarrow> uid \<Rightarrow> bool" where
  "up s pid \<longleftrightarrow> admin_up (the_port s pid) \<and> \<not> forced_down (the_port s pid) \<and> carrier s pid"

definition gate :: "runtime \<Rightarrow> bool" where
  "gate s \<longleftrightarrow> (case sys_object_id (sw_identity (cfg_switch (cfg s))) of
      None \<Rightarrow> False | Some oid \<Rightarrow> oid \<noteq> []) \<and> sn_enabled (snmp (cfg s))"

definition endpoint_sources :: "runtime \<Rightarrow> uid \<Rightarrow> source list" where
  "endpoint_sources s eid = (case map_of (endpoints (cfg s)) eid of None \<Rightarrow> [] | Some e \<Rightarrow> sources e)"

definition tagged_vid :: "port \<Rightarrow> source \<Rightarrow> int" where
  "tagged_vid p src = (case tag src of Untagged \<Rightarrow> pvid p | Tag v \<Rightarrow> v)"

definition session_of :: "runtime \<Rightarrow> uid \<Rightarrow> pystr \<Rightarrow> access_session option" where
  \<comment> \<open>\<open>Runtime.session\<close>: on a multi-host port the first session of the port serves every address\<close>
  "session_of s pid address =
     (if pa_host_mode (authentication (the_port s pid)) = Multi_host
      then map_option snd (List.find (\<lambda>((p, _), _). p = pid) (radius_sessions s))
      else map_of (radius_sessions s) (pid, address))"

definition session_vid :: "runtime \<Rightarrow> access_session \<Rightarrow> int" where
  "session_vid s session = (case au_source (se_policy session) of
      Port_default \<Rightarrow> pvid (the_port s (se_port session))
    | From_radius \<Rightarrow> au_vid (se_policy session))"

definition multi_auth :: "runtime \<Rightarrow> uid \<Rightarrow> bool" where
  "multi_auth s pid \<longleftrightarrow> pa_host_mode (authentication (the_port s pid)) = Multi_auth"

subsection \<open>Public events\<close>

definition default_detail :: "string \<Rightarrow> json \<Rightarrow> details \<Rightarrow> details" where
  "default_detail k v d = (if has d k then d else d @ [(k, v)])"

definition text_detail :: "details \<Rightarrow> string \<Rightarrow> pystr option" where
  "text_detail d k = (case map_of d k of Some (JText t) \<Rightarrow> Some t | _ \<Rightarrow> None)"

definition port_detail :: "runtime \<Rightarrow> string \<times> string \<Rightarrow> details \<Rightarrow> details" where
  "port_detail s named d = (case named of (id_field, index_field) \<Rightarrow>
     (case text_detail d id_field of None \<Rightarrow> d
      | Some pid \<Rightarrow> (case map_of (ports (cfg s)) pid of None \<Rightarrow> d
          | Some p \<Rightarrow> default_detail index_field (JInt (if_index p)) d)))"

definition endpoint_detail :: "runtime \<Rightarrow> details \<Rightarrow> details" where
  "endpoint_detail s d =
     (case text_detail d ''endpoint_id'' of None \<Rightarrow> d
      | Some eid \<Rightarrow> (case map_of (endpoints (cfg s)) eid of None \<Rightarrow> d
          | Some e \<Rightarrow>
              let d = default_detail ''endpoint_name'' (JText (e_name e)) d
              in case text_detail d ''source_id'' of None \<Rightarrow> d
                 | Some sid \<Rightarrow> (case List.find (\<lambda>src. src_id src = sid) (sources e) of None \<Rightarrow> d
                     | Some src \<Rightarrow> default_detail ''source_mac'' (JText (src_mac src)) d)))"

definition keep_last :: "nat \<Rightarrow> 'a list \<Rightarrow> 'a list" where
  \<comment> \<open>\<open>xs[-n:]\<close>\<close>
  "keep_last n xs = drop (length xs - n) xs"

definition new_event :: "string \<Rightarrow> details \<Rightarrow> runtime \<Rightarrow> event_record" where
  "new_event kind details s =
     (let details = foldl (\<lambda>d f. port_detail s f d) details
            [(''port_id'', ''if_index''), (''before_port_id'', ''before_if_index''),
             (''after_port_id'', ''after_if_index'')];
          details = endpoint_detail s details
      in \<lparr>ev_id = event_id s + 1, ev_kind = kind, ev_ms = sim_ms s, ev_uptime = uptime_now s,
          ev_revision = revision s + 1, ev_details = details\<rparr>)"

definition event :: "string \<Rightarrow> details \<Rightarrow> runtime \<Rightarrow> runtime" where
  "event kind details s =
     s\<lparr>event_id := event_id s + 1, events := keep_last 2000 (events s @ [new_event kind details s])\<rparr>"

definition event_resource_label :: "runtime \<Rightarrow> target \<Rightarrow> pystr" where
  "event_resource_label s t =
     (let address = ip_text s (tg_address t);
          address = (if 58 \<in> set address then [91] @ address @ [93] else address)
      in address @ [58] @ decimal (nat (tg_port t)))"

subsection \<open>A new runtime\<close>

record environment =
  \<comment> \<open>what a process reads from outside: \<open>uuid4\<close> results, the clocks and the size of a JSON record\<close>
  env_ids :: "nat \<Rightarrow> uid"
  env_uptime :: int
  env_wraps :: int
  env_wall :: int
  env_elapsed :: int
  env_origin :: uid
  env_octets :: "accounting_record \<Rightarrow> nat"
  env_ip_text :: "ip \<Rightarrow> pystr"

definition new_runtime :: "environment \<Rightarrow> configuration \<Rightarrow> runtime" where
  \<comment> \<open>the defaults of the dataclass, and the startup policy the engine puts there at once; the factories
     draw in the order of the fields\<close>
  "new_runtime env c = \<lparr>cfg = c, revision = 0, configuration_revision = 0,
     startup_policy = snd (split_configuration c), startup_revision = 0, configuration_dirty = False, sim_ms = 0, epoch = env_ids env 1,
     incarnation = env_ids env 0, activation = env_ids env 2, entity_last_change = 0,
     uptime_epoch = 0, egens = [], pgens = [], credential_generations = [], jobs = [], fdb = [],
     port_stats = [], vlan_times = [], events = [], event_id = 0, outbox = [],
     learned_discards = 0, vlan_deletes = 0, notification_drops = 0, radius_attempts = [],
     radius_sessions = [], radius_status = [], advance_op = None, renewal_budget_time = 0,
     renewal_budget = [], accounting_outbox = [], accounting_sequence = 0, accounting_drops = [],
     pae = [], last_auth_sessions = [], fresh_ids = env_ids env, drawn = 3,
     uptime_now = env_uptime env, uptime_wraps = env_wraps env, wall_now = env_wall env, elapsed_now = env_elapsed env,
     process_origin = env_origin env, record_octets = env_octets env, ip_text = env_ip_text env\<rparr>"

definition example_environment :: environment where
  "example_environment = \<lparr>env_ids = (\<lambda>n. str ''u'' @ decimal n), env_uptime = 100, env_wraps = 0, env_wall = 1000,
     env_elapsed = 10, env_origin = str ''origin'', env_octets = (\<lambda>_. 512), env_ip_text = (\<lambda>_. [])\<rparr>"

definition example_runtime :: runtime where
  \<comment> \<open>one port, no endpoint\<close>
  "example_runtime = new_runtime example_environment (initial_configuration [115] [[112]])"

end
