(* ===== verification/Radius_Planner.thy ===== *)
theory Radius_Planner
  imports Runtime_State "HOL-Library.Product_Lexorder"
begin

text \<open>
  \<open>plan_dynamic_request\<close> of \<open>switchlab/radius.py\<close>: what a verified CoA or Disconnect request
  would do to the current sessions, or the Error-Cause of its NAK. Subjects are ordered as Python
  orders pairs of strings (code points, lexicographically).
\<close>

record proposal =
  pr_key :: subject
  pr_session :: uid
  pr_grant :: uid
  pr_policy :: "authorization option"
  pr_lease :: "int option"

record dynamic_plan =
  pl_error :: "int option"
  pl_sessions :: "proposal list"

definition nak :: "int \<Rightarrow> dynamic_plan" where
  "nak cause = \<lparr>pl_error = Some cause, pl_sessions = []\<rparr>"

definition present :: "attribute list \<Rightarrow> int \<Rightarrow> bool" where
  "present attrs k \<longleftrightarrow> values_of k attrs \<noteq> []"

definition selectors :: "int list" where
  "selectors = [1, 5, 31, 44, 87]"

definition allowed_kinds :: "bool \<Rightarrow> int list" where
  "allowed_kinds coa = selectors @ [4, 32, 33, 55, 80] @ (if coa then [6, 24, 27, 28, 29, 64, 65, 81] else [])"

definition tunnel_presence :: "attribute list \<Rightarrow> bool list" where
  "tunnel_presence attrs = map (present attrs) [64, 65, 81]"

definition shape_error :: "bool \<Rightarrow> attribute list \<Rightarrow> int option" where
  \<comment> \<open>the checks that read no value\<close>
  "shape_error coa attrs =
     (let states = values_of 24 attrs
      in if coa \<and> (1 < length states \<or> list_ex (\<lambda>v. v = []) states) then Some 404
         else if list_ex (\<lambda>(k, _). k \<notin> set (allowed_kinds coa)) attrs then Some 401
         else if coa \<and> present attrs 6 then Some 405
         else if list_ex (\<lambda>k. 1 < length (values_of k attrs)) (selectors @ [4, 32, 27, 28, 29])
         then Some 404
         else if \<not> list_ex (present attrs) selectors \<or>
                 (True \<in> set (tunnel_presence attrs) \<and> False \<in> set (tunnel_presence attrs))
         then Some 402
         else None)"

definition station_mac :: "bytes \<Rightarrow> pystr option" where
  \<comment> \<open>\<open>canonical_mac(value.decode("ascii"))\<close>\<close>
  "station_mac v =
     (if list_ex (\<lambda>b. 128 \<le> unat b) v then None
      else case mac (map unat v) of Inl _ \<Rightarrow> None | Inr m \<Rightarrow> Some m)"

definition control_of :: "attribute list \<Rightarrow> int \<Rightarrow> int option" where
  "control_of attrs k = (case values_of k attrs of [] \<Rightarrow> None | v # _ \<Rightarrow> Some (be_int v))"

definition tunnel_error :: "attribute list \<Rightarrow> (int, vlan) dict \<Rightarrow> bool" where
  \<comment> \<open>the value checks of a present tunnel triple fail\<close>
  "tunnel_error attrs vs =
     (if list_ex (\<lambda>k. length (values_of k attrs) \<noteq> 1) [64, 65, 81] then True
      else
        let tt = hd (values_of 64 attrs); medium = hd (values_of 65 attrs);
            grp = hd (values_of 81 attrs)
        in if length tt \<noteq> 4 \<or> length medium \<noteq> 4 \<or> 31 < uint (tt ! 0) \<or> 31 < uint (medium ! 0) \<or>
              be_int (drop 1 tt) \<noteq> 13 \<or> be_int (drop 1 medium) \<noteq> 6 \<or> grp = []
           then True
           else
             let (t, digits) = (if uint (grp ! 0) \<le> 31 then (uint (grp ! 0), drop 1 grp) else (0, grp))
             in if tt ! 0 \<noteq> medium ! 0 \<or> uint (tt ! 0) \<noteq> t \<or> \<not> ascii_digits digits then True
                else \<not> (1 \<le> bytes_decimal digits \<and> bytes_decimal digits \<le> 4094) \<or>
                     \<not> has vs (bytes_decimal digits))"

definition requested_vid :: "attribute list \<Rightarrow> int option" where
  "requested_vid attrs =
     (if present attrs 64 then
        let grp = hd (values_of 81 attrs)
        in Some (bytes_decimal (if uint (grp ! 0) \<le> 31 then drop 1 grp else grp))
      else None)"

definition value_error :: "attribute list \<Rightarrow> (int, vlan) dict \<Rightarrow> int option" where
  "value_error attrs vs =
     (if list_ex (\<lambda>k. list_ex (\<lambda>v. length v \<noteq> 4) (values_of k attrs)) [4, 5, 27, 28, 29] \<or>
         list_ex (\<lambda>k. list_ex (\<lambda>v. v = []) (values_of k attrs)) [1, 32, 44, 87]
      then Some 407
      else if list_ex (\<lambda>v. station_mac v = None) (values_of 31 attrs) then Some 407
      else if (case control_of attrs 29 of None \<Rightarrow> False | Some n \<Rightarrow> n \<notin> {0, 1}) then Some 407
      else if present attrs 64 \<and> tunnel_error attrs vs then Some 407
      else None)"

definition same_nas :: "attribute list \<Rightarrow> access_session \<Rightarrow> bool" where
  "same_nas attrs session =
     (case se_nas session of None \<Rightarrow> False
      | Some nas \<Rightarrow> list_all (\<lambda>v. Some v = nas_ipv4 nas) (values_of 4 attrs) \<and>
          list_all (\<lambda>v. v = nas_id nas) (values_of 32 attrs))"

definition matches :: "runtime \<Rightarrow> attribute list \<Rightarrow> access_session \<Rightarrow> bool" where
  "matches s attrs session =
     (let p = the_port s (se_port session)
      in list_all (\<lambda>v. be_int v = bridge_port p) (values_of 5 attrs) \<and>
         list_all (\<lambda>v. Some v = utf8_encode (p_name p)) (values_of 87 attrs) \<and>
         list_all (\<lambda>v. Some v = utf8_encode (se_id session)) (values_of 44 attrs) \<and>
         list_all (\<lambda>v. Some v = user_name session) (values_of 1 attrs) \<and>
         list_all (\<lambda>v. station_mac v = Some (se_mac session)) (values_of 31 attrs))"

definition changed_policy :: "attribute list \<Rightarrow> authorization \<Rightarrow> authorization" where
  "changed_policy attrs a =
     (let a = (case requested_vid attrs of None \<Rightarrow> a
               | Some v \<Rightarrow> a\<lparr>au_vid := v, au_source := From_radius\<rparr>);
          a = (case control_of attrs 27 of None \<Rightarrow> a | Some n \<Rightarrow> a\<lparr>session_timeout := Some n\<rparr>);
          a = (case control_of attrs 28 of None \<Rightarrow> a | Some n \<Rightarrow> a\<lparr>idle_timeout := Some n\<rparr>);
          a = (case control_of attrs 29 of None \<Rightarrow> a | Some n \<Rightarrow> a\<lparr>termination_action := n\<rparr>)
      in case values_of 24 attrs of [] \<Rightarrow> a | st # _ \<Rightarrow> a\<lparr>au_state := Some st\<rparr>)"

definition propose :: "runtime \<Rightarrow> bool \<Rightarrow> attribute list \<Rightarrow> subject \<times> access_session \<Rightarrow> proposal" where
  "propose s coa attrs ks = (case ks of (key, session) \<Rightarrow>
     if \<not> coa then \<lparr>pr_key = key, pr_session = se_id session, pr_grant = grant_generation session,
                    pr_policy = None, pr_lease = None\<rparr>
     else \<lparr>pr_key = key, pr_session = se_id session, pr_grant = grant_generation session,
           pr_policy = Some (changed_policy attrs (se_policy session)),
           pr_lease = (case control_of attrs 27 of None \<Rightarrow> lease_deadline_ms session
                       | Some n \<Rightarrow> Some (sim_ms s + n * 1000))\<rparr>)"

definition plan_sessions :: "runtime \<Rightarrow> bool \<Rightarrow> attribute list \<Rightarrow> dynamic_plan" where
  "plan_sessions s coa attrs =
     (let candidates = sort_key fst (radius_sessions s)
      in if candidates = [] then nak 503
         else
           let narrowed = (if present attrs 4 \<or> present attrs 32
                 then filter (\<lambda>(_, session). same_nas attrs session) candidates else candidates)
           in if narrowed = [] then nak 403
              else
                let selected = filter (\<lambda>(_, session). matches s attrs session) narrowed
                in if selected = [] then nak 503
                   else if (case requested_vid attrs of None \<Rightarrow> False
                            | Some v \<Rightarrow> list_ex (\<lambda>(_, session).
                                v \<in> set (forbidden (the_port s (se_port session)))) selected)
                   then nak 501
                   else \<lparr>pl_error = None, pl_sessions = map (propose s coa attrs) selected\<rparr>)"

definition plan_dynamic_request :: "dynamic_request \<Rightarrow> runtime \<Rightarrow> py_error + dynamic_plan" where
  "plan_dynamic_request request s =
     (if rp_code request \<notin> {40, 43} then Inl (RadiusError ''invalid_dynamic_request'')
      else
        let coa = (rp_code request = 43); attrs = rp_attributes request
        in case shape_error coa attrs of Some c \<Rightarrow> Inr (nak c)
           | None \<Rightarrow> (case value_error attrs (vlans (cfg s)) of Some c \<Rightarrow> Inr (nak c)
              | None \<Rightarrow> Inr (plan_sessions s coa attrs)))"

subsection \<open>A refused request proposes nothing\<close>

lemma plan_nak_empty:
  assumes "plan_dynamic_request request s = Inr plan" and "pl_error plan = Some c"
  shows "pl_sessions plan = [] \<and> c \<in> {401, 402, 403, 404, 405, 407, 501, 503}"
proof -
  have "shape_error coa attrs = Some c' \<Longrightarrow> c' \<in> {404, 401, 405, 402}" for coa attrs c'
    by (auto simp: shape_error_def Let_def split: if_splits)
  moreover have "value_error attrs vs = Some c' \<Longrightarrow> c' = 407" for attrs vs c'
    by (auto simp: value_error_def split: if_splits)
  ultimately show ?thesis
    using assms
    by (fastforce simp: plan_dynamic_request_def plan_sessions_def nak_def Let_def
        split: if_splits option.splits)
qed

subsection \<open>Only existing, matching sessions are proposed\<close>

definition narrowed :: "runtime \<Rightarrow> attribute list \<Rightarrow> (subject \<times> access_session) list" where
  "narrowed s attrs = (if present attrs 4 \<or> present attrs 32
     then filter (\<lambda>(_, session). same_nas attrs session) (sort_key fst (radius_sessions s))
     else sort_key fst (radius_sessions s))"

definition selected :: "runtime \<Rightarrow> attribute list \<Rightarrow> (subject \<times> access_session) list" where
  "selected s attrs = filter (\<lambda>(_, session). matches s attrs session) (narrowed s attrs)"

definition vid_allowed :: "runtime \<Rightarrow> attribute list \<Rightarrow> bool" where
  "vid_allowed s attrs \<longleftrightarrow> (\<forall>v. requested_vid attrs = Some v \<longrightarrow>
     (\<forall>(_, session) \<in> set (selected s attrs). v \<notin> set (forbidden (the_port s (se_port session)))))"

lemma plan_sessions_cases:
  "plan_sessions s coa attrs =
    (if radius_sessions s = [] then nak 503 else if narrowed s attrs = [] then nak 403
     else if selected s attrs = [] then nak 503 else if \<not> vid_allowed s attrs then nak 501
     else \<lparr>pl_error = None, pl_sessions = map (propose s coa attrs) (selected s attrs)\<rparr>)"
proof -
  have "(sort_key fst (radius_sessions s) = []) = (radius_sessions s = [])"
    by (metis length_0_conv length_sort)
  moreover have "(case requested_vid attrs of None \<Rightarrow> False
      | Some v \<Rightarrow> list_ex (\<lambda>(_, session). v \<in> set (forbidden (the_port s (se_port session))))
          (selected s attrs)) = (\<not> vid_allowed s attrs)"
    by (auto simp: vid_allowed_def list_ex_iff split: option.split)
  ultimately show ?thesis
    unfolding plan_sessions_def Let_def narrowed_def [symmetric] selected_def [symmetric]
    by (simp only:)
qed

lemma selected_set: "(key, session) \<in> set (selected s attrs) \<longleftrightarrow>
    (key, session) \<in> set (radius_sessions s) \<and> matches s attrs session \<and>
    (present attrs 4 \<or> present attrs 32 \<longrightarrow> same_nas attrs session)"
  by (auto simp: selected_def narrowed_def)

lemma selected_sorted: "sorted (map fst (selected s attrs))"
  unfolding selected_def narrowed_def by (auto intro!: sorted_filter)

lemma propose_key [simp]: "pr_key (propose s coa attrs ks) = fst ks"
  by (cases ks) (simp add: propose_def)

lemma plan_sessions_sound:
  assumes "pl_error (plan_sessions s coa attrs) = None"
  shows "pl_sessions (plan_sessions s coa attrs) = map (propose s coa attrs) (selected s attrs)"
    and "selected s attrs \<noteq> []" and "vid_allowed s attrs"
    and "sorted (map pr_key (pl_sessions (plan_sessions s coa attrs)))"
proof -
  show 1: "pl_sessions (plan_sessions s coa attrs) = map (propose s coa attrs) (selected s attrs)"
    "selected s attrs \<noteq> []" "vid_allowed s attrs"
    using assms by (auto simp: plan_sessions_cases nak_def split: if_splits)
  show "sorted (map pr_key (pl_sessions (plan_sessions s coa attrs)))"
    using selected_sorted by (simp add: 1(1) comp_def)
qed

subsection \<open>The order of the attributes is irrelevant\<close>

lemma attribute_kind_values: "(\<exists>(k, v) \<in> set attrs. P k) \<longleftrightarrow> (\<exists>k. P k \<and> values_of k attrs \<noteq> [])"
  by (induction attrs) auto

lemma plan_reordered:
  assumes "\<And>k. values_of k (rp_attributes r') = values_of k (rp_attributes r)" and "rp_code r' = rp_code r"
  shows "plan_dynamic_request r' s = plan_dynamic_request r s"
proof -
  let ?a' = "rp_attributes r'" and ?a = "rp_attributes r"
  have p: "present ?a' = present ?a" and c: "control_of ?a' = control_of ?a"
    by (rule ext, simp add: present_def control_of_def assms(1))+
  have kinds: "list_ex (\<lambda>(k, _). k \<notin> A) ?a' = list_ex (\<lambda>(k, _). k \<notin> A) ?a" for A
    using attribute_kind_values [of ?a' "\<lambda>k. k \<notin> A"] attribute_kind_values [of ?a "\<lambda>k. k \<notin> A"]
    by (simp add: list_ex_iff assms(1))
  have "shape_error coa ?a' = shape_error coa ?a" for coa
    unfolding shape_error_def tunnel_presence_def assms(1) p kinds by (rule refl)
  moreover have "value_error ?a' vs = value_error ?a vs" for vs
    unfolding value_error_def tunnel_error_def assms(1) p c by (rule refl)
  moreover have rv: "requested_vid ?a' = requested_vid ?a"
    unfolding requested_vid_def assms(1) p by (rule refl)
  moreover have "same_nas ?a' = same_nas ?a" "matches s ?a' = matches s ?a"
    by (rule ext, simp only: same_nas_def matches_def assms(1))+
  moreover have "changed_policy ?a' = changed_policy ?a"
    by (rule ext, simp only: changed_policy_def rv c assms(1))
  moreover from this have "propose s coa ?a' = propose s coa ?a" for coa
    by (intro ext) (simp only: propose_def c)
  ultimately show ?thesis
    by (simp only: plan_dynamic_request_def plan_sessions_def Let_def assms(2) p)
qed

subsection \<open>What a CoA changes\<close>

lemma changed_policy_fields:
  "au_vid (changed_policy attrs a) = (case requested_vid attrs of None \<Rightarrow> au_vid a | Some v \<Rightarrow> v)"
  "au_source (changed_policy attrs a) = (if requested_vid attrs = None then au_source a else From_radius)"
  "session_timeout (changed_policy attrs a) =
    (case control_of attrs 27 of None \<Rightarrow> session_timeout a | Some n \<Rightarrow> Some n)"
  "idle_timeout (changed_policy attrs a) =
    (case control_of attrs 28 of None \<Rightarrow> idle_timeout a | Some n \<Rightarrow> Some n)"
  "termination_action (changed_policy attrs a) =
    (case control_of attrs 29 of None \<Rightarrow> termination_action a | Some n \<Rightarrow> n)"
  "classes (changed_policy attrs a) = classes a"
  "au_state (changed_policy attrs a) = (case values_of 24 attrs of [] \<Rightarrow> au_state a | v # _ \<Rightarrow> Some v)"
  by (simp_all add: changed_policy_def Let_def split: option.split list.split)

lemma value_ok_vid:
  assumes "value_error attrs vs = None" and "requested_vid attrs = Some v"
  shows "1 \<le> v \<and> v \<le> 4094 \<and> has vs v"
proof -
  have p: "present attrs 64" and v: "v = bytes_decimal (if uint (hd (values_of 81 attrs) ! 0) \<le> 31
      then drop 1 (hd (values_of 81 attrs)) else hd (values_of 81 attrs))"
    using assms(2) by (auto simp: requested_vid_def Let_def split: if_splits)
  then have "\<not> tunnel_error attrs vs"
    using assms(1) by (auto simp: value_error_def split: if_splits)
  then show ?thesis
    unfolding tunnel_error_def Let_def v by (auto split: if_splits prod.splits)
qed

subsection \<open>Properties\<close>

text \<open>C19: the decision on a CoA or Disconnect request. A refusal proposes nothing and carries one of
  eight causes. Otherwise the plan holds, in the order of their subjects, one proposal for every
  current session that matches all selectors and NAS attributes of the request, and at least one;
  and a VLAN the request asks for is in 1..4094, exists, and is forbidden on no selected port.\<close>

theorem dynamic_plan_exact:
  assumes "plan_dynamic_request request s = Inr plan"
  shows "case pl_error plan of
      Some c \<Rightarrow> pl_sessions plan = [] \<and> c \<in> {401, 402, 403, 404, 405, 407, 501, 503}
    | None \<Rightarrow> pl_sessions plan =
          map (propose s (rp_code request = 43) (rp_attributes request)) (selected s (rp_attributes request)) \<and>
        selected s (rp_attributes request) \<noteq> [] \<and> sorted (map pr_key (pl_sessions plan)) \<and>
        vid_allowed s (rp_attributes request) \<and>
        (case requested_vid (rp_attributes request) of None \<Rightarrow> True
         | Some v \<Rightarrow> 1 \<le> v \<and> v \<le> 4094 \<and> has (vlans (cfg s)) v)"
proof (cases "pl_error plan")
  case (Some c)
  then show ?thesis using plan_nak_empty [OF assms Some] by simp
next
  case None
  let ?a = "rp_attributes request"
  have v: "value_error ?a (vlans (cfg s)) = None"
    and plan: "plan = plan_sessions s (rp_code request = 43) ?a"
    using assms None by (auto simp: plan_dynamic_request_def nak_def Let_def split: if_splits option.splits)
  have "pl_error (plan_sessions s (rp_code request = 43) ?a) = None" using None plan by simp
  note snd = plan_sessions_sound [OF this]
  have "case requested_vid ?a of None \<Rightarrow> True | Some v \<Rightarrow> 1 \<le> v \<and> v \<le> 4094 \<and> has (vlans (cfg s)) v"
    using value_ok_vid [OF v] by (simp split: option.split)
  then show ?thesis using snd None by (simp add: plan)
qed

definition example_session :: access_session where
  "example_session = \<lparr>se_id = [49], se_port = [112], se_mac = str ''02:00:00:00:00:05'',
     se_method = By_mab, se_policy = \<lparr>au_vid = 1, au_source = Port_default, session_timeout = None,
       idle_timeout = None, termination_action = 0, classes = [], au_state = None,
       interim_seconds = None, accounting_warning = None, au_username = None\<rparr>,
     started_ms = 0, last_activity_ms = None, in_octets = 0, in_packets = 0, se_nas = None,
     grant_generation = [103], observation_generation = [111], last_auth_ms = 0, idle_origin_ms = 0,
     lease_deadline_ms = None, renewal_started_ms = None, renewal_automatic = False,
     accounting_identity = [], user_name = None, accounting_interval = 0, accounting_next_ms = None,
     auth_server = None, auth_server_signature = None\<rparr>"

definition example_authorized :: runtime where
  "example_authorized = example_runtime\<lparr>radius_sessions :=
     [(([112], str ''02:00:00:00:00:05''), example_session)]\<rparr>"

definition example_disconnect :: "attribute list \<Rightarrow> dynamic_request" where
  "example_disconnect attrs =
     \<lparr>rp_packet = [40, 7], rp_attributes = attrs, dr_timestamp = 0\<rparr>"

lemma dynamic_plan_exact_witness:
  "\<exists>plan. plan_dynamic_request (example_disconnect [(5, [0, 0, 0, 1])]) example_authorized = Inr plan \<and>
     map pr_key (pl_sessions plan) = [([112], str ''02:00:00:00:00:05'')] \<and>
     selected example_authorized [(5, [0, 0, 0, 1])] \<noteq> []"
proof -
  let ?r = "example_disconnect [(5, [0, 0, 0, 1])]"
  have "(case plan_dynamic_request ?r example_authorized of Inl _ \<Rightarrow> False
      | Inr plan \<Rightarrow> pl_error plan = None \<and>
          map pr_key (pl_sessions plan) = [([112], str ''02:00:00:00:00:05'')])"
    by code_simp
  then obtain plan where p: "plan_dynamic_request ?r example_authorized = Inr plan"
    "pl_error plan = None" "map pr_key (pl_sessions plan) = [([112], str ''02:00:00:00:00:05'')]"
    by (auto split: sum.splits)
  show ?thesis
    using dynamic_plan_exact [OF p(1)] p by (auto simp: example_disconnect_def)
qed

text \<open>The order of attributes of different types in a CoA or Disconnect request is
  irrelevant: two requests with the same code and, for every type, the same values in the same
  order get the same plan.\<close>

theorem dynamic_plan_order:
  assumes "\<And>k. values_of k (rp_attributes r') = values_of k (rp_attributes r)" and "rp_code r' = rp_code r"
  shows "plan_dynamic_request r' s = plan_dynamic_request r s"
  by (rule plan_reordered [OF assms])

lemma dynamic_plan_order_witness:
  "plan_dynamic_request (example_disconnect [(44, [49]), (5, [0, 0, 0, 1])]) example_authorized =
    plan_dynamic_request (example_disconnect [(5, [0, 0, 0, 1]), (44, [49])]) example_authorized"
  by (rule dynamic_plan_order) (simp_all add: example_disconnect_def rp_code_def)

end
