(* ===== verification/Management.thy ===== *)
theory Management
  imports Text
begin

text \<open>
  Management identities of \<open>switchlab/management.py\<close>: roles and permissions, the bounded table of
  login sessions, and the login decision. The monotonic clock (whole seconds), the random tokens and
  what the store reports are arguments; the store itself is modelled in \<open>Storage\<close>.
\<close>

datatype provider = Local_admin | Local_viewer
datatype role = Viewer | Admin
datatype permission = State_read | Scenario_export | Simulation_write | Configuration_write
  | Security_write | Session_logout

definition role_permissions :: "role \<Rightarrow> permission list" where
  "role_permissions r = (case r of
      Viewer \<Rightarrow> [State_read, Scenario_export]
    | Admin \<Rightarrow> [State_read, Scenario_export, Simulation_write, Configuration_write, Security_write])"

fun provider_role :: "provider \<Rightarrow> role" where
  "provider_role Local_admin = Admin"
| "provider_role Local_viewer = Viewer"

definition action_permissions :: "(string, permission) dict" where
  "action_permissions =
     map (\<lambda>a. (a, Simulation_write))
       [''advance'', ''advance-cancel'', ''pause'', ''resume'', ''clear'', ''source-authentication'',
        ''radius-session-action'', ''test-notification''] @
     map (\<lambda>a. (a, Configuration_write))
       [''switch-edit'', ''port-create'', ''port-delete'', ''port-edit'', ''endpoint-create'',
        ''endpoint-edit'', ''endpoint-delete'', ''attach'', ''detach'', ''endpoint-clone'',
        ''vlan-create'', ''vlan-edit'', ''vlan-delete'', ''save-startup'', ''reboot'', ''import''] @
     map (\<lambda>a. (a, Security_write))
       [''radius-settings'', ''dynamic-settings'', ''dynamic-sender-save'', ''dynamic-sender-delete'',
        ''accounting-settings'', ''accounting-target-save'', ''accounting-target-delete'',
        ''radius-server-save'', ''radius-server-delete'', ''radius-material-save'',
        ''radius-material-delete'', ''radius-template-save'', ''radius-template-delete'',
        ''source-supplicant-save'', ''snmp-settings'', ''credential-save'', ''credential-delete'',
        ''group-save'', ''group-delete'', ''view-save'', ''view-delete'', ''target-save'',
        ''target-delete'']"

record viewer_policy =
  vp_enabled :: bool
  vp_hash :: "pystr option"
  vp_generation :: int

definition has_text :: "pystr option \<Rightarrow> bool" where
  "has_text h = (case h of None \<Rightarrow> False | Some t \<Rightarrow> t \<noteq> [])"

definition valid_policy :: "viewer_policy \<Rightarrow> bool" where
  \<comment> \<open>what \<open>ViewerPolicy\<close> accepts\<close>
  "valid_policy p \<longleftrightarrow> 0 \<le> vp_generation p \<and> vp_generation p \<le> 9223372036854775807 \<and>
     (vp_enabled p \<longrightarrow> has_text (vp_hash p))"

record store_view =
  \<comment> \<open>\<open>fault_reason\<close> and \<open>closed\<close> are both clear; the policy and the administrator's hash\<close>
  sv_healthy :: bool
  sv_policy :: viewer_policy
  sv_admin_hash :: "pystr option"

record login =
  lg_provider :: provider
  lg_generation :: int
  lg_expires :: int
  lg_csrf :: pystr

type_synonym logins = "(pystr, login) dict"

subsection \<open>Routes\<close>

definition route_add ::
  "string \<Rightarrow> (string \<Rightarrow> bool) \<Rightarrow> permission \<Rightarrow> (string \<times> (string \<Rightarrow> bool) \<times> permission) list \<Rightarrow>
     (string \<times> (string \<Rightarrow> bool) \<times> permission) list" where
  \<comment> \<open>the compiled path template is a predicate on paths\<close>
  "route_add verb pattern perm entries = entries @ [(verb, pattern, perm)]"

definition route_required ::
  "(string \<times> (string \<Rightarrow> bool) \<times> permission) list \<Rightarrow> string \<Rightarrow> string \<Rightarrow> permission option" where
  "route_required entries verb path =
     map_option (\<lambda>(_, _, p). p) (List.find (\<lambda>(v, pattern, _). v = verb \<and> pattern path) entries)"

subsection \<open>Sessions\<close>

definition login_role :: "login \<Rightarrow> role" where
  "login_role l = provider_role (lg_provider l)"

definition login_valid :: "store_view \<Rightarrow> int \<Rightarrow> login \<Rightarrow> bool" where
  "login_valid sv now l \<longleftrightarrow> now < lg_expires l \<and>
     (lg_provider l = Local_viewer \<longrightarrow>
        sv_healthy sv \<and> vp_enabled (sv_policy sv) \<and> vp_generation (sv_policy sv) = lg_generation l)"

definition current :: "store_view \<Rightarrow> int \<Rightarrow> pystr \<Rightarrow> logins \<Rightarrow> login option \<times> logins" where
  "current sv now token table =
     (case map_of table token of
        None \<Rightarrow> (None, table)
      | Some l \<Rightarrow> if login_valid sv now l then (Some l, table) else (None, drop_key token table))"

definition permits :: "login option \<Rightarrow> permission \<Rightarrow> bool" where
  "permits session p = (case session of None \<Rightarrow> False
     | Some l \<Rightarrow> p = Session_logout \<or> p \<in> set (role_permissions (login_role l)))"

definition providers :: "store_view \<Rightarrow> provider list" where
  "providers sv = Local_admin # (if vp_enabled (sv_policy sv) \<and> sv_healthy sv then [Local_viewer] else [])"

datatype verification = Verified bool | Rejected \<comment> \<open>\<open>VerificationError\<close> or \<open>InvalidHashError\<close>\<close>

definition authenticate ::
  "provider option \<Rightarrow> store_view \<Rightarrow> (pystr \<Rightarrow> verification) \<Rightarrow> store_view \<Rightarrow> int option" where
  \<comment> \<open>the store before and after the password was verified; an unknown provider name is \<open>None\<close>\<close>
  "authenticate provider sv verify sv' =
     (let saved = (case provider of
          None \<Rightarrow> None
        | Some Local_admin \<Rightarrow> map_option (\<lambda>h. (h, 0)) (sv_admin_hash sv)
        | Some Local_viewer \<Rightarrow>
            if \<not> vp_enabled (sv_policy sv) \<or> \<not> sv_healthy sv then None
            else map_option (\<lambda>h. (h, vp_generation (sv_policy sv))) (vp_hash (sv_policy sv)))
      in case saved of None \<Rightarrow> None
         | Some (h, generation) \<Rightarrow>
             (case verify h of Rejected \<Rightarrow> None
              | Verified ok \<Rightarrow>
                  if \<not> ok then None
                  else if provider = Some Local_viewer \<and>
                     (\<not> sv_healthy sv' \<or> \<not> vp_enabled (sv_policy sv') \<or>
                      vp_generation (sv_policy sv') \<noteq> generation)
                  then None else Some generation))"

definition replaceable :: "provider \<Rightarrow> login option \<Rightarrow> bool" where
  "replaceable p previous = (case previous of None \<Rightarrow> False
     | Some l \<Rightarrow> p = Local_admin \<or> lg_provider l = Local_viewer)"

definition first_viewer :: "logins \<Rightarrow> pystr option" where
  "first_viewer table = map_option fst (List.find (\<lambda>(_, l). lg_provider l = Local_viewer) table)"

definition unexpired :: "int \<Rightarrow> logins \<Rightarrow> logins" where
  "unexpired now table = filter (\<lambda>(_, l). now < lg_expires l) table"

definition optional_drop :: "pystr option \<Rightarrow> logins \<Rightarrow> logins" where
  "optional_drop token table = (case token of None \<Rightarrow> table | Some t \<Rightarrow> drop_key t table)"

definition victim_of :: "provider \<Rightarrow> login option \<Rightarrow> logins \<Rightarrow> string + pystr option" where
  "victim_of p previous table =
     (if 20 \<le> int (length table) - (if replaceable p previous then 1 else 0) then
        case first_viewer table of
          Some t \<Rightarrow> Inr (Some t)
        | None \<Rightarrow> if p = Local_admin then Inr (Some (fst (hd table)))
                  else Inl ''Session capacity reached; try again later''
      else Inr None)"

definition issue ::
  "provider \<Rightarrow> int \<Rightarrow> pystr option \<Rightarrow> int \<Rightarrow> pystr \<Rightarrow> pystr \<Rightarrow> logins \<Rightarrow>
     logins \<times> (string + pystr \<times> login)" where
  \<comment> \<open>\<open>token\<close> and \<open>csrf\<close> are the random draws\<close>
  "issue p generation previous_token now token csrf table =
     (let table = unexpired now table;
          previous = (case previous_token of None \<Rightarrow> None | Some t \<Rightarrow> map_of table t)
      in case victim_of p previous table of
           Inl e \<Rightarrow> (table, Inl e)
         | Inr victim \<Rightarrow>
             let table = optional_drop previous_token (optional_drop victim table);
                 l = \<lparr>lg_provider = p, lg_generation = generation, lg_expires = now + 28800,
                      lg_csrf = csrf\<rparr>
             in (put token l table, Inr (token, l)))"

definition revoke_viewers :: "logins \<Rightarrow> logins" where
  "revoke_viewers table = filter (\<lambda>(_, l). lg_provider l \<noteq> Local_viewer) table"

subsection \<open>The table stays bounded\<close>

lemma unexpired_dict: "is_dict table \<Longrightarrow> is_dict (unexpired now table)"
  unfolding unexpired_def by (rule is_dict_filter)

lemma optional_drop_dict: "is_dict table \<Longrightarrow> is_dict (optional_drop t table)"
  by (auto simp: optional_drop_def split: option.split)

lemma length_optional_drop:
  "is_dict table \<Longrightarrow> length (optional_drop t table) =
    (case t of None \<Rightarrow> length table
     | Some k \<Rightarrow> if map_of table k = None then length table else length table - 1)"
  by (auto simp: optional_drop_def dict.count_remove split: option.split)

lemma first_viewer_Some:
  "first_viewer table = Some t \<Longrightarrow> \<exists>l. (t, l) \<in> set table \<and> lg_provider l = Local_viewer"
  by (auto simp: first_viewer_def find_Some_iff) (metis nth_mem)

lemma first_viewer_None: "first_viewer table = None \<longleftrightarrow> (\<forall>(t, l) \<in> set table. lg_provider l = Local_admin)"
  unfolding first_viewer_def option.map_disc_iff find_None_iff
  by (auto, metis provider.exhaust)

lemma victim_present:
  assumes "victim_of p previous table = Inr (Some t)" and "is_dict table"
  shows "map_of table t \<noteq> None"
proof -
  have "t \<in> set (keys table)"
  proof (cases "first_viewer table")
    case None
    then have "t = fst (hd table)" "table \<noteq> []"
      using assms(1) by (auto simp: victim_of_def split: if_splits)
    then show ?thesis by (cases table) auto
  next
    case (Some u)
    then have "t = u" using assms(1) by (auto simp: victim_of_def split: if_splits)
    then show ?thesis using first_viewer_Some [OF Some] by force
  qed
  then show ?thesis by (metis lookup_None_iff)
qed

lemma issue_bounded:
  assumes d: "is_dict table" and n: "length table \<le> 20"
    and iss: "issue p g prev now token csrf table = (table', r)"
  shows "length table' \<le> 20 \<and> is_dict table'"
proof -
  let ?u = "unexpired now table"
  let ?prev = "case prev of None \<Rightarrow> None | Some t \<Rightarrow> map_of ?u t"
  have u: "is_dict ?u" by (rule unexpired_dict [OF d])
  have lu: "length ?u \<le> 20" using n unfolding unexpired_def by (meson le_trans length_filter_le)
  show ?thesis
  proof (cases "victim_of p ?prev ?u")
    case (Inl e)
    then show ?thesis using iss u lu by (auto simp: issue_def Let_def)
  next
    case (Inr victim)
    let ?t = "optional_drop prev (optional_drop victim ?u)"
    have t': "table' = put token \<lparr>lg_provider = p, lg_generation = g, lg_expires = now + 28800,
        lg_csrf = csrf\<rparr> ?t"
      using iss Inr by (auto simp: issue_def Let_def)
    have dt: "is_dict ?t" by (intro optional_drop_dict u)
    have "length ?t \<le> 19"
    proof (cases victim)
      case (Some v)
      then have "map_of ?u v \<noteq> None" using victim_present [OF _ u] Inr by blast
      then have "length (optional_drop victim ?u) \<le> 19"
        using lu by (auto simp: Some length_optional_drop [OF u])
      moreover have "length ?t \<le> length (optional_drop victim ?u)"
        by (auto simp: optional_drop_def length_drop_key_le split: option.split)
      ultimately show ?thesis by linarith
    next
      case None
      then have "\<not> 20 \<le> int (length ?u) - (if replaceable p ?prev then 1 else 0)"
        using Inr by (auto simp: victim_of_def split: if_splits option.splits)
      then show ?thesis
        using length_optional_drop [OF u, of prev]
        by (auto simp: None optional_drop_def replaceable_def split: if_splits option.splits)
    qed
    then show ?thesis
      using dt by (auto simp: t' length_put)
  qed
qed

subsection \<open>Who a login displaces\<close>

lemma issue_keeps:
  assumes d: "is_dict table" and iss: "issue p g prev now token csrf table = (table', r)"
    and l: "map_of table t = Some l" "now < lg_expires l" "Some t \<noteq> prev" "t \<noteq> token"
    and spare: "lg_provider l = Local_admin"
    and who: "p = Local_viewer \<or> (\<exists>(u, v) \<in> set table. lg_provider v = Local_viewer \<and> now < lg_expires v)"
  shows "map_of table' t = Some l"
proof -
  let ?u = "unexpired now table"
  let ?prev = "case prev of None \<Rightarrow> None | Some t \<Rightarrow> map_of ?u t"
  have u: "is_dict ?u" by (rule unexpired_dict [OF d])
  have lu: "map_of ?u t = Some l"
    using l(1,2) by (intro is_dict_lookup [OF u]) (auto simp: unexpired_def dest: lookup_in_set)
  show ?thesis
  proof (cases "victim_of p ?prev ?u")
    case (Inl e)
    then show ?thesis using iss lu by (auto simp: issue_def Let_def)
  next
    case (Inr victim)
    have t': "table' = put token \<lparr>lg_provider = p, lg_generation = g, lg_expires = now + 28800,
        lg_csrf = csrf\<rparr> (optional_drop prev (optional_drop victim ?u))"
      using iss Inr by (auto simp: issue_def Let_def)
    have "victim \<noteq> Some t"
    proof
      assume v: "victim = Some t"
      have some: "first_viewer ?u \<noteq> None"
      proof
        assume none: "first_viewer ?u = None"
        then have "p \<noteq> Local_viewer" using Inr v by (auto simp: victim_of_def split: if_splits)
        then obtain w v where "(w, v) \<in> set table" "lg_provider v = Local_viewer" "now < lg_expires v"
          using who by auto
        then have "(w, v) \<in> set ?u" by (simp add: unexpired_def)
        then show False using none \<open>lg_provider v = Local_viewer\<close> first_viewer_None by fastforce
      qed
      then obtain w where w: "first_viewer ?u = Some w" by blast
      then have "w = t" using Inr v by (auto simp: victim_of_def split: if_splits)
      then obtain m where "(t, m) \<in> set ?u" "lg_provider m = Local_viewer"
        using first_viewer_Some [OF w] by blast
      then show False using is_dict_lookup [OF u] lu spare by fastforce
    qed
    then show ?thesis
      using lu l(3,4) by (auto simp: t' optional_drop_def dict_simps split: option.split)
  qed
qed

lemma issue_refused:
  assumes "is_dict table" and "issue p g prev now token csrf table = (table', Inl e)"
  shows "p = Local_viewer \<and> table' = unexpired now table \<and> 20 \<le> length table' \<and>
    (\<forall>(t, l) \<in> set table'. lg_provider l = Local_admin)"
proof -
  let ?u = "unexpired now table"
  let ?prev = "case prev of None \<Rightarrow> None | Some t \<Rightarrow> map_of ?u t"
  have v: "victim_of p ?prev ?u = Inl e" and t: "table' = ?u"
    using assms(2) by (auto simp: issue_def Let_def split: sum.splits)
  then have none: "first_viewer ?u = None" and na: "p \<noteq> Local_admin"
    and n: "20 \<le> int (length ?u) - (if replaceable p ?prev then 1 else 0)"
    by (auto simp: victim_of_def split: if_splits option.splits)
  then have p: "p = Local_viewer" by (cases p) auto
  show ?thesis
    using n t p none unfolding first_viewer_None by (auto split: if_splits)
qed

subsection \<open>Viewer revocation\<close>

lemma current_sound:
  "current sv now token table = (Some l, table') \<Longrightarrow>
    map_of table token = Some l \<and> login_valid sv now l \<and> table' = table"
  by (auto simp: current_def split: option.splits if_splits)

lemma current_removes:
  "current sv now token table = (None, table') \<Longrightarrow> map_of table' token = None"
  by (auto simp: current_def dict_simps split: option.splits if_splits)

lemma stale_generation:
  assumes "map_of table token = Some l" and "lg_provider l = Local_viewer"
    and "lg_generation l \<noteq> vp_generation (sv_policy sv)"
  shows "fst (current sv now token table) = None"
  using assms by (simp add: current_def login_valid_def)

lemma viewer_actions:
  assumes "lg_provider l = Local_viewer" and "map_of action_permissions a = Some p"
  shows "\<not> permits (Some l) p"
proof -
  have "p \<in> {Simulation_write, Configuration_write, Security_write}"
    using lookup_in_set [OF assms(2)] unfolding action_permissions_def by auto
  then show ?thesis
    using assms(1) by (auto simp: permits_def login_role_def role_permissions_def)
qed

subsection \<open>The session table as a state machine\<close>

inductive table_step :: "logins \<Rightarrow> logins \<Rightarrow> bool" where
  issued: "table_step table (fst (issue p generation previous now token csrf table))"
| checked: "table_step table (snd (current sv now token table))"
| revoked: "table_step table (revoke_viewers table)"

inductive reachable_logins :: "logins \<Rightarrow> bool" where
  start: "reachable_logins []"
| step: "reachable_logins table \<Longrightarrow> table_step table table' \<Longrightarrow> reachable_logins table'"

inductive_cases table_step_cases: "table_step table table'"

lemma current_bounded: "is_dict table \<Longrightarrow> length (snd (current sv now token table)) \<le> length table
    \<and> is_dict (snd (current sv now token table))"
  by (auto simp: current_def length_drop_key_le split: option.split)

lemma revoke_bounded: "is_dict table \<Longrightarrow> length (revoke_viewers table) \<le> length table
    \<and> is_dict (revoke_viewers table)"
  by (auto simp: revoke_viewers_def)

lemma table_step_bounded:
  "table_step table table' \<Longrightarrow> is_dict table \<Longrightarrow> length table \<le> 20 \<Longrightarrow>
    length table' \<le> 20 \<and> is_dict table'"
proof (induction rule: table_step.induct)
  case (issued table p generation previous now token csrf)
  then show ?case using issue_bounded [of table p generation previous now token csrf]
    by (metis prod.collapse)
next
  case (checked table sv now token)
  then show ?case using current_bounded [of table sv now token] by simp
next
  case (revoked table)
  then show ?case using revoke_bounded [of table] by simp
qed

subsection \<open>Properties\<close>

text \<open>C13: in every state the session table can reach, by logins, checks of a token and revocations
  in any order, it holds at most twenty sessions, one per token.\<close>

theorem login_table_bounded:
  assumes "reachable_logins table"
  shows "length table \<le> 20 \<and> is_dict table"
  using assms by (induction rule: reachable_logins.induct) (auto dest: table_step_bounded)

lemma login_table_bounded_witness:
  "length (fst (issue Local_admin 0 None 100 [116] [99] [])) \<le> 20 \<and>
   map_of (fst (issue Local_admin 0 None 100 [116] [99] [])) [116] =
     Some \<lparr>lg_provider = Local_admin, lg_generation = 0, lg_expires = 28900, lg_csrf = [99]\<rparr>"
proof -
  have "reachable_logins (fst (issue Local_admin 0 None 100 [116] [99] []))"
    by (rule reachable_logins.step [OF reachable_logins.start table_step.issued])
  moreover have "map_of (fst (issue Local_admin 0 None 100 [116] [99] [])) [116] =
     Some \<lparr>lg_provider = Local_admin, lg_generation = 0, lg_expires = 28900, lg_csrf = [99]\<rparr>"
    by code_simp
  ultimately show ?thesis using login_table_bounded by blast
qed

text \<open>A login displaces an unexpired administrator's session only when an administrator logs in
  and no viewer session is left to displace. In every other case each administrator session but the
  one the caller replaces survives.\<close>

theorem administrators_spared:
  assumes "is_dict table" and "issue p g previous now token csrf table = (table', r)"
    and "map_of table t = Some l" "now < lg_expires l" "Some t \<noteq> previous" "t \<noteq> token"
    and "lg_provider l = Local_admin"
    and "p = Local_viewer \<or> (\<exists>(u, v) \<in> set table. lg_provider v = Local_viewer \<and> now < lg_expires v)"
  shows "map_of table' t = Some l"
  by (rule issue_keeps [OF assms])

definition full_table :: logins where
  "full_table = map (\<lambda>i. ([i], \<lparr>lg_provider = (if i = 7 then Local_viewer else Local_admin),
     lg_generation = 0, lg_expires = 500, lg_csrf = []\<rparr>)) [0..<20]"

lemma administrators_spared_witness:
  "map_of (fst (issue Local_admin 0 None 100 [116] [99] full_table)) [3] = map_of full_table [3] \<and>
   map_of (fst (issue Local_admin 0 None 100 [116] [99] full_table)) [7] = None"
proof -
  let ?l = "\<lparr>lg_provider = Local_admin, lg_generation = 0, lg_expires = 500, lg_csrf = []\<rparr>"
  have d: "is_dict full_table" by code_simp
  have m: "map_of full_table [3] = Some ?l" by code_simp
  have v: "\<exists>(u, v) \<in> set full_table. lg_provider v = Local_viewer \<and> 100 < lg_expires v" by code_simp
  have "map_of (fst (issue Local_admin 0 None 100 [116] [99] full_table)) [7] = None" by code_simp
  then show ?thesis
    using administrators_spared [OF d _ m, of Local_admin 0 None 100 "[116]" "[99]"] v m
    by (cases "issue Local_admin 0 None 100 [116] [99] full_table") simp
qed

text \<open>A login is refused exactly for a viewer who finds twenty unexpired administrator
  sessions and no viewer session; the refusal only drops expired sessions.\<close>

theorem login_refused_iff:
  "(\<exists>e. snd (issue p g previous now token csrf table) = Inl e) \<longleftrightarrow>
    p = Local_viewer \<and> 20 \<le> length (unexpired now table) \<and>
    list_all (\<lambda>(_, l). lg_provider l = Local_admin) (unexpired now table)"
proof -
  let ?u = "unexpired now table"
  let ?prev = "case previous of None \<Rightarrow> None | Some t \<Rightarrow> map_of ?u t"
  have out: "(\<exists>e. snd (issue p g previous now token csrf table) = Inl e) \<longleftrightarrow>
      (\<exists>e. victim_of p ?prev ?u = Inl e)"
    by (simp add: issue_def Let_def split: sum.split)
  have fv: "first_viewer ?u = None \<longleftrightarrow> list_all (\<lambda>(_, l). lg_provider l = Local_admin) ?u"
    unfolding first_viewer_None list_all_iff ..
  have prev: "\<not> replaceable Local_viewer ?prev" if "first_viewer ?u = None"
    using that first_viewer_None [of ?u]
    by (fastforce simp: replaceable_def split: option.splits dest!: lookup_in_set)
  have "(\<exists>e. victim_of p ?prev ?u = Inl e) \<longleftrightarrow>
      p = Local_viewer \<and> 20 \<le> length ?u \<and> first_viewer ?u = None"
  proof (cases "first_viewer ?u")
    case None
    show ?thesis
    proof (cases p)
      case Local_viewer
      then show ?thesis using prev [OF None] None by (simp add: victim_of_def)
    qed (simp add: victim_of_def None)
  qed (simp add: victim_of_def)
  then show ?thesis unfolding out fv .
qed

text \<open>A viewer's session permits no action of the console: every action of the table needs a
  permission the viewer role lacks; without a session nothing is permitted.\<close>

theorem viewer_cannot_act:
  assumes "lg_provider l = Local_viewer" and "map_of action_permissions a = Some p"
  shows "\<not> permits (Some l) p \<and> \<not> permits None p"
  using viewer_actions [OF assms] by (simp add: permits_def)

lemma viewer_cannot_act_witness:
  "\<not> permits (Some \<lparr>lg_provider = Local_viewer, lg_generation = 1, lg_expires = 500, lg_csrf = []\<rparr>)
     Configuration_write \<and> map_of action_permissions ''reboot'' = Some Configuration_write"
proof -
  have a: "map_of action_permissions ''reboot'' = Some Configuration_write" by code_simp
  show ?thesis
    using viewer_cannot_act [OF _ a, of "\<lparr>lg_provider = Local_viewer, lg_generation = 1, lg_expires = 500, lg_csrf = []\<rparr>"] a
    by simp
qed

end
