(* ===== verification/Storage.thy ===== *)
theory Storage
  imports Startup Management Runtime_State
begin

text \<open>
  The transactional store of \<open>switchlab/storage.py\<close>, over a SQLite connection with its own view: the
  statements of a transaction go to rows that are \<open>pending\<close> until \<open>commit\<close> publishes them or
  \<open>rollback\<close> discards them, and every read on the connection sees the pending rows. What SQLite
  answers is a parameter of each operation: a \<open>fate\<close> says whether \<open>commit\<close> succeeds, fails and leaves
  the transaction open, or fails and leaves none (with the rows written or not), and whether \<open>rollback\<close>
  works. Encryption and JSON encoding are inverse to their decoding and are left out; a table row is a
  field of \<open>database\<close>. The rows another process writes are a change of \<open>disk\<close>.
\<close>

record database =
  db_format :: "int option"
  db_lab :: "lab_configuration option"
  db_startup :: "startup_configuration option"
  db_startup_revision :: "int option"
  db_configuration_revision :: "int option"
  db_revision :: "int option"
  db_idempotency :: "json option"
  db_outbox :: "outbox_item list"
  db_accounting_outbox :: "accounting_record list"
  db_accounting_sequence :: "int option"
  db_accounting_drops :: "(string, int) dict"
  db_admin_hash :: "pystr option"
  db_viewer :: "viewer_policy option"
  db_engine_identity :: "bytes option"
  db_engine_boots :: "int option"
  db_events :: "(int \<times> event_record) list"
  db_das :: "(string, json) dict"
  db_sender_generations :: "json option"
  db_replay_high_water :: "json option"

record store =
  disk :: database              \<comment> \<open>the committed rows\<close>
  pending :: "database option"  \<comment> \<open>the rows of the open transaction\<close>
  fault_reason :: "string option"
  closed :: bool
  confirmed_administrator :: "pystr option"
  confirmed_viewer :: viewer_policy
  last_event :: int

datatype store_error =
  Storage_fault string
| Rollback_failed
| Commit_uncertain
| Database_error       \<comment> \<open>what SQLite or the body raised, after a rollback\<close>
| Viewer_conflict
| Value_error string
| Unbound_local
| Exhausted

datatype commit_fate =
  Commit_done
| Commit_refused        \<comment> \<open>raised, and the transaction is still open\<close>
| Commit_unknown bool   \<comment> \<open>raised, and no transaction is open; the flag says whether the rows were written\<close>

record fate =
  rollback_works :: bool
  commit_fate :: commit_fate

definition healthy :: "store \<Rightarrow> bool" where
  "healthy st \<longleftrightarrow> fault_reason st = None \<and> \<not> closed st"

definition require_healthy :: "store \<Rightarrow> store_error + unit" where
  "require_healthy st =
     (if healthy st then Inr ()
      else Inl (Storage_fault (case fault_reason st of Some r \<Rightarrow> r | None \<Rightarrow> ''storage_closed'')))"

definition fault :: "string \<Rightarrow> store \<Rightarrow> store" where
  "fault reason st = (if fault_reason st = None then st\<lparr>fault_reason := Some reason\<rparr> else st)"

subsection \<open>The connection\<close>

definition connection :: "store \<Rightarrow> database" where
  \<comment> \<open>what a read on the connection sees\<close>
  "connection st = (case pending st of Some rows \<Rightarrow> rows | None \<Rightarrow> disk st)"

definition in_transaction :: "store \<Rightarrow> bool" where
  "in_transaction st \<longleftrightarrow> pending st \<noteq> None"

definition run_statements :: "database option \<Rightarrow> store \<Rightarrow> store" where
  \<comment> \<open>the first statement that writes opens a transaction; \<open>None\<close> when none did\<close>
  "run_statements rows st = (case rows of None \<Rightarrow> st | Some db \<Rightarrow> st\<lparr>pending := Some db\<rparr>)"

definition sqlite_commit :: "commit_fate \<Rightarrow> store \<Rightarrow> store \<times> bool" where
  \<comment> \<open>with whether it returned\<close>
  "sqlite_commit f st =
     (case f of
        Commit_done \<Rightarrow> (st\<lparr>disk := connection st, pending := None\<rparr>, True)
      | Commit_refused \<Rightarrow> (st, False)
      | Commit_unknown applied \<Rightarrow> (st\<lparr>disk := (if applied then connection st else disk st), pending := None\<rparr>, False))"

definition sqlite_rollback :: "bool \<Rightarrow> store \<Rightarrow> store \<times> bool" where
  \<comment> \<open>outside a transaction it does nothing\<close>
  "sqlite_rollback works st =
     (if \<not> in_transaction st then (st, True) else if works then (st\<lparr>pending := None\<rparr>, True) else (st, False))"

subsection \<open>Transactions\<close>

definition rolled_back :: "fate \<Rightarrow> store_error \<Rightarrow> store \<Rightarrow> store \<times> (store_error + 'a)" where
  \<comment> \<open>\<open>_rollback\<close>, and the failure raised again\<close>
  "rolled_back f failure st =
     (case sqlite_rollback (rollback_works f) st of
        (st, True) \<Rightarrow> (st, Inl failure)
      | (st, False) \<Rightarrow> (fault ''storage_rollback_failed'' st, Inl Rollback_failed))"

definition transaction ::
  "(database \<Rightarrow> database option \<times> (store_error + 'a)) \<Rightarrow> fate \<Rightarrow> store \<Rightarrow> store \<times> (store_error + 'a)" where
  \<comment> \<open>a body gives the rows as its statements left them, also when it raises, and its outcome\<close>
  "transaction body f st =
     (case require_healthy st of
        Inl e \<Rightarrow> (st, Inl e)
      | Inr _ \<Rightarrow> (case body (connection st) of (rows, outcome) \<Rightarrow>
          let st = run_statements rows st
          in case outcome of
               Inl failure \<Rightarrow> rolled_back f failure st
             | Inr x \<Rightarrow> (case sqlite_commit (commit_fate f) st of
                 (st, True) \<Rightarrow> (st, Inr x)
               | (st, False) \<Rightarrow>
                   if \<not> in_transaction st then (fault ''storage_commit_unknown'' st, Inl Commit_uncertain)
                   else rolled_back f Database_error st)))"

subsection \<open>Administrator and viewer access\<close>

definition default_viewer :: viewer_policy where
  "default_viewer = \<lparr>vp_enabled = False, vp_hash = None, vp_generation = 0\<rparr>"

definition stored_viewer :: "database \<Rightarrow> viewer_policy" where
  "stored_viewer db = (case db_viewer db of None \<Rightarrow> default_viewer | Some p \<Rightarrow> p)"

definition administrator_hash :: "store \<Rightarrow> pystr option \<times> store" where
  "administrator_hash st =
     (let st = (if healthy st then st\<lparr>confirmed_administrator := db_admin_hash (connection st)\<rparr> else st)
      in (confirmed_administrator st, st))"

definition viewer_policy :: "store \<Rightarrow> viewer_policy \<times> store" where
  "viewer_policy st =
     (let st = (if healthy st then st\<lparr>confirmed_viewer := stored_viewer (connection st)\<rparr> else st)
      in (confirmed_viewer st, st))"

definition create_administrator :: "pystr \<Rightarrow> fate \<Rightarrow> store \<Rightarrow> store \<times> (store_error + bool)" where
  \<comment> \<open>\<open>INSERT OR IGNORE\<close>: the first hash stays\<close>
  "create_administrator h f st =
     (case transaction (\<lambda>db. if db_admin_hash db = None then (Some (db\<lparr>db_admin_hash := Some h\<rparr>), Inr True)
          else (Some db, Inr False)) f st of
        (st, Inl e) \<Rightarrow> (st, Inl e)
      | (st, Inr created) \<Rightarrow> (st\<lparr>confirmed_administrator := db_admin_hash (connection st)\<rparr>, Inr created))"

definition viewer_candidate :: "bool \<Rightarrow> pystr option \<Rightarrow> viewer_policy \<Rightarrow> viewer_policy" where
  "viewer_candidate enabled h old = \<lparr>vp_enabled = enabled,
     vp_hash = (case h of Some t \<Rightarrow> Some t | None \<Rightarrow> vp_hash old), vp_generation = vp_generation old + 1\<rparr>"

definition viewer_body ::
  "int \<Rightarrow> bool \<Rightarrow> pystr option \<Rightarrow> database \<Rightarrow> database option \<times> (store_error + viewer_policy)" where
  \<comment> \<open>\<open>BEGIN IMMEDIATE\<close> opens the transaction before anything is read\<close>
  "viewer_body expected enabled h db =
     (let old = stored_viewer db; new = viewer_candidate enabled h old
      in if vp_generation old \<noteq> expected then (Some db, Inl Viewer_conflict)
         else if \<not> valid_policy new then (Some db, Inl (Value_error ''viewer policy''))
         else (Some (db\<lparr>db_viewer := Some new\<rparr>), Inr new))"

definition configure_viewer ::
  "int \<Rightarrow> bool \<Rightarrow> pystr option \<Rightarrow> fate \<Rightarrow> store \<Rightarrow> store \<times> (store_error + viewer_policy)" where
  \<comment> \<open>\<open>BEGIN IMMEDIATE\<close> excludes other writers, so the compared policy is the stored one\<close>
  "configure_viewer expected enabled h f st =
     (case require_healthy st of Inl e \<Rightarrow> (st, Inl e)
      | Inr _ \<Rightarrow>
        case transaction (viewer_body expected enabled h) f (snd (viewer_policy st)) of
             (st, Inl e) \<Rightarrow> (st, Inl e)
           | (st, Inr new) \<Rightarrow> (st\<lparr>confirmed_viewer := new\<rparr>, Inr new))"

definition store_view :: "store \<Rightarrow> store_view" where
  \<comment> \<open>what the management layer reads\<close>
  "store_view st = \<lparr>sv_healthy = healthy st, sv_policy = fst (viewer_policy st),
     sv_admin_hash = fst (administrator_hash st)\<rparr>"

subsection \<open>Loading and committing\<close>

definition configuration_format :: "database \<Rightarrow> store_error + int option" where
  "configuration_format db =
     (let here = [db_format db \<noteq> None, db_lab db \<noteq> None, db_startup db \<noteq> None,
                  db_startup_revision db \<noteq> None]
      in if True \<notin> set here then Inr None
         else if False \<in> set here then Inl (Value_error ''Incomplete stored configuration'')
         else if db_format db \<notin> {Some 1, Some 2}
         then Inl (Value_error ''Invalid stored configuration format'')
         else Inr (db_format db))"

definition load_configuration :: "(radius_material \<Rightarrow> bool) \<Rightarrow> store \<Rightarrow> store_error + configuration option" where
  \<comment> \<open>a format-2 store; the migrations of older formats are not modelled\<close>
  "load_configuration accepts st =
     bind (require_healthy st) (\<lambda>_. bind (configuration_format (connection st)) (\<lambda>version.
       if version \<noteq> Some 2 then Inr None
       else if the (db_startup_revision (connection st)) < 0 then Inl (Value_error ''Invalid startup revision'')
       else case compose_configuration accepts (the (db_lab (connection st))) (the (db_startup (connection st))) of
              Inl e \<Rightarrow> Inl (Value_error e)
            | Inr c \<Rightarrow> Inr (Some c)))"

record revisions =
  rv_configuration :: int
  rv_startup :: int
  rv_idempotency :: json

record metadata =
  md_generations :: "json option"
  md_high_water :: "json option"
  md_put :: "(string \<times> json) list"
  md_delete :: "string list"

fun insert_rows :: "('k \<times> 'v) list \<Rightarrow> ('k, 'v) dict \<Rightarrow> ('k, 'v) dict \<times> (store_error + unit)" where
  \<comment> \<open>\<open>INSERT\<close> fails on a primary key that exists; the rows before it stay in the transaction\<close>
  "insert_rows [] d = (d, Inr ())"
| "insert_rows ((k, v) # rows) d =
     (if has d k then (d, Inl Database_error) else insert_rows rows (d @ [(k, v)]))"

definition apply_metadata :: "metadata option \<Rightarrow> database \<Rightarrow> database \<times> (store_error + unit)" where
  "apply_metadata m db = (case m of None \<Rightarrow> (db, Inr ())
     | Some m \<Rightarrow>
       let db = (case md_generations m of None \<Rightarrow> db | Some g \<Rightarrow> db\<lparr>db_sender_generations := Some g\<rparr>);
           db = (case md_high_water m of None \<Rightarrow> db | Some g \<Rightarrow> db\<lparr>db_replay_high_water := Some g\<rparr>)
       in case insert_rows (md_put m) (db_das db) of
            (das, Inl e) \<Rightarrow> (db\<lparr>db_das := das\<rparr>, Inl e)
          | (das, Inr _) \<Rightarrow> (db\<lparr>db_das := filter (\<lambda>(k, _). k \<notin> set (md_delete m)) das\<rparr>, Inr ()))"

definition commit_rows ::
  "runtime \<Rightarrow> startup_configuration option \<Rightarrow> revisions \<Rightarrow> bool \<Rightarrow> bool \<Rightarrow> bool \<Rightarrow> database \<Rightarrow> database" where
  "commit_rows s startup rv initial durable save_startup db =
     (let parts = split_configuration (cfg s);
          db = (if initial \<or> durable then db\<lparr>db_lab := Some (fst parts)\<rparr> else db);
          db = (if initial \<or> save_startup
                then db\<lparr>db_startup := Some (case startup of Some u \<Rightarrow> u | None \<Rightarrow> snd parts),
                        db_startup_revision := Some (rv_startup rv)\<rparr> else db);
          db = (if initial then db\<lparr>db_format := Some 2\<rparr> else db)
      in db\<lparr>db_configuration_revision := Some (rv_configuration rv),
            db_revision := Some (revision s), db_idempotency := Some (rv_idempotency rv),
            db_outbox := outbox s, db_accounting_outbox := accounting_outbox s,
            db_accounting_sequence := Some (accounting_sequence s),
            db_accounting_drops := accounting_drops s\<rparr>)"

definition commit_body ::
  "runtime \<Rightarrow> startup_configuration option \<Rightarrow> revisions \<Rightarrow> bool \<Rightarrow> metadata option \<Rightarrow> bool \<Rightarrow> int \<Rightarrow>
     database \<Rightarrow> database option \<times> (store_error + unit)" where
  "commit_body s startup rv durable md save_startup newest db =
     (case configuration_format db of
        Inl e \<Rightarrow> (None, Inl e)
      | Inr version \<Rightarrow>
        let initial = (version \<noteq> Some 2)
        in if (initial \<or> save_startup) \<and> startup = None \<and> \<not> (initial \<or> durable) then (None, Inl Unbound_local)
           else case apply_metadata md (commit_rows s startup rv initial durable save_startup db) of
                  (db, Inl e) \<Rightarrow> (Some db, Inl e)
                | (db, Inr _) \<Rightarrow>
                    (case insert_rows (map (\<lambda>e. (ev_id e, e)) (filter (\<lambda>e. newest < ev_id e) (events s))) (db_events db) of
                       (rows, Inl e) \<Rightarrow> (Some (db\<lparr>db_events := rows\<rparr>), Inl e)
                     | (rows, Inr _) \<Rightarrow>
                         (Some (db\<lparr>db_events := filter (\<lambda>(i, _). max 0 (event_id s - 2000) \<le> i) rows\<rparr>), Inr ())))"

definition commit ::
  "runtime \<Rightarrow> startup_configuration option \<Rightarrow> revisions \<Rightarrow> bool \<Rightarrow> metadata option \<Rightarrow> bool \<Rightarrow> fate \<Rightarrow>
     store \<Rightarrow> store \<times> (store_error + unit)" where
  "commit s startup rv durable md save_startup f st =
     (case transaction (commit_body s startup rv durable md save_startup (last_event st)) f st of
        (st, Inl e) \<Rightarrow> (st, Inl e)
      | (st, Inr _) \<Rightarrow> (st\<lparr>last_event := event_id s\<rparr>, Inr ()))"

definition engine_boot :: "bytes \<Rightarrow> fate \<Rightarrow> store \<Rightarrow> store \<times> (store_error + bytes \<times> int)" where
  \<comment> \<open>\<open>entropy\<close> is \<open>os.urandom(11)\<close>\<close>
  "engine_boot entropy f st = transaction (\<lambda>db.
     let ident = (case db_engine_identity db of None \<Rightarrow> 0x40 # entropy | Some i \<Rightarrow> i);
         boots = (case db_engine_boots db of None \<Rightarrow> 0 | Some b \<Rightarrow> b) + 1
     in if 2147483647 \<le> boots then (None, Inl Exhausted)
        else (Some (db\<lparr>db_engine_identity := Some ident, db_engine_boots := Some boots\<rparr>),
              Inr (ident, boots))) f st"

subsection \<open>Opening and closing\<close>

definition newest_event :: "database \<Rightarrow> int" where
  \<comment> \<open>\<open>COALESCE(MAX(id), 0)\<close>\<close>
  "newest_event db = (case map fst (db_events db) of [] \<Rightarrow> 0 | i # is \<Rightarrow> foldl max i is)"

definition open_store :: "database \<Rightarrow> store" where
  "open_store db = \<lparr>disk = db, pending = None, fault_reason = None, closed = False,
     confirmed_administrator = db_admin_hash db, confirmed_viewer = stored_viewer db,
     last_event = newest_event db\<rparr>"

definition close_store :: "store \<Rightarrow> store" where
  \<comment> \<open>an open transaction ends with its connection\<close>
  "close_store st = st\<lparr>pending := None, closed := True\<rparr>"

subsection \<open>Transactions are atomic\<close>

definition written :: "database option \<Rightarrow> database \<Rightarrow> database" where
  \<comment> \<open>the rows a body leaves\<close>
  "written rows db = (case rows of None \<Rightarrow> db | Some rows \<Rightarrow> rows)"

lemma connection_written: "connection (run_statements rows st) = written rows (connection st)"
  by (simp add: connection_def run_statements_def written_def split: option.splits)

lemma connection_idle: "pending st = None \<Longrightarrow> connection st = disk st"
  by (simp add: connection_def)

lemma disk_fault [simp]: "disk (fault r st) = disk st" "pending (fault r st) = pending st" "\<not> healthy (fault r st)"
  by (simp_all add: fault_def healthy_def)

lemma disk_statements [simp]: "disk (run_statements rows st) = disk st"
  "healthy (run_statements rows st) = healthy st"
  by (simp_all add: run_statements_def healthy_def split: option.splits)

lemmas sqlite_defs = sqlite_commit_def sqlite_rollback_def in_transaction_def rolled_back_def

lemma transaction_ok:
  assumes "transaction body f st = (st', Inr x)"
  shows "healthy st \<and> (\<exists>rows. body (connection st) = (rows, Inr x) \<and>
    st' = st\<lparr>disk := written rows (connection st), pending := None\<rparr>)"
proof -
  have h: "healthy st" using assms by (auto simp: transaction_def require_healthy_def split: if_splits)
  obtain rows r where b: "body (connection st) = (rows, r)" by (cases "body (connection st)")
  have "r = Inr x" and "st' = (run_statements rows st)\<lparr>disk := connection (run_statements rows st), pending := None\<rparr>"
    using assms h b by (auto simp: transaction_def require_healthy_def sqlite_defs Let_def
        split: sum.splits if_splits commit_fate.splits prod.splits)
  moreover have "(run_statements rows st)\<lparr>disk := db, pending := None\<rparr> = st\<lparr>disk := db, pending := None\<rparr>" for db
    by (simp add: run_statements_def split: option.splits)
  ultimately show ?thesis using h b by (simp add: connection_written)
qed

lemma rolled_back_result:
  assumes "rolled_back f failure st = (st', r)"
  shows "disk st' = disk st" "\<exists>e. r = Inl e" "pending st' = None \<or> \<not> healthy st'"
    "failure \<noteq> Commit_uncertain \<Longrightarrow> r \<noteq> Inl Commit_uncertain"
    "confirmed_administrator st' = confirmed_administrator st" "confirmed_viewer st' = confirmed_viewer st"
  using assms by (auto simp: sqlite_defs fault_def healthy_def split: if_splits)

lemma transaction_error:
  assumes "transaction body f st = (st', Inl e)" and "healthy st"
  shows "(pending st' = None \<or> \<not> healthy st') \<and>
    (disk st' = disk st \<or>
     e = Commit_uncertain \<and> \<not> healthy st' \<and> (\<exists>rows x. body (connection st) = (rows, Inr x) \<and> disk st' = written rows (connection st)))"
proof -
  obtain rows r where b: "body (connection st) = (rows, r)" by (cases "body (connection st)")
  let ?st = "run_statements rows st"
  show ?thesis
  proof (cases r)
    case (Inl failure)
    then have "rolled_back f failure ?st = (st', Inl e :: store_error + 'a)"
      using assms b by (simp add: transaction_def require_healthy_def)
    from rolled_back_result(1,3) [OF this] show ?thesis by simp
  next
    case (Inr x)
    note t = assms(1) [unfolded transaction_def require_healthy_def, simplified assms(2) b Inr, simplified]
    show ?thesis
    proof (cases "commit_fate f")
      case Commit_done
      with t show ?thesis by (simp add: sqlite_commit_def)
    next
      case Commit_refused
      show ?thesis
      proof (cases "in_transaction ?st")
        case True
        then have "rolled_back f Database_error ?st = (st', Inl e :: store_error + 'a)"
          using t Commit_refused by (simp add: sqlite_commit_def)
        from rolled_back_result(1,3) [OF this] show ?thesis by simp
      next
        case False
        then have "st' = fault ''storage_commit_unknown'' ?st" using t Commit_refused by (simp add: sqlite_commit_def)
        then show ?thesis by simp
      qed
    next
      case (Commit_unknown applied)
      then have "st' = fault ''storage_commit_unknown'' (?st\<lparr>disk := if applied then connection ?st else disk ?st, pending := None\<rparr>)"
        and "e = Commit_uncertain"
        using t by (simp_all add: sqlite_commit_def in_transaction_def)
      then show ?thesis using b Inr by (cases applied) (auto simp: connection_written)
    qed
  qed
qed

lemma transaction_confirmed:
  assumes "transaction body f st = (st', r)"
  shows "confirmed_administrator st' = confirmed_administrator st" "confirmed_viewer st' = confirmed_viewer st"
  using assms
  by (auto simp: transaction_def require_healthy_def sqlite_defs fault_def run_statements_def Let_def
      split: if_splits sum.splits prod.splits commit_fate.splits option.splits)

lemma unhealthy_stuck:
  "\<not> healthy st \<Longrightarrow> fst (transaction body f st) = st \<and> \<not> succeeds (snd (transaction body f st))"
  by (simp add: transaction_def require_healthy_def)

subsection \<open>The viewer's generation\<close>

lemma viewer_policy_healthy:
  "healthy st \<Longrightarrow> viewer_policy st = (stored_viewer (connection st), st\<lparr>confirmed_viewer := stored_viewer (connection st)\<rparr>)"
  by (simp add: viewer_policy_def)

lemma viewer_policy_faulted: "\<not> healthy st \<Longrightarrow> viewer_policy st = (confirmed_viewer st, st)"
  by (simp add: viewer_policy_def)

lemma configure_viewer_ok:
  assumes "configure_viewer expected enabled h f st = (st', Inr new)"
  shows "healthy st \<and> vp_generation (stored_viewer (connection st)) = expected \<and>
    vp_generation new = expected + 1 \<and> vp_enabled new = enabled \<and> valid_policy new \<and>
    disk st' = (connection st)\<lparr>db_viewer := Some new\<rparr> \<and> pending st' = None \<and> confirmed_viewer st' = new \<and>
    sv_policy (store_view st') = new"
proof -
  let ?st = "st\<lparr>confirmed_viewer := stored_viewer (connection st)\<rparr>"
  have same: "connection ?st = connection st" by (cases "pending st") (simp_all add: connection_def)
  have h: "healthy st"
    using assms by (auto simp: configure_viewer_def require_healthy_def split: if_splits sum.splits)
  obtain st1 where t: "transaction (viewer_body expected enabled h) f ?st = (st1, Inr new)" and st': "st' = st1\<lparr>confirmed_viewer := new\<rparr>"
    using assms h by (auto simp: configure_viewer_def require_healthy_def viewer_policy_healthy Let_def
        split: sum.splits prod.splits)
  obtain rows where b: "viewer_body expected enabled h (connection st) = (rows, Inr new)"
    and st1: "st1 = ?st\<lparr>disk := written rows (connection st), pending := None\<rparr>"
    using transaction_ok [OF t] same by auto
  have new: "new = viewer_candidate enabled h (stored_viewer (connection st))"
    and gen: "vp_generation (stored_viewer (connection st)) = expected" and ok: "valid_policy new"
    and db: "written rows (connection st) = (connection st)\<lparr>db_viewer := Some new\<rparr>"
    using b by (auto simp: viewer_body_def Let_def written_def split: if_splits)
  have "healthy st'" using h by (simp add: st' st1 healthy_def)
  then have "sv_policy (store_view st') = new"
    by (simp add: store_view_def viewer_policy_healthy) (simp add: st' st1 db stored_viewer_def connection_idle)
  then show ?thesis
    using h gen ok by (simp add: st' st1 db new viewer_candidate_def)
qed

lemma configure_viewer_error:
  assumes "configure_viewer expected enabled h f st = (st', Inl e)" and "e \<noteq> Commit_uncertain"
    and idle: "pending st = None"
  shows "disk st' = disk st \<and> sv_policy (store_view st') = sv_policy (store_view st)"
proof (cases "healthy st")
  case False
  then show ?thesis
    using assms(1) by (auto simp: configure_viewer_def require_healthy_def split: if_splits sum.splits)
next
  case True
  let ?st = "st\<lparr>confirmed_viewer := stored_viewer (disk st)\<rparr>"
  have t: "transaction (viewer_body expected enabled h) f ?st = (st', Inl e)"
    using assms(1) True by (auto simp: configure_viewer_def require_healthy_def viewer_policy_healthy Let_def
        connection_idle [OF idle] split: sum.splits prod.splits)
  have h: "healthy ?st" using True by (simp add: healthy_def)
  have d: "disk st' = disk st" and p: "pending st' = None \<or> \<not> healthy st'"
    using transaction_error [OF t h] assms(2) by auto
  have c: "confirmed_viewer st' = stored_viewer (disk st)"
    using transaction_confirmed(2) [OF t] by simp
  have "fst (viewer_policy st') = stored_viewer (disk st)"
    using d c p by (cases "healthy st'") (auto simp: viewer_policy_healthy viewer_policy_faulted connection_idle)
  then show ?thesis
    using d True by (simp add: store_view_def viewer_policy_healthy connection_idle [OF idle])
qed

text \<open>After a change no earlier viewer login is valid, whatever happens to the store later.\<close>

lemma reconfigured_viewer:
  assumes "configure_viewer expected enabled h f st = (st', Inr new)"
    and "map_of table token = Some l" "lg_provider l = Local_viewer" "lg_generation l \<le> expected"
  shows "fst (current (store_view st') now token table) = None"
  using configure_viewer_ok [OF assms(1)] assms(2-4)
  by (intro stale_generation [OF assms(2,3)]) auto

subsection \<open>The engine identity and boot counter\<close>

lemma engine_boot_ok:
  assumes "engine_boot entropy f st = (st', Inr (ident, boots))"
  shows "db_engine_boots (disk st') = Some boots \<and> db_engine_identity (disk st') = Some ident \<and>
    boots < 2147483647 \<and> pending st' = None \<and>
    boots = (case db_engine_boots (connection st) of None \<Rightarrow> 1 | Some b \<Rightarrow> b + 1) \<and>
    (\<forall>i. db_engine_identity (connection st) = Some i \<longrightarrow> ident = i)"
proof -
  obtain rows where "(let ident = (case db_engine_identity (connection st) of None \<Rightarrow> 0x40 # entropy | Some i \<Rightarrow> i);
         boots = (case db_engine_boots (connection st) of None \<Rightarrow> 0 | Some b \<Rightarrow> b) + 1
     in if 2147483647 \<le> boots then (None, Inl Exhausted)
        else (Some ((connection st)\<lparr>db_engine_identity := Some ident, db_engine_boots := Some boots\<rparr>),
              Inr (ident, boots))) = (rows, Inr (ident, boots) :: store_error + bytes \<times> int)"
    "st' = st\<lparr>disk := written rows (connection st), pending := None\<rparr>"
    using transaction_ok [OF assms [unfolded engine_boot_def]] by auto
  then show ?thesis
    by (auto simp: Let_def written_def split: if_splits option.splits)
qed

subsection \<open>What a commit leaves on disk\<close>

lemma apply_metadata_keeps:
  assumes "apply_metadata m db = (db', Inr ())"
  shows "db_lab db' = db_lab db" "db_startup db' = db_startup db" "db_format db' = db_format db"
    "db_startup_revision db' = db_startup_revision db"
    "db_viewer db' = db_viewer db" "db_admin_hash db' = db_admin_hash db"
    "db_accounting_outbox db' = db_accounting_outbox db" "db_revision db' = db_revision db"
    "db_engine_boots db' = db_engine_boots db"
  using assms by (auto simp: apply_metadata_def Let_def split: option.splits prod.splits sum.splits)

lemma commit_rows_fields:
  "db_format (commit_rows s startup rv initial durable save db) = (if initial then Some 2 else db_format db)"
    "db_lab (commit_rows s startup rv initial durable save db) = (if initial \<or> durable then Some (fst (split_configuration (cfg s))) else db_lab db)"
    "db_startup (commit_rows s startup rv initial durable save db) = (if initial \<or> save then Some (case startup of Some u \<Rightarrow> u
        | None \<Rightarrow> snd (split_configuration (cfg s))) else db_startup db)"
    "db_startup_revision (commit_rows s startup rv initial durable save db) = (if initial \<or> save then Some (rv_startup rv) else db_startup_revision db)"
    "db_viewer (commit_rows s startup rv initial durable save db) = db_viewer db" "db_admin_hash (commit_rows s startup rv initial durable save db) = db_admin_hash db"
    "db_engine_boots (commit_rows s startup rv initial durable save db) = db_engine_boots db"
    "db_accounting_outbox (commit_rows s startup rv initial durable save db) = accounting_outbox s" "db_revision (commit_rows s startup rv initial durable save db) = Some (revision s)"
  by (simp_all add: commit_rows_def Let_def)

lemma commit_body_ok:
  assumes "commit_body s startup rv durable md save newest db = (rs, Inr ())"
  defines "db' \<equiv> written rs db" and "initial \<equiv> db_format db \<noteq> Some 2"
  shows "db_format db' = Some 2"
    and "db_lab db' = (if initial \<or> durable then Some (fst (split_configuration (cfg s))) else db_lab db)"
    and "db_startup db' = (if initial \<or> save then Some (case startup of Some u \<Rightarrow> u
        | None \<Rightarrow> snd (split_configuration (cfg s))) else db_startup db)"
    and "db_startup_revision db' = (if initial \<or> save then Some (rv_startup rv) else db_startup_revision db)"
    and "\<forall>(i, _) \<in> set (db_events db'). event_id s - 2000 \<le> i"
    and "db_viewer db' = db_viewer db" and "db_admin_hash db' = db_admin_hash db"
    and "db_engine_boots db' = db_engine_boots db"
    and "db_accounting_outbox db' = accounting_outbox s" and "db_revision db' = Some (revision s)"
proof -
  obtain version db2 rows where v: "configuration_format db = Inr version"
    and md: "apply_metadata md (commit_rows s startup rv (version \<noteq> Some 2) durable save db) = (db2, Inr ())"
    and db': "db' = db2\<lparr>db_events := filter (\<lambda>(i, _). max 0 (event_id s - 2000) \<le> i) rows\<rparr>"
    using assms(1) by (auto simp: commit_body_def db'_def written_def Let_def split: if_splits sum.splits prod.splits)
  have init: "(version \<noteq> Some 2) = initial"
    using v by (auto simp: initial_def configuration_format_def Let_def split: if_splits)
  note k = apply_metadata_keeps [OF md, unfolded commit_rows_fields init]
  show "db_format db' = Some 2"
    using k(3) by (auto simp: db' initial_def)
  show "db_lab db' = (if initial \<or> durable then Some (fst (split_configuration (cfg s))) else db_lab db)"
    "db_startup db' = (if initial \<or> save then Some (case startup of Some u \<Rightarrow> u
        | None \<Rightarrow> snd (split_configuration (cfg s))) else db_startup db)"
    "db_startup_revision db' = (if initial \<or> save then Some (rv_startup rv) else db_startup_revision db)"
    "db_viewer db' = db_viewer db" "db_admin_hash db' = db_admin_hash db"
    "db_engine_boots db' = db_engine_boots db"
    "db_accounting_outbox db' = accounting_outbox s" "db_revision db' = Some (revision s)"
    using k by (simp_all add: db')
  show "\<forall>(i, _) \<in> set (db_events db'). event_id s - 2000 \<le> i"
    by (auto simp: db')
qed

lemma commit_ok:
  assumes "commit s startup rv durable md save f st = (st', Inr ())"
  shows "healthy st \<and> (\<exists>rows. commit_body s startup rv durable md save (last_event st) (connection st) = (rows, Inr ()) \<and>
    st' = st\<lparr>disk := written rows (connection st), pending := None, last_event := event_id s\<rparr>)"
proof -
  obtain st1 where t: "transaction (commit_body s startup rv durable md save (last_event st)) f st = (st1, Inr ())"
    and st': "st' = st1\<lparr>last_event := event_id s\<rparr>"
    using assms by (auto simp: commit_def split: prod.splits sum.splits)
  then show ?thesis using transaction_ok [OF t] by auto
qed

lemma loaded_rows:
  assumes "healthy st" and "pending st = None" and "db_format (disk st) = Some 2"
    and "db_lab (disk st) = Some lab" and "db_startup (disk st) = Some su"
    and "db_startup_revision (disk st) = Some r" and "0 \<le> r"
  shows "load_configuration accepts st = (case compose_configuration accepts lab su of
    Inl e \<Rightarrow> Inl (Value_error e) | Inr c \<Rightarrow> Inr (Some c))"
  using assms by (simp add: load_configuration_def require_healthy_def configuration_format_def connection_def Let_def
      split: sum.splits)


lemma saved_lab_loads:
  assumes commit: "commit s startup rv True md False f st = (st', Inr ())"
    and fmt: "db_format (connection st) = Some 2"
    and su: "db_startup (connection st) = Some su" and rev: "db_startup_revision (connection st) = Some r" "0 \<le> r"
    and ok: "model_validate accepts (joined (fst (split_configuration (cfg s))) su) = Inr ()"
  shows "load_configuration accepts st' = Inr (Some (joined (fst (split_configuration (cfg s))) su))"
proof -
  obtain rows where b: "commit_body s startup rv True md False (last_event st) (connection st) = (rows, Inr ())"
    and st': "st' = st\<lparr>disk := written rows (connection st), pending := None, last_event := event_id s\<rparr>"
    and h: "healthy st"
    using commit_ok [OF commit] by blast
  note c = commit_body_ok [OF b]
  have "healthy st'" using h by (simp add: st' healthy_def)
  then have "load_configuration accepts st' = (case compose_configuration accepts (fst (split_configuration (cfg s))) su of
      Inl e \<Rightarrow> Inl (Value_error e) | Inr c \<Rightarrow> Inr (Some c))"
    using c(1-4) fmt su rev by (intro loaded_rows [where r = r]) (auto simp: st')
  then show ?thesis using ok by (simp add: compose_configuration_def Let_def)
qed

text \<open>What was pending when a connection closed is gone: the next start reads the committed rows.\<close>

lemma reopened_store: "connection (open_store (disk (close_store st))) = disk st \<and> healthy (open_store (disk (close_store st)))"
  by (simp add: close_store_def open_store_def connection_def healthy_def)

subsection \<open>Properties\<close>

definition empty_database :: database where
  "empty_database = \<lparr>db_format = None, db_lab = None, db_startup = None, db_startup_revision = None,
     db_configuration_revision = None, db_revision = None, db_idempotency = None, db_outbox = [],
     db_accounting_outbox = [], db_accounting_sequence = None, db_accounting_drops = [],
     db_admin_hash = None, db_viewer = None, db_engine_identity = None, db_engine_boots = None,
     db_events = [], db_das = [], db_sender_generations = None, db_replay_high_water = None\<rparr>"

definition new_store :: store where
  "new_store = open_store empty_database"

definition sound_fate :: fate where
  "sound_fate = \<lparr>rollback_works = True, commit_fate = Commit_done\<rparr>"

text \<open>C15: transactions are atomic. On a connection with no transaction left over, whatever the
  statements of the body wrote, and however \<open>commit\<close> and \<open>rollback\<close> turn out: a transaction that
  returns has put exactly the body's rows on disk; one that raises leaves the committed rows as they
  were, with one exception that the program reports as \<open>Commit_uncertain\<close>: then the store is faulted
  and the disk holds the old rows or exactly the rows of the body. A store that stays in use has no
  transaction left over, so none of a failed body's rows is read, or committed by a later transaction;
  and the password and viewer policy that logins are checked against are never uncommitted rows: they
  come from disk, or from the last confirmed read.\<close>

theorem transaction_atomic:
  assumes "healthy st \<Longrightarrow> pending st = None"
  shows "case transaction body f st of (st', outcome) \<Rightarrow>
    (healthy st' \<longrightarrow> pending st' = None \<and> connection st' = disk st') \<and>
    (case outcome of
       Inl e \<Rightarrow> disk st' = disk st \<or>
         (e = Commit_uncertain \<and> \<not> healthy st' \<and> (\<exists>rows x. body (disk st) = (rows, Inr x) \<and> disk st' = written rows (disk st)))
     | Inr x \<Rightarrow> healthy st \<and> healthy st' \<and> (\<exists>rows. body (disk st) = (rows, Inr x) \<and> disk st' = written rows (disk st))) \<and>
    fst (administrator_hash st') \<in> {db_admin_hash (disk st'), confirmed_administrator st} \<and>
    fst (viewer_policy st') \<in> {stored_viewer (disk st'), confirmed_viewer st}"
proof -
  obtain st' r where t: "transaction body f st = (st', r)" by (cases "transaction body f st")
  have idle: "connection st = disk st" if "healthy st" using assms that by (simp add: connection_idle)
  have rest: "healthy st' \<longrightarrow> pending st' = None \<and> connection st' = disk st'"
  proof (cases "healthy st")
    case False
    then show ?thesis using unhealthy_stuck [OF False, of body f] t by simp
  next
    case True
    then show ?thesis
      using transaction_error [of body f st st'] transaction_ok [of body f st st'] t
      by (cases r) (auto simp: connection_idle)
  qed
  then have "fst (administrator_hash st') \<in> {db_admin_hash (disk st'), confirmed_administrator st}"
    "fst (viewer_policy st') \<in> {stored_viewer (disk st'), confirmed_viewer st}"
    using transaction_confirmed [OF t] by (auto simp: administrator_hash_def viewer_policy_def Let_def)
  moreover have "case r of
       Inl e \<Rightarrow> disk st' = disk st \<or>
         (e = Commit_uncertain \<and> \<not> healthy st' \<and> (\<exists>rows x. body (disk st) = (rows, Inr x) \<and> disk st' = written rows (disk st)))
     | Inr x \<Rightarrow> healthy st \<and> healthy st' \<and> (\<exists>rows. body (disk st) = (rows, Inr x) \<and> disk st' = written rows (disk st))"
  proof (cases r)
    case (Inl e)
    then show ?thesis
      using transaction_error [of body f st st' e] unhealthy_stuck [of st body f] t idle by (cases "healthy st") auto
  next
    case (Inr x)
    then show ?thesis using transaction_ok [of body f st st' x] t idle by (auto simp: healthy_def)
  qed
  ultimately show ?thesis using t rest by simp
qed

lemma transaction_atomic_witness:
  "case transaction (\<lambda>db. (Some (db\<lparr>db_admin_hash := Some [120]\<rparr>), Inl Database_error :: store_error + unit)) sound_fate new_store
   of (st', _) \<Rightarrow> healthy st' \<and> connection st' = empty_database"
proof -
  let ?body = "\<lambda>db. (Some (db\<lparr>db_admin_hash := Some [120]\<rparr>), Inl Database_error :: store_error + unit)"
  have "pending new_store = None" "disk new_store = empty_database" by (simp_all add: new_store_def open_store_def)
  moreover have "healthy (fst (transaction ?body sound_fate new_store))" by code_simp
  moreover have "\<not> succeeds (snd (transaction ?body sound_fate new_store))" "snd (transaction ?body sound_fate new_store) \<noteq> Inl Commit_uncertain"
    by code_simp+
  ultimately show ?thesis
    using transaction_atomic [of new_store ?body sound_fate]
    by (cases "transaction ?body sound_fate new_store") (auto simp: succeeds_iff split: sum.splits)
qed

text \<open>A store whose outcome once was uncertain, or that was closed, never writes again: every
  transaction on it raises and changes nothing.\<close>

theorem faulted_store_stuck:
  assumes "\<not> healthy st"
  shows "fst (transaction body f st) = st \<and> \<not> succeeds (snd (transaction body f st))"
  by (rule unhealthy_stuck [OF assms])

lemma faulted_store_stuck_witness:
  "fst (engine_boot [] sound_fate (fst (engine_boot [1] \<lparr>rollback_works = True,
      commit_fate = Commit_unknown True\<rparr> new_store))) =
    fst (engine_boot [1] \<lparr>rollback_works = True, commit_fate = Commit_unknown True\<rparr> new_store)"
proof -
  have "\<not> healthy (fst (engine_boot [1] \<lparr>rollback_works = True, commit_fate = Commit_unknown True\<rparr> new_store))"
    by code_simp
  then show ?thesis
    unfolding engine_boot_def [of "[]"] using faulted_store_stuck by blast
qed

text \<open>C31: changing the viewer's access revokes it. After a successful change, the stored policy has
  the next generation, and every viewer session issued under the old one (or an earlier one) is
  refused and removed at its next check, whatever its expiry.\<close>

theorem viewer_change_revokes:
  assumes "configure_viewer expected enabled h f st = (st', Inr new)"
    and "map_of table token = Some l" "lg_provider l = Local_viewer" "lg_generation l \<le> expected"
  shows "fst (current (store_view st') now token table) = None \<and>
    map_of (snd (current (store_view st') now token table)) token = None \<and>
    vp_generation (sv_policy (store_view st')) = expected + 1"
proof -
  have "fst (current (store_view st') now token table) = None"
    by (rule reconfigured_viewer [OF assms])
  moreover from this have "map_of (snd (current (store_view st') now token table)) token = None"
    using current_removes by (metis prod.collapse)
  moreover have "vp_generation (sv_policy (store_view st')) = expected + 1"
    using configure_viewer_ok [OF assms(1)] by simp
  ultimately show ?thesis by blast
qed

lemma viewer_change_revokes_witness:
  "\<exists>st' new. configure_viewer 0 True (Some [104]) sound_fate new_store = (st', Inr new) \<and>
     fst (current (store_view st') 10 [116]
       [([116], \<lparr>lg_provider = Local_viewer, lg_generation = 0, lg_expires = 500, lg_csrf = []\<rparr>)]) = None"
proof -
  have "succeeds (snd (configure_viewer 0 True (Some [104]) sound_fate new_store))" by code_simp
  then obtain st' new where c: "configure_viewer 0 True (Some [104]) sound_fate new_store = (st', Inr new)"
    by (cases "configure_viewer 0 True (Some [104]) sound_fate new_store") (auto simp: succeeds_iff)
  show ?thesis
    using viewer_change_revokes [OF c, of "[([116], \<lparr>lg_provider = Local_viewer, lg_generation = 0,
      lg_expires = 500, lg_csrf = []\<rparr>)]" "[116]"] c by simp
qed

text \<open>The SNMP engine identity is drawn once and kept, and each successful start takes the next
  boot count, which never reaches the maximum that RFC 3414 reserves.\<close>

theorem engine_boots_increase:
  assumes "engine_boot entropy f st = (st1, Inr (ident, boots))"
    and "disk st2 = disk st1" "pending st2 = None" and "engine_boot entropy' f' st2 = (st3, Inr (ident', boots'))"
  shows "ident' = ident \<and> boots' = boots + 1 \<and> boots' < 2147483647"
  using engine_boot_ok [OF assms(1)] engine_boot_ok [OF assms(4)] assms(2,3) by (simp add: connection_idle)

lemma engine_boots_increase_witness:
  "\<exists>st1 st3 ident. engine_boot [1, 2] sound_fate new_store = (st1, Inr (ident, 1)) \<and>
     engine_boot [3, 4] sound_fate st1 = (st3, Inr (ident, 2))"
proof -
  let ?a = "engine_boot [1, 2] sound_fate new_store"
  have a: "snd ?a = Inr ([0x40, 1, 2], 1)" by code_simp
  let ?b = "engine_boot [3, 4] sound_fate (fst ?a)"
  have b: "succeeds (snd ?b)" by code_simp
  obtain st1 where 1: "?a = (st1, Inr ([0x40, 1, 2], 1))" using a by (metis prod.collapse)
  obtain st3 i n where 3: "engine_boot [3, 4] sound_fate st1 = (st3, Inr (i, n))"
    using b 1 by (cases ?b) (auto simp: succeeds_iff)
  show ?thesis using engine_boots_increase [OF 1 refl _ 3] engine_boot_ok [OF 1] 1 3 by auto
qed



text \<open>A reboot restores the policy that was saved, on the hardware as it is. After a commit that
  saves the lab only, the store loads the current lab joined with the startup policy on disk: a
  port keeps its identity, indexes, media and carrier, and takes its VLANs, administrative state
  and authentication from the startup configuration, or the defaults when it has none there.\<close>

theorem saved_lab_restored:
  assumes "commit s startup rv True md False f st = (st', Inr ())"
    and "db_format (connection st) = Some 2" and "db_startup (connection st) = Some su"
    and "db_startup_revision (connection st) = Some r" "0 \<le> r"
    and "model_validate accepts (joined (fst (split_configuration (cfg s))) su) = Inr ()"
    and "is_dict (ports (cfg s))" and "map_of (ports (cfg s)) pid = Some p"
  shows "\<exists>c. load_configuration accepts st' = Inr (Some c) \<and> references c = Inr () \<and>
    map_of (ports c) pid = Some (join_port (hardware_of p)
      (case map_of (su_ports su) pid of Some q \<Rightarrow> q | None \<Rightarrow> default_port_policy))"
proof -
  let ?lab = "fst (split_configuration (cfg s))"
  have lab: "lab_ports ?lab = map_values hardware_of (ports (cfg s))"
    by (simp add: split_configuration_def Let_def)
  have d: "is_dict (lab_ports ?lab)" using assms(7) by (simp add: lab is_dict_def)
  have "(pid, hardware_of p) \<in> set (lab_ports ?lab)"
    using map_of_SomeD [OF assms(8)] by (force simp: lab map_values_def)
  then show ?thesis
    using saved_lab_loads [OF assms(1-6)] model_validate_references [OF assms(6)] restored_port [OF d] by blast
qed

end
