(* ===== verification/Set_Plan.thy ===== *)
theory Set_Plan
  imports Configuration
begin

text \<open>
  \<open>plan_set\<close> of \<open>switchlab/mib.py\<close>: one SNMP SET request, checked binding by binding in its
  original positions and turned into one simultaneous change of the configuration. A wire value
  is its ASN.1 tag with its content; \<open>pysnmp\<close> decodes it before. A Python set of ports is the list
  of their identifiers in inventory order, and the set of VLANs to create is the list of their
  numbers in order of first mention, so equal sets are equal lists.
\<close>

datatype wire = Wire_integer int | Wire_gauge int | Wire_octets bytes | Wire_other
datatype wire_tag = Integer_tag | Gauge_tag | Octets_tag

fun has_tag :: "wire_tag \<Rightarrow> wire \<Rightarrow> bool" where
  "has_tag Integer_tag (Wire_integer _) = True"
| "has_tag Gauge_tag (Wire_gauge _) = True"
| "has_tag Octets_tag (Wire_octets _) = True"
| "has_tag _ _ = False"

fun wire_int :: "wire \<Rightarrow> int" where
  "wire_int (Wire_integer i) = i"
| "wire_int (Wire_gauge i) = i"
| "wire_int _ = 0"

fun wire_bytes :: "wire \<Rightarrow> bytes" where
  "wire_bytes (Wire_octets b) = b"
| "wire_bytes _ = []"

datatype object_kind = Admin_object | Initialize_object | Reauthenticate_object | Control_object
  | Pvid_object | Name_object | Egress_object | Forbidden_object | Untagged_object | Row_object

definition pae_oid :: oid where "pae_oid = [1, 0, 8802, 1, 1, 1, 1]"

definition static_vlan_oid :: oid where "static_vlan_oid = [1, 3, 6, 1, 2, 1, 17, 7, 1, 4, 3, 1]"

definition write_objects :: "(oid \<times> object_kind \<times> wire_tag) list" where
  "write_objects =
     [([1, 3, 6, 1, 2, 1, 2, 2, 1, 7], Admin_object, Integer_tag),
      (pae_oid @ [1, 2, 1, 4], Initialize_object, Integer_tag),
      (pae_oid @ [1, 2, 1, 5], Reauthenticate_object, Integer_tag),
      (pae_oid @ [2, 1, 1, 6], Control_object, Integer_tag),
      ([1, 3, 6, 1, 2, 1, 17, 7, 1, 4, 5, 1, 1], Pvid_object, Gauge_tag),
      (static_vlan_oid @ [1], Name_object, Octets_tag),
      (static_vlan_oid @ [2], Egress_object, Octets_tag),
      (static_vlan_oid @ [3], Forbidden_object, Octets_tag),
      (static_vlan_oid @ [4], Untagged_object, Octets_tag),
      (static_vlan_oid @ [5], Row_object, Integer_tag)]"

definition starts :: "oid \<Rightarrow> oid \<Rightarrow> bool" where
  \<comment> \<open>\<open>name[:len(p)] == p\<close>\<close>
  "starts p name \<longleftrightarrow> take (length p) name = p"

definition write_object :: "oid \<Rightarrow> (oid \<times> object_kind \<times> wire_tag) option" where
  "write_object name = List.find (\<lambda>(base, _). starts base name) write_objects"

datatype object_key = Port_key uid | Vlan_key int
datatype object_value = Number_value int | Name_value pystr | Members_value "uid list"

record assignment =
  as_index :: nat
  as_kind :: object_kind
  as_key :: object_key
  as_value :: object_value

type_synonym set_error = "string \<times> nat"

subsection \<open>Row intent and indexes\<close>

fun row_intent :: "(oid \<times> wire) list \<Rightarrow> (int, int option) dict \<Rightarrow> (int, int option) dict" where
  "row_intent [] d = d"
| "row_intent ((name, w) # rest) d =
     row_intent rest
       (case write_object name of
          None \<Rightarrow> d
        | Some (base, kind, t) \<Rightarrow>
            if kind = Row_object \<and> length name = length base + 1 \<and> \<not> has d (int (last name))
            then d @ [(int (last name), if has_tag t w then Some (wire_int w) else None)] else d)"

definition intended :: "int \<Rightarrow> (oid \<times> wire) list \<Rightarrow> int list" where
  "intended v bindings = map fst (filter (\<lambda>(_, i). i = Some v) (row_intent bindings []))"

definition port_by :: "(port \<Rightarrow> int) \<Rightarrow> configuration \<Rightarrow> int \<Rightarrow> uid option" where
  \<comment> \<open>\<open>{p.attr: p.id for p in cfg.ports.values()}.get(n)\<close>: the last such port\<close>
  "port_by attr cfg n = map_of (rev (map (\<lambda>p. (attr p, p_id p)) (vals (ports cfg)))) n"

definition row_error :: "bool \<Rightarrow> int \<Rightarrow> int \<Rightarrow> string option" where
  "row_error exists v n =
     (if n \<notin> {1, 2, 4, 5, 6} then Some ''wrongValue''
      else if (exists \<and> n \<in> {4, 5}) \<or> (\<not> exists \<and> n \<in> {1, 2}) then Some ''inconsistentValue''
      else if n \<in> {2, 5} then Some ''wrongValue''
      else if v = 1 \<and> n = 6 then Some ''inconsistentValue''
      else None)"

definition port_bits :: "bytes \<Rightarrow> int list" where
  \<comment> \<open>the bridge ports a PortList names, in order\<close>
  "port_bits raw = concat (map (\<lambda>(offset, octet).
     map (\<lambda>b. int (offset * 8 + b + 1)) (filter (\<lambda>b. bit octet (7 - b)) [0..<8])) (enumerate 0 raw))"

subsection \<open>One binding\<close>

definition single_port_kinds :: "object_kind list" where
  "single_port_kinds = [Admin_object, Pvid_object, Control_object, Initialize_object, Reauthenticate_object]"

definition binding_value ::
  "configuration \<Rightarrow> object_kind \<Rightarrow> wire \<Rightarrow> string + object_value" where
  "binding_value cfg kind w =
     (if kind \<in> set (Row_object # single_port_kinds) then
        let n = wire_int w
        in if (kind = Admin_object \<and> n \<notin> {1, 2}) \<or> (kind = Pvid_object \<and> \<not> (1 \<le> n \<and> n \<le> 4094)) \<or>
              (kind = Row_object \<and> n \<notin> {1, 2, 4, 5, 6}) \<or> (kind = Control_object \<and> n \<notin> {1, 2, 3}) \<or>
              (kind \<in> {Initialize_object, Reauthenticate_object} \<and> n \<notin> {1, 2})
           then Inl ''wrongValue'' else Inr (Number_value n)
      else if kind = Name_object then
        if 32 < length (wire_bytes w) then Inl ''wrongLength''
        else (case utf8_decode (wire_bytes w) of None \<Rightarrow> Inl ''wrongValue'' | Some t \<Rightarrow> Inr (Name_value t))
      else
        let bits = port_bits (wire_bytes w)
        in if list_ex (\<lambda>n. port_by bridge_port cfg n = None) bits then Inl ''wrongValue''
           else let members = map (\<lambda>n. the (port_by bridge_port cfg n)) bits
                in Inr (Members_value (filter (\<lambda>pid. pid \<in> set members) (keys (ports cfg)))))"

definition binding_key :: "configuration \<Rightarrow> object_kind \<Rightarrow> oid \<Rightarrow> string + object_key" where
  "binding_key cfg kind name =
     (let key = int (last name)
      in if kind \<in> set single_port_kinds then
           case port_by (if kind = Pvid_object then bridge_port else if_index) cfg key of
             None \<Rightarrow> Inl ''noCreation'' | Some pid \<Rightarrow> Inr (Port_key pid)
         else if \<not> (1 \<le> key \<and> key \<le> 4094) then Inl ''noCreation'' else Inr (Vlan_key key))"

definition key_error ::
  "configuration \<Rightarrow> int list \<Rightarrow> int list \<Rightarrow> object_kind \<Rightarrow> object_key \<Rightarrow> object_value \<Rightarrow> string option" where
  "key_error cfg creates destroys kind key v = (case key of
      Port_key _ \<Rightarrow> None
    | Vlan_key i \<Rightarrow>
        (case v of
           Number_value n \<Rightarrow> row_error (has (vlans cfg) i) i n
         | _ \<Rightarrow> if \<not> has (vlans cfg) i \<and> i \<notin> set creates then Some ''inconsistentName''
                else if i \<in> set destroys then Some ''inconsistentValue'' else None))"

definition bind_check ::
  "configuration \<Rightarrow> oid list \<Rightarrow> int list \<Rightarrow> int list \<Rightarrow> oid \<times> wire \<Rightarrow>
     string + (object_kind \<times> object_key \<times> object_value)" where
  "bind_check cfg prefixes creates destroys b = (case b of (name, w) \<Rightarrow>
     if \<not> list_ex (\<lambda>p. starts p name) prefixes then Inl ''noAccess''
     else case write_object name of
       None \<Rightarrow> Inl ''notWritable''
     | Some (base, kind, t) \<Rightarrow>
         if \<not> has_tag t w then Inl ''wrongType''
         else bind (binding_value cfg kind w) (\<lambda>v.
           if length name \<noteq> length base + 1 then Inl ''noCreation''
           else bind (binding_key cfg kind name) (\<lambda>key.
             case key_error cfg creates destroys kind key v of
               Some e \<Rightarrow> Inl e | None \<Rightarrow> Inr (kind, key, v))))"

type_synonym seen = "(object_kind \<times> object_key, assignment) dict"

fun assign_loop ::
  "configuration \<Rightarrow> oid list \<Rightarrow> int list \<Rightarrow> int list \<Rightarrow> nat \<Rightarrow> (oid \<times> wire) list \<Rightarrow>
     assignment list \<Rightarrow> seen \<Rightarrow> set_error + (assignment list \<times> seen)" where
  "assign_loop cfg prefixes creates destroys index [] done seen = Inr (done, seen)"
| "assign_loop cfg prefixes creates destroys index (b # rest) done seen =
     (case bind_check cfg prefixes creates destroys b of
        Inl status \<Rightarrow> Inl (status, index)
      | Inr (kind, key, v) \<Rightarrow>
          let a = \<lparr>as_index = index, as_kind = kind, as_key = key, as_value = v\<rparr>
          in case map_of seen (kind, key) of
               Some prior \<Rightarrow>
                 if as_value prior \<noteq> v then Inl (''inconsistentValue'', index)
                 else assign_loop cfg prefixes creates destroys (index + 1) rest (done @ [a]) seen
             | None \<Rightarrow> assign_loop cfg prefixes creates destroys (index + 1) rest (done @ [a])
                        (seen @ [((kind, key), a)]))"

subsection \<open>The candidate configuration\<close>

definition without :: "int list \<Rightarrow> int list \<Rightarrow> int list" where
  "without deletes vs = filter (\<lambda>v. v \<notin> set deletes) vs"

definition port_fallback :: "int list \<Rightarrow> seen \<Rightarrow> uid \<Rightarrow> port \<Rightarrow> port" where
  \<comment> \<open>memberships of deleted VLANs go; a port whose PVID goes, and that no binding moves, falls back to VLAN 1\<close>
  "port_fallback deletes seen pid old =
     (let p = old\<lparr>admitted := without deletes (admitted old), untagged := without deletes (untagged old),
                  forbidden := without deletes (forbidden old)\<rparr>
      in if pvid old \<in> set deletes \<and> \<not> has seen (Pvid_object, Port_key pid) then
           let p = p\<lparr>pvid := 1\<rparr>;
               p = (if 1 \<notin> set (admitted p) then p\<lparr>admitted := admitted p @ [1]\<rparr> else p)
           in if pvid old \<in> set (untagged old) \<and> 1 \<notin> set (untagged p)
              then p\<lparr>untagged := untagged p @ [1]\<rparr> else p
         else p)"

definition on_port :: "uid \<Rightarrow> (port \<Rightarrow> port) \<Rightarrow> configuration \<Rightarrow> configuration" where
  "on_port pid f cfg =
     cfg\<lparr>ports := map (\<lambda>(k, p). (k, if k = pid then f p else p)) (ports cfg)\<rparr>"

definition membership :: "bool \<Rightarrow> int \<Rightarrow> int list \<Rightarrow> int list" where
  "membership wanted key vs =
     (if wanted \<and> key \<notin> set vs then vs @ [key]
      else if \<not> wanted \<and> key \<in> set vs then remove1 key vs else vs)"

fun bitmap_field :: "object_kind \<Rightarrow> port \<Rightarrow> int list" where
  "bitmap_field Egress_object p = admitted p"
| "bitmap_field Untagged_object p = untagged p"
| "bitmap_field _ p = forbidden p"

fun set_bitmap :: "object_kind \<Rightarrow> int list \<Rightarrow> port \<Rightarrow> port" where
  "set_bitmap Egress_object vs p = p\<lparr>admitted := vs\<rparr>"
| "set_bitmap Untagged_object vs p = p\<lparr>untagged := vs\<rparr>"
| "set_bitmap _ vs p = p\<lparr>forbidden := vs\<rparr>"

definition control_of_number :: "int \<Rightarrow> control" where
  "control_of_number n = (if n = 1 then Force_unauthorized else if n = 2 then Auto else Force_authorized)"

datatype pae_action = Initialize | Reauthenticate

definition port_in :: "configuration \<Rightarrow> uid \<Rightarrow> port" where
  "port_in cfg pid = the (map_of (ports cfg) pid)"

definition apply_assignment :: "assignment \<Rightarrow> configuration \<Rightarrow> configuration" where
  "apply_assignment a cand =
     (case (as_key a, as_value a) of
        (Port_key pid, Number_value n) \<Rightarrow>
          (case as_kind a of
             Admin_object \<Rightarrow> on_port pid (\<lambda>p. p\<lparr>admin_up := (n = 1)\<rparr>) cand
           | Control_object \<Rightarrow> on_port pid (\<lambda>p. p\<lparr>authentication :=
               (authentication p)\<lparr>pa_control := control_of_number n\<rparr>\<rparr>) cand
           | Pvid_object \<Rightarrow> on_port pid (\<lambda>p. p\<lparr>pvid := n\<rparr>) cand
           | _ \<Rightarrow> cand)
      | (Vlan_key i, Name_value t) \<Rightarrow>
          cand\<lparr>vlans := map (\<lambda>(k, v). (k, if k = i then v\<lparr>vl_name := t\<rparr> else v)) (vlans cand)\<rparr>
      | (Vlan_key i, Members_value ms) \<Rightarrow>
          cand\<lparr>ports := map (\<lambda>(k, p). (k, set_bitmap (as_kind a)
             (membership (k \<in> set ms) i (bitmap_field (as_kind a) p)) p)) (ports cand)\<rparr>
      | _ \<Rightarrow> cand)"

definition effective_assignment :: "configuration \<Rightarrow> assignment \<Rightarrow> bool" where
  \<comment> \<open>the binding asks for something the configuration does not have\<close>
  "effective_assignment cfg a =
     (case (as_key a, as_value a) of
        (Port_key pid, Number_value n) \<Rightarrow>
          (case as_kind a of
             Admin_object \<Rightarrow> (n = 1) \<noteq> admin_up (port_in cfg pid)
           | Control_object \<Rightarrow> control_of_number n \<noteq> pa_control (authentication (port_in cfg pid))
           | Pvid_object \<Rightarrow> n \<noteq> pvid (port_in cfg pid)
           | _ \<Rightarrow> n = 1)
      | (Vlan_key i, Name_value t) \<Rightarrow> (case map_of (vlans cfg) i of None \<Rightarrow> True | Some v \<Rightarrow> t \<noteq> vl_name v)
      | (Vlan_key i, Number_value n) \<Rightarrow> n = 4 \<or> (n = 6 \<and> has (vlans cfg) i)
      | (Vlan_key i, Members_value ms) \<Rightarrow>
          ms \<noteq> map fst (filter (\<lambda>(_, p). i \<in> set (bitmap_field (as_kind a) p)) (ports cfg))
      | _ \<Rightarrow> False)"

fun pae_actions_loop :: "assignment list \<Rightarrow> (uid, pae_action) dict \<Rightarrow> (uid, pae_action) dict" where
  "pae_actions_loop [] d = d"
| "pae_actions_loop (a # rest) d =
     pae_actions_loop rest
       (case (as_kind a, as_key a, as_value a) of
          (Initialize_object, Port_key pid, Number_value n) \<Rightarrow> if n = 1 then put pid Initialize d else d
        | (Reauthenticate_object, Port_key pid, Number_value n) \<Rightarrow>
            if n = 1 \<and> \<not> has d pid then put pid Reauthenticate d else d
        | _ \<Rightarrow> d)"

definition prepared :: "int list \<Rightarrow> int list \<Rightarrow> seen \<Rightarrow> configuration \<Rightarrow> configuration" where
  "prepared creates deletes seen cfg =
     cfg\<lparr>vlans := foldl (\<lambda>d v. put v \<lparr>vid = v, vl_name = [], fdb_id = 1000 + v\<rparr> d)
            (filter (\<lambda>(k, _). k \<notin> set deletes) (vlans cfg)) creates,
         ports := map (\<lambda>(k, p). (k, port_fallback deletes seen k p)) (ports cfg),
         cfg_switch := (if legacy_vlan (cfg_switch cfg) \<in> set deletes
                        then (cfg_switch cfg)\<lparr>legacy_vlan := 1\<rparr> else cfg_switch cfg)\<rparr>"

definition candidate_of :: "int list \<Rightarrow> int list \<Rightarrow> seen \<Rightarrow> configuration \<Rightarrow> configuration" where
  "candidate_of creates deletes seen cfg =
     foldl (\<lambda>cand a. apply_assignment a cand) (prepared creates deletes seen cfg) (vals seen)"

subsection \<open>Relationship checks\<close>

definition port_changed :: "port \<Rightarrow> port \<Rightarrow> bool" where
  "port_changed old p \<longleftrightarrow> admin_up p \<noteq> admin_up old \<or> pvid p \<noteq> pvid old \<or> admitted p \<noteq> admitted old \<or>
     untagged p \<noteq> untagged old \<or> forbidden p \<noteq> forbidden old \<or> authentication p \<noteq> authentication old"

definition overlap :: "port \<Rightarrow> int set" where
  "overlap p = set (admitted p) \<inter> set (forbidden p)"

definition missing_tags :: "port \<Rightarrow> int set" where
  "missing_tags p = set (untagged p) - set (admitted p)"

definition illegal :: "port \<Rightarrow> int set" where
  "illegal p = overlap p \<union> missing_tags p \<union> (if pvid p \<notin> set (admitted p) then {pvid p} else {})"

definition blames :: "configuration \<Rightarrow> int list \<Rightarrow> seen \<Rightarrow> uid \<Rightarrow> port \<Rightarrow> assignment \<Rightarrow> bool" where
  \<comment> \<open>the binding contributed to an illegal relationship of the port\<close>
  "blames cfg deletes seen pid p a =
     (case (as_kind a, as_key a) of
        (Pvid_object, Port_key q) \<Rightarrow> q = pid \<and> pvid p \<notin> set (admitted p)
      | (Egress_object, Vlan_key i) \<Rightarrow> i \<in> overlap p \<union> missing_tags p \<or> (i = pvid p \<and> pvid p \<notin> set (admitted p))
      | (Forbidden_object, Vlan_key i) \<Rightarrow> i \<in> overlap p
      | (Untagged_object, Vlan_key i) \<Rightarrow> i \<in> missing_tags p
      | (Row_object, Vlan_key i) \<Rightarrow> as_value a = Number_value 6 \<and> i = pvid (port_in cfg pid) \<and>
          i \<in> set deletes \<and> \<not> has seen (Pvid_object, Port_key pid) \<and> 1 \<in> illegal p
      | _ \<Rightarrow> False)"

definition affected_ports :: "configuration \<Rightarrow> configuration \<Rightarrow> uid list" where
  "affected_ports cfg cand =
     map fst (filter (\<lambda>(k, p). port_changed (port_in cfg k) p) (ports cand))"

definition conflicts ::
  "configuration \<Rightarrow> configuration \<Rightarrow> int list \<Rightarrow> seen \<Rightarrow> assignment list \<Rightarrow> nat list" where
  "conflicts cfg cand deletes seen as =
     concat (map (\<lambda>pid. let p = port_in cand pid
       in if illegal p = {} then [] else map as_index (filter (blames cfg deletes seen pid p) as))
       (affected_ports cfg cand))"

definition unavailable :: "configuration \<Rightarrow> assignment \<Rightarrow> bool" where
  "unavailable cand a =
     (case (as_kind a, as_key a, as_value a) of
        (Row_object, Vlan_key i, Number_value n) \<Rightarrow>
          n = 4 \<and> list_ex (\<lambda>v. vid v \<noteq> i \<and> fdb_id v = fdb_id (the (map_of (vlans cand) i))) (vals (vlans cand))
      | _ \<Rightarrow> False)"

record set_plan =
  pl_before :: configuration
  pl_candidate :: configuration
  pl_assignments :: "assignment list"
  pl_creates :: "int list"
  pl_deletes :: "int list"
  pl_affected :: "uid list"
  pl_first_effective :: nat
  pl_actions :: "(uid, pae_action) dict"

definition minimum :: "nat list \<Rightarrow> nat" where
  "minimum xs = (case xs of [] \<Rightarrow> 0 | x # rest \<Rightarrow> foldl min x rest)"

definition plan_set ::
  "configuration \<Rightarrow> (oid \<times> wire) list \<Rightarrow> oid list \<Rightarrow> set_error + set_plan" where
  "plan_set cfg bindings prefixes =
     (let creates = intended 4 bindings; destroys = intended 6 bindings
      in bind (assign_loop cfg prefixes creates destroys 1 bindings [] []) (\<lambda>(as, seen).
        let deletes = filter (has (vlans cfg)) destroys;
            cand = candidate_of creates deletes seen cfg;
            bad = conflicts cfg cand deletes seen as
        in if bad \<noteq> [] then Inl (''inconsistentValue'', minimum bad)
           else case List.find (unavailable cand) as of
             Some a \<Rightarrow> Inl (''resourceUnavailable'', as_index a)
           | None \<Rightarrow> Inr \<lparr>pl_before = cfg, pl_candidate = cand, pl_assignments = as,
               pl_creates = creates, pl_deletes = deletes, pl_affected = affected_ports cfg cand,
               pl_first_effective = minimum (map as_index (filter (effective_assignment cfg) (vals seen))),
               pl_actions = sort_key fst (pae_actions_loop (vals seen) [])\<rparr>))"

definition plan_changed :: "set_plan \<Rightarrow> bool" where
  "plan_changed plan \<longleftrightarrow> pl_candidate plan \<noteq> pl_before plan \<or> pl_actions plan \<noteq> []"

end
