(* ===== verification/Set_Plan_Valid.thy ===== *)
theory Set_Plan_Valid
  imports Set_Plan
begin

text \<open>
  Every accepted SET plan leaves a configuration that satisfies all cross references: the checks of
  \<open>plan_set\<close> are complete for the relations between VLANs and ports.
\<close>

subsection \<open>What the assignment loop has established\<close>

definition from_binding ::
  "configuration \<Rightarrow> oid list \<Rightarrow> int list \<Rightarrow> int list \<Rightarrow> (oid \<times> wire) list \<Rightarrow> assignment \<Rightarrow> bool" where
  "from_binding cfg prefixes creates destroys bindings a \<longleftrightarrow>
     (\<exists>b \<in> set bindings. bind_check cfg prefixes creates destroys b = Inr (as_kind a, as_key a, as_value a))"

definition seen_ok :: "assignment list \<Rightarrow> seen \<Rightarrow> bool" where
  "seen_ok as seen \<longleftrightarrow> is_dict seen \<and>
     (\<forall>(k, a) \<in> set seen. k = (as_kind a, as_key a) \<and> a \<in> set as) \<and>
     (\<forall>a \<in> set as. \<exists>a'. map_of seen (as_kind a, as_key a) = Some a' \<and> as_value a' = as_value a)"

lemma seen_okD:
  assumes "seen_ok as seen"
  shows "is_dict seen" and "(k, a) \<in> set seen \<Longrightarrow> k = (as_kind a, as_key a) \<and> a \<in> set as"
    and "b \<in> set as \<Longrightarrow> \<exists>a'. map_of seen (as_kind b, as_key b) = Some a' \<and> as_value a' = as_value b"
  using assms unfolding seen_ok_def by blast+

lemma seen_okI:
  assumes "is_dict seen" and "\<And>k a. (k, a) \<in> set seen \<Longrightarrow> k = (as_kind a, as_key a) \<and> a \<in> set as"
    and "\<And>b. b \<in> set as \<Longrightarrow> \<exists>a'. map_of seen (as_kind b, as_key b) = Some a' \<and> as_value a' = as_value b"
  shows "seen_ok as seen"
  using assms unfolding seen_ok_def by blast

lemma seen_ok_repeat:
  assumes ok: "seen_ok as seen" and "map_of seen (as_kind a, as_key a) = Some p" and "as_value p = as_value a"
  shows "seen_ok (as @ [a]) seen"
proof (rule seen_okI)
  show "is_dict seen" by (rule seen_okD(1) [OF ok])
  show "k = (as_kind b, as_key b) \<and> b \<in> set (as @ [a])" if "(k, b) \<in> set seen" for k b
    using seen_okD(2) [OF ok that] by simp
  show "\<exists>a'. map_of seen (as_kind b, as_key b) = Some a' \<and> as_value a' = as_value b"
    if "b \<in> set (as @ [a])" for b
    using seen_okD(3) [OF ok, of b] assms(2,3) that by (cases "b = a") simp_all
qed

lemma dict_append_fresh:
  assumes "is_dict d" and "map_of d k = None"
  shows "is_dict (d @ [(k, v)])"
proof -
  have "k \<notin> set (keys d)" using assms(2) unfolding lookup_None_iff .
  then show ?thesis using assms(1) by (simp add: is_dict_def)
qed

lemma lookup_append_old: "map_of d k = Some v \<Longrightarrow> map_of (d @ e) k = Some v"
  by simp

lemma lookup_append_fresh: "map_of d k = None \<Longrightarrow> map_of (d @ [(k, v)]) k = Some v"
  by (simp add: map_add_def)

lemma seen_ok_fresh:
  assumes ok: "seen_ok as seen" and none: "map_of seen (as_kind a, as_key a) = None"
  shows "seen_ok (as @ [a]) (seen @ [((as_kind a, as_key a), a)])"
proof (rule seen_okI)
  let ?k = "(as_kind a, as_key a)"
  show "is_dict (seen @ [(?k, a)])" by (rule dict_append_fresh [OF seen_okD(1) [OF ok] none])
  show "k = (as_kind b, as_key b) \<and> b \<in> set (as @ [a])" if "(k, b) \<in> set (seen @ [(?k, a)])" for k b
  proof (cases "(k, b) \<in> set seen")
    case True
    then show ?thesis using seen_okD(2) [OF ok True] by simp
  next
    case False
    then show ?thesis using that by simp
  qed
  show "\<exists>a'. map_of (seen @ [(?k, a)]) (as_kind b, as_key b) = Some a' \<and> as_value a' = as_value b"
    if "b \<in> set (as @ [a])" for b
  proof (cases "b \<in> set as")
    case True
    from seen_okD(3) [OF ok this] obtain a'
      where a': "map_of seen (as_kind b, as_key b) = Some a'" "as_value a' = as_value b"
      by (elim exE conjE)
    from lookup_append_old [OF a'(1)] a'(2) show ?thesis by (intro exI conjI)
  next
    case False
    then have b: "b = a" using that by simp
    show ?thesis unfolding b by (intro exI conjI, rule lookup_append_fresh [OF none], rule refl)
  qed
qed

lemma assign_loop_ok:
  assumes "assign_loop cfg prefixes creates destroys index bindings as0 seen0 = Inr (as, seen)"
    and "seen_ok as0 seen0"
  shows "seen_ok as seen \<and> set as0 \<subseteq> set as \<and>
    (\<forall>a \<in> set as. a \<in> set as0 \<or> from_binding cfg prefixes creates destroys bindings a) \<and>
    (\<forall>b \<in> set bindings. \<exists>a \<in> set as.
       bind_check cfg prefixes creates destroys b = Inr (as_kind a, as_key a, as_value a))"
  using assms
proof (induction bindings arbitrary: index as0 seen0)
  case Nil
  then show ?case by (simp add: from_binding_def)
next
  case (Cons b rest)
  obtain kind key v where b: "bind_check cfg prefixes creates destroys b = Inr (kind, key, v)"
    using Cons.prems(1) by (auto split: sum.splits)
  let ?a = "\<lparr>as_index = index, as_kind = kind, as_key = key, as_value = v\<rparr>"
  have step: "\<exists>seen1. assign_loop cfg prefixes creates destroys (index + 1) rest (as0 @ [?a]) seen1 = Inr (as, seen)
      \<and> seen_ok (as0 @ [?a]) seen1"
  proof (cases "map_of seen0 (kind, key)")
    case None
    then show ?thesis
      using Cons.prems seen_ok_fresh [of as0 seen0 ?a] by (auto simp: b Let_def)
  next
    case (Some p)
    then have "as_value p = v" using Cons.prems(1) by (auto simp: b Let_def split: if_splits)
    then show ?thesis
      using Cons.prems Some seen_ok_repeat [of as0 seen0 ?a p] by (auto simp: b Let_def)
  qed
  then obtain seen1 where s1: "assign_loop cfg prefixes creates destroys (index + 1) rest (as0 @ [?a]) seen1 =
      Inr (as, seen)" "seen_ok (as0 @ [?a]) seen1" by blast
  note ih = Cons.IH [OF s1]
  have "from_binding cfg prefixes creates destroys (b # rest) ?a"
    by (simp add: from_binding_def b)
  moreover have "from_binding cfg prefixes creates destroys rest a \<Longrightarrow>
      from_binding cfg prefixes creates destroys (b # rest) a" for a
    by (auto simp: from_binding_def)
  moreover have "?a \<in> set as" using ih by auto
  ultimately show ?case using ih b by (auto intro!: bexI [of _ ?a])
qed

definition row_binding :: "int \<Rightarrow> int option \<Rightarrow> oid \<times> wire \<Rightarrow> bool" where
  \<comment> \<open>a RowStatus binding for VLAN \<open>i\<close> with the intent \<open>r\<close>\<close>
  "row_binding i r b \<longleftrightarrow> (\<exists>base t. write_object (fst b) = Some (base, Row_object, t) \<and>
     length (fst b) = length base + 1 \<and> i = int (last (fst b)) \<and>
     r = (if has_tag t (snd b) then Some (wire_int (snd b)) else None))"

lemma row_intent_sound:
  "(i, r) \<in> set (row_intent bindings d) \<Longrightarrow> (i, r) \<in> set d \<or> (\<exists>b \<in> set bindings. row_binding i r b)"
proof (induction bindings d rule: row_intent.induct)
  case (1 d)
  then show ?case by simp
next
  case (2 name w rest d)
  let ?d = "case write_object name of
      None \<Rightarrow> d
    | Some (base, kind, t) \<Rightarrow>
        if kind = Row_object \<and> length name = length base + 1 \<and> \<not> has d (int (last name))
        then d @ [(int (last name), if has_tag t w then Some (wire_int w) else None)] else d"
  have step: "(i, r) \<in> set ?d \<Longrightarrow> (i, r) \<in> set d \<or> row_binding i r (name, w)"
    by (auto simp: row_binding_def split: option.splits if_splits)
  have "(i, r) \<in> set (row_intent rest ?d)" using 2(2) by simp
  from 2(1) [OF this] show ?case using step by auto
qed

lemma intended_binding:
  assumes "i \<in> set (intended n bindings)"
    and all: "\<forall>b \<in> set bindings. \<exists>a \<in> set as.
      bind_check cfg prefixes creates destroys b = Inr (as_kind a, as_key a, as_value a)"
  shows "\<exists>a \<in> set as. as_kind a = Row_object \<and> as_key a = Vlan_key i \<and> as_value a = Number_value n \<and>
    1 \<le> i \<and> i \<le> 4094 \<and> row_error (has (vlans cfg) i) i n = None"
proof -
  have "(i, Some n) \<in> set (row_intent bindings [])"
    using assms(1) by (auto simp: intended_def)
  then obtain name w where rb: "(name, w) \<in> set bindings" "row_binding i (Some n) (name, w)"
    using row_intent_sound [of i "Some n" bindings "[]"] by auto
  obtain base t where b: "(name, w) \<in> set bindings"
    "write_object name = Some (base, Row_object, t)" "i = int (last name)"
    "Some n = (if has_tag t w then Some (wire_int w) else None)"
    using rb unfolding row_binding_def by auto
  have n: "has_tag t w" "n = wire_int w" using b(4) by (auto split: if_splits)
  obtain a where a: "a \<in> set as"
    "bind_check cfg prefixes creates destroys (name, w) = Inr (as_kind a, as_key a, as_value a)"
    using all b(1) by blast
  then have "as_kind a = Row_object \<and> as_key a = Vlan_key i \<and> as_value a = Number_value n \<and>
    1 \<le> i \<and> i \<le> 4094 \<and> row_error (has (vlans cfg) i) i n = None"
    using b(2,3) n
    by (auto simp: bind_check_def binding_value_def binding_key_def key_error_def single_port_kinds_def
        Let_def result_simps split: if_splits option.splits)
  then show ?thesis using a(1) by blast
qed

subsection \<open>The shape of a checked assignment\<close>

definition bitmap_kinds :: "object_kind set" where
  "bitmap_kinds = {Egress_object, Forbidden_object, Untagged_object}"

definition proper :: "configuration \<Rightarrow> int list \<Rightarrow> int list \<Rightarrow> assignment \<Rightarrow> bool" where
  "proper cfg creates destroys a \<longleftrightarrow>
     (case as_value a of
        Members_value ms \<Rightarrow> as_kind a \<in> bitmap_kinds
      | Name_value t \<Rightarrow> as_kind a = Name_object
      | Number_value n \<Rightarrow> as_kind a \<notin> bitmap_kinds \<union> {Name_object}) \<and>
     (as_kind a \<in> bitmap_kinds \<longrightarrow> (\<exists>i. as_key a = Vlan_key i \<and>
        (has (vlans cfg) i \<or> i \<in> set creates) \<and> i \<notin> set destroys))"

lemma from_binding_proper:
  assumes "from_binding cfg prefixes creates destroys bindings a"
  shows "proper cfg creates destroys a"
proof -
  obtain name w where "bind_check cfg prefixes creates destroys (name, w) =
      Inr (as_kind a, as_key a, as_value a)"
    using assms by (auto simp: from_binding_def)
  then have val: "binding_value cfg (as_kind a) w = Inr (as_value a)"
    and key: "binding_key cfg (as_kind a) name = Inr (as_key a)"
    and err: "key_error cfg creates destroys (as_kind a) (as_key a) (as_value a) = None"
    by (auto simp: bind_check_def result_simps split: if_splits option.splits)
  have kinds: "case as_value a of
        Members_value ms \<Rightarrow> as_kind a \<in> bitmap_kinds
      | Name_value t \<Rightarrow> as_kind a = Name_object
      | Number_value n \<Rightarrow> as_kind a \<notin> bitmap_kinds \<union> {Name_object}"
    using val by (cases "as_kind a"; cases "as_value a")
      (auto simp: binding_value_def single_port_kinds_def bitmap_kinds_def Let_def
        split: if_splits option.splits)
  moreover have "\<exists>i. as_key a = Vlan_key i \<and> (has (vlans cfg) i \<or> i \<in> set creates) \<and> i \<notin> set destroys"
    if b: "as_kind a \<in> bitmap_kinds"
  proof -
    obtain i where i: "as_key a = Vlan_key i"
      using key b by (cases "as_key a") (auto simp: binding_key_def single_port_kinds_def bitmap_kinds_def Let_def split: if_splits)
    obtain ms where "as_value a = Members_value ms"
      using kinds b by (cases "as_value a") (auto simp: bitmap_kinds_def)
    then show ?thesis using err i by (auto simp: key_error_def split: if_splits)
  qed
  ultimately show ?thesis by (simp add: proper_def)
qed

subsection \<open>What an assignment does to one port\<close>

definition port_effect :: "uid \<Rightarrow> assignment \<Rightarrow> port \<Rightarrow> port" where
  "port_effect pid a p =
     (case (as_key a, as_value a) of
        (Port_key q, Number_value n) \<Rightarrow> if q = pid then
          (case as_kind a of
             Admin_object \<Rightarrow> p\<lparr>admin_up := (n = 1)\<rparr>
           | Control_object \<Rightarrow> p\<lparr>authentication := (authentication p)\<lparr>pa_control := control_of_number n\<rparr>\<rparr>
           | Pvid_object \<Rightarrow> p\<lparr>pvid := n\<rparr>
           | _ \<Rightarrow> p) else p
      | (Vlan_key i, Members_value ms) \<Rightarrow> set_bitmap (as_kind a)
          (membership (pid \<in> set ms) i (bitmap_field (as_kind a) p)) p
      | _ \<Rightarrow> p)"

definition vlan_effect :: "int \<Rightarrow> assignment \<Rightarrow> vlan \<Rightarrow> vlan" where
  "vlan_effect k a v =
     (case (as_key a, as_value a) of
        (Vlan_key i, Name_value t) \<Rightarrow> if k = i then v\<lparr>vl_name := t\<rparr> else v
      | _ \<Rightarrow> v)"

definition map_rows :: "('k \<Rightarrow> 'v \<Rightarrow> 'v) \<Rightarrow> ('k, 'v) dict \<Rightarrow> ('k, 'v) dict" where
  "map_rows f d = map (\<lambda>(k, v). (k, f k v)) d"

lemma map_rows_simps [simp]: "keys (map_rows f d) = keys d" "map_rows (\<lambda>k v. v) d = d"
  "map_of (map_rows f d) k = map_option (f k) (map_of d k)" "length (map_rows f d) = length d"
  "map_rows f (map_rows g d) = map_rows (\<lambda>k v. f k (g k v)) d"
  by (induction d) (auto simp: map_rows_def)

lemma apply_assignment_rows:
  "apply_assignment a cand = cand\<lparr>vlans := map_rows (\<lambda>k. vlan_effect k a) (vlans cand),
     ports := map_rows (\<lambda>k. port_effect k a) (ports cand)\<rparr>"
proof -
  have ids: "map (\<lambda>(k, v). (k, v)) d = d" for d :: "('k, 'v) dict"
    by (induction d) auto
  show ?thesis
  proof (cases "as_key a")
    case (Port_key q)
    show ?thesis
    proof (cases "as_value a")
      case (Number_value n)
      then show ?thesis
        by (cases "as_kind a")
          (auto simp: Port_key apply_assignment_def port_effect_def vlan_effect_def map_rows_def on_port_def ids
            cong: if_cong intro!: configuration.equality map_cong)
    qed (simp_all add: Port_key apply_assignment_def port_effect_def vlan_effect_def map_rows_def ids)
  next
    case (Vlan_key i)
    show ?thesis
      by (cases "as_value a")
        (simp_all add: Vlan_key apply_assignment_def port_effect_def vlan_effect_def map_rows_def ids)
  qed
qed

lemma apply_all_rows:
  "foldl (\<lambda>cand a. apply_assignment a cand) cand as =
    cand\<lparr>vlans := map_rows (\<lambda>k v. foldl (\<lambda>v a. vlan_effect k a v) v as) (vlans cand),
         ports := map_rows (\<lambda>k p. foldl (\<lambda>p a. port_effect k a p) p as) (ports cand)\<rparr>"
proof (induction as arbitrary: cand)
  case Nil
  then show ?case by simp
next
  case (Cons a as)
  then show ?case by (simp add: apply_assignment_rows)
qed

lemma vlan_effect_ids: "vid (foldl (\<lambda>v a. vlan_effect k a v) v as) = vid v"
  "fdb_id (foldl (\<lambda>v a. vlan_effect k a v) v as) = fdb_id v"
proof -
  have one: "vid (vlan_effect k a v) = vid v \<and> fdb_id (vlan_effect k a v) = fdb_id v" for a v
    by (auto simp: vlan_effect_def split: object_key.split object_value.split)
  show "vid (foldl (\<lambda>v a. vlan_effect k a v) v as) = vid v"
    "fdb_id (foldl (\<lambda>v a. vlan_effect k a v) v as) = fdb_id v"
    by (induction as arbitrary: v) (simp_all add: one)
qed

definition hardware_same :: "port \<Rightarrow> port \<Rightarrow> bool" where
  "hardware_same p q \<longleftrightarrow> p_id p = p_id q \<and> bridge_port p = bridge_port q \<and> if_index p = if_index q \<and>
     mode p = mode q"

lemma port_effect_hardware: "hardware_same (port_effect k a p) p"
proof -
  have "hardware_same (set_bitmap kind vs p) p" for kind vs
    by (cases kind) (simp_all add: hardware_same_def)
  then show ?thesis
    by (auto simp: port_effect_def hardware_same_def split: object_key.split object_value.split object_kind.split)
qed

lemma port_effects_hardware: "hardware_same (foldl (\<lambda>p a. port_effect k a p) p as) p"
proof (induction as arbitrary: p)
  case Nil
  then show ?case by (simp add: hardware_same_def)
next
  case (Cons a as)
  then show ?case using port_effect_hardware [of k a p] by (auto simp: hardware_same_def)
qed

lemma set_bitmap_fields:
  "K \<in> bitmap_kinds \<Longrightarrow> L \<in> bitmap_kinds \<Longrightarrow>
    bitmap_field K (set_bitmap L vs p) = (if K = L then vs else bitmap_field K p)"
  "pvid (set_bitmap L vs p) = pvid p"
  by (cases L; auto simp: bitmap_kinds_def)+

lemma membership_set: "i \<noteq> j \<Longrightarrow> i \<in> set (membership b j vs) \<longleftrightarrow> i \<in> set vs"
  by (auto simp: membership_def in_set_remove1)

lemma membership_distinct: "distinct vs \<Longrightarrow> distinct (membership b j vs)"
  by (auto simp: membership_def)

lemma membership_sub: "set (membership b j vs) \<subseteq> insert j (set vs)"
  using notin_set_remove1 [of _ vs j] by (auto simp: membership_def)

lemma port_effect_bitmap:
  assumes a: "proper cfg creates destroys a" and K: "K \<in> bitmap_kinds"
  shows "as_kind a \<noteq> K \<or> as_key a \<noteq> Vlan_key i \<Longrightarrow>
      i \<in> set (bitmap_field K (port_effect k a p)) \<longleftrightarrow> i \<in> set (bitmap_field K p)"
    and "distinct (bitmap_field K p) \<Longrightarrow> distinct (bitmap_field K (port_effect k a p))"
proof -
  have field: "bitmap_field K (p\<lparr>admin_up := x\<rparr>) = bitmap_field K p"
    "bitmap_field K (p\<lparr>authentication := y\<rparr>) = bitmap_field K p"
    "bitmap_field K (p\<lparr>pvid := z\<rparr>) = bitmap_field K p" for x y z
    by (cases K; simp)+
  have kind: "as_value a = Members_value ms \<Longrightarrow> as_kind a \<in> bitmap_kinds" for ms
    using a by (simp add: proper_def)
  show "as_kind a \<noteq> K \<or> as_key a \<noteq> Vlan_key i \<Longrightarrow>
      i \<in> set (bitmap_field K (port_effect k a p)) \<longleftrightarrow> i \<in> set (bitmap_field K p)"
    using kind K
    by (auto simp: port_effect_def field set_bitmap_fields membership_set
        split: object_key.split object_value.split object_kind.split if_splits)
  show "distinct (bitmap_field K p) \<Longrightarrow> distinct (bitmap_field K (port_effect k a p))"
    using kind K
    by (auto simp: port_effect_def field set_bitmap_fields membership_distinct
        split: object_key.split object_value.split object_kind.split if_splits)
qed

lemma port_effects_bitmap:
  assumes "\<forall>a \<in> set as. proper cfg creates destroys a" and K: "K \<in> bitmap_kinds"
  shows "\<forall>a \<in> set as. as_kind a \<noteq> K \<or> as_key a \<noteq> Vlan_key i \<Longrightarrow>
      i \<in> set (bitmap_field K (foldl (\<lambda>p a. port_effect k a p) p as)) \<longleftrightarrow> i \<in> set (bitmap_field K p)"
    and "distinct (bitmap_field K p) \<Longrightarrow>
      distinct (bitmap_field K (foldl (\<lambda>p a. port_effect k a p) p as))"
  using assms(1)
proof (induction as arbitrary: p)
  case (Cons a as)
  case 1
  then show ?case
    using Cons(1) [of "port_effect k a p"] port_effect_bitmap(1) [OF _ K, of cfg creates destroys a i] by simp
next
  case (Cons a as)
  case 2
  then show ?case
    using Cons(2) [of "port_effect k a p"] port_effect_bitmap(2) [OF _ K, of cfg creates destroys a] by simp
qed simp_all

lemma port_effect_pvid:
  "as_kind a \<noteq> Pvid_object \<or> as_key a \<noteq> Port_key k \<Longrightarrow> pvid (port_effect k a p) = pvid p"
  by (auto simp: port_effect_def set_bitmap_fields
      split: object_key.split object_value.split object_kind.split)

lemma port_effects_pvid:
  "\<forall>a \<in> set as. as_kind a \<noteq> Pvid_object \<or> as_key a \<noteq> Port_key k \<Longrightarrow>
    pvid (foldl (\<lambda>p a. port_effect k a p) p as) = pvid p"
  by (induction as arbitrary: p) (simp_all add: port_effect_pvid)

subsection \<open>Legal ports\<close>

lemma port_row_ok:
  "check_port cfg k p = Inr () \<longleftrightarrow>
    k = p_id p \<and> pvid p \<in> set (admitted p) \<and> illegal p = {} \<and>
    (\<forall>K \<in> bitmap_kinds. distinct (bitmap_field K p) \<and> (\<forall>v \<in> set (bitmap_field K p). has (vlans cfg) v))"
proof -
  have "illegal p = {} \<longleftrightarrow> pvid p \<in> set (admitted p) \<and> set (untagged p) \<subseteq> set (admitted p) \<and>
      set (forbidden p) \<inter> set (admitted p) = {}"
    by (auto simp: illegal_def overlap_def missing_tags_def)
  then show ?thesis
    by (auto simp: check_port_def bitmap_kinds_def list_ex_iff result_simps)
qed

lemma fallback_legal:
  assumes ok: "check_port cfg k p = Inr ()" and one: "has (vlans cfg) 1" "1 \<notin> set deletes"
    and q_def: "q = port_fallback deletes seen k p"
  shows "missing_tags q = {}"
    and "pvid p \<notin> set deletes \<or> \<not> has seen (Pvid_object, Port_key k) \<Longrightarrow> pvid q \<in> set (admitted q)"
    and "overlap q \<noteq> {} \<Longrightarrow> overlap q = {1} \<and> pvid p \<in> set deletes \<and> \<not> has seen (Pvid_object, Port_key k)"
    and "K \<in> bitmap_kinds \<Longrightarrow> distinct (bitmap_field K q)"
    and "K \<in> bitmap_kinds \<Longrightarrow> v \<in> set (bitmap_field K q) \<Longrightarrow> has (vlans cfg) v \<and> v \<notin> set deletes"
    and "hardware_same q p"
proof -
  have p: "pvid p \<in> set (admitted p)" "set (untagged p) \<subseteq> set (admitted p)"
    "set (forbidden p) \<inter> set (admitted p) = {}"
    "distinct (admitted p)" "distinct (untagged p)" "distinct (forbidden p)"
    "\<forall>v \<in> set (admitted p) \<union> set (untagged p) \<union> set (forbidden p). has (vlans cfg) v"
    using ok unfolding port_row_ok by (auto simp: bitmap_kinds_def illegal_def overlap_def missing_tags_def)
  show "missing_tags q = {}"
    using p(2) by (auto simp: q_def port_fallback_def missing_tags_def without_def Let_def)
  show "pvid p \<notin> set deletes \<or> \<not> has seen (Pvid_object, Port_key k) \<Longrightarrow> pvid q \<in> set (admitted q)"
    using p(1) by (auto simp: q_def port_fallback_def without_def Let_def)
  show "overlap q \<noteq> {} \<Longrightarrow> overlap q = {1} \<and> pvid p \<in> set deletes \<and> \<not> has seen (Pvid_object, Port_key k)"
    using p(3) by (auto simp: q_def port_fallback_def overlap_def without_def Let_def split: if_splits)
  show "K \<in> bitmap_kinds \<Longrightarrow> distinct (bitmap_field K q)"
    using p(4-6) by (auto simp: q_def port_fallback_def without_def Let_def bitmap_kinds_def)
  show "K \<in> bitmap_kinds \<Longrightarrow> v \<in> set (bitmap_field K q) \<Longrightarrow> has (vlans cfg) v \<and> v \<notin> set deletes"
    using p(7) one by (auto simp: q_def port_fallback_def without_def Let_def bitmap_kinds_def split: if_splits)
  show "hardware_same q p"
    by (simp add: q_def port_fallback_def hardware_same_def Let_def)
qed

definition checked :: "configuration \<Rightarrow> (oid \<times> wire) list \<Rightarrow> assignment list \<Rightarrow> seen \<Rightarrow> bool" where
  \<comment> \<open>what the assignment loop leaves\<close>
  "checked cfg bindings as seen \<longleftrightarrow> seen_ok as seen \<and>
     (\<forall>a \<in> set as. proper cfg (intended 4 bindings) (intended 6 bindings) a) \<and>
     (\<forall>i \<in> set (intended 6 bindings). i \<noteq> 1 \<and>
        (\<exists>a \<in> set as. as_kind a = Row_object \<and> as_key a = Vlan_key i \<and> as_value a = Number_value 6)) \<and>
     (\<forall>i \<in> set (intended 4 bindings). \<not> has (vlans cfg) i \<and>
        (\<exists>a \<in> set as. as_kind a = Row_object \<and> as_key a = Vlan_key i \<and> as_value a = Number_value 4))"

lemma assign_loop_checked:
  assumes "assign_loop cfg prefixes (intended 4 bindings) (intended 6 bindings) 1 bindings [] [] = Inr (as, seen)"
  shows "checked cfg bindings as seen"
proof -
  have ok: "seen_ok [] []" by (simp add: seen_ok_def)
  note l = assign_loop_ok [OF assms ok]
  have all: "\<forall>b \<in> set bindings. \<exists>a \<in> set as. bind_check cfg prefixes (intended 4 bindings)
      (intended 6 bindings) b = Inr (as_kind a, as_key a, as_value a)"
    using l by blast
  have "\<forall>a \<in> set as. proper cfg (intended 4 bindings) (intended 6 bindings) a"
    using l from_binding_proper by fastforce
  moreover have "i \<noteq> 1 \<and> (\<exists>a \<in> set as. as_kind a = Row_object \<and> as_key a = Vlan_key i \<and>
      as_value a = Number_value 6)" if "i \<in> set (intended 6 bindings)" for i
    using intended_binding [OF that all] by (auto simp: row_error_def split: if_splits)
  moreover have "\<not> has (vlans cfg) i \<and> (\<exists>a \<in> set as. as_kind a = Row_object \<and> as_key a = Vlan_key i \<and>
      as_value a = Number_value 4)" if "i \<in> set (intended 4 bindings)" for i
    using intended_binding [OF that all] by (auto simp: row_error_def split: if_splits)
  ultimately show ?thesis using l by (simp add: checked_def)
qed

lemma seen_assignments: "seen_ok as seen \<Longrightarrow> set (vals seen) \<subseteq> set as"
  using seen_okD(2) by (fastforce simp: vals_def)

lemma seen_has: "seen_ok as seen \<Longrightarrow> has seen (kind, key) \<Longrightarrow> \<exists>a \<in> set as. as_kind a = kind \<and> as_key a = key"
proof -
  assume ok: "seen_ok as seen" and "has seen (kind, key)"
  then obtain a where "map_of seen (kind, key) = Some a" by (auto simp: has_def)
  from seen_okD(2) [OF ok lookup_in_set [OF this]] show ?thesis by auto
qed

definition final_port :: "int list \<Rightarrow> seen \<Rightarrow> uid \<Rightarrow> port \<Rightarrow> port" where
  "final_port deletes seen k p = foldl (\<lambda>p a. port_effect k a p) (port_fallback deletes seen k p) (vals seen)"

lemma candidate_rows:
  "candidate_of creates deletes seen cfg = (prepared creates deletes seen cfg)
    \<lparr>vlans := map_rows (\<lambda>k v. foldl (\<lambda>v a. vlan_effect k a v) v (vals seen))
        (vlans (prepared creates deletes seen cfg)),
     ports := map_rows (final_port deletes seen) (ports cfg)\<rparr>"
proof -
  have "ports (prepared creates deletes seen cfg) = map_rows (port_fallback deletes seen) (ports cfg)"
    by (simp add: prepared_def map_rows_def)
  then show ?thesis
    by (simp add: candidate_of_def apply_all_rows final_port_def [abs_def])
qed

lemma final_port_unblamed:
  assumes ch: "checked cfg bindings as seen" and del: "deletes = filter (has (vlans cfg)) (intended 6 bindings)"
    and ok: "check_port cfg k p = Inr ()" and one: "has (vlans cfg) 1"
    and p: "port_in cfg k = p"
    and none: "\<forall>a \<in> set as. \<not> blames cfg deletes seen k (final_port deletes seen k p) a"
  shows "illegal (final_port deletes seen k p) = {}"
proof (rule ccontr)
  let ?q = "port_fallback deletes seen k p" and ?f = "final_port deletes seen k p"
  assume bad: "illegal ?f \<noteq> {}"
  have so: "seen_ok as seen" and props: "\<forall>a \<in> set as. proper cfg (intended 4 bindings) (intended 6 bindings) a"
    and d6: "\<And>i. i \<in> set (intended 6 bindings) \<Longrightarrow> i \<noteq> 1 \<and>
        (\<exists>a \<in> set as. as_kind a = Row_object \<and> as_key a = Vlan_key i \<and> as_value a = Number_value 6)"
    using ch by (auto simp: checked_def)
  have sub: "set (vals seen) \<subseteq> set as" by (rule seen_assignments [OF so])
  then have vp: "\<forall>a \<in> set (vals seen). proper cfg (intended 4 bindings) (intended 6 bindings) a"
    using props by blast
  have nd: "1 \<notin> set deletes" using d6 by (auto simp: del)
  note q = fallback_legal [where seen = seen, OF ok one nd refl]
  have same: "i \<in> set (bitmap_field K ?f) \<longleftrightarrow> i \<in> set (bitmap_field K ?q)"
    if "K \<in> bitmap_kinds" "\<forall>a \<in> set as. as_kind a \<noteq> K \<or> as_key a \<noteq> Vlan_key i" for K i
    using port_effects_bitmap(1) [OF vp that(1)] that(2) sub unfolding final_port_def by blast
  have E: "Egress_object \<in> bitmap_kinds" "Forbidden_object \<in> bitmap_kinds" "Untagged_object \<in> bitmap_kinds"
    by (simp_all add: bitmap_kinds_def)
  have no: "\<not> (as_kind a = Egress_object \<and> as_key a = Vlan_key i)" if "a \<in> set as"
    "i \<in> overlap ?f \<union> missing_tags ?f \<or> (i = pvid ?f \<and> pvid ?f \<notin> set (admitted ?f))" for a i
    using none that by (auto simp: blames_def)
  have noF: "\<not> (as_kind a = Forbidden_object \<and> as_key a = Vlan_key i)" if "a \<in> set as" "i \<in> overlap ?f" for a i
    using none that by (auto simp: blames_def)
  have noU: "\<not> (as_kind a = Untagged_object \<and> as_key a = Vlan_key i)" if "a \<in> set as" "i \<in> missing_tags ?f" for a i
    using none that by (auto simp: blames_def)
  have over: "overlap ?f = {}"
  proof (rule ccontr)
    assume "overlap ?f \<noteq> {}"
    then obtain i where i: "i \<in> overlap ?f" by blast
    have "i \<in> set (admitted ?q)" using same [OF E(1), of i] no i by (auto simp: overlap_def)
    moreover have "i \<in> set (forbidden ?q)" using same [OF E(2), of i] noF i by (auto simp: overlap_def)
    ultimately have "i \<in> overlap ?q" by (simp add: overlap_def)
    then have "i = 1" and d: "pvid p \<in> set deletes" and ns: "\<not> has seen (Pvid_object, Port_key k)"
      using q(3) by auto
    then have "1 \<in> illegal ?f" using i by (simp add: illegal_def)
    moreover obtain a where "a \<in> set as" "as_kind a = Row_object" "as_key a = Vlan_key (pvid p)"
      "as_value a = Number_value 6"
      using d6 [of "pvid p"] d by (auto simp: del)
    ultimately show False using none d ns by (auto simp: blames_def p)
  qed
  have tags: "missing_tags ?f = {}"
  proof (rule ccontr)
    assume "missing_tags ?f \<noteq> {}"
    then obtain i where i: "i \<in> missing_tags ?f" by blast
    have "i \<notin> set (admitted ?q)" using same [OF E(1), of i] no i by (auto simp: missing_tags_def)
    moreover have "i \<in> set (untagged ?q)" using same [OF E(3), of i] noU i by (auto simp: missing_tags_def)
    ultimately show False using q(1) by (auto simp: missing_tags_def)
  qed
  have "pvid ?f \<notin> set (admitted ?f)"
    using bad over tags by (auto simp: illegal_def split: if_splits)
  moreover have np: "\<not> (as_kind a = Pvid_object \<and> as_key a = Port_key k)" if "a \<in> set as" for a
    using none that calculation by (auto simp: blames_def)
  moreover have "pvid ?f = pvid ?q"
    unfolding final_port_def using port_effects_pvid [of "vals seen" k ?q] np sub by blast
  moreover have "\<not> has seen (Pvid_object, Port_key k)"
    using seen_has [OF so] np by blast
  ultimately show False
    using q(2) same [OF E(1), of "pvid ?f"] no by auto
qed

lemma final_port_ok:
  assumes ch: "checked cfg bindings as seen" and del: "deletes = filter (has (vlans cfg)) (intended 6 bindings)"
    and ok: "check_port cfg k p = Inr ()" and one: "has (vlans cfg) 1"
    and legal: "illegal (final_port deletes seen k p) = {}"
    and vl: "\<And>i. has (vlans cand) i \<longleftrightarrow> (has (vlans cfg) i \<and> i \<notin> set deletes) \<or> i \<in> set (intended 4 bindings)"
  shows "check_port cand k (final_port deletes seen k p) = Inr ()"
proof -
  let ?q = "port_fallback deletes seen k p" and ?f = "final_port deletes seen k p"
  have so: "seen_ok as seen" and props: "\<forall>a \<in> set as. proper cfg (intended 4 bindings) (intended 6 bindings) a"
    and d6: "\<And>i. i \<in> set (intended 6 bindings) \<Longrightarrow> i \<noteq> 1"
    using ch by (auto simp: checked_def)
  have sub: "set (vals seen) \<subseteq> set as" by (rule seen_assignments [OF so])
  then have vp: "\<forall>a \<in> set (vals seen). proper cfg (intended 4 bindings) (intended 6 bindings) a"
    using props by blast
  have nd: "1 \<notin> set deletes" using d6 by (auto simp: del)
  note q = fallback_legal [where seen = seen, OF ok one nd refl]
  have hw: "p_id ?f = k"
    using port_effects_hardware [of k ?q "vals seen"] q(6) ok
    by (auto simp: final_port_def hardware_same_def port_row_ok)
  have pv: "pvid ?f \<in> set (admitted ?f)"
    using legal by (auto simp: illegal_def split: if_splits)
  have dist: "distinct (bitmap_field K ?f)" if "K \<in> bitmap_kinds" for K
    unfolding final_port_def using port_effects_bitmap(2) [OF vp that] q(4) [OF that] by blast
  have ex: "has (vlans cand) v" if K: "K \<in> bitmap_kinds" and v: "v \<in> set (bitmap_field K ?f)" for K v
  proof (cases "\<exists>a \<in> set (vals seen). as_kind a = K \<and> as_key a = Vlan_key v")
    case True
    then obtain a where "proper cfg (intended 4 bindings) (intended 6 bindings) a" "as_kind a = K" "as_key a = Vlan_key v"
      using vp by blast
    then show ?thesis using K by (auto simp: proper_def vl del)
  next
    case False
    then have "v \<in> set (bitmap_field K ?q)"
      using port_effects_bitmap(1) [OF vp K, of v k ?q] v unfolding final_port_def by blast
    then show ?thesis using q(5) [OF K] by (simp add: vl)
  qed
  show ?thesis
    using hw pv legal dist ex by (simp add: port_row_ok)
qed

subsection \<open>All cross references\<close>

lemma first_error_ok: "first_error rs = Inr () \<longleftrightarrow> (\<forall>r \<in> set rs. r = Inr ())"
  by (induction rs) (auto simp: result_simps)

lemma check_ok [simp]: "check b m = Inr () \<longleftrightarrow> b"
  by (simp add: check_def)

definition same_elsewhere :: "configuration \<Rightarrow> configuration \<Rightarrow> bool" where
  \<comment> \<open>only ports, VLANs and the legacy VLAN may differ\<close>
  "same_elsewhere c d \<longleftrightarrow> radius c = radius d \<and> endpoints c = endpoints d \<and>
     attachments c = attachments d \<and> snmp c = snmp d \<and> views c = views d \<and>
     credentials c = credentials d \<and> groups c = groups d \<and> targets c = targets d \<and>
     port_count (cfg_switch c) = port_count (cfg_switch d) \<and>
     next_if_index (cfg_switch c) = next_if_index (cfg_switch d) \<and>
     next_bridge_port (cfg_switch c) = next_bridge_port (cfg_switch d)"

lemma same_checks:
  assumes "same_elsewhere c d"
  shows "supplicant_profiles c = supplicant_profiles d" "check_profile c p = check_profile d p"
    "check_credential c cr u = check_credential d cr u" "check_policy c pl wr = check_policy d pl wr"
    "check_credential_identities c = check_credential_identities d" "check_target c t = check_target d t"
proof -
  have same: "radius c = radius d" "endpoints c = endpoints d" "views c = views d"
    "credentials c = credentials d" "groups c = groups d"
    using assms by (simp_all add: same_elsewhere_def)
  show "supplicant_profiles c = supplicant_profiles d" "check_profile c p = check_profile d p"
    "check_policy c pl wr = check_policy d pl wr"
    "check_credential_identities c = check_credential_identities d" "check_target c t = check_target d t"
    by (simp_all only: supplicant_profiles_def check_profile_def check_policy_def
        check_credential_identities_def check_target_def same)
  show "check_credential c cr u = check_credential d cr u"
    by (simp only: check_credential_def check_policy_def check_credential_identities_def same)
qed

definition physical :: "configuration \<Rightarrow> bool" where
  \<comment> \<open>the references that involve ports and VLANs\<close>
  "physical c \<longleftrightarrow> has (vlans c) 1 \<and> has (vlans c) (legacy_vlan (cfg_switch c)) \<and>
     distinct (map fdb_id (vals (vlans c))) \<and> int (length (ports c)) = port_count (cfg_switch c) \<and>
     distinct (map if_index (vals (ports c))) \<and> distinct (map bridge_port (vals (ports c))) \<and>
     (\<forall>(k, p) \<in> set (ports c). if_index p < next_if_index (cfg_switch c) \<and>
        bridge_port p < next_bridge_port (cfg_switch c) \<and> check_port c k p = Inr () \<and>
        \<not> (mode p = Direct \<and> 1 < count_list (vals (attachments c)) k)) \<and>
     (\<forall>(k, v) \<in> set (vlans c). k = vid v) \<and>
     (\<forall>(e, k) \<in> set (attachments c). has (ports c) k)"

definition logical :: "configuration \<Rightarrow> bool" where
  "logical c \<longleftrightarrow> (\<forall>(k, e) \<in> set (endpoints c). k = e_id e) \<and>
     (\<forall>(e, k) \<in> set (attachments c). has (endpoints c) e) \<and>
     (\<forall>p \<in> set (supplicant_profiles c). check_profile c (Some p) = Inr ()) \<and>
     (\<forall>cr \<in> set (vals (credentials c)). check_credential c cr False = Inr ()) \<and>
     (\<forall>(k, g) \<in> set (groups c). k = g_id g) \<and>
     (\<forall>g \<in> set (vals (groups c)). check_policy c (g_polling g) (g_writing g) = Inr ()) \<and>
     check_credential_identities c = Inr () \<and> (\<forall>t \<in> set (vals (targets c)). check_target c t = Inr ()) \<and>
     snmp_limit (credentials c) = Inr () \<and> snmp_limit (groups c) = Inr () \<and>
     snmp_limit (targets c) = Inr () \<and> snmp_limit (views c) = Inr ()"

lemma references_split: "references c = Inr () \<longleftrightarrow> physical c \<and> logical c"
  unfolding references_def first_error_ok physical_def logical_def set_append ball_Un list.set set_map
    ball_simps check_ok bind_Inr_iff list_all_iff vals_def
  by (auto simp: result_simps)

lemma logical_same: "same_elsewhere c d \<Longrightarrow> logical c = logical d"
  unfolding logical_def using same_checks [of c d]
  by (simp add: same_elsewhere_def)


subsection \<open>The candidate\<close>

definition new_vlan :: "int \<Rightarrow> vlan" where
  "new_vlan v = \<lparr>vid = v, vl_name = [], fdb_id = 1000 + v\<rparr>"

lemma created_rows:
  "map_of (foldl (\<lambda>d v. put v \<lparr>vid = v, vl_name = [], fdb_id = 1000 + v\<rparr> d) base creates) i =
    (if i \<in> set creates then Some (new_vlan i) else map_of base i)"
  by (induction creates arbitrary: base) (auto simp: lookup_put new_vlan_def)

lemma created_dict:
  "is_dict base \<Longrightarrow> is_dict (foldl (\<lambda>d v. put v \<lparr>vid = v, vl_name = [], fdb_id = 1000 + v\<rparr> d) base creates)"
  by (induction creates arbitrary: base) (auto intro: is_dict_put)

lemma distinct_values:
  assumes "is_dict d" and "\<And>i x j y. map_of d i = Some x \<Longrightarrow> map_of d j = Some y \<Longrightarrow> i \<noteq> j \<Longrightarrow> f x \<noteq> f y"
  shows "distinct (map f (vals d))"
proof -
  have "distinct (map fst d)" using assms(1) by (simp add: is_dict_def)
  then have "distinct d" by (simp add: distinct_map)
  moreover have "inj_on (f \<circ> snd) (set d)"
  proof (rule inj_onI)
    fix x y assume xy: "x \<in> set d" "y \<in> set d" "(f \<circ> snd) x = (f \<circ> snd) y"
    have "map_of d (fst x) = Some (snd x)" "map_of d (fst y) = Some (snd y)"
      using xy is_dict_lookup [OF assms(1)] by auto
    with assms(2) xy(3) show "x = y" by (metis comp_apply option.inject prod.expand)
  qed
  ultimately show ?thesis by (simp add: vals_def distinct_map)
qed

lemma distinct_valuesD:
  assumes "is_dict d" and "distinct (map f (vals d))" and "map_of d i = Some x" "map_of d j = Some y" "i \<noteq> j"
  shows "f x \<noteq> f y"
proof
  assume "f x = f y"
  have xy: "(i, x) \<in> set d" "(j, y) \<in> set d" using assms(3,4) by (auto dest: lookup_in_set)
  have "distinct (map (f \<circ> snd) d)" using assms(2) by (simp add: vals_def)
  then have "inj_on (f \<circ> snd) (set d)" by (simp add: distinct_map)
  moreover have "(f \<circ> snd) (i, x) = (f \<circ> snd) (j, y)" using \<open>f x = f y\<close> by simp
  ultimately have "(i, x) = (j, y)" using xy by (rule inj_onD)
  then show False using assms(5) by simp
qed

lemma has_filter: "is_dict d \<Longrightarrow> map_of (filter (\<lambda>(k, _). k \<notin> A) d) i = (if i \<in> A then None else map_of d i)"
  by (induction d) (auto simp: is_dict_def)

lemma plan_set_Inr:
  assumes "plan_set cfg bindings prefixes = Inr plan"
  shows "\<exists>as seen. checked cfg bindings as seen \<and> pl_assignments plan = as \<and> pl_before plan = cfg \<and>
    pl_creates plan = intended 4 bindings \<and>
    pl_deletes plan = filter (has (vlans cfg)) (intended 6 bindings) \<and>
    pl_candidate plan = candidate_of (pl_creates plan) (pl_deletes plan) seen cfg \<and>
    pl_affected plan = affected_ports cfg (pl_candidate plan) \<and>
    conflicts cfg (pl_candidate plan) (pl_deletes plan) seen as = [] \<and>
    (\<forall>a \<in> set as. \<not> unavailable (pl_candidate plan) a)"
proof -
  let ?c = "intended 4 bindings" and ?d = "filter (has (vlans cfg)) (intended 6 bindings)"
  obtain as seen where l: "assign_loop cfg prefixes ?c (intended 6 bindings) 1 bindings [] [] = Inr (as, seen)"
    and r: "(if conflicts cfg (candidate_of ?c ?d seen cfg) ?d seen as \<noteq> []
        then Inl (''inconsistentValue'', minimum (conflicts cfg (candidate_of ?c ?d seen cfg) ?d seen as))
        else case List.find (unavailable (candidate_of ?c ?d seen cfg)) as of
             Some a \<Rightarrow> Inl (''resourceUnavailable'', as_index a)
           | None \<Rightarrow> Inr \<lparr>pl_before = cfg, pl_candidate = candidate_of ?c ?d seen cfg, pl_assignments = as,
               pl_creates = ?c, pl_deletes = ?d, pl_affected = affected_ports cfg (candidate_of ?c ?d seen cfg),
               pl_first_effective = minimum (map as_index (filter (effective_assignment cfg) (vals seen))),
               pl_actions = sort_key fst (pae_actions_loop (vals seen) [])\<rparr>) = Inr plan"
    using assms by (auto simp: plan_set_def bind_Inr_iff Let_def)
  have "checked cfg bindings as seen" by (rule assign_loop_checked [OF l])
  moreover have "conflicts cfg (candidate_of ?c ?d seen cfg) ?d seen as = []"
    using r by (auto split: if_splits)
  moreover from this have f: "List.find (unavailable (candidate_of ?c ?d seen cfg)) as = None"
    using r by (auto split: option.splits)
  moreover from f have "\<forall>a \<in> set as. \<not> unavailable (candidate_of ?c ?d seen cfg) a"
    by (auto simp: find_None_iff)
  ultimately show ?thesis using r by (intro exI [of _ as] exI [of _ seen]) auto
qed

lemma physical_candidate:
  assumes ch: "checked cfg bindings as seen" and ph: "physical cfg"
    and dicts: "is_dict (ports cfg)" "is_dict (vlans cfg)"
    and creates: "creates = intended 4 bindings"
    and del: "deletes = filter (has (vlans cfg)) (intended 6 bindings)"
    and cand: "cand = candidate_of creates deletes seen cfg"
    and none: "conflicts cfg cand deletes seen as = []" and free: "\<forall>a \<in> set as. \<not> unavailable cand a"
  shows "physical cand"
proof -
  let ?base = "filter (\<lambda>(k, _). k \<notin> set deletes) (vlans cfg)"
  let ?eff = "\<lambda>k v. foldl (\<lambda>v a. vlan_effect k a v) v (vals seen)"
  have d6: "\<And>i. i \<in> set (intended 6 bindings) \<Longrightarrow> i \<noteq> 1" and d4: "\<And>i. i \<in> set creates \<Longrightarrow> \<not> has (vlans cfg) i \<and>
      (\<exists>a \<in> set as. as_kind a = Row_object \<and> as_key a = Vlan_key i \<and> as_value a = Number_value 4)"
    using ch by (auto simp: checked_def creates)
  have rows: "ports cand = map_rows (final_port deletes seen) (ports cfg)"
    and vl: "vlans cand = map_rows ?eff (foldl (\<lambda>d v. put v \<lparr>vid = v, vl_name = [], fdb_id = 1000 + v\<rparr> d) ?base creates)"
    and sw: "cfg_switch cand = (if legacy_vlan (cfg_switch cfg) \<in> set deletes
        then (cfg_switch cfg)\<lparr>legacy_vlan := 1\<rparr> else cfg_switch cfg)"
    and att: "attachments cand = attachments cfg"
    by (simp_all add: cand candidate_rows) (simp_all add: prepared_def)
  have base: "is_dict ?base" by (rule is_dict_filter [OF dicts(2)])
  have vmap: "map_of (vlans cand) i = map_option (?eff i) (if i \<in> set creates then Some (new_vlan i)
      else if i \<in> set deletes then None else map_of (vlans cfg) i)" for i
    by (simp add: vl created_rows has_filter [OF dicts(2)])
  have vdict: "is_dict (vlans cand)"
    using created_dict [OF base, of creates] by (simp add: vl is_dict_def)
  have hasv: "has (vlans cand) i \<longleftrightarrow> (has (vlans cfg) i \<and> i \<notin> set deletes) \<or> i \<in> set (intended 4 bindings)" for i
    by (simp add: has_def vmap creates)
  have keysv: "vid v = i" if "map_of (vlans cand) i = Some v" for i v
  proof -
    have old: "map_of (vlans cfg) i = Some u \<Longrightarrow> vid u = i" for u
      using ph lookup_in_set [of "vlans cfg" i u] by (auto simp: physical_def)
    show ?thesis using that old by (auto simp: vmap vlan_effect_ids new_vlan_def split: if_splits)
  qed
  have fdbs: "distinct (map fdb_id (vals (vlans cand)))"
  proof (rule distinct_values [OF vdict])
    have fresh: "fdb_id x \<noteq> fdb_id y" if "map_of (vlans cand) i = Some x" "map_of (vlans cand) j = Some y"
      "i \<noteq> j" "i \<in> set creates" for i j x y
    proof -
      note here = that
      obtain a where a: "a \<in> set as" "as_kind a = Row_object" "as_key a = Vlan_key i" "as_value a = Number_value 4"
        using d4 here(4) by blast
      have "y \<in> set (vals (vlans cand))" using lookup_in_set [OF here(2)] by (force simp: vals_def)
      moreover have "vid y \<noteq> i" using keysv [OF here(2)] here(3) by simp
      moreover have "\<not> unavailable cand a" using free a(1) by blast
      ultimately show ?thesis
        using here(1) by (auto simp: unavailable_def a(2-4) list_ex_iff)
    qed
    fix i x j y
    assume x: "map_of (vlans cand) i = Some x" and y: "map_of (vlans cand) j = Some y" and ij: "i \<noteq> j"
    show "fdb_id x \<noteq> fdb_id y"
    proof (cases "i \<in> set creates \<or> j \<in> set creates")
      case True
      then show ?thesis using fresh [OF x y ij] fresh [OF y x] ij by metis
    next
      case False
      then obtain u w where "map_of (vlans cfg) i = Some u" "fdb_id x = fdb_id u"
        "map_of (vlans cfg) j = Some w" "fdb_id y = fdb_id w"
        using x y by (auto simp: vmap vlan_effect_ids split: if_splits)
      then show ?thesis
        using distinct_valuesD [OF dicts(2) _ _ _ ij, of fdb_id] ph by (auto simp: physical_def)
    qed
  qed
  have hw: "hardware_same (final_port deletes seen k p) p" for k p
    using port_effects_hardware [of k "port_fallback deletes seen k p" "vals seen"]
    by (auto simp: final_port_def hardware_same_def port_fallback_def Let_def)
  have attr: "map f (vals (ports cand)) = map f (vals (ports cfg))"
    if "\<And>k p. f (final_port deletes seen k p) = f p" for f :: "port \<Rightarrow> int"
    unfolding rows by (simp add: map_rows_def vals_def that case_prod_beta comp_def)
  have one: "has (vlans cfg) 1" using ph by (simp add: physical_def)
  have port: "check_port cand k (final_port deletes seen k p) = Inr ()" if kp: "(k, p) \<in> set (ports cfg)" for k p
  proof -
    have ok: "check_port cfg k p = Inr ()" using ph kp by (auto simp: physical_def)
    have lk: "map_of (ports cfg) k = Some p" by (rule is_dict_lookup [OF dicts(1) kp])
    have pin: "port_in cfg k = p" and fin: "port_in cand k = final_port deletes seen k p"
      by (simp_all add: port_in_def rows lk)
    have "illegal (final_port deletes seen k p) = {}"
    proof (cases "port_changed p (final_port deletes seen k p)")
      case False
      then have "illegal (final_port deletes seen k p) = illegal p"
        by (simp add: port_changed_def illegal_def overlap_def missing_tags_def)
      then show ?thesis using ok by (simp add: port_row_ok)
    next
      case True
      have "(k, final_port deletes seen k p) \<in> set (ports cand)"
        using kp by (force simp: rows map_rows_def)
      then have "k \<in> set (affected_ports cfg cand)"
        using True pin by (force simp: affected_ports_def)
      then have "(let p = port_in cand k in if illegal p = {} then []
          else map as_index (filter (blames cfg deletes seen k p) as)) = []"
        using none unfolding conflicts_def concat_eq_Nil_conv set_map by blast
      then have "illegal (port_in cand k) = {} \<or>
          (\<forall>a \<in> set as. \<not> blames cfg deletes seen k (port_in cand k) a)"
        by (auto simp: Let_def filter_empty_conv split: if_splits)
      then show ?thesis
        using final_port_unblamed [OF ch del ok one pin] fin by auto
    qed
    then show ?thesis by (rule final_port_ok [OF ch del ok one _ hasv])
  qed
  show ?thesis
    unfolding physical_def
  proof (intro conjI)
    show "has (vlans cand) 1" using one d6 by (auto simp: hasv del)
    then show "has (vlans cand) (legacy_vlan (cfg_switch cand))"
      using ph by (auto simp: sw hasv physical_def)
    show "distinct (map fdb_id (vals (vlans cand)))" by (rule fdbs)
    show "int (length (ports cand)) = port_count (cfg_switch cand)"
      using ph by (simp add: rows sw physical_def)
    show "distinct (map if_index (vals (ports cand)))" "distinct (map bridge_port (vals (ports cand)))"
      using ph attr [of if_index] attr [of bridge_port] hw by (simp_all add: physical_def hardware_same_def)
    show "\<forall>(k, v) \<in> set (vlans cand). k = vid v"
      using keysv is_dict_lookup [OF vdict] by fastforce
    show "\<forall>(e, k) \<in> set (attachments cand). has (ports cand) k"
      using ph by (auto simp: physical_def att has_def rows)
    show "\<forall>(k, p) \<in> set (ports cand). if_index p < next_if_index (cfg_switch cand) \<and>
        bridge_port p < next_bridge_port (cfg_switch cand) \<and> check_port cand k p = Inr () \<and>
        \<not> (mode p = Direct \<and> 1 < count_list (vals (attachments cand)) k)"
    proof (clarify)
      fix k f assume "(k, f) \<in> set (ports cand)"
      then obtain p where kp: "(k, p) \<in> set (ports cfg)" and f: "f = final_port deletes seen k p"
        by (auto simp: rows map_rows_def)
      show "if_index f < next_if_index (cfg_switch cand) \<and>
        bridge_port f < next_bridge_port (cfg_switch cand) \<and> check_port cand k f = Inr () \<and>
        \<not> (mode f = Direct \<and> 1 < count_list (vals (attachments cand)) k)"
        using ph kp port [OF kp] hw [of k p] by (fastforce simp: physical_def f hardware_same_def sw att)
    qed
  qed
qed

lemma plan_set_keeps_references:
  assumes plan: "plan_set cfg bindings prefixes = Inr plan" and ok: "references cfg = Inr ()"
    and dicts: "is_dict (ports cfg)" "is_dict (vlans cfg)"
  shows "references (pl_candidate plan) = Inr ()"
proof -
  obtain as seen where ch: "checked cfg bindings as seen"
    and cand: "pl_candidate plan = candidate_of (pl_creates plan) (pl_deletes plan) seen cfg"
    and cd: "pl_creates plan = intended 4 bindings" "pl_deletes plan = filter (has (vlans cfg)) (intended 6 bindings)"
    and fine: "conflicts cfg (pl_candidate plan) (pl_deletes plan) seen as = []"
      "\<forall>a \<in> set as. \<not> unavailable (pl_candidate plan) a"
    using plan_set_Inr [OF plan] by blast
  have "physical (pl_candidate plan)"
    using physical_candidate [OF ch _ dicts cd cand fine] ok by (simp add: references_split)
  moreover have "same_elsewhere (pl_candidate plan) cfg"
    unfolding cand by (simp add: candidate_rows same_elsewhere_def prepared_def)
  then have "logical (pl_candidate plan)"
    using ok logical_same by (auto simp: references_split)
  ultimately show ?thesis by (simp add: references_split)
qed

lemma plan_set_hardware:
  assumes plan: "plan_set cfg bindings prefixes = Inr plan"
    and dicts: "is_dict (ports cfg)" "is_dict (vlans cfg)"
  shows "is_dict (ports (pl_candidate plan))" and "is_dict (vlans (pl_candidate plan))"
    and "keys (ports (pl_candidate plan)) = keys (ports cfg)"
    and "endpoints (pl_candidate plan) = endpoints cfg" "attachments (pl_candidate plan) = attachments cfg"
    and "map_of (ports cfg) k = Some p \<Longrightarrow>
      \<exists>q. map_of (ports (pl_candidate plan)) k = Some q \<and> hardware_same q p"
proof -
  obtain seen where cand: "pl_candidate plan = candidate_of (pl_creates plan) (pl_deletes plan) seen cfg"
    using plan_set_Inr [OF plan] by blast
  note rows = cand [unfolded candidate_rows]
  show "keys (ports (pl_candidate plan)) = keys (ports cfg)" by (simp add: rows)
  then show "is_dict (ports (pl_candidate plan))" using dicts(1) by (simp add: is_dict_def)
  show "is_dict (vlans (pl_candidate plan))"
    using created_dict [OF is_dict_filter [OF dicts(2)]]
    by (simp add: rows is_dict_def prepared_def)
  show "endpoints (pl_candidate plan) = endpoints cfg" "attachments (pl_candidate plan) = attachments cfg"
    by (simp_all add: rows prepared_def)
  assume "map_of (ports cfg) k = Some p"
  moreover have "hardware_same (final_port d s k p) p" for d s
    using port_effects_hardware [of k "port_fallback d s k p" "vals s"]
    by (simp add: final_port_def hardware_same_def port_fallback_def Let_def)
  ultimately show "\<exists>q. map_of (ports (pl_candidate plan)) k = Some q \<and> hardware_same q p"
    by (simp add: rows)
qed

subsection \<open>Error positions\<close>

lemma assign_loop_positions:
  "(case assign_loop cfg prefixes creates destroys index bindings acc seen of
      Inl (e, i) \<Rightarrow> index \<le> i \<and> i < index + length bindings
    | Inr (as, _) \<Rightarrow> (\<forall>a \<in> set as. a \<in> set acc \<or> (index \<le> as_index a \<and> as_index a < index + length bindings)))"
proof (induction cfg prefixes creates destroys index bindings acc seen rule: assign_loop.induct)
  case (1 cfg prefixes creates destroys index d seen)
  then show ?case by simp
next
  case (2 cfg prefixes creates destroys index b rest d seen)
  show ?case
  proof (cases "bind_check cfg prefixes creates destroys b")
    case (Inr x)
    obtain kind key v where x: "x = (kind, key, v)" by (cases x)
    let ?a = "\<lparr>as_index = index, as_kind = kind, as_key = key, as_value = v\<rparr>"
    note IH = 2 [OF Inr [unfolded x] refl refl refl]
    show ?thesis
    proof (cases "map_of seen (kind, key)")
      case None
      then show ?thesis using IH(1) [OF None]
        by (auto simp: Inr x Let_def split: sum.splits)
    next
      case (Some prior)
      show ?thesis
      proof (cases "as_value prior = v")
        case True
        then show ?thesis using IH(2) [OF Some] by (auto simp: Inr x Some Let_def split: sum.splits)
      qed (simp add: Inr x Some Let_def)
    qed
  qed simp
qed

lemma minimum_member: "xs \<noteq> [] \<Longrightarrow> minimum xs \<in> set xs"
proof -
  have "foldl min x rest \<in> insert x (set rest)" for x :: nat and rest
    by (induction rest arbitrary: x) (simp, smt (verit) foldl_Cons insert_iff list.simps(15) min_def)
  then show "xs \<noteq> [] \<Longrightarrow> minimum xs \<in> set xs" by (cases xs) (auto simp: minimum_def)
qed

lemma plan_set_error_position:
  assumes "plan_set cfg bindings prefixes = Inl (status, i)"
  shows "1 \<le> i \<and> i \<le> length bindings"
proof (cases "assign_loop cfg prefixes (intended 4 bindings) (intended 6 bindings) 1 bindings [] []")
  case (Inl e)
  then show ?thesis
    using assms assign_loop_positions [where cfg = cfg and prefixes = prefixes and creates = "intended 4 bindings"
      and destroys = "intended 6 bindings" and index = 1 and bindings = bindings and acc = "[]" and seen = "[]"]
    by (auto simp: plan_set_def)
next
  case (Inr x)
  obtain as seen where x: "x = (as, seen)" by (cases x)
  have pos: "1 \<le> as_index a \<and> as_index a \<le> length bindings" if "a \<in> set as" for a
    using that assign_loop_positions [where cfg = cfg and prefixes = prefixes and creates = "intended 4 bindings"
      and destroys = "intended 6 bindings" and index = 1 and bindings = bindings and acc = "[]" and seen = "[]"]
    by (auto simp: Inr [unfolded One_nat_def] x)
  let ?d = "filter (has (vlans cfg)) (intended 6 bindings)"
  let ?cand = "candidate_of (intended 4 bindings) ?d seen cfg"
  let ?bad = "conflicts cfg ?cand ?d seen as"
  show ?thesis
  proof (cases "?bad = []")
    case True
    then obtain a where "List.find (unavailable ?cand) as = Some a" "i = as_index a"
      using assms by (auto simp: plan_set_def Inr [unfolded One_nat_def] x Let_def split: option.splits)
    then show ?thesis using pos by (auto simp: find_Some_iff)
  next
    case False
    then have "i \<in> set ?bad" using minimum_member [OF False] assms
      by (auto simp: plan_set_def Inr [unfolded One_nat_def] x Let_def)
    then obtain a where "a \<in> set as" "i = as_index a"
      by (auto simp: conflicts_def Let_def split: if_splits)
    then show ?thesis using pos by simp
  qed
qed

subsection \<open>Properties\<close>

fun set_run :: "configuration \<Rightarrow> ((oid \<times> wire) list \<times> oid list) list \<Rightarrow> configuration" where
  \<comment> \<open>SET requests in sequence: an accepted plan replaces the configuration, a refused one leaves it\<close>
  "set_run c [] = c"
| "set_run c ((bindings, prefixes) # rest) =
     (case plan_set c bindings prefixes of
        Inl _ \<Rightarrow> set_run c rest | Inr plan \<Rightarrow> set_run (pl_candidate plan) rest)"

definition inventory_same :: "configuration \<Rightarrow> configuration \<Rightarrow> bool" where
  \<comment> \<open>the same ports in the same order, with their indexes and media, and the same endpoints\<close>
  "inventory_same c d \<longleftrightarrow> keys (ports d) = keys (ports c) \<and>
     endpoints d = endpoints c \<and> attachments d = attachments c \<and>
     (\<forall>k p. map_of (ports c) k = Some p \<longrightarrow>
       (\<exists>q. map_of (ports d) k = Some q \<and> hardware_same q p))"

lemma inventory_same_refl: "inventory_same c c"
  by (simp add: inventory_same_def hardware_same_def)

lemma inventory_same_trans:
  assumes "inventory_same a b" and "inventory_same b c"
  shows "inventory_same a c"
proof -
  have "\<exists>q. map_of (ports c) k = Some q \<and> hardware_same q p" if kp: "map_of (ports a) k = Some p" for k p
  proof -
    obtain q where "map_of (ports b) k = Some q" and qp: "hardware_same q p"
      using assms(1) kp unfolding inventory_same_def by blast
    then obtain r where "map_of (ports c) k = Some r" and "hardware_same r q"
      using assms(2) unfolding inventory_same_def by blast
    then show ?thesis using qp by (auto simp: hardware_same_def)
  qed
  then show ?thesis using assms unfolding inventory_same_def by (metis (no_types, lifting))
qed

text \<open>C8: SNMP SET keeps the configuration valid. Whatever sequence of SET requests a manager sends,
  with whatever bindings and write views, a configuration whose cross references hold stays one
  (every PVID admitted, every membership an existing VLAN, untagged within admitted, forbidden
  disjoint, FDB numbers and indexes unique); the ports, their indexes and media, the endpoints and
  their attachments are untouched.\<close>

theorem set_requests_keep_valid:
  assumes "references c = Inr ()" and "is_dict (ports c)" and "is_dict (vlans c)"
  shows "references (set_run c requests) = Inr () \<and> inventory_same c (set_run c requests)"
  using assms
proof (induction requests arbitrary: c)
  case Nil
  then show ?case by (simp add: inventory_same_refl)
next
  case (Cons r requests)
  obtain bindings prefixes where r: "r = (bindings, prefixes)" by (cases r)
  show ?case
  proof (cases "plan_set c bindings prefixes")
    case (Inl e)
    then show ?thesis using Cons by (simp add: r)
  next
    case (Inr plan)
    note keep = plan_set_hardware [OF Inr Cons.prems(2,3)]
    have IH: "references (set_run (pl_candidate plan) requests) = Inr () \<and>
        inventory_same (pl_candidate plan) (set_run (pl_candidate plan) requests)"
      by (rule Cons.IH [OF plan_set_keeps_references [OF Inr Cons.prems] keep(1,2)])
    have "inventory_same c (pl_candidate plan)"
      unfolding inventory_same_def using keep(3-6) by blast
    then have "inventory_same c (set_run (pl_candidate plan) requests)"
      using IH inventory_same_trans by blast
    then show ?thesis using IH by (simp add: r Inr)
  qed
qed

definition example_bindings :: "(oid \<times> wire) list" where
  \<comment> \<open>create VLAN 20, admit it on port 1, and make it the port's PVID\<close>
  "example_bindings =
     [(static_vlan_oid @ [5, 20], Wire_integer 4), (static_vlan_oid @ [2, 20], Wire_octets [0x80]),
      ([1, 3, 6, 1, 2, 1, 17, 7, 1, 4, 5, 1, 1, 1], Wire_gauge 20)]"

definition example_switch :: configuration where
  "example_switch = initial_configuration [115] [[112]]"

definition example_assignments :: "assignment list" where
  "example_assignments =
     [\<lparr>as_index = 1, as_kind = Row_object, as_key = Vlan_key 20, as_value = Number_value 4\<rparr>,
      \<lparr>as_index = 2, as_kind = Egress_object, as_key = Vlan_key 20, as_value = Members_value [[112]]\<rparr>,
      \<lparr>as_index = 3, as_kind = Pvid_object, as_key = Port_key [112], as_value = Number_value 20\<rparr>]"

definition example_seen :: seen where
  "example_seen = map (\<lambda>a. ((as_kind a, as_key a), a)) example_assignments"

lemma example_rows: "row_intent example_bindings [] = [(20, Some 4)]"
  by (simp add: example_bindings_def write_object_def write_objects_def starts_def static_vlan_oid_def
    pae_oid_def has_def)

lemma example_intended: "intended 4 example_bindings = [20]" "intended 6 example_bindings = []"
  by (simp_all add: intended_def example_rows)

lemma example_row_bound: "bind_check example_switch [[1, 3, 6]] [20] []
    (static_vlan_oid @ [5, 20], Wire_integer 4) = Inr (Row_object, Vlan_key 20, Number_value 4)"
  by code_simp

lemma example_egress_bound: "bind_check example_switch [[1, 3, 6]] [20] []
    (static_vlan_oid @ [2, 20], Wire_octets [0x80]) = Inr (Egress_object, Vlan_key 20, Members_value [[112]])"
  by code_simp

lemma example_pvid_bound: "bind_check example_switch [[1, 3, 6]] [20] []
    ([1, 3, 6, 1, 2, 1, 17, 7, 1, 4, 5, 1, 1, 1], Wire_gauge 20) =
    Inr (Pvid_object, Port_key [112], Number_value 20)"
  by code_simp

lemma example_assigned:
  "assign_loop example_switch [[1, 3, 6]] [20] [] 1 example_bindings [] [] =
     Inr (example_assignments, example_seen)"
  unfolding example_bindings_def assign_loop.simps example_row_bound example_egress_bound example_pvid_bound
  by (simp add: example_assignments_def example_seen_def Let_def)

lemma example_agrees:
  "conflicts example_switch (candidate_of [20] [] example_seen example_switch) [] example_seen example_assignments = []"
  by code_simp

lemma example_available:
  "List.find (unavailable (candidate_of [20] [] example_seen example_switch)) example_assignments = None"
  by code_simp

lemma example_moved:
  "map_option pvid (map_of (ports (candidate_of [20] [] example_seen example_switch)) [112]) = Some 20"
  by code_simp

lemma example_set_run:
  "set_run example_switch [(example_bindings, [[1, 3, 6]])] = candidate_of [20] [] example_seen example_switch"
  unfolding set_run.simps plan_set_def example_intended Let_def example_assigned
  by (simp add: example_agrees example_available)

lemma set_requests_keep_valid_witness:
  "references (set_run example_switch [(example_bindings, [[1, 3, 6]])]) = Inr () \<and>
   map_option pvid (map_of (ports (set_run example_switch [(example_bindings, [[1, 3, 6]])])) [112]) = Some 20"
proof -
  have r: "references example_switch = Inr ()" by code_simp
  have p: "is_dict (ports example_switch)" by code_simp
  have v: "is_dict (vlans example_switch)" by code_simp
  show ?thesis
    using set_requests_keep_valid [OF r p v] example_moved unfolding example_set_run [symmetric] by blast
qed

text \<open>An SNMP SET error names a binding of the request: its error index is the position, counted
  from 1, of one of the bindings.\<close>

theorem set_error_index:
  "case plan_set c bindings prefixes of Inl (status, i) \<Rightarrow> 1 \<le> i \<and> i \<le> length bindings | Inr _ \<Rightarrow> True"
  using plan_set_error_position by (auto split: sum.split)

end
