(* ===== verification/Runtime_Events.thy ===== *)
theory Runtime_Events
  imports Runtime_State
begin

text \<open>
  The public history and the notification queue of \<open>switchlab/engine.py\<close>: \<open>notify\<close>,
  \<open>cancel_outbox\<close> and \<open>configuration_events\<close>, and the invariants of both.
\<close>

subsection \<open>Notifications\<close>

fun trap_name :: "trap_type \<Rightarrow> string" where
  "trap_name LinkUp = ''linkUp''"
| "trap_name LinkDown = ''linkDown''"
| "trap_name ColdStart = ''coldStart''"

definition target_wants :: "runtime \<Rightarrow> trap_type \<Rightarrow> target \<Rightarrow> bool" where
  "target_wants s kind t \<longleftrightarrow>
     tg_enabled t \<and> c_enabled (the (map_of (credentials (cfg s)) (tg_credential_id t))) \<and> kind \<in> set (tg_types t)"

definition notification_details :: "runtime \<Rightarrow> string \<Rightarrow> target \<Rightarrow> event_record \<Rightarrow> details" where
  "notification_details s status t e =
     [(''status'', JName status), (''target_id'', JText (tg_id t)), (''notification_id'', JInt (ev_id e)),
      (''destination'', JText (event_resource_label s t))]"

definition notify_target :: "trap_type \<Rightarrow> event_record \<Rightarrow> runtime \<Rightarrow> target \<Rightarrow> runtime" where
  "notify_target kind e s t =
     (if \<not> target_wants s kind t then s
      else if queue_limit (cfg_switch (cfg s)) \<le> int (length (outbox s)) then
        event ''notification'' (notification_details s ''dropped-on-overflow'' t e)
          (s\<lparr>notification_drops := notification_drops s + 1\<rparr>)
      else event ''notification'' (notification_details s ''queued'' t e)
          (s\<lparr>outbox := outbox s @ [\<lparr>ob_event = e, ob_target = tg_id t,
             ob_destination = Some (event_resource_label s t)\<rparr>]\<rparr>))"

definition notify :: "trap_type \<Rightarrow> bool \<Rightarrow> details \<Rightarrow> runtime \<Rightarrow> runtime" where
  "notify kind enabled details s =
     (let details = (''status'', JName ''committed'') # details;
          e = new_event (trap_name kind) details s;
          s = event (trap_name kind) details s
      in if \<not> enabled \<or> \<not> gate s then s
         else foldl (notify_target kind e) s (vals (targets (cfg s))))"

definition cancel_item :: "string \<Rightarrow> runtime \<Rightarrow> outbox_item \<Rightarrow> runtime" where
  "cancel_item reason s item =
     event ''notification''
       ([(''status'', JName reason), (''target_id'', JText (ob_target item)),
         (''notification_id'', JInt (ev_id (ob_event item)))] @
        (case ob_destination item of None \<Rightarrow> [] | Some d \<Rightarrow> [(''destination'', JText d)])) s"

definition cancel_outbox :: "string \<Rightarrow> runtime \<Rightarrow> runtime" where
  "cancel_outbox reason s = (foldl (cancel_item reason) s (outbox s))\<lparr>outbox := []\<rparr>"

subsection \<open>Effects of a configuration change\<close>

fun control_name :: "control \<Rightarrow> string" where
  "control_name Force_authorized = ''force-authorized''"
| "control_name Auto = ''auto''"
| "control_name Force_unauthorized = ''force-unauthorized''"

fun method_name :: "port_method \<Rightarrow> string" where
  "method_name Dot1x = ''dot1x''"
| "method_name Mab = ''mab''"
| "method_name Dot1x_mab = ''dot1x-mab''"

fun host_mode_name :: "host_mode \<Rightarrow> string" where
  "host_mode_name Single_host = ''single-host''"
| "host_mode_name Multi_auth = ''multi-auth''"
| "host_mode_name Multi_host = ''multi-host''"

definition authentication_json :: "port_authentication \<Rightarrow> json" where
  "authentication_json a = JObject
     [(''control'', JName (control_name (pa_control a))), (''method'', JName (method_name (pa_method a))),
      (''host_mode'', JName (host_mode_name (pa_host_mode a))),
      (''fallback_no_supplicant'', JBool (fallback_no_supplicant a)),
      (''fallback_reject'', JBool (fallback_reject a))]"

definition vid_list :: "int list \<Rightarrow> json" where
  "vid_list vs = JList (map JInt vs)"

definition port_fields :: "(string \<times> (port \<Rightarrow> json)) list" where
  \<comment> \<open>\<open>Port.model_fields\<close>, sorted\<close>
  "port_fields =
     [(''admin_up'', \<lambda>p. JBool (admin_up p)), (''admitted'', \<lambda>p. vid_list (admitted p)),
      (''alias'', \<lambda>p. JText (p_alias p)), (''authentication'', \<lambda>p. authentication_json (authentication p)),
      (''bridge_port'', \<lambda>p. JInt (bridge_port p)), (''forbidden'', \<lambda>p. vid_list (forbidden p)),
      (''forced_down'', \<lambda>p. JBool (forced_down p)), (''id'', \<lambda>p. JText (p_id p)),
      (''if_index'', \<lambda>p. JInt (if_index p)), (''link_notifications'', \<lambda>p. JBool (link_notifications p)),
      (''mode'', \<lambda>p. JName (if mode p = Shared then ''shared'' else ''direct'')), (''mtu'', \<lambda>p. JInt (mtu p)),
      (''name'', \<lambda>p. JText (p_name p)), (''pvid'', \<lambda>p. JInt (pvid p)),
      (''shared_partner'', \<lambda>p. JBool (shared_partner p)), (''speed'', \<lambda>p. JInt (speed p)),
      (''untagged'', \<lambda>p. vid_list (untagged p))]"

definition public_port_fields :: "string list" where
  "public_port_fields = [''admin_up'', ''shared_partner'', ''forced_down'', ''pvid'',
     ''admitted'', ''untagged'', ''forbidden'', ''link_notifications'']"

definition identity_json :: "identity \<Rightarrow> json" where
  "identity_json i = JObject [(''sys_descr'', JText (sys_descr i)),
     (''sys_object_id'', case sys_object_id i of None \<Rightarrow> JNull | Some arcs \<Rightarrow> JList (map (JInt \<circ> int) arcs))]"

definition switch_fields :: "(string \<times> (Configuration.switch \<Rightarrow> json)) list" where
  "switch_fields =
     [(''aging_seconds'', \<lambda>w. JInt (aging_seconds w)), (''base_mac'', \<lambda>w. JText (base_mac w)),
      (''contact'', \<lambda>w. JText (sw_contact w)), (''description'', \<lambda>w. JText (sw_description w)),
      (''endpoint_limit'', \<lambda>w. JInt (endpoint_limit w)), (''fdb_limit'', \<lambda>w. JInt (fdb_limit w)),
      (''id'', \<lambda>w. JText (sw_id w)), (''identity'', \<lambda>w. identity_json (sw_identity w)),
      (''legacy_vlan'', \<lambda>w. JInt (legacy_vlan w)), (''location'', \<lambda>w. JText (sw_location w)),
      (''name'', \<lambda>w. JText (sw_name w)), (''next_bridge_port'', \<lambda>w. JInt (next_bridge_port w)),
      (''next_if_index'', \<lambda>w. JInt (next_if_index w)), (''port_count'', \<lambda>w. JInt (port_count w)),
      (''queue_limit'', \<lambda>w. JInt (queue_limit w)), (''source_limit'', \<lambda>w. JInt (source_limit w))]"

definition vlan_fields :: "(string \<times> (vlan \<Rightarrow> json)) list" where
  "vlan_fields = [(''fdb_id'', \<lambda>v. JInt (fdb_id v)), (''name'', \<lambda>v. JText (vl_name v)), (''vid'', \<lambda>v. JInt (vid v))]"

definition changed_fields :: "(string \<times> ('a \<Rightarrow> json)) list \<Rightarrow> 'a \<Rightarrow> 'a \<Rightarrow> string list" where
  "changed_fields fs old new = map fst (filter (\<lambda>(_, f). f old \<noteq> f new) fs)"

definition names_json :: "string list \<Rightarrow> json" where
  "names_json ns = JList (map JName ns)"

definition port_event :: "configuration \<Rightarrow> runtime \<Rightarrow> uid \<Rightarrow> runtime" where
  "port_event before s pid =
     (let old = the (map_of (ports before) pid); new = the_port s pid;
          names = changed_fields port_fields old new;
          change = (\<lambda>n. case map_of port_fields n of None \<Rightarrow> JNull
            | Some f \<Rightarrow> JObject [(''before'', f old), (''after'', f new)])
      in if names = [] then s
         else event ''port-edit'' [(''port_id'', JText pid), (''fields'', names_json names),
           (''changes'', JObject (map (\<lambda>n. (n, change n)) (filter (\<lambda>n. n \<in> set public_port_fields) names)))] s)"

definition vlan_event :: "configuration \<Rightarrow> runtime \<Rightarrow> int \<Rightarrow> runtime" where
  "vlan_event before s v =
     (case (map_of (vlans before) v, map_of (vlans (cfg s)) v) of
        (None, _) \<Rightarrow> event ''vlan-create'' [(''vid'', JInt v), (''fields'', names_json (map fst vlan_fields))] s
      | (Some _, None) \<Rightarrow> event ''vlan-delete'' [(''vid'', JInt v)] s
      | (Some old, Some new) \<Rightarrow>
          (let names = changed_fields vlan_fields old new
           in if names = [] then s
              else event ''vlan-edit'' [(''vid'', JInt v), (''fields'', names_json names)] s))"

definition switch_event :: "configuration \<Rightarrow> runtime \<Rightarrow> runtime" where
  "switch_event before s =
     (let names = changed_fields switch_fields (cfg_switch before) (cfg_switch (cfg s))
      in if names = [] then s else event ''switch-edit'' [(''fields'', names_json names)] s)"

definition configuration_events :: "configuration \<Rightarrow> runtime \<Rightarrow> runtime" where
  "configuration_events before s =
     (let s = foldl (port_event before) s (sort (filter (has (ports before)) (keys (ports (cfg s)))));
          s = switch_event before s
      in foldl (vlan_event before) s
           (sort (remdups (keys (vlans (cfg s)) @ keys (vlans before)))))"

end
