(* ===== verification/Runtime_Accounting.thy ===== *)
theory Runtime_Accounting
  imports Runtime_Events
begin

text \<open>
  RADIUS accounting in the runtime of \<open>switchlab/engine.py\<close>: the records a session's start, interim
  and stop put into the bounded queue, the counted drops, and the reaction to changed settings.
\<close>

subsection \<open>Drops\<close>

definition accounting_drop :: "string \<Rightarrow> details \<Rightarrow> runtime \<Rightarrow> runtime" where
  \<comment> \<open>only the drops counted by a power of two are events\<close>
  "accounting_drop reason details s =
     (let count = (case map_of (accounting_drops s) reason of None \<Rightarrow> 0 | Some n \<Rightarrow> n) + 1;
          s = s\<lparr>accounting_drops := put reason count (accounting_drops s)\<rparr>
      in if count = 1 \<or> and count (count - 1) = 0 then
           event ''accounting''
             ([(''status'', JName ''dropped''), (''reason'', JName reason), (''count'', JInt count)] @ details) s
         else s)"

definition accounting_period :: "runtime \<Rightarrow> access_session \<Rightarrow> int" where
  "accounting_period s session =
     (case ac_interim (accounting (radius (cfg s))) of
        None \<Rightarrow> (case interim_seconds (se_policy session) of None \<Rightarrow> 0 | Some n \<Rightarrow> n)
      | Some n \<Rightarrow> n)"

subsection \<open>Records\<close>

definition usage_values :: "runtime \<Rightarrow> access_session \<Rightarrow> py_error + attribute list" where
  "usage_values s session =
     (let elapsed = (sim_ms s - started_ms session) div 1000
      in if \<not> (0 \<le> elapsed \<and> elapsed \<le> 0xffffffff) \<or> 0xffffffffffffffff < in_octets session
         then Inl (RadiusError ''accounting-value-range'')
         else if in_octets session < 0 then Inl OverflowError
         else Inr [(46, be_bytes 4 elapsed), (42, be_bytes 4 (in_octets session mod 2 ^ 32)),
                   (52, be_bytes 4 (in_octets session div 2 ^ 32)),
                   (47, be_bytes 4 (in_packets session mod 2 ^ 32))])"

definition cause_values :: "int \<Rightarrow> int option \<Rightarrow> py_error + attribute list" where
  "cause_values kind cause =
     (case cause of None \<Rightarrow> Inr []
      | Some c \<Rightarrow> if kind \<noteq> 2 then Inr []
          else if \<not> (0 \<le> c \<and> c < 2 ^ 32) then Inl OverflowError else Inr [(49, be_bytes 4 c)])"

definition session_values ::
  "runtime \<Rightarrow> int \<Rightarrow> access_session \<Rightarrow> int option \<Rightarrow> int option \<Rightarrow> py_error + attribute list" where
  "session_values s kind session cause vid' =
     (let vid = (case vid' of None \<Rightarrow> session_vid s session | Some v \<Rightarrow> v);
          attrs = accounting_identity session @
            (case user_name session of None \<Rightarrow> [] | Some u \<Rightarrow> [(1, u)]) @
            map (\<lambda>v. (25, v)) (classes (se_policy session)) @
            [(64, be_bytes 4 13), (65, be_bytes 4 6), (81, map byte_of (decimal (nat vid)))]
      in bind (if kind = 2 \<or> kind = 3 then usage_values s session else Inr []) (\<lambda>usage.
         bind (cause_values kind cause) (\<lambda>final. Inr (attrs @ usage @ final))))"

definition lifecycle_values :: "runtime \<Rightarrow> py_error + attribute list" where
  "lifecycle_values s =
     bind (resolve_nas_identity (cfg s)) (\<lambda>nas.
       Inr ((32, nas_id nas) # (case nas_ipv4 nas of None \<Rightarrow> [] | Some a \<Rightarrow> [(4, a)])))"

definition within_budget :: "attribute list \<Rightarrow> py_error + attribute list" where
  \<comment> \<open>room for Status-Type and a changing Delay-Time\<close>
  "within_budget attrs =
     bind (encode_attributes attrs) (\<lambda>body.
       if 4095 < 20 + length body + 12 then Inl (RadiusError ''packet_budget'') else Inr attrs)"

definition accounting_values ::
  "runtime \<Rightarrow> int \<Rightarrow> access_session option \<Rightarrow> int option \<Rightarrow> int option \<Rightarrow> py_error + attribute list" where
  "accounting_values s kind session cause vid' =
     bind (case session of Some se \<Rightarrow> session_values s kind se cause vid' | None \<Rightarrow> lifecycle_values s)
       within_budget"

definition active_targets :: "accounting_settings \<Rightarrow> radius_server list" where
  "active_targets a = filter rs_enabled (ac_targets a)"

definition target_captures :: "accounting_settings \<Rightarrow> (uid \<times> server_signature) list" where
  "target_captures a = map (\<lambda>t. (rs_id t, server_signature t)) (active_targets a)"

definition delivery_of :: "accounting_settings \<Rightarrow> int \<times> int \<times> int" where
  "delivery_of a = (ac_response_timeout a, ac_attempts a, ac_retry_backoff a)"

definition new_accounting ::
  "runtime \<Rightarrow> int \<Rightarrow> access_session option \<Rightarrow> string option \<Rightarrow> bool \<Rightarrow> attribute list \<Rightarrow> accounting_record" where
  \<comment> \<open>in the state after the sequence number was taken\<close>
  "new_accounting s kind session reason tardy attrs =
     \<lparr>ar_id = fst (draw s), ar_sequence = accounting_sequence s,
      ar_session = map_option se_id session, status_type = kind, acct_attributes = attrs,
      simulation_ms = sim_ms s, original_start_ms = map_option started_ms session,
      cumulative_octets = map_option in_octets session, cumulative_packets = map_option in_packets session,
      generated_wall = wall_now s, expires_wall = wall_now s + 300, generated_elapsed = elapsed_now s,
      clock_origin = process_origin s, ar_status = ''queued'', ar_attempts = 0, late = tardy, ar_reason = reason,
      ar_targets = target_captures (accounting (radius (cfg s))),
      delivery_policy = delivery_of (accounting (radius (cfg s)))\<rparr>"

definition record_session :: "accounting_record \<Rightarrow> json" where
  "record_session r = (case ar_session r of None \<Rightarrow> JName ''nas-lifecycle'' | Some i \<Rightarrow> JText i)"

definition queued_octets :: "runtime \<Rightarrow> nat" where
  "queued_octets s = sum_list (map (record_octets s) (accounting_outbox s))"

definition queue_accounting ::
  "int \<Rightarrow> access_session option \<Rightarrow> int option \<Rightarrow> string option \<Rightarrow> bool \<Rightarrow> int option \<Rightarrow>
     runtime \<Rightarrow> runtime" where
  "queue_accounting kind session cause reason tardy vid' s =
     (let settings = accounting (radius (cfg s))
      in if \<not> ac_enabled settings \<or> active_targets settings = [] then s
         else case accounting_values s kind session cause vid' of
           Inl _ \<Rightarrow> accounting_drop ''representation''
               [(''session_id'', case session of None \<Rightarrow> JNull | Some se \<Rightarrow> JText (se_id se))] s
         | Inr attrs \<Rightarrow>
             let s = s\<lparr>accounting_sequence := accounting_sequence s + 1\<rparr>;
                 r = new_accounting s kind session reason tardy attrs;
                 s = snd (draw s)
             in if 1024 \<le> length (accounting_outbox s) \<or> 8 * 1024 * 1024 < queued_octets s + record_octets s r
                then accounting_drop ''overflow'' [(''session_id'', record_session r)] s
                else event ''accounting''
                       [(''status'', JName ''queued''), (''record_id'', JText (ar_id r)),
                        (''session_id'', record_session r), (''accounting_type'', JInt kind),
                        (''late'', JBool tardy)]
                       (s\<lparr>accounting_outbox := accounting_outbox s @ [r]\<rparr>))"

subsection \<open>Settings and deadlines\<close>

definition accounting_policy_matches :: "runtime \<Rightarrow> accounting_record \<Rightarrow> bool" where
  "accounting_policy_matches s r \<longleftrightarrow>
     ac_enabled (accounting (radius (cfg s))) \<and>
     ar_targets r = target_captures (accounting (radius (cfg s))) \<and>
     delivery_policy r = delivery_of (accounting (radius (cfg s)))"

definition accounting_shape ::
  "accounting_settings \<Rightarrow> bool \<times> (int \<times> int \<times> int) \<times> (uid \<times> bool \<times> server_signature) list" where
  "accounting_shape a = (ac_enabled a, delivery_of a,
     map (\<lambda>t. (rs_id t, rs_enabled t, server_signature t)) (ac_targets a))"

definition put_session :: "subject \<Rightarrow> access_session \<Rightarrow> runtime \<Rightarrow> runtime" where
  \<comment> \<open>the session objects are mutated in place\<close>
  "put_session key se s = s\<lparr>radius_sessions := put key se (radius_sessions s)\<rparr>"

definition rearmed :: "runtime \<Rightarrow> bool \<Rightarrow> access_session \<Rightarrow> access_session" where
  "rearmed s changed se =
     (let interval = (if ac_enabled (accounting (radius (cfg s))) then accounting_period s se else 0)
      in if changed \<or> interval \<noteq> accounting_interval se then
           se\<lparr>accounting_interval := interval,
              accounting_next_ms := if interval \<noteq> 0 then Some (sim_ms s + interval * 1000) else None\<rparr>
         else se)"

definition reconcile_accounting_session :: "bool \<Rightarrow> runtime \<Rightarrow> subject \<Rightarrow> runtime" where
  "reconcile_accounting_session changed s key =
     (case map_of (radius_sessions s) key of None \<Rightarrow> s
      | Some se \<Rightarrow>
          let se = rearmed s changed se;
              s = put_session key se s
          in if changed \<and> ac_enabled (accounting (radius (cfg s)))
             then queue_accounting 1 (Some se) None None True None s else s)"

definition reconcile_accounting :: "runtime \<Rightarrow> runtime \<Rightarrow> runtime" where
  "reconcile_accounting before s =
     (let changed = accounting_shape (accounting (radius (cfg s))) \<noteq>
            accounting_shape (accounting (radius (cfg before)));
          s = (if changed then
                 foldl (\<lambda>s _. accounting_drop ''configuration-change'' [] s) (s\<lparr>accounting_outbox := []\<rparr>)
                   [0..<length (accounting_outbox s)]
               else s)
      in foldl (reconcile_accounting_session changed) s (keys (radius_sessions s)))"

definition accounting_tick_session :: "runtime \<Rightarrow> subject \<Rightarrow> runtime" where
  "accounting_tick_session s key =
     (case map_of (radius_sessions s) key of None \<Rightarrow> s
      | Some se \<Rightarrow>
          (case accounting_next_ms se of
             None \<Rightarrow> s
           | Some next \<Rightarrow>
               if next \<le> sim_ms s then
                 put_session key (se\<lparr>accounting_next_ms := Some (next + accounting_interval se * 1000)\<rparr>)
                   (queue_accounting 3 (Some se) None None False None s)
               else s))"

definition accounting_tick :: "runtime \<Rightarrow> runtime" where
  "accounting_tick s = foldl accounting_tick_session s (keys (radius_sessions s))"

definition least :: "int list \<Rightarrow> int option" where
  \<comment> \<open>\<open>min(values, default=None)\<close>\<close>
  "least xs = (case xs of [] \<Rightarrow> None | x # rest \<Rightarrow> Some (foldl min x rest))"

definition present_values :: "'a option list \<Rightarrow> 'a list" where
  "present_values xs = map the (filter (\<lambda>x. x \<noteq> None) xs)"

definition next_accounting_deadline :: "runtime \<Rightarrow> int option" where
  "next_accounting_deadline s = least (present_values (map accounting_next_ms (vals (radius_sessions s))))"

end
