(* ===== verification/Runtime_Access.thy ===== *)
theory Runtime_Access
  imports Runtime_Accounting
begin

text \<open>
  Authentication attempts and access sessions in the runtime of \<open>switchlab/engine.py\<close>: the captures
  that make a pending attempt current or stale, the 802.1X counters of a port, the end of a session,
  the start of an attempt with its guards, and the deadlines that end or renew a session.
\<close>

subsection \<open>Port counters of 802.1X\<close>

definition fresh_pae :: Runtime_State.pae_port where
  "fresh_pae = \<lparr>pae_counters = replicate 8 0, pae_diagnostics = replicate 4 0, precise = True,
     pae_version = None, pae_last_version = None, pae_last_source = None,
     pae_port_state = Some 2, pae_port_backend = Some 6\<rparr>"

definition pae_of :: "runtime \<Rightarrow> uid \<Rightarrow> Runtime_State.pae_port" where
  "pae_of s pid = (case map_of (pae s) pid of None \<Rightarrow> fresh_pae | Some p \<Rightarrow> p)"

definition with_pae ::
  "uid \<Rightarrow> (Runtime_State.pae_port \<Rightarrow> Runtime_State.pae_port) \<Rightarrow> runtime \<Rightarrow> runtime" where
  \<comment> \<open>an update of \<open>self.pae_port(pid)\<close>, which inserts a fresh entry first\<close>
  "with_pae pid f s = s\<lparr>pae := put pid (f (pae_of s pid)) (pae s)\<rparr>"

definition set_port_state :: "uid \<Rightarrow> int option \<Rightarrow> int option \<Rightarrow> runtime \<Rightarrow> runtime" where
  "set_port_state pid st backend s =
     with_pae pid (\<lambda>p. p\<lparr>pae_port_state := st, pae_port_backend := backend\<rparr>) s"

definition retire_authentication :: "subject \<Rightarrow> runtime \<Rightarrow> runtime" where
  "retire_authentication key s =
     (case map_of (radius_attempts s) key of None \<Rightarrow> s
      | Some a \<Rightarrow>
          let s = (if at_method a \<noteq> By_mab then with_pae (fst key) (\<lambda>p. p\<lparr>precise := False\<rparr>) s else s)
          in s\<lparr>radius_attempts := drop_key key (radius_attempts s)\<rparr>)"

subsection \<open>Captures\<close>

definition sources_at :: "runtime \<Rightarrow> uid \<Rightarrow> pystr \<Rightarrow> (uid \<times> uid \<times> source) list" where
  "sources_at s pid address =
     concat (map (\<lambda>eid. map (\<lambda>src. (eid, src_id src, src))
       (filter (\<lambda>src. src_mac src = address) (endpoint_sources s eid))) (sort (attached s pid)))"

definition unlabelled :: "radius_server \<Rightarrow> radius_server" where
  "unlabelled r = r\<lparr>rs_label := []\<rparr>"

definition captured_settings :: "runtime \<Rightarrow> uid list \<Rightarrow> radius_settings" where
  \<comment> \<open>the options and servers, without labels, and the referenced materials; the name stands for an
     absent identifier\<close>
  "captured_settings s ids =
     (let r = radius (cfg s)
      in r\<lparr>nas_identifier := Some (case nas_identifier r of None \<Rightarrow> sw_name (cfg_switch (cfg s)) | Some i \<Rightarrow> i),
           servers := map unlabelled (servers r),
           materials := sort_key fst (map (\<lambda>(i, m). (i, m\<lparr>m_label := []\<rparr>))
             (filter (\<lambda>(i, _). i \<in> set ids) (materials r))),
           templates := [], accounting := default_accounting, dynamic_authorization := default_dynamic\<rparr>)"

definition material_ids :: "source \<Rightarrow> uid list" where
  "material_ids src = (case supplicant src of None \<Rightarrow> []
     | Some p \<Rightarrow> filter (\<lambda>i. i \<noteq> [])
         (trust_id p # (case client_identity_id p of None \<Rightarrow> [] | Some i \<Rightarrow> [i])))"

definition port_capture ::
  "runtime \<Rightarrow> port \<Rightarrow> (uid \<times> uid \<times> source) list \<Rightarrow> (uid \<times> subject \<times> uid \<times> uid \<times> uid) option \<Rightarrow> capture" where
  "port_capture s p srcs owner =
     \<lparr>cp_port_name = p_name p, cp_authentication = authentication p, cp_forbidden = sort (forbidden p),
      cp_sources = srcs,
      cp_settings = captured_settings s (concat (map (\<lambda>(_, _, src). material_ids src) srcs)),
      cp_session = owner\<rparr>"

definition authentication_context :: "runtime \<Rightarrow> subject \<Rightarrow> capture option" where
  "authentication_context s key = (case key of (pid, address) \<Rightarrow>
     (case map_of (ports (cfg s)) pid of None \<Rightarrow> None
      | Some p \<Rightarrow>
          if \<not> up s pid \<or> pa_control (authentication p) \<noteq> Auto then None
          else let srcs = sources_at s pid address
            in if srcs = [] then None
               else let srcs = (if pa_method (authentication p) = Mab
                       then map (\<lambda>(e, i, src). (e, i, src\<lparr>supplicant := None\<rparr>)) srcs else srcs)
                 in Some (port_capture s p srcs None)))"

definition session_authentication_context :: "runtime \<Rightarrow> subject \<Rightarrow> capture option" where
  "session_authentication_context s key =
     (case (map_of (radius_sessions s) key, map_of (ports (cfg s)) (fst key)) of
        (Some se, Some p) \<Rightarrow>
          if se_method se \<noteq> By_mab \<or> \<not> up s (fst key) \<or> pa_control (authentication p) \<noteq> Auto \<or>
             pa_method (authentication p) = Dot1x then None
          else Some (port_capture s p []
            (Some (epoch s, key, se_id se, grant_generation se, observation_generation se)))
      | _ \<Rightarrow> None)"

definition current_context :: "runtime \<Rightarrow> subject \<Rightarrow> attempt \<Rightarrow> capture option" where
  "current_context s key a =
     (if session_owned a then session_authentication_context s key else authentication_context s key)"

definition current_attempt :: "runtime \<Rightarrow> subject \<Rightarrow> uid \<Rightarrow> attempt option" where
  "current_attempt s key ident =
     (case map_of (radius_attempts s) key of None \<Rightarrow> None
      | Some a \<Rightarrow>
          let session = map_of (radius_sessions s) key
          in if at_id a \<noteq> ident \<or> at_epoch a \<noteq> epoch s \<or> current_context s key a \<noteq> Some (at_context a) \<or>
                map_option se_id session \<noteq> prior_session a \<or>
                map_option grant_generation session \<noteq> prior_grant a
             then None else Some a)"

subsection \<open>Observed EAPOL frames\<close>

record pae_progress =
  pp_port :: Runtime_State.pae_port
  pp_state :: "int option"
  pp_backend :: "int option"

definition bump :: "nat \<Rightarrow> int list \<Rightarrow> int list" where
  "bump i xs = xs[i := xs ! i + 1]"

definition observe_frame :: "pae_progress \<Rightarrow> bytes \<Rightarrow> pae_progress" where
  \<comment> \<open>a frame as the helper reports it: direction, version, kind, code, identifier, method, the source in 8..13\<close>
  "observe_frame d e =
     (let p = (pp_port d)\<lparr>pae_version := Some (uint (e ! 1))\<rparr>
      in if uint (e ! 0) = 1 then
           let p = p\<lparr>pae_counters := bump 0 (pae_counters p), pae_last_version := Some (uint (e ! 1)),
                     pae_last_source := Some (slice 8 14 e)\<rparr>
           in if uint (e ! 2) = 1 then d\<lparr>pp_port := p\<lparr>pae_counters := bump 2 (pae_counters p)\<rparr>\<rparr>
              else if uint (e ! 2) = 2 then d\<lparr>pp_port := p\<lparr>pae_counters := bump 3 (pae_counters p)\<rparr>\<rparr>
              else if uint (e ! 2) = 0 \<and> uint (e ! 3) = 2 then
                let p = p\<lparr>pae_counters := bump (if uint (e ! 5) = 1 then 4 else 5) (pae_counters p)\<rparr>
                in if uint (e ! 5) = 1 \<and> pp_state d = Some 3
                   then \<lparr>pp_port = p\<lparr>pae_diagnostics := bump 0 (pae_diagnostics p)\<rparr>,
                         pp_state = Some 4, pp_backend = Some 2\<rparr>
                   else d\<lparr>pp_port := p, pp_backend := Some 2\<rparr>
              else d\<lparr>pp_port := p\<rparr>
         else
           let p = p\<lparr>pae_counters := bump 1 (pae_counters p)\<rparr>
           in if uint (e ! 2) = 0 \<and> uint (e ! 3) = 1
              then d\<lparr>pp_port := p\<lparr>pae_counters := bump (if uint (e ! 5) = 1 then 6 else 7) (pae_counters p)\<rparr>,
                     pp_backend := Some 1\<rparr>
              else d\<lparr>pp_port := p\<rparr>)"

definition pae_observe :: "subject \<Rightarrow> uid \<Rightarrow> bytes list \<Rightarrow> runtime \<Rightarrow> runtime \<times> bool" where
  "pae_observe key ident frames s =
     (case current_attempt s key ident of None \<Rightarrow> (s, False)
      | Some a \<Rightarrow>
          if at_method a = By_mab then (s, False)
          else let d = foldl observe_frame
                 \<lparr>pp_port = pae_of s (fst key), pp_state = pae_state a, pp_backend = pae_backend a\<rparr> frames;
                   s = with_pae (fst key) (\<lambda>_. pp_port d) s;
                   s = s\<lparr>radius_attempts := put key (a\<lparr>pae_state := pp_state d, pae_backend := pp_backend d\<rparr>)
                         (radius_attempts s)\<rparr>;
                   s = (if \<not> multi_auth s (fst key) then set_port_state (fst key) (pp_state d) (pp_backend d) s
                        else s)
               in (s, True))"

definition finished_states :: "(string \<times> nat \<times> int \<times> int) list" where
  "finished_states = [(''success'', 1, 5, 3), (''reject'', 3, 7, 4), (''timeout'', 2, 6, 5)]"

definition pae_finish :: "attempt \<Rightarrow> string \<Rightarrow> runtime \<Rightarrow> runtime" where
  "pae_finish a outcome s =
     (if at_method a = By_mab then s
      else let pid = at_port a;
               (s, st, backend) =
                 (case (if pae_state a = Some 4 then map_of finished_states outcome else None) of
                    Some (i, st, backend) \<Rightarrow>
                      (with_pae pid (\<lambda>p. p\<lparr>pae_diagnostics := bump i (pae_diagnostics p)\<rparr>) s, Some st, Some backend)
                  | None \<Rightarrow> (with_pae pid (\<lambda>p. p) s,
                      if outcome = ''local'' then (None, None) else (pae_state a, pae_backend a)))
           in if \<not> multi_auth s pid then set_port_state pid st backend s else s)"

subsection \<open>The end of a session\<close>

definition end_causes :: "(string \<times> int) list" where
  "end_causes =
     [(''lost-carrier'', 2), (''idle-timeout'', 4), (''session-timeout'', 5),
      (''administrative-reset'', 6), (''configuration-change'', 6), (''manual-restart'', 6),
      (''vlan-deleted'', 6), (''vlan-forbidden'', 6), (''reauthentication-policy-change'', 15),
      (''supplicant-restart'', 19), (''no-supplicant'', 20), (''reauthentication-configuration-error'', 20),
      (''renewal-work-limit'', 20), (''port-initialized'', 21), (''port-disabled'', 22),
      (''management-reboot'', 7), (''application-shutdown'', 11)]"

definition end_cause :: "access_session \<Rightarrow> string \<Rightarrow> int option \<Rightarrow> int" where
  "end_cause se reason cause =
     (case cause of Some c \<Rightarrow> c
      | None \<Rightarrow> (case map_of end_causes reason of Some c \<Rightarrow> c
          | None \<Rightarrow> if renewal_started_ms se \<noteq> None then 20 else 10))"

definition pae_causes :: "(int \<times> int) list" where
  "pae_causes = [(1, 1), (2, 2), (19, 3), (20, 4), (21, 6), (22, 7)]"

definition no_status :: status where
  \<comment> \<open>the empty dict\<close>
  "no_status = \<lparr>ss_status = [], ss_reason = None, ss_method = None, ss_context = None, ss_attempt = None,
     ss_session = None, ss_reauth_session = None, retry_at_ms = None, discovery_due_ms = None,
     ss_nas_code = None, ss_response = None\<rparr>"

definition put_status :: "subject \<Rightarrow> status \<Rightarrow> runtime \<Rightarrow> runtime" where
  "put_status key st s = s\<lparr>radius_status := put key st (radius_status s)\<rparr>"

definition status_of :: "runtime \<Rightarrow> subject \<Rightarrow> status" where
  "status_of s key = (case map_of (radius_status s) key of None \<Rightarrow> no_status | Some st \<Rightarrow> st)"

definition ended_row :: "runtime \<Rightarrow> access_session \<Rightarrow> fdb_row \<Rightarrow> bool" where
  "ended_row s se row \<longleftrightarrow> f_port row = se_port se \<and>
     (pa_host_mode (authentication (the_port s (se_port se))) = Multi_host \<or> f_mac row = se_mac se)"

definition note_last_session :: "access_session \<Rightarrow> int \<Rightarrow> runtime \<Rightarrow> runtime" where
  "note_last_session se cause s =
     (if multi_auth s (se_port se) then s
      else let pae_cause = (if cause = 6 \<and>
                    pa_control (authentication (the_port s (se_port se))) = Force_unauthorized
                  then Some 5 else map_of pae_causes cause)
        in s\<lparr>last_auth_sessions := put (se_port se) \<lparr>la_id = se_id se, la_octets = in_octets se,
              la_packets = in_packets se, la_started = started_ms se, la_ended = sim_ms s,
              la_cause = pae_cause\<rparr> (last_auth_sessions s)\<rparr>)"

definition retire_renewal :: "subject \<Rightarrow> access_session \<Rightarrow> runtime \<Rightarrow> runtime" where
  \<comment> \<open>a terminated grant cannot be revived by its pending reauthentication\<close>
  "retire_renewal key se s =
     (case map_of (radius_attempts s) key of None \<Rightarrow> s
      | Some a \<Rightarrow> if prior_session a = Some (se_id se) then retire_authentication key s else s)"

definition end_session :: "subject \<Rightarrow> string \<Rightarrow> int option \<Rightarrow> int option \<Rightarrow> runtime \<Rightarrow> runtime" where
  "end_session key reason cause effective_vid s =
     (case map_of (radius_sessions s) key of None \<Rightarrow> s
      | Some se \<Rightarrow>
          let s = s\<lparr>radius_sessions := drop_key key (radius_sessions s)\<rparr>;
              cause = end_cause se reason cause;
              s = queue_accounting 2 (Some se) (Some cause) (Some reason) False effective_vid s;
              s = (if se_method se \<noteq> By_mab \<and> cause \<in> {4, 5, 6, 9, 10}
                   then set_port_state (se_port se) None (Some 6) s else s);
              s = note_last_session se cause s;
              s = retire_renewal key se s;
              s = s\<lparr>fdb := filter (\<lambda>(_, row). \<not> ended_row s se row) (fdb s)\<rparr>;
              s = put_status key (no_status\<lparr>ss_status := ''ended'', ss_reason := Some reason,
                    ss_session := Some (se_id se)\<rparr>) s
          in event ''authentication-ended''
               [(''port_id'', JText (se_port se)), (''mac'', JText (se_mac se)),
                (''session_id'', JText (se_id se)), (''reason'', JName reason)] s)"

end
