(* ===== verification/Runtime_Sessions.thy ===== *)
theory Runtime_Sessions
  imports Runtime_Access "HOL-Library.Product_Lexorder"
begin

text \<open>
  The start of an authentication attempt and everything that decides on one in the runtime of
  \<open>switchlab/engine.py\<close>: \<open>begin_authentication\<close> with the renewal budget, the candidates of the
  discovery loop, the deadlines of sessions, and the reconciliation after a configuration change. An
  operation that can raise \<open>CommandError\<close> returns a sum; it raises before it changes anything.
\<close>

subsection \<open>The renewal budget\<close>

definition reach_time :: "int \<Rightarrow> runtime \<Rightarrow> runtime" where
  "reach_time t s =
     (if sim_ms s < t then s\<lparr>renewal_budget := [], renewal_budget_time := t, sim_ms := t\<rparr>
      else s\<lparr>sim_ms := t\<rparr>)"

definition failed_retry :: "runtime \<Rightarrow> int" where
  "failed_retry s = sim_ms s + failed_cycle_retry_seconds (radius (cfg s)) * 1000"

definition discovery_end :: "runtime \<Rightarrow> int" where
  "discovery_end s = sim_ms s + discovery_seconds (radius (cfg s)) * 1000"

definition guard_advance :: "runtime \<Rightarrow> runtime" where
  "guard_advance s =
     (case advance_op s of None \<Rightarrow> s
      | Some op \<Rightarrow> if ad_status op = ''waiting''
          then s\<lparr>advance_op := Some (op\<lparr>ad_status := ''failed-on-guard'', ad_reached_ms := sim_ms s,
                 ad_waiting_reason := None\<rparr>)\<rparr> else s)"

definition refuse_renewal :: "subject \<Rightarrow> runtime \<Rightarrow> runtime" where
  "refuse_renewal key s =
     (let s = end_session key ''renewal-work-limit'' None None s;
          s = retire_authentication key s;
          s = put_status key (no_status\<lparr>ss_status := ''failed'', ss_reason := Some ''renewal-work-limit'',
                ss_context := authentication_context s key, retry_at_ms := Some (failed_retry s)\<rparr>) s;
          s = guard_advance s
      in event ''authentication-work-limit'' [(''port_id'', JText (fst key)), (''mac'', JText (snd key))] s)"

definition reserve_renewal :: "subject \<Rightarrow> runtime \<Rightarrow> runtime \<times> bool" where
  "reserve_renewal key s =
     (let s = (if renewal_budget_time s \<noteq> sim_ms s
               then s\<lparr>renewal_budget := [], renewal_budget_time := sim_ms s\<rparr> else s);
          count = (case map_of (renewal_budget s) key of None \<Rightarrow> 0 | Some n \<Rightarrow> n)
      in if 64 \<le> count \<or> (\<not> has (renewal_budget s) key \<and>
            source_limit (cfg_switch (cfg s)) \<le> int (length (renewal_budget s)))
         then (refuse_renewal key s, False)
         else (s\<lparr>renewal_budget := put key (count + 1) (renewal_budget s)\<rparr>, True))"

subsection \<open>Beginning an attempt\<close>

datatype begun = Attempting uid | Waiting | Blocked string | Not_accepted string

definition utf8_octets :: "pystr \<Rightarrow> bytes" where
  \<comment> \<open>\<open>encode()\<close> of a spelling of a MAC address or of an identity, both validated as UTF-8\<close>
  "utf8_octets t = (case utf8_encode t of Some b \<Rightarrow> b | None \<Rightarrow> [])"

definition other_subject :: "runtime \<Rightarrow> subject \<Rightarrow> bool" where
  \<comment> \<open>another subject of the same port has an attempt or a session\<close>
  "other_subject s key \<longleftrightarrow>
     list_ex (\<lambda>other. fst other = fst key \<and> other \<noteq> key) (keys (radius_attempts s) @ keys (radius_sessions s))"

definition profiles_of :: "runtime \<Rightarrow> subject \<Rightarrow> supplicant_profile list" where
  "profiles_of s key =
     present_values (map supplicant (filter (\<lambda>src. src_mac src = snd key)
       (concat (map (endpoint_sources s) (attached s (fst key))))))"

definition block :: "subject \<Rightarrow> string \<Rightarrow> capture \<Rightarrow> bool \<Rightarrow> runtime \<Rightarrow> runtime" where
  \<comment> \<open>a repeated refusal for the same reason is not a new event\<close>
  "block key reason ctx again s =
     (let s = put_status key (no_status\<lparr>ss_status := ''blocked'', ss_reason := Some reason,
                ss_context := Some ctx\<rparr>) s
      in if again then s
         else event ''authentication-blocked'' [(''port_id'', JText (fst key)), (''mac'', JText (snd key)),
                (''reason'', JName reason)] s)"

definition discover :: "subject \<Rightarrow> capture \<Rightarrow> runtime \<Rightarrow> runtime" where
  "discover key ctx s =
     (let previous = status_of s key; a = authentication (the_port s (fst key))
      in if ss_status previous \<noteq> ''discovering'' \<or> ss_context previous \<noteq> Some ctx then
           event ''authentication-discovery'' [(''port_id'', JText (fst key)), (''mac'', JText (snd key))]
             (put_status key (no_status\<lparr>ss_status := ''discovering'', ss_method := Some ''dot1x'',
                ss_context := Some ctx, discovery_due_ms := Some (discovery_end s)\<rparr>) s)
         else if the (discovery_due_ms previous) \<le> sim_ms s then
           let fallback = pa_method a = Dot1x_mab \<and> fallback_no_supplicant a
           in event ''authentication-no-supplicant'' [(''port_id'', JText (fst key)), (''mac'', JText (snd key)),
                (''mab_fallback'', JBool fallback)]
                (put_status key (no_status\<lparr>
                   ss_status := (if fallback then ''waiting-activity'' else ''failed''),
                   ss_reason := Some ''no-supplicant'',
                   ss_method := Some (if fallback then ''mab'' else ''dot1x''), ss_context := Some ctx,
                   retry_at_ms := Some (if fallback then sim_ms s else failed_retry s)\<rparr>) s)
         else s)"

definition auth_of_eap :: "eap_method \<Rightarrow> auth_method" where
  "auth_of_eap m = (case m of Tls \<Rightarrow> By_tls | Peap \<Rightarrow> By_peap)"

fun auth_name :: "auth_method \<Rightarrow> string" where
  "auth_name By_tls = ''tls''"
| "auth_name By_peap = ''peap''"
| "auth_name By_mab = ''mab''"

definition new_attempt ::
  "subject \<Rightarrow> capture \<Rightarrow> auth_method \<Rightarrow> bytes \<Rightarrow> nas_identity \<Rightarrow> bool \<Rightarrow> bool \<Rightarrow>
     access_session option \<Rightarrow> runtime \<Rightarrow> attempt \<times> runtime" where
  "new_attempt key ctx m username nas owned automatic prior s =
     (let (ident, s) = draw s;
          (session, s) = (case prior of Some se \<Rightarrow> (se_id se, s) | None \<Rightarrow> draw s)
      in (\<lparr>at_id = ident, at_session = session, at_port = fst key, at_mac = snd key, at_epoch = epoch s,
           at_context = ctx, at_method = m,
           at_state = (case prior of None \<Rightarrow> None
             | Some se \<Rightarrow> if termination_action (se_policy se) = 1 then au_state (se_policy se) else None),
           prior_session = map_option se_id prior, at_nas = Some nas, session_owned = owned,
           automatic_renewal = automatic, prior_grant = map_option grant_generation prior,
           at_username = Some username,
           state_server = (case prior of None \<Rightarrow> None | Some se \<Rightarrow> auth_server se),
           state_signature = (case prior of None \<Rightarrow> None | Some se \<Rightarrow> auth_server_signature se),
           pae_state = (if m = By_mab then None else Some 3),
           pae_backend = (if m = By_mab then None else Some 6)\<rparr>, s))"

definition start_attempt ::
  "subject \<Rightarrow> capture \<Rightarrow> auth_method \<Rightarrow> bytes \<Rightarrow> bool \<Rightarrow> bool \<Rightarrow> access_session option \<Rightarrow>
     runtime \<Rightarrow> command_error + (runtime \<times> begun)" where
  "start_attempt key ctx m username owned automatic prior s =
     (case resolve_nas_identity (cfg s) of
        Inl _ \<Rightarrow> Inl (Command_error 422 ''Configure a representable explicit NAS identifier for RADIUS'')
      | Inr nas \<Rightarrow>
          let (s, reserved) = (if automatic then reserve_renewal key s else (s, True))
          in if \<not> reserved then Inr (s, Blocked ''renewal-work-limit'')
             else
               let (a, s) = new_attempt key ctx m username nas owned automatic prior s;
                   s = (if m \<noteq> By_mab \<and> \<not> multi_auth s (fst key)
                        then set_port_state (fst key) (Some 3) (Some 6) s else s);
                   s = s\<lparr>radius_attempts := put key a (radius_attempts s)\<rparr>;
                   s = put_status key (no_status\<lparr>ss_status := ''pending'', ss_method := Some (auth_name m),
                         ss_attempt := Some (at_id a)\<rparr>) s;
                   s = event ''authentication-started'' [(''port_id'', JText (fst key)), (''mac'', JText (snd key)),
                         (''attempt_id'', JText (at_id a)), (''method'', JName (auth_name m))] s
               in Inr (s, Attempting (at_id a)))"

definition begin_subject ::
  "subject \<Rightarrow> capture \<Rightarrow> bool \<Rightarrow> bool \<Rightarrow> bool \<Rightarrow> runtime \<Rightarrow> command_error + (runtime \<times> begun)" where
  \<comment> \<open>the choice of the method\<close>
  "begin_subject key ctx owned mab_trigger automatic s =
     (let a = authentication (the_port s (fst key)); prior = map_of (radius_sessions s) key;
          previous = status_of s key
      in if pa_method a = Mab \<or> mab_trigger then
           if pa_method a = Dot1x then Inl (Command_error 409 ''This port does not permit MAB'')
           else if \<not> mab_trigger \<and> prior = None then
             Inr (put_status key (no_status\<lparr>ss_status := ''waiting-activity'',
                    ss_method := Some ''mab'', ss_context := Some ctx\<rparr>) s, Waiting)
           else start_attempt key ctx By_mab
                  (utf8_octets (format_station (mab_case (radius (cfg s)))
                     (mab_separator (radius (cfg s))) (snd key))) owned automatic prior s
         else (case profiles_of s key of
             [] \<Rightarrow> Inr (discover key ctx s, Waiting)
           | first # rest \<Rightarrow>
               if list_ex (\<lambda>q. q \<noteq> first) rest then
                 Inr (block key ''profile-conflict'' ctx
                        (ss_reason previous = Some ''profile-conflict'' \<and> ss_context previous = Some ctx) s,
                      Blocked ''profile-conflict'')
               else start_attempt key ctx (auth_of_eap (sp_method first))
                      (utf8_octets (sp_identity first)) owned automatic prior s))"

definition renews_owned :: "subject \<Rightarrow> bool \<Rightarrow> runtime \<Rightarrow> bool" where
  \<comment> \<open>a MAB session whose source has left may be renewed on its own\<close>
  "renews_owned key renewing s \<longleftrightarrow> renewing \<and> authentication_context s key = None \<and>
     (case map_of (radius_sessions s) key of None \<Rightarrow> False | Some se \<Rightarrow> se_method se = By_mab)"

definition begin_authentication ::
  "subject \<Rightarrow> bool \<Rightarrow> bool \<Rightarrow> bool \<Rightarrow> runtime \<Rightarrow> command_error + (runtime \<times> begun)" where
  "begin_authentication key mab_trigger automatic renewal s =
     (let owned = renews_owned key (automatic \<or> renewal) s;
          ctx = (if owned then session_authentication_context s key else authentication_context s key)
      in case ctx of
           None \<Rightarrow> Inl (Command_error 409 ''No current automatic authentication subject'')
         | Some ctx \<Rightarrow>
             (case map_of (radius_attempts s) key of
                Some a \<Rightarrow> Inr (s, Attempting (at_id a))
              | None \<Rightarrow>
                  if \<not> multi_auth s (fst key) \<and> other_subject s key then
                    Inr (block key ''host-mode-limit'' ctx
                           (ss_reason (status_of s key) = Some ''host-mode-limit'') s, Blocked ''host-mode-limit'')
                  else begin_subject key ctx owned (owned \<or> mab_trigger) automatic s))"

subsection \<open>Candidates of the discovery loop\<close>

definition auto_subjects :: "runtime \<Rightarrow> subject list" where
  "auto_subjects s =
     sort (remdups (concat (map (\<lambda>(eid, pid).
       if up s pid \<and> pa_control (authentication (the_port s pid)) = Auto \<and>
          pa_method (authentication (the_port s pid)) \<noteq> Mab
       then map (\<lambda>src. (pid, src_mac src)) (endpoint_sources s eid) else [])
       (attachments (cfg s)))))"

definition optional_time :: "int option \<Rightarrow> int" where
  "optional_time t = (case t of None \<Rightarrow> 0 | Some n \<Rightarrow> n)"

definition postponed :: "runtime \<Rightarrow> subject \<Rightarrow> bool" where
  \<comment> \<open>the last outcome of an unchanged subject still stands\<close>
  "postponed s key =
     (let previous = status_of s key
      in ss_context previous = authentication_context s key \<and>
         (ss_status previous = ''waiting-activity'' \<or> ss_reason previous = Some ''profile-conflict'' \<or>
          (ss_reason previous = Some ''host-mode-limit'' \<and> other_subject s key) \<or>
          sim_ms s < max (optional_time (retry_at_ms previous)) (optional_time (discovery_due_ms previous))))"

definition candidate :: "runtime \<Rightarrow> subject \<Rightarrow> bool" where
  "candidate s key \<longleftrightarrow> \<not> has (radius_attempts s) key \<and> session_of s (fst key) (snd key) = None \<and>
     \<not> postponed s key"

definition prepare_subject :: "subject \<Rightarrow> runtime \<Rightarrow> runtime" where
  "prepare_subject key s =
     (let ctx = authentication_context s key
      in case begin_authentication key False False False s of
           Inr (s, _) \<Rightarrow> s
         | Inl (Command_error code _) \<Rightarrow>
             put_status key (no_status\<lparr>ss_status := ''blocked'',
               ss_reason := Some (if code = 422 then ''nas-identifier-override-required''
                                  else ''local-configuration-error''),
               ss_context := ctx, retry_at_ms := Some (failed_retry s)\<rparr>) s)"

fun prepare_loop :: "subject list \<Rightarrow> runtime \<Rightarrow> runtime" where
  "prepare_loop [] s = s"
| "prepare_loop (key # rest) s =
     (if \<not> candidate s key then prepare_loop rest s
      else if 8 \<le> length (radius_attempts s) then s
      else prepare_loop rest (prepare_subject key s))"

definition prepare_authentication :: "runtime \<Rightarrow> runtime" where
  "prepare_authentication s = prepare_loop (auto_subjects s) s"

definition retry_times :: "runtime \<Rightarrow> subject \<times> status \<Rightarrow> int list" where
  "retry_times s row = (case row of (key, st) \<Rightarrow>
     if authentication_context s key = None \<or> session_of s (fst key) (snd key) \<noteq> None then []
     else filter (\<lambda>t. sim_ms s < t \<and> pa_method (authentication (the_port s (fst key))) \<noteq> Mab)
       (present_values [discovery_due_ms st, retry_at_ms st]))"

definition authentication_retry :: "runtime \<Rightarrow> int option" where
  "authentication_retry s = least (concat (map (retry_times s) (radius_status s)))"

subsection \<open>Deadlines of sessions\<close>

definition idle_seconds :: "runtime \<Rightarrow> access_session \<Rightarrow> int option" where
  "idle_seconds s se =
     (case idle_timeout (se_policy se) of Some n \<Rightarrow> Some n
      | None \<Rightarrow> if inactivity_seconds (radius (cfg s)) \<noteq> 0 then Some (inactivity_seconds (radius (cfg s))) else None)"

definition activity_ms :: "access_session \<Rightarrow> int" where
  "activity_ms se = (case last_activity_ms se of Some t \<Rightarrow> t | None \<Rightarrow> idle_origin_ms se)"

definition idle_deadline :: "runtime \<Rightarrow> access_session \<Rightarrow> int option" where
  "idle_deadline s se = map_option (\<lambda>n. activity_ms se + n * 1000) (idle_seconds s se)"

definition termination_deadline :: "access_session \<Rightarrow> int option" where
  "termination_deadline se = (if termination_action (se_policy se) = 0 then lease_deadline_ms se else None)"

definition renewal_deadline :: "runtime \<Rightarrow> access_session \<Rightarrow> int option" where
  "renewal_deadline s se =
     least (present_values
       [if termination_action (se_policy se) = 1 then lease_deadline_ms se else None,
        if session_timeout (se_policy se) = None \<and> reauthentication_seconds (radius (cfg s)) \<noteq> 0
        then Some (last_auth_ms se + reauthentication_seconds (radius (cfg s)) * 1000) else None])"

definition session_deadlines :: "runtime \<Rightarrow> access_session \<Rightarrow> int option \<times> int option \<times> int option" where
  "session_deadlines s se = (idle_deadline s se, termination_deadline se, renewal_deadline s se)"

definition session_times :: "runtime \<Rightarrow> subject \<times> access_session \<Rightarrow> int list" where
  "session_times s row = (case row of (key, se) \<Rightarrow>
     (case session_deadlines s se of (idle, termination, renewal) \<Rightarrow>
       present_values [idle, termination,
         if renewal_started_ms se = None then renewal else discovery_due_ms (status_of s key)]))"

definition next_session_deadline :: "runtime \<Rightarrow> int option" where
  "next_session_deadline s =
     map_option (max (sim_ms s)) (least (concat (map (session_times s) (radius_sessions s))))"

definition await_supplicant :: "subject \<Rightarrow> access_session \<Rightarrow> runtime \<Rightarrow> runtime" where
  "await_supplicant key se s =
     put_status key (no_status\<lparr>ss_status := ''discovering'', ss_method := Some ''dot1x'',
       ss_reason := Some ''required-reauthentication'', discovery_due_ms := Some (discovery_end s),
       ss_reauth_session := Some (se_id se)\<rparr>) s"

definition request_renewal :: "subject \<Rightarrow> bool \<Rightarrow> runtime \<Rightarrow> command_error + (runtime \<times> begun)" where
  "request_renewal key automatic s =
     (case map_of (radius_sessions s) key of
        None \<Rightarrow> Inr (s, Not_accepted ''session-ended'')
      | Some se \<Rightarrow>
          let se = se\<lparr>renewal_started_ms := Some (sim_ms s), renewal_automatic := automatic\<rparr>;
              s = put_session key se s
          in if authentication_context s key = None \<and> se_method se \<noteq> By_mab
             then Inr (await_supplicant key se s, Waiting)
             else begin_authentication key False automatic True s)"

definition due_at :: "runtime \<Rightarrow> int option \<Rightarrow> bool" where
  "due_at s t = (case t of None \<Rightarrow> False | Some d \<Rightarrow> d \<le> sim_ms s)"

definition expire_session :: "runtime \<Rightarrow> subject \<Rightarrow> runtime" where
  "expire_session s key =
     (case map_of (radius_sessions s) key of None \<Rightarrow> s
      | Some se \<Rightarrow>
          let reason = (if due_at s (idle_deadline s se) then Some ''idle-timeout''
                else if due_at s (termination_deadline se) then Some ''session-timeout'' else None)
          in case reason of None \<Rightarrow> s
             | Some reason \<Rightarrow>
                 let s = end_session key reason None None s
                 in put_status key (no_status\<lparr>ss_status := ''waiting-activity'', ss_method := Some ''configured'',
                      ss_reason := Some reason, ss_context := authentication_context s key\<rparr>) s)"

definition renew_now :: "subject \<Rightarrow> access_session \<Rightarrow> runtime \<Rightarrow> runtime" where
  \<comment> \<open>the renewal of a session is due and no discovery delays it\<close>
  "renew_now key se s =
     (if authentication_context s key = None \<and> se_method se \<noteq> By_mab then
        put_status key (no_status\<lparr>ss_status := ''failed'', ss_reason := Some ''no-supplicant'',
          retry_at_ms := Some (failed_retry s)\<rparr>) (end_session key ''no-supplicant'' None None s)
      else case begin_authentication key False (renewal_automatic se) True s of
        Inl _ \<Rightarrow>
          let s = end_session key ''reauthentication-configuration-error'' None None s
          in put_status key (no_status\<lparr>ss_status := ''failed'',
               ss_reason := Some ''reauthentication-configuration-error'',
               ss_context := authentication_context s key, retry_at_ms := Some (failed_retry s)\<rparr>) s
      | Inr (s, _) \<Rightarrow>
          let final = status_of s key
          in if has (radius_sessions s) key \<and> ss_status final \<in> {''failed'', ''waiting-activity''} then
               put_status key final
                 (end_session key (case ss_reason final of None \<Rightarrow> ''no-supplicant'' | Some r \<Rightarrow> r) None None s)
             else s)"

definition renew_session :: "runtime \<Rightarrow> subject \<Rightarrow> runtime" where
  "renew_session s key =
     (case map_of (radius_sessions s) key of None \<Rightarrow> s
      | Some se \<Rightarrow>
          if (renewal_started_ms se = None \<and> \<not> due_at s (renewal_deadline s se)) \<or> has (radius_attempts s) key
          then s
          else if renewal_started_ms se = None then
            let se = se\<lparr>renewal_started_ms := Some (sim_ms s), renewal_automatic := True\<rparr>;
                s = put_session key se s
            in if authentication_context s key = None \<and> se_method se \<noteq> By_mab
               then await_supplicant key se s else renew_now key se s
          else if sim_ms s < (case discovery_due_ms (status_of s key) of None \<Rightarrow> sim_ms s | Some t \<Rightarrow> t) then s
          else renew_now key se s)"

definition process_session_deadlines :: "runtime \<Rightarrow> runtime" where
  \<comment> \<open>terminations precede reauthentications\<close>
  "process_session_deadlines s =
     (let s = foldl expire_session s (keys (radius_sessions s))
      in foldl renew_session s (keys (radius_sessions s)))"

subsection \<open>After a configuration change\<close>

definition invalidated :: status where
  "invalidated = no_status\<lparr>ss_status := ''invalidated'', ss_reason := Some ''configuration-change''\<rparr>"

definition reconcile_attempt :: "runtime \<Rightarrow> runtime \<Rightarrow> subject \<Rightarrow> runtime" where
  "reconcile_attempt before s key =
     (case map_of (radius_attempts s) key of None \<Rightarrow> s
      | Some a \<Rightarrow>
          if at_epoch a \<noteq> epoch s \<or> current_context s key a \<noteq> Some (at_context a) \<or>
             set (keys (vlans (cfg before))) \<noteq> set (keys (vlans (cfg s))) then
            let s = put_status key invalidated (retire_authentication key s)
            in case map_of (radius_sessions s) key of None \<Rightarrow> s
               | Some se \<Rightarrow> put_session key (se\<lparr>renewal_started_ms := None\<rparr>) s
          else s)"

definition reconcile_status :: "runtime \<Rightarrow> subject \<Rightarrow> runtime" where
  "reconcile_status s key =
     (if ss_context (status_of s key) \<noteq> None \<and> ss_context (status_of s key) \<noteq> authentication_context s key
      then put_status key invalidated s else s)"

definition reconcile_reason :: "runtime \<Rightarrow> runtime \<Rightarrow> subject \<Rightarrow> access_session \<Rightarrow> int \<Rightarrow> string option" where
  "reconcile_reason before s key se old_vid =
     (let p = the_port s (fst key)
      in if \<not> admin_up p then Some ''port-disabled''
         else if \<not> up s (fst key) then Some ''lost-carrier''
         else if authentication p \<noteq> authentication (the_port before (fst key)) then Some ''administrative-reset''
         else if \<not> has (vlans (cfg s)) old_vid then Some ''vlan-deleted''
         else if session_vid s se \<in> set (forbidden p) then Some ''vlan-forbidden'' else None)"

definition reconcile_session :: "runtime \<Rightarrow> runtime \<Rightarrow> subject \<Rightarrow> runtime" where
  "reconcile_session before s key =
     (case map_of (radius_sessions s) key of None \<Rightarrow> s
      | Some se \<Rightarrow>
          let old_vid = (if au_source (se_policy se) = Port_default then pvid (the_port before (fst key))
                else au_vid (se_policy se))
          in case reconcile_reason before s key se old_vid of None \<Rightarrow> s
             | Some reason \<Rightarrow> end_session key reason None (Some old_vid) s)"

definition reconcile_authentication :: "runtime \<Rightarrow> runtime \<Rightarrow> runtime" where
  "reconcile_authentication before s =
     (let s = foldl (reconcile_attempt before) s (keys (radius_attempts s));
          s = foldl reconcile_status s (keys (radius_status s))
      in foldl (reconcile_session before) s (keys (radius_sessions s)))"

end
