(* ===== verification/Runtime_Traffic.thy ===== *)
theory Runtime_Traffic
  imports Runtime_Sessions
begin

text \<open>
  Simulated traffic and time in \<open>switchlab/engine.py\<close>: the jobs of the sources, one observed frame
  with admission and learning, aging, the clock loop \<open>advance\<close> and \<open>reset_operational\<close>. The heap of
  the loop is the list of its jobs in the order they leave it. The loop runs on fuel; without enough of
  it the result is \<open>None\<close>, and what is proved of it holds for every iteration.
\<close>

subsection \<open>Jobs\<close>

definition the_endpoint :: "runtime \<Rightarrow> uid \<Rightarrow> endpoint" where
  "the_endpoint s eid = the (map_of (endpoints (cfg s)) eid)"

definition new_job :: "runtime \<Rightarrow> bool \<Rightarrow> uid \<Rightarrow> uid \<Rightarrow> source \<Rightarrow> job" where
  "new_job s delay eid pid src =
     \<lparr>j_endpoint = eid, j_source = src_id src, j_port = pid, j_epoch = epoch s,
      j_endpoint_generation = the (map_of (egens s) eid), j_port_generation = the (map_of (pgens s) pid),
      j_mac = src_mac src, j_vid = tagged_vid (the_port s pid) src,
      due = sim_ms s + (if delay then initial_delay_ms src else interval_ms src)\<rparr>"

definition schedule :: "bool \<Rightarrow> runtime \<Rightarrow> uid \<Rightarrow> runtime" where
  "schedule delay s eid =
     (let s = s\<lparr>jobs := filter (\<lambda>((e, _), _). e \<noteq> eid) (jobs s)\<rparr>
      in case (map_of (endpoints (cfg s)) eid, map_of (attachments (cfg s)) eid) of
           (Some ep, Some pid) \<Rightarrow>
             if \<not> active ep \<or> \<not> up s pid then s
             else s\<lparr>jobs := foldl (\<lambda>d src. put (eid, src_id src) (new_job s delay eid pid src) d) (jobs s)
                    (sources ep)\<rparr>
         | _ \<Rightarrow> s)"

definition job_source :: "runtime \<Rightarrow> job \<Rightarrow> source option" where
  "job_source s j = List.find (\<lambda>src. src_id src = j_source j) (endpoint_sources s (j_endpoint j))"

definition valid_job :: "runtime \<Rightarrow> job \<Rightarrow> bool" where
  "valid_job s j =
     (case map_of (endpoints (cfg s)) (j_endpoint j) of None \<Rightarrow> False
      | Some ep \<Rightarrow>
          active ep \<and> map_of (attachments (cfg s)) (j_endpoint j) = Some (j_port j) \<and>
          (case job_source s j of None \<Rightarrow> False
           | Some src \<Rightarrow> up s (j_port j) \<and> epoch s = j_epoch j \<and>
               map_of (egens s) (j_endpoint j) = Some (j_endpoint_generation j) \<and>
               map_of (pgens s) (j_port j) = Some (j_port_generation j) \<and> src_mac src = j_mac j \<and>
               tagged_vid (the_port s (j_port j)) src = j_vid j))"

subsection \<open>One observed frame\<close>

definition session_row :: "runtime \<Rightarrow> uid \<Rightarrow> pystr \<Rightarrow> (subject \<times> access_session) option" where
  \<comment> \<open>the session object that \<open>session\<close> returns, with its key\<close>
  "session_row s pid address =
     (if pa_host_mode (authentication (the_port s pid)) = Multi_host
      then List.find (\<lambda>((p, _), _). p = pid) (radius_sessions s)
      else map_option (\<lambda>se. ((pid, address), se)) (map_of (radius_sessions s) (pid, address)))"

definition on_counters :: "uid \<Rightarrow> (port_counters \<Rightarrow> port_counters) \<Rightarrow> runtime \<Rightarrow> runtime" where
  "on_counters pid f s = s\<lparr>port_stats := put pid (f (the (map_of (port_stats s) pid))) (port_stats s)\<rparr>"

definition touch_session :: "subject \<Rightarrow> runtime \<Rightarrow> runtime" where
  \<comment> \<open>a frame of the session's address makes a session-owned renewal stale\<close>
  "touch_session key s =
     (case map_of (radius_sessions s) key of None \<Rightarrow> s
      | Some se \<Rightarrow>
          let (g, s) = draw s;
              se = se\<lparr>observation_generation := g\<rparr>;
              s = put_session key se s
          in case map_of (radius_attempts s) key of None \<Rightarrow> s
             | Some a \<Rightarrow> if session_owned a
                 then put_session key (se\<lparr>renewal_started_ms := None\<rparr>) (retire_authentication key s) else s)"

definition admission :: "runtime \<Rightarrow> job \<Rightarrow> source \<Rightarrow> (subject \<times> access_session) option \<Rightarrow> int option" where
  \<comment> \<open>the VLAN an admitted frame belongs to\<close>
  "admission s j src row =
     (let p = the_port s (j_port j);
          (v, allowed) = (case row of
             None \<Rightarrow> (j_vid j, pa_control (authentication p) = Force_authorized \<and> j_vid j \<in> set (admitted p))
           | Some (_, se) \<Rightarrow> (let w = session_vid s se in (w, tag src = Untagged \<or> tag src = Tag w)))
      in if \<not> allowed \<or> \<not> has (vlans (cfg s)) v \<or> v \<in> set (forbidden p) then None else Some v)"

definition trigger_authentication :: "job \<Rightarrow> (subject \<times> access_session) option \<Rightarrow> runtime \<Rightarrow> runtime" where
  "trigger_authentication j row s =
     (let p = the_port s (j_port j); key = (j_port j, j_mac j); st = status_of s key;
          mab = (pa_method (authentication p) = Mab)
      in if pa_control (authentication p) = Auto \<and> row = None \<and> length (radius_attempts s) < 8 \<and>
            (mab \<or> ss_status st = ''waiting-activity'') \<and> optional_time (retry_at_ms st) \<le> sim_ms s
         then (case begin_authentication key (mab \<or> ss_method st = Some ''mab'') False False s of
             Inr (s, _) \<Rightarrow> s
           | Inl _ \<Rightarrow> put_status key (no_status\<lparr>ss_status := ''blocked'',
               ss_reason := Some ''nas-identifier-override-required'', retry_at_ms := Some (failed_retry s)\<rparr>) s)
         else s)"

definition reject_frame :: "job \<Rightarrow> (subject \<times> access_session) option \<Rightarrow> runtime \<Rightarrow> runtime" where
  "reject_frame j row s =
     (let s = on_counters (j_port j) (\<lambda>c. c\<lparr>c_in_discards := c_in_discards c + 1\<rparr>) s;
          s = trigger_authentication j row s
      in if c_in_discards (the (map_of (port_stats s) (j_port j))) = 1
         then event ''admission-rejected'' [(''endpoint_id'', JText (j_endpoint j)), (''vid'', JInt (j_vid j)),
                (''port_id'', JText (j_port j))] s
         else s)"

definition learned_row :: "runtime \<Rightarrow> job \<Rightarrow> int \<Rightarrow> int \<Rightarrow> fdb_row" where
  "learned_row s j v fid =
     (let p = the_port s (j_port j)
      in \<lparr>f_fdb_id = fid, f_mac = j_mac j, f_vid = v, f_port = j_port j, f_bridge_port = bridge_port p,
          f_if_index = if_index p, last_seen_ms = sim_ms s,
          expires_at_ms = sim_ms s + aging_seconds (cfg_switch (cfg s)) * 1000\<rparr>)"

definition learn :: "job \<Rightarrow> int \<Rightarrow> runtime \<Rightarrow> runtime \<times> bool" where
  "learn j v s =
     (let fid = fdb_id (the (map_of (vlans (cfg s)) v));
          old = map_of (fdb s) (fid, j_mac j)
      in if old = None \<and> fdb_limit (cfg_switch (cfg s)) \<le> int (length (fdb s)) then
           let s = s\<lparr>learned_discards := learned_discards s + 1\<rparr>
           in (if learned_discards s = 1
               then event ''learning-capacity'' [(''limit'', JInt (fdb_limit (cfg_switch (cfg s))))] s else s, False)
         else
           let s = s\<lparr>fdb := put (fid, j_mac j) (learned_row s j v fid) (fdb s)\<rparr>
           in (if (case old of None \<Rightarrow> True | Some row \<Rightarrow> f_port row \<noteq> j_port j)
               then event (if old = None then ''mac-learn'' else ''mac-move'')
                      [(''mac'', JText (j_mac j)), (''vid'', JInt v), (''port_id'', JText (j_port j))] s
               else s, True))"

definition note_activity :: "source \<Rightarrow> (subject \<times> access_session) option \<Rightarrow> runtime \<Rightarrow> runtime" where
  "note_activity src row s =
     (case row of None \<Rightarrow> s
      | Some (key, se) \<Rightarrow> put_session key (se\<lparr>last_activity_ms := Some (sim_ms s),
          in_octets := in_octets se + octets src, in_packets := in_packets se + 1\<rparr>) s)"

definition observe :: "job \<Rightarrow> runtime \<Rightarrow> runtime \<times> bool" where
  "observe j s =
     (if \<not> valid_job s j
      then (event ''invalidated-work'' [(''endpoint_id'', JText (j_endpoint j))] s, False)
      else
        let src = the (job_source s j);
            s = touch_session (j_port j, j_mac j) s;
            s = on_counters (j_port j) (\<lambda>c. c\<lparr>c_in_octets := c_in_octets c + octets src\<rparr>) s;
            row = (if pa_control (authentication (the_port s (j_port j))) = Auto
                   then session_row s (j_port j) (j_mac j) else None)
        in case admission s j src row of
             None \<Rightarrow> (reject_frame j row s, False)
           | Some v \<Rightarrow>
               learn j v (note_activity src row
                 (on_counters (j_port j) (\<lambda>c. c\<lparr>c_in_ucast := c_in_ucast c + 1\<rparr>) s)))"

subsection \<open>Aging\<close>

definition expire_row :: "runtime \<Rightarrow> (int \<times> pystr) \<times> fdb_row \<Rightarrow> runtime" where
  "expire_row s r = (case r of (key, row) \<Rightarrow>
     if expires_at_ms row \<le> sim_ms s then
       event ''mac-age'' [(''mac'', JText (f_mac row)), (''vid'', JInt (f_vid row)), (''port_id'', JText (f_port row))]
         (s\<lparr>fdb := drop_key key (fdb s)\<rparr>)
     else s)"

definition expire :: "runtime \<Rightarrow> runtime" where
  "expire s = foldl expire_row s (fdb s)"

subsection \<open>The clock loop\<close>

definition estimated_work :: "int \<Rightarrow> runtime \<Rightarrow> int" where
  "estimated_work target s =
     sum_list (map (\<lambda>j. max 0 ((target - due j) div interval_ms (the (job_source s j)) + 1))
       (filter (valid_job s) (vals (jobs s)))) +
     sum_list (map (\<lambda>se. max 0 ((target - the (accounting_next_ms se)) div (accounting_interval se * 1000) + 1))
       (filter (\<lambda>se. accounting_next_ms se \<noteq> None) (vals (radius_sessions s))))"

definition job_order :: "job \<Rightarrow> int \<times> uid \<times> uid" where
  "job_order j = (due j, j_endpoint j, j_source j)"

definition next_deadline :: "job list \<Rightarrow> runtime \<Rightarrow> int option" where
  "next_deadline heap s =
     least (map due (take 1 heap) @ map expires_at_ms (vals (fdb s)) @
       present_values [authentication_retry s, next_session_deadline s, next_accounting_deadline s])"

fun work_loop :: "int \<Rightarrow> job list \<Rightarrow> job list \<Rightarrow> runtime \<Rightarrow> runtime \<times> job list \<times> bool" where
  \<comment> \<open>the jobs due at the deadline; one that is put back is due later, since an interval is positive\<close>
  "work_loop deadline [] heap s = (s, heap, True)"
| "work_loop deadline (j # rest) heap s =
     (let s = fst (observe j s);
          (s, heap) =
            (if valid_job s j then
               let following = j\<lparr>due := deadline + interval_ms (the (job_source s j))\<rparr>
               in (s\<lparr>jobs := put (j_endpoint j, j_source j) following (jobs s)\<rparr>,
                   insort_key job_order following heap)
             else (s, heap))
      in if radius_attempts s \<noteq> [] then (s, heap, False) else work_loop deadline rest heap s)"

datatype progress = Reached runtime | Pending runtime | More runtime "job list"

definition advance_iteration :: "int \<Rightarrow> runtime \<Rightarrow> job list \<Rightarrow> progress" where
  "advance_iteration target s heap =
     (case next_deadline heap s of
        None \<Rightarrow> Reached (reach_time target s)
      | Some deadline \<Rightarrow>
          if target < deadline then Reached (reach_time target s)
          else
            let s = prepare_authentication (expire (process_session_deadlines (reach_time deadline s)))
            in if radius_attempts s \<noteq> [] then Pending s
               else case work_loop deadline (takeWhile (\<lambda>j. due j = deadline) heap)
                      (dropWhile (\<lambda>j. due j = deadline) heap) s of
                 (s, heap, ended) \<Rightarrow> if \<not> ended then Pending s else More (accounting_tick s) heap)"

fun advance_loop :: "nat \<Rightarrow> int \<Rightarrow> runtime \<Rightarrow> job list \<Rightarrow> (runtime \<times> bool) option" where
  "advance_loop 0 target s heap = None"
| "advance_loop (Suc n) target s heap =
     (case advance_iteration target s heap of
        Reached s \<Rightarrow> Some (s, True)
      | Pending s \<Rightarrow> Some (s, False)
      | More s heap \<Rightarrow> advance_loop n target s heap)"

definition advance :: "nat \<Rightarrow> int \<Rightarrow> runtime \<Rightarrow> (command_error + runtime \<times> bool) option" where
  "advance fuel duration s =
     (let target = sim_ms s + duration
      in if 200000 < estimated_work target s
         then Some (Inl (Command_error 429
                ''Advance would exceed 200,000 observations/snapshots; use smaller steps''))
         else
           let s = prepare_authentication (process_session_deadlines s)
           in if radius_attempts s \<noteq> [] then Some (Inr (s, False))
              else map_option Inr (advance_loop fuel target s (sort_key job_order (vals (jobs s)))))"

subsection \<open>Reset\<close>

fun draw_each :: "'k list \<Rightarrow> runtime \<Rightarrow> ('k, uid) dict \<times> runtime" where
  "draw_each [] s = ([], s)"
| "draw_each (k # ks) s =
     (let (i, s) = draw s; (d, s) = draw_each ks s in ((k, i) # d, s))"

definition interrupt_advance :: "bool \<Rightarrow> runtime \<Rightarrow> runtime" where
  "interrupt_advance reboot s =
     (case advance_op s of None \<Rightarrow> s
      | Some op \<Rightarrow> if ad_status op = ''waiting''
          then s\<lparr>advance_op := Some (op\<lparr>ad_status := (if reboot then ''interrupted-on-boot''
                 else ''interrupted-on-reset''), ad_waiting_reason := None\<rparr>)\<rparr> else s)"

definition rebooted :: "runtime \<Rightarrow> runtime" where
  "rebooted s =
     (let s = s\<lparr>incarnation := epoch s, pae := [], last_auth_sessions := []\<rparr>;
          (a, s) = draw s;
          (gens, s) = draw_each (keys (credentials (cfg s))) s
      in s\<lparr>activation := a, credential_generations := gens, uptime_now := 0, uptime_epoch := 0,
           entity_last_change := 0, vlan_deletes := 0,
           vlan_times := map (\<lambda>v. (v, 0, 0)) (keys (vlans (cfg s)))\<rparr>)"

definition quiesced :: "bool \<Rightarrow> bool \<Rightarrow> runtime \<Rightarrow> runtime" where
  "quiesced reboot announce s =
     (let s = foldl (\<lambda>s key. end_session key (if reboot then ''management-reboot'' else ''administrative-reset'')
                None None s) s (keys (radius_sessions s));
          s = (if reboot \<and> announce
               then queue_accounting 8 None None (Some ''management-reboot'') False None s else s)
      in interrupt_advance reboot
           (cancel_outbox (if reboot then ''canceled-on-reboot'' else ''canceled-on-reset'') s))"

definition forget_work :: "runtime \<Rightarrow> runtime" where
  "forget_work s =
     (let (e, s) = draw s;
          s = s\<lparr>epoch := e, sim_ms := 0, fdb := [], jobs := []\<rparr>;
          s = foldl (\<lambda>s key. retire_authentication key s) s (keys (radius_attempts s))
      in s\<lparr>radius_sessions := [], radius_status := [], renewal_budget := [], renewal_budget_time := 0\<rparr>)"

definition recount :: "bool \<Rightarrow> runtime \<Rightarrow> runtime" where
  "recount reboot s =
     (let changed = (if reboot then 0 else uptime_now s);
          s = s\<lparr>learned_discards := 0,
                port_stats := map (\<lambda>pid. (pid, \<lparr>c_in_octets = 0, c_in_ucast = 0, c_in_discards = 0,
                  c_last_change = changed, c_discontinuity = changed\<rparr>)) (keys (ports (cfg s)))\<rparr>;
          (eg, s) = draw_each (keys (endpoints (cfg s))) s;
          (pg, s) = draw_each (keys (ports (cfg s))) s
      in s\<lparr>egens := eg, pgens := pg\<rparr>)"

definition reset_operational :: "bool \<Rightarrow> bool \<Rightarrow> runtime \<Rightarrow> runtime" where
  "reset_operational reboot announce s =
     (let s = forget_work (quiesced reboot announce s);
          s = recount reboot (if reboot then rebooted s else s)
      in foldl (schedule True) s (keys (endpoints (cfg s))))"

end
