(* ===== verification/Runtime_Invariant.thy ===== *)
theory Runtime_Invariant
  imports Runtime_Traffic
begin

text \<open>
  What every operation of the runtime is made of. A property of runtimes that the primitive updates
  keep (an event, a drawn identifier, the start or end of a session, a learned address, \<dots>) is kept by
  every operation of the engine: the interface \<open>runtime_invariant\<close> states the primitive updates with
  the guards under which the code performs them, and its lemmas cover the operations. The invariants
  of the program are instances.
\<close>

subsection \<open>The learned addresses are independent of what ends a session\<close>

named_theorems learned_apart "updates that commute with the table of learned addresses"

lemma port_detail_fdb: "port_detail (s\<lparr>fdb := g\<rparr>) f d = port_detail s f d"
  by (simp add: port_detail_def split: prod.split option.split)

lemma endpoint_detail_fdb: "endpoint_detail (s\<lparr>fdb := g\<rparr>) d = endpoint_detail s d"
  by (simp add: endpoint_detail_def Let_def split: option.split)

lemma new_event_fdb [learned_apart]: "new_event kind details (s\<lparr>fdb := g\<rparr>) = new_event kind details s"
  unfolding new_event_def port_detail_fdb endpoint_detail_fdb by simp

lemma event_fdb [learned_apart]: "event kind details (s\<lparr>fdb := g\<rparr>) = (event kind details s)\<lparr>fdb := g\<rparr>"
  by (simp add: event_def new_event_fdb)

lemma event_keeps_fdb [learned_apart]: "fdb (event kind details s) = fdb s" "cfg (event kind details s) = cfg s"
  by (simp_all add: event_def)

lemma accounting_drop_fdb [learned_apart]:
  "accounting_drop reason details (s\<lparr>fdb := g\<rparr>) = (accounting_drop reason details s)\<lparr>fdb := g\<rparr>"
  "fdb (accounting_drop reason details s) = fdb s" "cfg (accounting_drop reason details s) = cfg s"
proof -
  have swap: "s\<lparr>fdb := g, accounting_drops := ds\<rparr> = s\<lparr>accounting_drops := ds, fdb := g\<rparr>" for ds by simp
  show "accounting_drop reason details (s\<lparr>fdb := g\<rparr>) = (accounting_drop reason details s)\<lparr>fdb := g\<rparr>"
    by (simp add: accounting_drop_def Let_def swap event_fdb del: runtime.update_convs)
qed (simp_all add: accounting_drop_def Let_def event_keeps_fdb)

lemma session_vid_fdb: "session_vid (s\<lparr>fdb := g\<rparr>) se = session_vid s se"
  by (simp add: session_vid_def the_port_def split: vlan_source.split)

lemma accounting_values_fdb [learned_apart]:
  "accounting_values (s\<lparr>fdb := g\<rparr>) kind session cause v = accounting_values s kind session cause v"
proof -
  have usage: "usage_values (s\<lparr>fdb := g\<rparr>) se = usage_values s se" for se by (simp add: usage_values_def)
  have session: "session_values (s\<lparr>fdb := g\<rparr>) kind se cause v = session_values s kind se cause v" for se
    unfolding session_values_def session_vid_fdb usage by simp
  have "lifecycle_values (s\<lparr>fdb := g\<rparr>) = lifecycle_values s" by (simp add: lifecycle_values_def)
  then show ?thesis unfolding accounting_values_def session by (simp split: option.split)
qed

definition sequenced :: "runtime \<Rightarrow> runtime" where
  \<comment> \<open>a sequence number and an identifier are taken\<close>
  "sequenced s = s\<lparr>accounting_sequence := accounting_sequence s + 1, drawn := drawn s + 1\<rparr>"

definition candidate_record ::
  "int \<Rightarrow> access_session option \<Rightarrow> string option \<Rightarrow> bool \<Rightarrow> attribute list \<Rightarrow> runtime \<Rightarrow> accounting_record" where
  "candidate_record kind session reason tardy attrs s =
     new_accounting (s\<lparr>accounting_sequence := accounting_sequence s + 1\<rparr>) kind session reason tardy attrs"

lemma queue_accounting_cases:
  obtains (off) "queue_accounting kind session cause reason tardy v s = s"
    and "\<not> ac_enabled (accounting (radius (cfg s))) \<or> active_targets (accounting (radius (cfg s))) = []"
  | (bad) e where "accounting_values s kind session cause v = Inl e"
      "ac_enabled (accounting (radius (cfg s)))" "active_targets (accounting (radius (cfg s))) \<noteq> []"
      "queue_accounting kind session cause reason tardy v s =
        accounting_drop ''representation''
          [(''session_id'', case session of None \<Rightarrow> JNull | Some se \<Rightarrow> JText (se_id se))] s"
  | (full) attrs where "accounting_values s kind session cause v = Inr attrs"
      "ac_enabled (accounting (radius (cfg s)))" "active_targets (accounting (radius (cfg s))) \<noteq> []"
      "1024 \<le> length (accounting_outbox s) \<or> 8 * 1024 * 1024 < queued_octets s +
         record_octets s (candidate_record kind session reason tardy attrs s)"
      "queue_accounting kind session cause reason tardy v s =
        accounting_drop ''overflow''
          [(''session_id'', record_session (candidate_record kind session reason tardy attrs s))] (sequenced s)"
  | (queued) attrs where "accounting_values s kind session cause v = Inr attrs"
      "ac_enabled (accounting (radius (cfg s)))" "active_targets (accounting (radius (cfg s))) \<noteq> []"
      "length (accounting_outbox s) < 1024"
      "queued_octets s + record_octets s (candidate_record kind session reason tardy attrs s) \<le> 8 * 1024 * 1024"
      "queue_accounting kind session cause reason tardy v s =
        event ''accounting'' [(''status'', JName ''queued''),
            (''record_id'', JText (ar_id (candidate_record kind session reason tardy attrs s))),
            (''session_id'', record_session (candidate_record kind session reason tardy attrs s)),
            (''accounting_type'', JInt kind), (''late'', JBool tardy)]
          ((sequenced s)\<lparr>accounting_outbox := accounting_outbox s @
            [candidate_record kind session reason tardy attrs s]\<rparr>)"
proof (cases "\<not> ac_enabled (accounting (radius (cfg s))) \<or> active_targets (accounting (radius (cfg s))) = []")
  case True
  then show ?thesis by (intro off) (simp_all add: queue_accounting_def Let_def)
next
  case False
  then have on: "ac_enabled (accounting (radius (cfg s)))" "active_targets (accounting (radius (cfg s))) \<noteq> []" by auto
  show ?thesis
  proof (cases "accounting_values s kind session cause v")
    case (Inl e)
    then show ?thesis using on by (intro bad [of e]) (simp_all add: queue_accounting_def Let_def)
  next
    case (Inr attrs)
    let ?r = "candidate_record kind session reason tardy attrs s"
    have octets: "queued_octets (sequenced s) = queued_octets s" by (simp add: queued_octets_def sequenced_def)
    show ?thesis
    proof (cases "1024 \<le> length (accounting_outbox s) \<or> 8 * 1024 * 1024 < queued_octets s + record_octets s ?r")
      case True
      then show ?thesis using on Inr
        by (intro full [of attrs])
          (auto simp: queue_accounting_def Let_def draw_def candidate_record_def sequenced_def queued_octets_def)
    next
      case False
      then show ?thesis using on Inr
        by (intro queued [of attrs])
          (auto simp: queue_accounting_def Let_def draw_def candidate_record_def sequenced_def queued_octets_def)
    qed
  qed
qed

lemma sequenced_fdb: "sequenced (s\<lparr>fdb := g\<rparr>) = (sequenced s)\<lparr>fdb := g\<rparr>"
  by (simp add: sequenced_def)

lemma candidate_record_fdb: "candidate_record kind session reason tardy attrs (s\<lparr>fdb := g\<rparr>) =
    candidate_record kind session reason tardy attrs s"
  by (simp add: candidate_record_def new_accounting_def draw_def)

lemma queue_accounting_form:
  "queue_accounting kind session cause reason tardy v s =
    (if \<not> ac_enabled (accounting (radius (cfg s))) \<or> active_targets (accounting (radius (cfg s))) = [] then s
     else case accounting_values s kind session cause v of
        Inl _ \<Rightarrow> accounting_drop ''representation''
           [(''session_id'', case session of None \<Rightarrow> JNull | Some se \<Rightarrow> JText (se_id se))] s
      | Inr attrs \<Rightarrow>
          let r = candidate_record kind session reason tardy attrs s
          in if 1024 \<le> length (accounting_outbox s) \<or> 8 * 1024 * 1024 < queued_octets s + record_octets s r
             then accounting_drop ''overflow'' [(''session_id'', record_session r)] (sequenced s)
             else event ''accounting'' [(''status'', JName ''queued''), (''record_id'', JText (ar_id r)),
                    (''session_id'', record_session r), (''accounting_type'', JInt kind), (''late'', JBool tardy)]
                  ((sequenced s)\<lparr>accounting_outbox := accounting_outbox s @ [r]\<rparr>))"
  by (cases rule: queue_accounting_cases [of kind session cause reason tardy v s]) (auto simp: Let_def)

lemma queue_accounting_fdb [learned_apart]:
  "queue_accounting kind session cause reason tardy v (s\<lparr>fdb := g\<rparr>) =
     (queue_accounting kind session cause reason tardy v s)\<lparr>fdb := g\<rparr>"
proof -
  have octets: "queued_octets (s\<lparr>fdb := g\<rparr>) = queued_octets s" by (simp add: queued_octets_def)
  have swap: "(sequenced s)\<lparr>fdb := g, accounting_outbox := out\<rparr> = (sequenced s)\<lparr>accounting_outbox := out, fdb := g\<rparr>"
    for out by simp
  show ?thesis
    unfolding queue_accounting_form accounting_values_fdb candidate_record_fdb sequenced_fdb octets Let_def
      accounting_drop_fdb
    by (auto simp: swap event_fdb accounting_drop_fdb simp del: runtime.update_convs split: sum.split)
qed

lemma queue_accounting_keeps_fdb [learned_apart]:
  "fdb (queue_accounting kind session cause reason tardy v s) = fdb s"
  "cfg (queue_accounting kind session cause reason tardy v s) = cfg s"
  by (simp_all add: queue_accounting_form Let_def accounting_drop_fdb event_keeps_fdb sequenced_def split: sum.split)

lemma queue_accounting_apart:
  "radius_sessions (queue_accounting kind session cause reason tardy v s) = radius_sessions s"
  "radius_attempts (queue_accounting kind session cause reason tardy v s) = radius_attempts s"
  "sim_ms (queue_accounting kind session cause reason tardy v s) = sim_ms s"
  by (simp_all add: queue_accounting_form Let_def accounting_drop_def event_def sequenced_def split: sum.split)

lemma with_pae_fdb [learned_apart]: "with_pae pid f (s\<lparr>fdb := g\<rparr>) = (with_pae pid f s)\<lparr>fdb := g\<rparr>"
    "fdb (with_pae pid f s) = fdb s" "cfg (with_pae pid f s) = cfg s"
  by (simp_all add: with_pae_def pae_of_def)

lemma retire_fdb [learned_apart]:
  "retire_authentication key (s\<lparr>fdb := g\<rparr>) = (retire_authentication key s)\<lparr>fdb := g\<rparr>"
  "fdb (retire_authentication key s) = fdb s" "cfg (retire_authentication key s) = cfg s"
  by (simp_all add: retire_authentication_def with_pae_def pae_of_def Let_def split: option.split)

lemma retire_renewal_fdb [learned_apart]:
  "retire_renewal key se (s\<lparr>fdb := g\<rparr>) = (retire_renewal key se s)\<lparr>fdb := g\<rparr>"
  "fdb (retire_renewal key se s) = fdb s" "cfg (retire_renewal key se s) = cfg s"
  by (simp_all add: retire_renewal_def retire_fdb split: option.split)

lemma note_last_fdb [learned_apart]:
  "note_last_session se cause (s\<lparr>fdb := g\<rparr>) = (note_last_session se cause s)\<lparr>fdb := g\<rparr>"
  "fdb (note_last_session se cause s) = fdb s" "cfg (note_last_session se cause s) = cfg s"
  by (simp_all add: note_last_session_def multi_auth_def the_port_def Let_def)

definition without_session :: "subject \<Rightarrow> access_session \<Rightarrow> runtime \<Rightarrow> runtime" where
  "without_session key se s =
     s\<lparr>radius_sessions := drop_key key (radius_sessions s),
       fdb := filter (\<lambda>(_, row). \<not> ended_row s se row) (fdb s)\<rparr>"

definition ending :: "subject \<Rightarrow> access_session \<Rightarrow> string \<Rightarrow> int \<Rightarrow> int option \<Rightarrow> runtime \<Rightarrow> runtime" where
  \<comment> \<open>what the end of a session does between its removal and the removal of its addresses\<close>
  "ending key se reason cause v s =
     retire_renewal key se (note_last_session se cause
       (let s = queue_accounting 2 (Some se) (Some cause) (Some reason) False v s
        in if se_method se \<noteq> By_mab \<and> cause \<in> {4, 5, 6, 9, 10}
           then set_port_state (se_port se) None (Some 6) s else s))"

lemma ending_fdb:
  "ending key se reason cause v (s\<lparr>fdb := g\<rparr>) = (ending key se reason cause v s)\<lparr>fdb := g\<rparr>"
  "fdb (ending key se reason cause v s) = fdb s" "cfg (ending key se reason cause v s) = cfg s"
  by (simp_all only: ending_def set_port_state_def learned_apart Let_def split: if_split) simp_all

lemma ended_row_cfg: "cfg t = cfg s \<Longrightarrow> ended_row t = ended_row s"
  by (simp add: ended_row_def [abs_def] the_port_def)

lemma end_session_form:
  assumes "map_of (radius_sessions s) key = Some se"
  shows "end_session key reason cause v s =
    event ''authentication-ended'' [(''port_id'', JText (se_port se)), (''mac'', JText (se_mac se)),
        (''session_id'', JText (se_id se)), (''reason'', JName reason)]
      (put_status key (no_status\<lparr>ss_status := ''ended'', ss_reason := Some reason, ss_session := Some (se_id se)\<rparr>)
        (ending key se reason (end_cause se reason cause) v (without_session key se s)))"
proof -
  let ?e = "ending key se reason (end_cause se reason cause) v (s\<lparr>radius_sessions := drop_key key (radius_sessions s)\<rparr>)"
  have row: "ended_row ?e = ended_row s" by (rule ended_row_cfg) (simp add: ending_fdb)
  have "end_session key reason cause v s =
    event ''authentication-ended'' [(''port_id'', JText (se_port se)), (''mac'', JText (se_mac se)),
        (''session_id'', JText (se_id se)), (''reason'', JName reason)]
      (put_status key (no_status\<lparr>ss_status := ''ended'', ss_reason := Some reason, ss_session := Some (se_id se)\<rparr>)
        (?e\<lparr>fdb := filter (\<lambda>(_, row). \<not> ended_row ?e se row) (fdb ?e)\<rparr>))"
    unfolding end_session_def assms option.case Let_def ending_def by (simp split del: if_split cong: if_cong)
  then show ?thesis unfolding row ending_fdb(2) without_session_def by (simp add: ending_fdb(1))
qed

subsection \<open>Conditions of the primitive updates\<close>

definition lone_subject :: "runtime \<Rightarrow> subject \<Rightarrow> bool" where
  \<comment> \<open>the host mode of the port admits the subject beside those it has\<close>
  "lone_subject s key \<longleftrightarrow> multi_auth s (fst key) \<or> \<not> other_subject s key"

definition session_covers :: "runtime \<Rightarrow> uid \<Rightarrow> pystr \<Rightarrow> bool" where
  "session_covers s pid address \<longleftrightarrow>
     list_ex (\<lambda>key. fst key = pid \<and>
        (pa_host_mode (authentication (the_port s pid)) = Multi_host \<or> snd key = address))
       (keys (radius_sessions s))"

definition port_grants :: "runtime \<Rightarrow> uid \<Rightarrow> pystr \<Rightarrow> bool" where
  \<comment> \<open>the port lets frames of the address in\<close>
  "port_grants s pid address \<longleftrightarrow>
     (case pa_control (authentication (the_port s pid)) of
        Force_authorized \<Rightarrow> True | Force_unauthorized \<Rightarrow> False | Auto \<Rightarrow> session_covers s pid address)"

definition reserved :: "runtime \<Rightarrow> subject \<Rightarrow> int" where
  \<comment> \<open>the renewals begun for a subject at the present instant\<close>
  "reserved s key = (case map_of (renewal_budget s) key of None \<Rightarrow> 0 | Some m \<Rightarrow> m)"

lemma foldl_invariant: "(\<And>s x. P s \<Longrightarrow> P (f s x)) \<Longrightarrow> P s \<Longrightarrow> P (foldl f s xs)"
  by (induction xs arbitrary: s) auto

locale runtime_invariant =
  fixes I :: "runtime \<Rightarrow> bool"
  assumes I_event: "I s \<Longrightarrow> I (event kind details s)"
    and I_drops: "I s \<Longrightarrow> I (s\<lparr>accounting_drops := ds\<rparr>)"
    and I_drawn: "I s \<Longrightarrow> I (s\<lparr>drawn := n\<rparr>)"
    and I_sequence: "I s \<Longrightarrow> I (sequenced s)"
    and I_record: "I s \<Longrightarrow> ar_sequence r = accounting_sequence s + 1 \<Longrightarrow>
      length (accounting_outbox s) < 1024 \<Longrightarrow> queued_octets s + record_octets s r \<le> 8 * 1024 * 1024 \<Longrightarrow>
      I ((sequenced s)\<lparr>accounting_outbox := accounting_outbox s @ [r]\<rparr>)"
    and I_prune: "I s \<Longrightarrow> I (s\<lparr>accounting_outbox := filter Q (accounting_outbox s)\<rparr>)"
    and I_mark: "I s \<Longrightarrow> (\<And>r. ar_sequence (f r) = ar_sequence r) \<Longrightarrow>
      I (s\<lparr>accounting_outbox := map f (accounting_outbox s)\<rparr>)"
    and I_pae: "I s \<Longrightarrow> I (s\<lparr>pae := p\<rparr>)"
    and I_last: "I s \<Longrightarrow> I (s\<lparr>last_auth_sessions := l\<rparr>)"
    and I_status: "I s \<Longrightarrow> I (s\<lparr>radius_status := st\<rparr>)"
    and I_advance: "I s \<Longrightarrow> I (s\<lparr>advance_op := op\<rparr>)"
    and I_stats: "I s \<Longrightarrow> I (s\<lparr>port_stats := c\<rparr>)"
    and I_discards: "I s \<Longrightarrow> I (s\<lparr>learned_discards := i\<rparr>)"
    and I_jobs: "I s \<Longrightarrow> I (s\<lparr>jobs := js\<rparr>)"
    and I_time: "I s \<Longrightarrow> I (s\<lparr>sim_ms := t\<rparr>)"
    and I_fresh_budget: "I s \<Longrightarrow> I (s\<lparr>renewal_budget := [], renewal_budget_time := t\<rparr>)"
    and I_reserve: "I s \<Longrightarrow> reserved s key < 64 \<Longrightarrow>
      has (renewal_budget s) key \<or> int (length (renewal_budget s)) < source_limit (cfg_switch (cfg s)) \<Longrightarrow>
      I (s\<lparr>renewal_budget := put key (reserved s key + 1) (renewal_budget s)\<rparr>)"
    and I_retire: "I s \<Longrightarrow> I (s\<lparr>radius_attempts := drop_key key (radius_attempts s)\<rparr>)"
    and I_start: "I s \<Longrightarrow> (at_port a, at_mac a) = key \<Longrightarrow> lone_subject s key \<Longrightarrow>
      map_of (radius_attempts s) key = None \<Longrightarrow> has (ports (cfg s)) (fst key) \<Longrightarrow>
      cp_authentication (at_context a) = authentication (the_port s (fst key)) \<Longrightarrow>
      I (s\<lparr>radius_attempts := put key a (radius_attempts s)\<rparr>)"
    and I_attempt: "I s \<Longrightarrow> map_of (radius_attempts s) key = Some a \<Longrightarrow> at_port b = at_port a \<Longrightarrow>
      at_mac b = at_mac a \<Longrightarrow> at_context b = at_context a \<Longrightarrow>
      I (s\<lparr>radius_attempts := put key b (radius_attempts s)\<rparr>)"
    and I_session: "I s \<Longrightarrow> map_of (radius_sessions s) key = Some se \<Longrightarrow> se_port sf = se_port se \<Longrightarrow>
      se_mac sf = se_mac se \<Longrightarrow> I (s\<lparr>radius_sessions := put key sf (radius_sessions s)\<rparr>)"
    and I_end: "I s \<Longrightarrow> map_of (radius_sessions s) key = Some se \<Longrightarrow> I (without_session key se s)"
    and I_file: "I s \<Longrightarrow> (se_port se, se_mac se) = key \<Longrightarrow> lone_subject s key \<Longrightarrow>
      map_of (radius_sessions s) key = None \<Longrightarrow> has (ports (cfg s)) (fst key) \<Longrightarrow>
      int (length (radius_sessions s)) < source_limit (cfg_switch (cfg s)) \<Longrightarrow>
      I (s\<lparr>radius_sessions := put key se (radius_sessions s)\<rparr>)"
    and I_flush: "I s \<Longrightarrow> I (s\<lparr>fdb := filter P (fdb s)\<rparr>)"
    and I_age: "I s \<Longrightarrow> I (s\<lparr>fdb := drop_key k (fdb s)\<rparr>)"
    and I_learn: "I s \<Longrightarrow> k = (f_fdb_id row, f_mac row) \<Longrightarrow> port_grants s (f_port row) (f_mac row) \<Longrightarrow>
      map_of (fdb s) k \<noteq> None \<or> int (length (fdb s)) < fdb_limit (cfg_switch (cfg s)) \<Longrightarrow>
      I (s\<lparr>fdb := put k row (fdb s)\<rparr>)"
    and I_overflow: "I s \<Longrightarrow> I (s\<lparr>notification_drops := i\<rparr>)"
    and I_notify: "I s \<Longrightarrow> int (length (outbox s)) < queue_limit (cfg_switch (cfg s)) \<Longrightarrow>
      I (s\<lparr>outbox := outbox s @ [item]\<rparr>)"
    and I_cancel: "I s \<Longrightarrow> I (s\<lparr>outbox := drop m (outbox s)\<rparr>)"
    and I_generations: "I s \<Longrightarrow> I (s\<lparr>egens := eg, pgens := pg, credential_generations := cg, activation := act\<rparr>)"
    and I_changes: "I s \<Longrightarrow> I (s\<lparr>entity_last_change := el, uptime_epoch := ue, vlan_times := vt\<rparr>)"
    and I_revisions: "I s \<Longrightarrow> I (s\<lparr>revision := rv, configuration_revision := cr, startup_policy := su,
      startup_revision := sr, configuration_dirty := dirty\<rparr>)"
    and I_environment: "I s \<Longrightarrow> I (s\<lparr>uptime_now := un, uptime_wraps := uw, wall_now := wn, elapsed_now := en\<rparr>)"
begin

lemma I_foldl: "(\<And>s x. I s \<Longrightarrow> I (f s x)) \<Longrightarrow> I s \<Longrightarrow> I (foldl f s xs)"
  by (rule foldl_invariant)

lemma I_draw: "I s \<Longrightarrow> I (snd (draw s))"
  by (simp add: draw_def I_drawn)

lemma I_accounting_drop: "I s \<Longrightarrow> I (accounting_drop reason details s)"
  by (simp add: accounting_drop_def Let_def I_drops I_event)

lemma I_queue_accounting: "I s \<Longrightarrow> I (queue_accounting kind session cause reason tardy v s)"
  by (cases rule: queue_accounting_cases [of kind session cause reason tardy v s])
    (simp_all add: I_accounting_drop I_sequence I_event I_record candidate_record_def new_accounting_def)

lemma I_with_pae: "I s \<Longrightarrow> I (with_pae pid f s)"
  by (simp add: with_pae_def I_pae)

lemma I_set_port_state: "I s \<Longrightarrow> I (set_port_state pid st backend s)"
  by (simp add: set_port_state_def I_with_pae)

lemma I_retire_authentication: "I s \<Longrightarrow> I (retire_authentication key s)"
  using I_retire [OF I_with_pae] by (auto simp: retire_authentication_def Let_def I_retire split: option.split)

lemma I_put_status: "I s \<Longrightarrow> I (put_status key st s)"
  by (simp add: put_status_def I_status)

lemma I_put_session: "I s \<Longrightarrow> map_of (radius_sessions s) key = Some se \<Longrightarrow> se_port sf = se_port se \<Longrightarrow>
    se_mac sf = se_mac se \<Longrightarrow> I (put_session key sf s)"
  unfolding put_session_def by (rule I_session)

lemma I_ending: "I s \<Longrightarrow> I (ending key se reason cause v s)"
  by (auto simp: ending_def Let_def retire_renewal_def note_last_session_def
      intro!: I_retire_authentication I_last I_set_port_state I_queue_accounting split: option.split)

lemma I_end_session: "I s \<Longrightarrow> I (end_session key reason cause v s)"
proof (cases "map_of (radius_sessions s) key")
  case None
  then show "I s \<Longrightarrow> ?thesis" by (simp add: end_session_def)
next
  case (Some se)
  then show "I s \<Longrightarrow> ?thesis"
    by (simp add: end_session_form I_event I_put_status I_ending I_end)
qed

lemma I_reach_time: "I s \<Longrightarrow> I (reach_time t s)"
  using I_time [OF I_fresh_budget] by (simp add: reach_time_def I_time)

lemma I_guard_advance: "I s \<Longrightarrow> I (guard_advance s)"
  by (simp add: guard_advance_def I_advance split: option.split)

lemma I_refuse_renewal: "I s \<Longrightarrow> I (refuse_renewal key s)"
  by (simp add: refuse_renewal_def Let_def I_event I_guard_advance I_put_status I_retire_authentication I_end_session)

end

subsection \<open>The operations\<close>

lemma reserve_renewal_granted:
  assumes "reserve_renewal key s = (t, True)"
  shows "cfg t = cfg s" "radius_attempts t = radius_attempts s" "radius_sessions t = radius_sessions s"
  using assms by (auto simp: reserve_renewal_def Let_def split: if_splits)

lemma lone_subject_cong:
  "cfg t = cfg s \<Longrightarrow> radius_attempts t = radius_attempts s \<Longrightarrow> radius_sessions t = radius_sessions s \<Longrightarrow>
    lone_subject t key = lone_subject s key"
  by (simp add: lone_subject_def other_subject_def multi_auth_def the_port_def)

lemma new_attempt_result:
  assumes "new_attempt key ctx m username nas owned automatic prior s = (a, t)"
  shows "(at_port a, at_mac a) = key" "\<exists>n. t = s\<lparr>drawn := n\<rparr>" "at_id a = fresh_ids s (drawn s)"
    "at_method a = m" "prior_session a = map_option se_id prior" "at_epoch a = epoch s" "at_context a = ctx"
    "session_owned a = owned" "prior_grant a = map_option grant_generation prior"
  using assms by (auto simp: new_attempt_def draw_def Let_def split: option.splits prod.splits)

lemma start_attempt_cases:
  assumes "start_attempt key ctx m username owned automatic prior s = Inr (t, r)"
  obtains (refused) "reserve_renewal key s = (t, False)" "automatic" "r = Blocked ''renewal-work-limit''"
  | (started) u a n nas where "u = s \<and> \<not> automatic \<or> automatic \<and> reserve_renewal key s = (u, True)"
      "new_attempt key ctx m username nas owned automatic prior u = (a, u\<lparr>drawn := n\<rparr>)"
      "r = Attempting (at_id a)"
      "t = event ''authentication-started'' [(''port_id'', JText (fst key)), (''mac'', JText (snd key)),
             (''attempt_id'', JText (at_id a)), (''method'', JName (auth_name m))]
           (put_status key (no_status\<lparr>ss_status := ''pending'', ss_method := Some (auth_name m),
             ss_attempt := Some (at_id a)\<rparr>)
            ((if m \<noteq> By_mab \<and> \<not> multi_auth (u\<lparr>drawn := n\<rparr>) (fst key)
              then set_port_state (fst key) (Some 3) (Some 6) (u\<lparr>drawn := n\<rparr>) else u\<lparr>drawn := n\<rparr>)
             \<lparr>radius_attempts := put key a (radius_attempts u)\<rparr>))"
proof -
  obtain nas where nas: "resolve_nas_identity (cfg s) = Inr nas"
    using assms by (auto simp: start_attempt_def split: sum.splits)
  obtain u ok where u: "(if automatic then reserve_renewal key s else (s, True)) = (u, ok)" by fastforce
  show ?thesis
  proof (cases ok)
    case False
    then show ?thesis
      using assms u by (intro refused) (auto simp: start_attempt_def nas Let_def split: if_splits)
  next
    case True
    obtain a v where a: "new_attempt key ctx m username nas owned automatic prior u = (a, v)" by fastforce
    then obtain n where n: "v = u\<lparr>drawn := n\<rparr>" using new_attempt_result(2) by blast
    have keep: "radius_attempts (if c then set_port_state p x y w else w) = radius_attempts w" for c p x y w
      by (simp add: set_port_state_def with_pae_def)
    show ?thesis
    proof (rule started [where u = u and a = a and n = n and nas = nas])
      show "u = s \<and> \<not> automatic \<or> automatic \<and> reserve_renewal key s = (u, True)"
        using u True by (auto split: if_splits)
      show "new_attempt key ctx m username nas owned automatic prior u = (a, u\<lparr>drawn := n\<rparr>)"
        using a n by simp
      show "r = Attempting (at_id a)"
        using assms u True a by (simp add: start_attempt_def nas Let_def split del: if_split)
      show "t = event ''authentication-started'' [(''port_id'', JText (fst key)), (''mac'', JText (snd key)),
             (''attempt_id'', JText (at_id a)), (''method'', JName (auth_name m))]
           (put_status key (no_status\<lparr>ss_status := ''pending'', ss_method := Some (auth_name m),
             ss_attempt := Some (at_id a)\<rparr>)
            ((if m \<noteq> By_mab \<and> \<not> multi_auth (u\<lparr>drawn := n\<rparr>) (fst key)
              then set_port_state (fst key) (Some 3) (Some 6) (u\<lparr>drawn := n\<rparr>) else u\<lparr>drawn := n\<rparr>)
             \<lparr>radius_attempts := put key a (radius_attempts u)\<rparr>))"
        using assms u True a n by (simp add: start_attempt_def nas Let_def keep split del: if_split)
    qed
  qed
qed

context runtime_invariant
begin

lemma I_reserve_renewal: "I s \<Longrightarrow> I (fst (reserve_renewal key s))"
proof -
  assume s: "I s"
  define t where "t = (if renewal_budget_time s \<noteq> sim_ms s
      then s\<lparr>renewal_budget := [], renewal_budget_time := sim_ms s\<rparr> else s)"
  have t: "I t" using I_fresh_budget [OF s] s by (simp add: t_def)
  show ?thesis
    unfolding reserve_renewal_def Let_def t_def [symmetric]
    using I_reserve [OF t] I_refuse_renewal [OF t] by (auto simp: not_le reserved_def)
qed

lemma I_start_attempt:
  assumes s: "I s" and result: "start_attempt key ctx m username owned automatic prior s = Inr (t, r)"
    and lone: "lone_subject s key" and absent: "map_of (radius_attempts s) key = None"
    and port: "has (ports (cfg s)) (fst key)" "cp_authentication ctx = authentication (the_port s (fst key))"
  shows "I t"
  using result
proof (cases rule: start_attempt_cases)
  case refused
  then show ?thesis using I_reserve_renewal [OF s, of key] by simp
next
  case (started u a n nas)
  have u: "cfg u = cfg s \<and> radius_attempts u = radius_attempts s \<and> radius_sessions u = radius_sessions s \<and> I u"
    using started(1) reserve_renewal_granted [of key s u] I_reserve_renewal [OF s, of key] s by auto
  define v where "v = (if m \<noteq> By_mab \<and> \<not> multi_auth (u\<lparr>drawn := n\<rparr>) (fst key)
      then set_port_state (fst key) (Some 3) (Some 6) (u\<lparr>drawn := n\<rparr>) else u\<lparr>drawn := n\<rparr>)"
  have v: "I v" "cfg v = cfg s" "radius_attempts v = radius_attempts s" "radius_sessions v = radius_sessions s"
    using u by (auto simp: v_def set_port_state_def with_pae_def intro!: I_pae I_drawn)
  have "I (v\<lparr>radius_attempts := put key a (radius_attempts v)\<rparr>)"
    using v lone absent port new_attempt_result(1,7) [OF started(2)] lone_subject_cong [OF v(2-4)]
    by (intro I_start) (simp_all add: the_port_def)
  then show ?thesis
    using u v(3) unfolding started(4) v_def [symmetric] by (simp add: I_event I_put_status)
qed

lemma I_block: "I s \<Longrightarrow> I (block key reason ctx again s)"
  by (simp add: block_def Let_def I_event I_put_status)

lemma I_discover: "I s \<Longrightarrow> I (discover key ctx s)"
  by (simp add: discover_def Let_def I_event I_put_status)

end

lemma begin_subject_cases:
  assumes "begin_subject key ctx owned trigger automatic s = Inr (t, r)"
  obtains (blocked) reason again where "t = block key reason ctx again s" "r = Blocked reason"
  | (activity) "r = Waiting" "t = put_status key
        (no_status\<lparr>ss_status := ''waiting-activity'', ss_method := Some ''mab'', ss_context := Some ctx\<rparr>) s"
  | (discovery) "t = discover key ctx s" "r = Waiting"
  | (mab) username where "pa_method (authentication (the_port s (fst key))) \<noteq> Dot1x"
      "pa_method (authentication (the_port s (fst key))) = Mab \<or> trigger"
      "start_attempt key ctx By_mab username owned automatic (map_of (radius_sessions s) key) s = Inr (t, r)"
  | (eap) first others where "profiles_of s key = first # others" "\<forall>q \<in> set others. q = first"
      "start_attempt key ctx (auth_of_eap (sp_method first)) (utf8_octets (sp_identity first)) owned automatic
         (map_of (radius_sessions s) key) s = Inr (t, r)"
proof (cases "pa_method (authentication (the_port s (fst key))) = Mab \<or> trigger")
  case True
  note rest = assms [unfolded begin_subject_def Let_def if_P [OF True]]
  show ?thesis
  proof (cases "\<not> trigger \<and> map_of (radius_sessions s) key = None")
    case idle: True
    then show ?thesis using rest by (intro activity) (auto split: if_split_asm)
  next
    case False
    show ?thesis
      using rest True unfolding if_not_P [OF False] by (intro mab) (auto split: if_split_asm)
  qed
next
  case False
  note rest = assms [unfolded begin_subject_def Let_def if_not_P [OF False]]
  show ?thesis
  proof (cases "profiles_of s key")
    case Nil
    then show ?thesis using rest by (intro discovery) auto
  next
    case (Cons first others)
    show ?thesis
    proof (cases "list_ex (\<lambda>q. q \<noteq> first) others")
      case True
      then show ?thesis using rest by (intro blocked) (auto simp: Cons)
    next
      case False
      then show ?thesis using rest by (intro eap [OF Cons]) (auto simp: Cons list_ex_iff)
    qed
  qed
qed

lemma authentication_context_port:
  "authentication_context s key = Some ctx \<Longrightarrow>
    has (ports (cfg s)) (fst key) \<and> cp_authentication ctx = authentication (the_port s (fst key))"
  by (auto simp: authentication_context_def Let_def port_capture_def the_port_def has_def
      split: prod.splits option.splits if_splits)

lemma session_context_port:
  "session_authentication_context s key = Some ctx \<Longrightarrow>
    has (ports (cfg s)) (fst key) \<and> cp_authentication ctx = authentication (the_port s (fst key))"
  by (auto simp: session_authentication_context_def port_capture_def the_port_def has_def
      split: option.splits if_splits)

lemma context_port:
  assumes "(if owned then session_authentication_context s key else authentication_context s key) = Some ctx"
  shows "has (ports (cfg s)) (fst key)" "cp_authentication ctx = authentication (the_port s (fst key))"
  using assms authentication_context_port session_context_port by (auto split: if_splits)

lemma begin_authentication_cases:
  assumes "begin_authentication key trigger automatic renewal s = Inr (t, r)"
  obtains (pending) a where "map_of (radius_attempts s) key = Some a" "t = s" "r = Attempting (at_id a)"
  | (excluded) ctx again where "t = block key ''host-mode-limit'' ctx again s" "r = Blocked ''host-mode-limit''"
  | (subject) ctx owned where "map_of (radius_attempts s) key = None" "lone_subject s key"
      "owned = renews_owned key (automatic \<or> renewal) s"
      "(if owned then session_authentication_context s key else authentication_context s key) = Some ctx"
      "begin_subject key ctx owned (owned \<or> trigger) automatic s = Inr (t, r)"
  using assms unfolding begin_authentication_def Let_def
  by (auto simp: lone_subject_def split: option.splits if_splits)

context runtime_invariant
begin

lemma I_begin_authentication:
  assumes "I s" and "begin_authentication key trigger automatic renewal s = Inr (t, r)"
  shows "I t"
  using assms(2)
proof (cases rule: begin_authentication_cases)
  case (subject ctx owned)
  note port = context_port [OF subject(4)]
  from subject(5) show ?thesis
  proof (cases rule: begin_subject_cases)
    case (mab username)
    show ?thesis by (rule I_start_attempt [OF assms(1) mab(3) subject(2,1) port])
  next
    case (eap first others)
    show ?thesis by (rule I_start_attempt [OF assms(1) eap(3) subject(2,1) port])
  qed (simp_all add: assms(1) I_block I_discover I_put_status)
qed (simp_all add: assms(1) I_block)

lemma I_prepare_subject: "I s \<Longrightarrow> I (prepare_subject key s)"
  by (auto simp: prepare_subject_def Let_def I_put_status intro: I_begin_authentication
      split: sum.split command_error.split)

lemma I_prepare_loop: "I s \<Longrightarrow> I (prepare_loop ks s)"
  by (induction ks s rule: prepare_loop.induct) (auto intro: I_prepare_subject)

lemma I_prepare_authentication: "I s \<Longrightarrow> I (prepare_authentication s)"
  by (simp add: prepare_authentication_def I_prepare_loop)

lemma I_await_supplicant: "I s \<Longrightarrow> I (await_supplicant key se s)"
  by (simp add: await_supplicant_def I_put_status)

lemma I_request_renewal: "I s \<Longrightarrow> request_renewal key automatic s = Inr (t, r) \<Longrightarrow> I t"
  by (auto simp: request_renewal_def Let_def split: option.splits if_splits
      intro!: I_await_supplicant I_put_session elim!: I_begin_authentication [rotated])

lemma I_expire_session: "I s \<Longrightarrow> I (expire_session s key)"
  by (auto simp: expire_session_def Let_def split: option.split intro!: I_put_status I_end_session)

lemma I_renew_now: "I s \<Longrightarrow> I (renew_now key se s)"
  by (auto simp: renew_now_def Let_def split: sum.split intro!: I_put_status I_end_session
      elim!: I_begin_authentication [rotated])

lemma I_renew_session: "I s \<Longrightarrow> I (renew_session s key)"
  by (auto simp: renew_session_def Let_def split: option.split
      intro!: I_await_supplicant I_renew_now I_put_session)

lemma I_process_session_deadlines: "I s \<Longrightarrow> I (process_session_deadlines s)"
  by (simp add: process_session_deadlines_def Let_def I_foldl I_expire_session I_renew_session)

lemma I_accounting_tick: "I s \<Longrightarrow> I (accounting_tick s)"
  unfolding accounting_tick_def
  by (rule I_foldl) (auto simp: accounting_tick_session_def Let_def queue_accounting_apart split: option.split
      intro!: I_put_session I_queue_accounting)

end

subsection \<open>Traffic\<close>

lemma find_first_row:
  "List.find (\<lambda>((p, _), _). p = pid) d = Some (k, v) \<Longrightarrow> map_of d k = Some v \<and> fst k = pid"
  by (induction d) (auto split: if_splits)

lemma session_row_lookup:
  assumes "session_row s pid address = Some (key, se)"
  shows "map_of (radius_sessions s) key = Some se" "fst key = pid"
    "pa_host_mode (authentication (the_port s pid)) = Multi_host \<or> snd key = address"
  using assms find_first_row [of pid "radius_sessions s" key se]
  by (auto simp: session_row_def split: if_splits)

lemma session_covers_cong:
  "cfg t = cfg s \<Longrightarrow> keys (radius_sessions t) = keys (radius_sessions s) \<Longrightarrow>
    session_covers t pid address = session_covers s pid address"
  by (simp add: session_covers_def the_port_def)

lemma port_grants_cong:
  "cfg t = cfg s \<Longrightarrow> keys (radius_sessions t) = keys (radius_sessions s) \<Longrightarrow>
    port_grants t pid address = port_grants s pid address"
  using session_covers_cong [of t s] by (simp add: port_grants_def the_port_def split: control.split)

lemma session_row_covers:
  assumes "session_row s pid address = Some (key, se)"
  shows "session_covers s pid address"
proof -
  have "key \<in> set (keys (radius_sessions s))"
    using session_row_lookup(1) [OF assms] by (auto dest: map_of_SomeD intro: rev_image_eqI)
  then show ?thesis
    using session_row_lookup(2,3) [OF assms] by (auto simp: session_covers_def list_ex_iff)
qed

definition frame_session :: "runtime \<Rightarrow> job \<Rightarrow> (subject \<times> access_session) option" where
  \<comment> \<open>the session a frame is accounted to\<close>
  "frame_session s j = (if pa_control (authentication (the_port s (j_port j))) = Auto
     then session_row s (j_port j) (j_mac j) else None)"

lemma admission_grants:
  assumes "admission s j src (frame_session s j) = Some v"
  shows "port_grants s (j_port j) (j_mac j)"
proof (cases "frame_session s j")
  case None
  then have "pa_control (authentication (the_port s (j_port j))) = Force_authorized"
    using assms by (auto simp: admission_def Let_def split: if_splits)
  then show ?thesis by (simp add: port_grants_def)
next
  case (Some row)
  then have "pa_control (authentication (the_port s (j_port j))) = Auto"
    and "session_row s (j_port j) (j_mac j) = Some (fst row, snd row)"
    by (auto simp: frame_session_def split: if_splits)
  then show ?thesis using session_row_covers [of s "j_port j" "j_mac j" "fst row" "snd row"]
    by (simp add: port_grants_def)
qed

lemma frame_session_lookup: "frame_session s j = Some (key, se) \<Longrightarrow> map_of (radius_sessions s) key = Some se"
  using session_row_lookup(1) by (auto simp: frame_session_def split: if_splits)

lemma on_counters_apart [simp]:
  "radius_sessions (on_counters pid f s) = radius_sessions s" "cfg (on_counters pid f s) = cfg s"
  by (simp_all add: on_counters_def)

lemma keys_put_present: "map_of d k = Some v \<Longrightarrow> keys (put k w d) = keys d"
  by (simp add: keys_put) (metis domI dom_map_of_conv_image_fst)

context runtime_invariant
begin

lemma I_on_counters: "I s \<Longrightarrow> I (on_counters pid f s)"
  by (simp add: on_counters_def I_stats)

lemma I_touch_session: "I s \<Longrightarrow> I (touch_session key s)"
proof -
  assume s: "I s"
  show ?thesis
  proof (cases "map_of (radius_sessions s) key")
    case None
    then show ?thesis using s by (simp add: touch_session_def)
  next
    case (Some se)
    let ?t = "put_session key (se\<lparr>observation_generation := fst (draw s)\<rparr>) (snd (draw s))"
    have t: "I ?t" by (rule I_put_session [OF I_draw [OF s]]) (simp_all add: Some draw_def)
    have "radius_sessions (retire_authentication key ?t) = radius_sessions ?t"
      by (simp add: retire_authentication_def with_pae_def Let_def split: option.split)
    then have "map_of (radius_sessions (retire_authentication key ?t)) key =
        Some (se\<lparr>observation_generation := fst (draw s)\<rparr>)" by (simp add: put_session_def dict_simps)
    then have "I (put_session key (se\<lparr>observation_generation := fst (draw s), renewal_started_ms := None\<rparr>)
        (retire_authentication key ?t))"
      by (rule I_put_session [OF I_retire_authentication [OF t]]) simp_all
    then show ?thesis
      using t by (simp add: touch_session_def Some Let_def case_prod_unfold split: option.split)
  qed
qed

lemma I_trigger: "I s \<Longrightarrow> I (trigger_authentication j row s)"
  by (auto simp: trigger_authentication_def Let_def split: sum.split intro!: I_put_status
      elim!: I_begin_authentication [rotated])

lemma I_reject_frame: "I s \<Longrightarrow> I (reject_frame j row s)"
  by (simp add: reject_frame_def Let_def I_event I_trigger I_on_counters)

lemma I_note_activity: "I s \<Longrightarrow> (\<And>key se. row = Some (key, se) \<Longrightarrow> map_of (radius_sessions s) key = Some se) \<Longrightarrow>
    I (note_activity src row s)"
  by (auto simp: note_activity_def split: option.split intro!: I_put_session)

lemma I_learn_frame: "I s \<Longrightarrow> port_grants s (j_port j) (j_mac j) \<Longrightarrow> I (fst (learn j v s))"
  by (auto simp: learn_def Let_def learned_row_def not_le intro!: I_event I_discards I_learn)

lemma I_observe: "I s \<Longrightarrow> I (fst (observe j s))"
proof (cases "valid_job s j")
  case False
  then show "I s \<Longrightarrow> ?thesis" by (simp add: observe_def I_event)
next
  case True
  assume s: "I s"
  let ?src = "the (job_source s j)"
  let ?t = "on_counters (j_port j) (\<lambda>c. c\<lparr>c_in_octets := c_in_octets c + octets ?src\<rparr>)
      (touch_session (j_port j, j_mac j) s)"
  let ?u = "on_counters (j_port j) (\<lambda>c. c\<lparr>c_in_ucast := c_in_ucast c + 1\<rparr>) ?t"
  have t: "I ?t" by (rule I_on_counters [OF I_touch_session [OF s]])
  have u: "I ?u" by (rule I_on_counters [OF t])
  have unfolded: "observe j s = (case admission ?t j ?src (frame_session ?t j) of
      None \<Rightarrow> (reject_frame j (frame_session ?t j) ?t, False)
    | Some v \<Rightarrow> learn j v (note_activity ?src (frame_session ?t j) ?u))"
    using True unfolding observe_def Let_def frame_session_def by simp
  show ?thesis
  proof (cases "admission ?t j ?src (frame_session ?t j)")
    case None
    then show ?thesis unfolding unfolded by (simp add: I_reject_frame t)
  next
    case (Some v)
    have row: "map_of (radius_sessions ?u) key = Some se" if "frame_session ?t j = Some (key, se)" for key se
      using frame_session_lookup [OF that] by simp
    let ?w = "note_activity ?src (frame_session ?t j) ?u"
    have w: "I ?w" by (rule I_note_activity [OF u row])
    have "keys (radius_sessions ?w) = keys (radius_sessions ?t)"
      using row by (auto simp: note_activity_def put_session_def keys_put_present split: option.split)
    moreover have "cfg ?w = cfg ?t" by (simp add: note_activity_def put_session_def split: option.split)
    ultimately have "port_grants ?w (j_port j) (j_mac j)"
      using port_grants_cong admission_grants [OF Some] by blast
    then show ?thesis unfolding unfolded Some by (simp add: I_learn_frame w)
  qed
qed

lemma I_expire: "I s \<Longrightarrow> I (expire s)"
  unfolding expire_def by (rule I_foldl) (simp_all add: expire_row_def I_event I_age split: prod.split)

lemma I_work_loop: "I s \<Longrightarrow> I (fst (work_loop deadline batch heap s))"
  by (induction deadline batch heap s rule: work_loop.induct)
    (simp add: Let_def I_observe I_jobs, simp add: Let_def I_observe I_jobs split: if_split)

end

fun progress_state :: "progress \<Rightarrow> runtime" where
  "progress_state (Reached s) = s"
| "progress_state (Pending s) = s"
| "progress_state (More s _) = s"

context runtime_invariant
begin

lemma I_advance_iteration: "I s \<Longrightarrow> I (progress_state (advance_iteration target s heap))"
proof -
  assume s: "I s"
  have work: "I t \<Longrightarrow> work_loop d batch h t = (u, g, b) \<Longrightarrow> I u" for d batch h t u g b
    using I_work_loop [of t d batch h] by simp
  show ?thesis
    using s unfolding advance_iteration_def Let_def
    by (auto simp: I_reach_time split: option.split prod.split
      intro!: I_accounting_tick I_prepare_authentication I_expire I_process_session_deadlines
      elim!: work [rotated])
qed

lemma I_advance_loop: "I s \<Longrightarrow> advance_loop n target s heap = Some (t, ended) \<Longrightarrow> I t"
proof (induction n arbitrary: s heap)
  case (Suc n)
  then show ?case using I_advance_iteration [of s target heap]
    by (cases "advance_iteration target s heap") auto
qed simp

lemma I_advance_clock: "I s \<Longrightarrow> advance fuel duration s = Some (Inr (t, ended)) \<Longrightarrow> I t"
  by (auto simp: advance_def Let_def split: if_splits intro: I_prepare_authentication I_process_session_deadlines
      elim!: I_advance_loop [rotated])

lemma I_pae_observe: "I s \<Longrightarrow> I (fst (pae_observe key ident frames s))"
proof (cases "current_attempt s key ident")
  case (Some a)
  assume s: "I s"
  have a: "map_of (radius_attempts s) key = Some a"
    using Some by (auto simp: current_attempt_def Let_def split: option.splits if_splits)
  have "I (s\<lparr>pae := p, radius_attempts := put key b (radius_attempts s)\<rparr>)"
    if "at_port b = at_port a" "at_mac b = at_mac a" "at_context b = at_context a" for p b
    using I_attempt [OF I_pae [OF s], of p key a b] a that by simp
  then show ?thesis
    using s unfolding pae_observe_def Some
    by (auto simp: Let_def with_pae_def intro!: I_set_port_state)
qed (simp add: pae_observe_def)

lemma I_pae_finish: "I s \<Longrightarrow> I (pae_finish a outcome s)"
  by (auto simp: pae_finish_def Let_def I_set_port_state I_with_pae split: option.split prod.split)

lemma I_notify_target: "I s \<Longrightarrow> I (notify_target kind e s t)"
  by (auto simp: notify_target_def not_le intro!: I_event I_overflow I_notify)

lemma I_notification: "I s \<Longrightarrow> I (notify kind enabled details s)"
  unfolding notify_def Let_def by (auto intro!: I_event I_foldl I_notify_target)

lemma I_cancel_outbox: "I s \<Longrightarrow> I (cancel_outbox reason s)"
proof -
  assume s: "I s"
  have "I (foldl (cancel_item reason) s (outbox s))"
    by (rule I_foldl [OF _ s]) (simp add: cancel_item_def I_event)
  then show ?thesis
    using I_cancel [of "foldl (cancel_item reason) s (outbox s)" "length (outbox (foldl (cancel_item reason) s (outbox s)))"]
    by (simp add: cancel_outbox_def)
qed

lemma I_configuration_events: "I s \<Longrightarrow> I (configuration_events before s)"
proof -
  assume s: "I s"
  have "I (switch_event before t)" if "I t" for t using that by (simp add: switch_event_def Let_def I_event)
  moreover have "I (foldl (port_event before) t xs)" if "I t" for t xs
    by (rule I_foldl [OF _ that]) (simp add: port_event_def Let_def I_event)
  moreover have "I (foldl (vlan_event before) t xs)" if "I t" for t xs
    by (rule I_foldl [OF _ that]) (simp add: vlan_event_def Let_def I_event split: option.split)
  ultimately show ?thesis using s unfolding configuration_events_def Let_def by blast
qed

lemma I_reconcile_attempt: "I s \<Longrightarrow> I (reconcile_attempt before s key)"
proof -
  assume s: "I s"
  have "I (put_status key invalidated (retire_authentication key s))"
    using s by (simp add: I_put_status I_retire_authentication)
  then show ?thesis
    using s by (auto simp: reconcile_attempt_def Let_def split: option.split intro!: I_put_session)
qed

lemma I_rearm: "I s \<Longrightarrow> I (reconcile_accounting_session changed s key)"
proof -
  assume s: "I s"
  have "I (put_session key (rearmed s changed se) s)" if "map_of (radius_sessions s) key = Some se" for se
    by (rule I_put_session [OF s that]) (simp_all add: rearmed_def Let_def)
  then show ?thesis
    using s by (auto simp: reconcile_accounting_session_def Let_def I_queue_accounting split: option.split)
qed

lemma I_reconcile_accounting: "I s \<Longrightarrow> I (reconcile_accounting before s)"
proof -
  assume s: "I s"
  have "I (s\<lparr>accounting_outbox := []\<rparr>)" using I_prune [OF s, of "\<lambda>_. False"] by simp
  then have "I (foldl (\<lambda>s _. accounting_drop ''configuration-change'' [] s) (s\<lparr>accounting_outbox := []\<rparr>)
      [0..<length (accounting_outbox s)])"
    by (rule I_foldl [rotated]) (rule I_accounting_drop)
  then show ?thesis
    using s unfolding reconcile_accounting_def Let_def by (auto intro!: I_foldl I_rearm)
qed

lemma I_reconcile_authentication: "I s \<Longrightarrow> I (reconcile_authentication before s)"
proof -
  assume s: "I s"
  have "I (foldl (reconcile_attempt before) t xs)" if "I t" for t xs
    by (rule I_foldl [OF I_reconcile_attempt that])
  moreover have "I (foldl reconcile_status t xs)" if "I t" for t xs
    by (rule I_foldl [OF _ that]) (simp add: reconcile_status_def I_put_status)
  moreover have "I (foldl (reconcile_session before) t xs)" if "I t" for t xs
    by (rule I_foldl [OF _ that]) (simp add: reconcile_session_def Let_def I_end_session split: option.split)
  ultimately show ?thesis using s unfolding reconcile_authentication_def Let_def by blast
qed

end

end
