(* ===== verification/Runtime_Safety.thy ===== *)
theory Runtime_Safety
  imports Runtime_Invariant
begin

text \<open>
  The invariants of the runtime, each an instance of the interface of Runtime_Invariant, and the
  transition relation of a running switch between two configuration changes.
\<close>

subsection \<open>The history\<close>

definition numbered :: "runtime \<Rightarrow> bool" where
  \<comment> \<open>numbered from 1 on, without a gap, up to the last number issued\<close>
  "numbered s \<longleftrightarrow> int (length (events s)) \<le> event_id s \<and>
     map ev_id (events s) = [event_id s - int (length (events s)) + 1 .. event_id s]"

definition history_ok :: "runtime \<Rightarrow> bool" where
  "history_ok s \<longleftrightarrow> length (events s) \<le> 2000 \<and> numbered s"

lemma upto_snoc: "i \<le> j + 1 \<Longrightarrow> [i..j] @ [j + 1] = [i..j + 1]"
  using upto_rec2 [of i "j + 1"] by simp

lemma drop_upto: "drop n [i..j] = [i + int n..j]"
proof (induction n arbitrary: i)
  case (Suc n)
  show ?case
  proof (cases "i \<le> j")
    case True
    then have "drop (Suc n) [i..j] = drop n [i + 1..j]" by (simp add: upto_rec1)
    then show ?thesis using Suc [of "i + 1"] by (simp add: algebra_simps)
  qed simp
qed simp

lemma history_event:
  assumes "numbered s"
  shows "history_ok (event kind details s)"
proof -
  let ?n = "length (events s)" and ?xs = "events s @ [new_event kind details s]"
  have ids: "map ev_id ?xs = [event_id s - int ?n + 1 .. event_id s + 1]"
    using assms upto_snoc [of "event_id s - int ?n + 1" "event_id s"]
    by (simp add: numbered_def new_event_def Let_def)
  define ys where "ys = keep_last 2000 ?xs"
  define m where "m = length ?xs - 2000"
  have "map ev_id ys = drop m (map ev_id ?xs)"
    unfolding ys_def keep_last_def m_def drop_map by (rule refl)
  then have new: "map ev_id ys = [event_id s - int ?n + 1 + int m .. event_id s + 1]"
    unfolding ids drop_upto .
  have len: "length ys + m = ?n + 1" "length ys \<le> 2000"
    unfolding ys_def keep_last_def m_def by simp_all
  then have from_id: "event_id s - int ?n + 1 + int m = event_id s + 1 - int (length ys) + 1" by linarith
  have "int ?n \<le> event_id s" using assms by (simp add: numbered_def)
  then have "int (length ys) \<le> event_id s + 1" using len(1) by linarith
  then show ?thesis
    using new [unfolded from_id] len(2) unfolding history_ok_def numbered_def event_def ys_def [symmetric] by simp
qed

interpretation numbering: runtime_invariant numbered
  by unfold_locales (simp_all add: history_event [unfolded history_ok_def],
    simp_all add: numbered_def sequenced_def without_session_def)

lemma history_apart:
  "history_ok s \<Longrightarrow> events t = events s \<Longrightarrow> event_id t = event_id s \<Longrightarrow> history_ok t"
  by (simp add: history_ok_def numbered_def)

interpretation history: runtime_invariant history_ok
  by unfold_locales (simp_all add: history_event [OF conjunct2 [OF history_ok_def [THEN iffD1]]],
    (erule history_apart, simp_all add: sequenced_def without_session_def)+)

subsection \<open>The accounting queue\<close>

definition accounting_ok :: "runtime \<Rightarrow> bool" where
  \<comment> \<open>bounded, in the order of strictly increasing sequence numbers\<close>
  "accounting_ok s \<longleftrightarrow> length (accounting_outbox s) \<le> 1024 \<and>
     sorted_wrt (<) (map ar_sequence (accounting_outbox s)) \<and>
     list_all (\<lambda>r. ar_sequence r \<le> accounting_sequence s) (accounting_outbox s)"

lemma accounting_push:
  assumes "accounting_ok s" and "ar_sequence r = accounting_sequence s + 1"
    and "length (accounting_outbox s) < 1024"
  shows "accounting_ok ((sequenced s)\<lparr>accounting_outbox := accounting_outbox s @ [r]\<rparr>)"
  using assms by (fastforce simp: accounting_ok_def sequenced_def queued_octets_def sorted_wrt_append list_all_iff)

lemma accounting_sequenced: "accounting_ok s \<Longrightarrow> accounting_ok (sequenced s)"
  by (fastforce simp: accounting_ok_def sequenced_def queued_octets_def list_all_iff)

interpretation accounting: runtime_invariant accounting_ok
proof unfold_locales
  fix s Q assume "accounting_ok s"
  then show "accounting_ok (s\<lparr>accounting_outbox := filter Q (accounting_outbox s)\<rparr>)"
    by (auto simp: accounting_ok_def list_all_iff sorted_wrt_map intro: sorted_wrt_filter le_trans [OF length_filter_le])
next
  fix s :: runtime and f :: "accounting_record \<Rightarrow> accounting_record"
  assume "accounting_ok s" "\<And>r. ar_sequence (f r) = ar_sequence r"
  then show "accounting_ok (s\<lparr>accounting_outbox := map f (accounting_outbox s)\<rparr>)"
    by (simp add: accounting_ok_def list_all_iff sorted_wrt_map)
qed (simp_all add: accounting_push accounting_sequenced,
    simp_all add: accounting_ok_def without_session_def event_def)

subsection \<open>Bounded tables\<close>

definition tables_ok :: "runtime \<Rightarrow> bool" where
  \<comment> \<open>the tables stay within the limits of the configuration\<close>
  "tables_ok s \<longleftrightarrow> int (length (fdb s)) \<le> fdb_limit (cfg_switch (cfg s)) \<and>
     int (length (outbox s)) \<le> queue_limit (cfg_switch (cfg s)) \<and>
     int (length (radius_sessions s)) \<le> source_limit (cfg_switch (cfg s)) \<and>
     int (length (renewal_budget s)) \<le> source_limit (cfg_switch (cfg s)) \<and>
     list_all (\<lambda>(_, n). n \<le> 64) (renewal_budget s)"


lemma tables_reserve:
  assumes "tables_ok s" and "reserved s key < 64"
    and "has (renewal_budget s) key \<or> int (length (renewal_budget s)) < source_limit (cfg_switch (cfg s))"
  shows "tables_ok (s\<lparr>renewal_budget := put key (reserved s key + 1) (renewal_budget s)\<rparr>)"
  using assms by (auto simp: tables_ok_def length_put has_def list_all_iff lookup_None_iff dest!: put_values)

lemma tables_learn:
  assumes "tables_ok s" and "map_of (fdb s) k \<noteq> None \<or> int (length (fdb s)) < fdb_limit (cfg_switch (cfg s))"
  shows "tables_ok (s\<lparr>fdb := put k row (fdb s)\<rparr>)"
  using assms by (auto simp: tables_ok_def length_put lookup_None_iff)

lemma tables_shrink: "tables_ok s \<Longrightarrow> length d \<le> length (fdb s) \<Longrightarrow> tables_ok (s\<lparr>fdb := d\<rparr>)"
  by (simp add: tables_ok_def)

interpretation tables: runtime_invariant tables_ok
proof unfold_locales
  fix s key se assume "tables_ok s"
  then have "tables_ok (s\<lparr>fdb := filter (\<lambda>(_, row). \<not> ended_row s se row) (fdb s)\<rparr>)"
    by (rule tables_shrink) simp
  then show "tables_ok (without_session key se s)"
    using length_drop_key_le [of key "radius_sessions s"] by (simp add: tables_ok_def without_session_def)
next
  fix s :: runtime and P assume "tables_ok s"
  then show "tables_ok (s\<lparr>fdb := filter P (fdb s)\<rparr>)" by (rule tables_shrink) simp
next
  fix s :: runtime and key and se sf :: access_session
  assume "tables_ok s" "map_of (radius_sessions s) key = Some se"
  then show "tables_ok (s\<lparr>radius_sessions := put key sf (radius_sessions s)\<rparr>)"
    using dict.bounded_insert length_put [of key sf "radius_sessions s"]
    by (auto simp: tables_ok_def lookup_None_iff dest!: map_of_SomeD intro: rev_image_eqI)
next
  fix s :: runtime and key and se :: access_session
  assume "tables_ok s" "map_of (radius_sessions s) key = None"
    "int (length (radius_sessions s)) < source_limit (cfg_switch (cfg s))"
  then show "tables_ok (s\<lparr>radius_sessions := put key se (radius_sessions s)\<rparr>)"
    by (simp add: tables_ok_def length_put lookup_None_iff)
next
  fix s k assume "tables_ok s"
  then show "tables_ok (s\<lparr>fdb := drop_key k (fdb s)\<rparr>)" by (rule tables_shrink) (rule length_drop_key_le)
next
  fix s m assume "tables_ok s"
  then show "tables_ok (s\<lparr>outbox := drop m (outbox s)\<rparr>)" by (auto simp: tables_ok_def)
qed (simp_all add: tables_reserve tables_learn, simp_all add: tables_ok_def sequenced_def event_def)

subsection \<open>Who is on a port\<close>

definition present_subjects :: "runtime \<Rightarrow> subject set" where
  "present_subjects s = set (keys (radius_attempts s)) \<union> set (keys (radius_sessions s))"

definition filed_sessions :: "(subject, access_session) dict \<Rightarrow> bool" where
  "filed_sessions d \<longleftrightarrow> is_dict d \<and> list_all (\<lambda>(k, se). (se_port se, se_mac se) = k) d"

definition filed_attempts :: "(subject, attempt) dict \<Rightarrow> bool" where
  "filed_attempts d \<longleftrightarrow> is_dict d \<and> list_all (\<lambda>(k, a). (at_port a, at_mac a) = k) d"

definition stale_attempt :: "runtime \<Rightarrow> subject \<Rightarrow> bool" where
  \<comment> \<open>an attempt of the subject was captured under another policy of its port\<close>
  "stale_attempt s k \<longleftrightarrow> (case map_of (radius_attempts s) k of None \<Rightarrow> True
     | Some a \<Rightarrow> cp_authentication (at_context a) \<noteq> authentication (the_port s (fst k)))"

definition crowded :: "runtime \<Rightarrow> subject \<Rightarrow> subject \<Rightarrow> bool" where
  "crowded s k l \<longleftrightarrow> fst k = fst l \<and> k \<noteq> l \<and> \<not> multi_auth s (fst k)"

definition settling :: "configuration \<Rightarrow> runtime \<Rightarrow> bool" where
  \<comment> \<open>after a change of the configuration: two subjects share a port that takes one only where the
     policy of the port changed, and then none of them holds an attempt of the new policy\<close>
  "settling before s \<longleftrightarrow> filed_sessions (radius_sessions s) \<and> filed_attempts (radius_attempts s) \<and>
     (\<forall>k \<in> present_subjects s. has (ports (cfg s)) (fst k) \<and>
        (\<forall>l \<in> present_subjects s. crowded s k l \<longrightarrow>
           authentication (the (map_of (ports before) (fst k))) \<noteq> authentication (the_port s (fst k)) \<and>
           stale_attempt s k))"

definition captured_policy :: "runtime \<Rightarrow> bool" where
  "captured_policy s \<longleftrightarrow>
     list_all (\<lambda>(k, a). cp_authentication (at_context a) = authentication (the_port s (fst k))) (radius_attempts s)"

definition subjects_ok :: "runtime \<Rightarrow> bool" where
  \<comment> \<open>attempts and sessions are filed under their subject, on a port that exists, within its host mode,
     and each attempt was captured under the present policy of its port\<close>
  "subjects_ok s \<longleftrightarrow> filed_sessions (radius_sessions s) \<and> filed_attempts (radius_attempts s) \<and>
     list_all (\<lambda>k. has (ports (cfg s)) (fst k) \<and> lone_subject s k)
       (keys (radius_attempts s) @ keys (radius_sessions s)) \<and> captured_policy s"

lemma filed_sessions_put: "filed_sessions d \<Longrightarrow> (se_port se, se_mac se) = k \<Longrightarrow> filed_sessions (put k se d)"
  by (auto simp: filed_sessions_def list_all_iff intro: is_dict_put dest!: put_values)

lemma filed_sessions_drop: "filed_sessions d \<Longrightarrow> filed_sessions (drop_key k d)"
  by (auto simp: filed_sessions_def list_all_iff drop_key_set intro: is_dict_drop_key)

lemma filed_attempts_put: "filed_attempts d \<Longrightarrow> (at_port a, at_mac a) = k \<Longrightarrow> filed_attempts (put k a d)"
  by (auto simp: filed_attempts_def list_all_iff intro: is_dict_put dest!: put_values)

lemma filed_attempts_drop: "filed_attempts d \<Longrightarrow> filed_attempts (drop_key k d)"
  by (auto simp: filed_attempts_def list_all_iff drop_key_set intro: is_dict_drop_key)

lemma filed_session_key: "filed_sessions d \<Longrightarrow> map_of d k = Some se \<Longrightarrow> k = (se_port se, se_mac se)"
  by (auto simp: filed_sessions_def list_all_iff dest: lookup_in_set)

lemma filed_attempt_key: "filed_attempts d \<Longrightarrow> map_of d k = Some a \<Longrightarrow> k = (at_port a, at_mac a)"
  by (auto simp: filed_attempts_def list_all_iff dest: lookup_in_set)

lemma multi_auth_cong: "cfg t = cfg s \<Longrightarrow> multi_auth t = multi_auth s"
  by (simp add: multi_auth_def [abs_def] the_port_def)

lemma the_port_cong: "cfg t = cfg s \<Longrightarrow> the_port t = the_port s"
  by (simp add: the_port_def [abs_def])

lemma other_subject_iff: "other_subject s k \<longleftrightarrow> (\<exists>l \<in> present_subjects s. fst l = fst k \<and> l \<noteq> k)"
  by (simp only: other_subject_def present_subjects_def list_ex_iff set_append)

lemma lone_subject_iff:
  "lone_subject s k \<longleftrightarrow> multi_auth s (fst k) \<or> (\<forall>l \<in> present_subjects s. fst l = fst k \<longrightarrow> l = k)"
  unfolding lone_subject_def other_subject_iff by blast

lemma lone_not_crowded: "lone_subject s k \<Longrightarrow> l \<in> present_subjects s \<Longrightarrow> \<not> crowded s k l \<and> \<not> crowded s l k"
  unfolding lone_subject_iff crowded_def by metis

lemma subjects_ok_iff: "subjects_ok s \<longleftrightarrow> settling (cfg s) s \<and> captured_policy s"
proof -
  have lone: "(\<forall>l \<in> present_subjects s. \<not> crowded s k l) \<longleftrightarrow> lone_subject s k" for k
    unfolding lone_subject_iff crowded_def by metis
  show ?thesis
    unfolding subjects_ok_def settling_def the_port_def [symmetric] lone [symmetric]
    by (auto simp: list_all_iff present_subjects_def)
qed

lemma subjects_lone: "subjects_ok s \<Longrightarrow> k \<in> present_subjects s \<Longrightarrow> lone_subject s k \<and> has (ports (cfg s)) (fst k)"
  by (auto simp: subjects_ok_def list_all_iff present_subjects_def)

lemma attempt_present: "map_of (radius_attempts s) k = Some a \<Longrightarrow> k \<in> present_subjects s"
  by (auto simp: present_subjects_def dest!: map_of_SomeD intro: rev_image_eqI)

lemma session_present: "map_of (radius_sessions s) k = Some se \<Longrightarrow> k \<in> present_subjects s"
  by (auto simp: present_subjects_def dest!: map_of_SomeD intro: rev_image_eqI)

lemma settling_fewer:
  assumes ok: "settling c s" and t: "cfg t = cfg s" "present_subjects t \<subseteq> present_subjects s"
    and filed: "filed_sessions (radius_sessions t)" "filed_attempts (radius_attempts t)"
    and kept: "\<And>k b. map_of (radius_attempts t) k = Some b \<Longrightarrow>
      \<exists>a. map_of (radius_attempts s) k = Some a \<and> at_context b = at_context a"
  shows "settling c t"
proof -
  have "stale_attempt t k" if "stale_attempt s k" for k
    using that kept [of k] by (auto simp: stale_attempt_def the_port_cong [OF t(1)] split: option.splits)
  then show ?thesis
    using ok t(2) filed unfolding settling_def crowded_def multi_auth_cong [OF t(1)] the_port_cong [OF t(1)] t(1) by blast
qed

lemma settling_more:
  assumes ok: "settling c s" and lone: "lone_subject s key" and port: "has (ports (cfg s)) (fst key)"
    and t: "cfg t = cfg s" "present_subjects t \<subseteq> insert key (present_subjects s)"
    and filed: "filed_sessions (radius_sessions t)" "filed_attempts (radius_attempts t)"
    and kept: "\<And>k. k \<noteq> key \<Longrightarrow> map_of (radius_attempts t) k = map_of (radius_attempts s) k"
  shows "settling c t"
proof -
  have crowd: "crowded t = crowded s" by (simp add: crowded_def [abs_def] multi_auth_cong [OF t(1)])
  have apart: "\<not> crowded s k l" if "k = key \<or> l = key" "k \<in> present_subjects t" "l \<in> present_subjects t" for k l
    using that lone_not_crowded [OF lone, of k] lone_not_crowded [OF lone, of l] t(2) unfolding crowded_def by blast
  have "stale_attempt t k = stale_attempt s k" if "k \<noteq> key" for k
    using kept [OF that] by (simp add: stale_attempt_def the_port_cong [OF t(1)] split: option.split)
  then show ?thesis
    using ok t(2) filed port apart unfolding settling_def crowd the_port_cong [OF t(1)] t(1) by blast
qed

lemma settling_same:
  assumes "cfg t = cfg s" "radius_attempts t = radius_attempts s" "radius_sessions t = radius_sessions s"
  shows "settling c t = settling c s"
proof -
  have "present_subjects t = present_subjects s" by (simp add: present_subjects_def assms)
  moreover have "crowded t = crowded s" by (simp add: crowded_def [abs_def] multi_auth_cong [OF assms(1)])
  moreover have "stale_attempt t = stale_attempt s"
    by (intro ext) (simp add: stale_attempt_def the_port_cong [OF assms(1)] assms(2) split: option.split)
  ultimately show ?thesis by (simp add: settling_def the_port_cong [OF assms(1)] assms)
qed

lemma settling_filed: "settling c s \<Longrightarrow> filed_sessions (radius_sessions s) \<and> filed_attempts (radius_attempts s)"
  by (simp add: settling_def)

lemma present_put_attempt: "present_subjects (s\<lparr>radius_attempts := put key a (radius_attempts s)\<rparr>) = insert key (present_subjects s)"
  unfolding present_subjects_def by (auto simp: keys_put simp del: set_map)

lemma present_put_session: "present_subjects (s\<lparr>radius_sessions := put key se (radius_sessions s)\<rparr>) = insert key (present_subjects s)"
  unfolding present_subjects_def by (auto simp: keys_put simp del: set_map)

lemma present_drop_attempt: "present_subjects (s\<lparr>radius_attempts := drop_key key (radius_attempts s)\<rparr>) \<subseteq> present_subjects s"
  unfolding present_subjects_def by (auto simp: keys_drop_key simp del: set_map)

lemma settling_retire:
  assumes "settling c s"
  shows "settling c (s\<lparr>radius_attempts := drop_key key (radius_attempts s)\<rparr>)"
  by (rule settling_fewer [OF assms _ present_drop_attempt])
    (use settling_filed [OF assms] in \<open>simp_all add: filed_attempts_drop lookup_drop_key split: if_splits\<close>)

lemma settling_start:
  assumes "settling c s" "(at_port a, at_mac a) = key" "lone_subject s key" "has (ports (cfg s)) (fst key)"
  shows "settling c (s\<lparr>radius_attempts := put key a (radius_attempts s)\<rparr>)"
  by (rule settling_more [OF assms(1,3,4)])
    (use settling_filed [OF assms(1)] assms(2) in \<open>simp_all add: present_put_attempt filed_attempts_put lookup_put\<close>)

lemma settling_attempt:
  assumes ok: "settling c s" and a: "map_of (radius_attempts s) key = Some a"
    and b: "at_port b = at_port a" "at_mac b = at_mac a" "at_context b = at_context a"
  shows "settling c (s\<lparr>radius_attempts := put key b (radius_attempts s)\<rparr>)"
proof (rule settling_fewer [OF ok])
  have "key = (at_port a, at_mac a)" using settling_filed [OF ok] filed_attempt_key [OF _ a] by simp
  then show "filed_attempts (radius_attempts (s\<lparr>radius_attempts := put key b (radius_attempts s)\<rparr>))"
    using settling_filed [OF ok] b by (simp add: filed_attempts_put)
  show "present_subjects (s\<lparr>radius_attempts := put key b (radius_attempts s)\<rparr>) \<subseteq> present_subjects s"
    using attempt_present [OF a] by (simp add: present_put_attempt)
qed (use settling_filed [OF ok] a b in \<open>simp_all add: lookup_put split: if_splits\<close>)

lemma settling_session:
  assumes ok: "settling c s" and se: "map_of (radius_sessions s) key = Some se"
    and sf: "se_port sf = se_port se" "se_mac sf = se_mac se"
  shows "settling c (s\<lparr>radius_sessions := put key sf (radius_sessions s)\<rparr>)"
proof (rule settling_fewer [OF ok])
  have "key = (se_port se, se_mac se)" using settling_filed [OF ok] filed_session_key [OF _ se] by simp
  then show "filed_sessions (radius_sessions (s\<lparr>radius_sessions := put key sf (radius_sessions s)\<rparr>))"
    using settling_filed [OF ok] sf by (simp add: filed_sessions_put)
  show "present_subjects (s\<lparr>radius_sessions := put key sf (radius_sessions s)\<rparr>) \<subseteq> present_subjects s"
    using session_present [OF se] by (simp add: present_put_session)
qed (use settling_filed [OF ok] in simp_all)

lemma present_without_session: "present_subjects (without_session key se s) \<subseteq> present_subjects s"
  unfolding present_subjects_def without_session_def by (auto simp: keys_drop_key simp del: set_map)

lemma settling_end:
  assumes "settling c s"
  shows "settling c (without_session key se s)"
  by (rule settling_fewer [OF assms _ present_without_session])
    (use settling_filed [OF assms] in \<open>simp_all add: without_session_def filed_sessions_drop\<close>)

lemma settling_file:
  assumes "settling c s" "(se_port se, se_mac se) = key" "lone_subject s key" "has (ports (cfg s)) (fst key)"
  shows "settling c (s\<lparr>radius_sessions := put key se (radius_sessions s)\<rparr>)"
  by (rule settling_more [OF assms(1,3,4)])
    (use settling_filed [OF assms(1)] assms(2) in \<open>simp_all add: present_put_session filed_sessions_put\<close>)

interpretation settles: runtime_invariant "settling c" for c
proof unfold_locales
  fix s :: runtime and a :: attempt and key
  assume "settling c s" "(at_port a, at_mac a) = key" "lone_subject s key" "has (ports (cfg s)) (fst key)"
  then show "settling c (s\<lparr>radius_attempts := put key a (radius_attempts s)\<rparr>)" by (rule settling_start)
next
  fix s :: runtime and key and a b :: attempt
  assume "settling c s" "map_of (radius_attempts s) key = Some a" "at_port b = at_port a" "at_mac b = at_mac a"
    "at_context b = at_context a"
  then show "settling c (s\<lparr>radius_attempts := put key b (radius_attempts s)\<rparr>)" by (rule settling_attempt)
next
  fix s :: runtime and key and se sf :: access_session
  assume "settling c s" "map_of (radius_sessions s) key = Some se" "se_port sf = se_port se" "se_mac sf = se_mac se"
  then show "settling c (s\<lparr>radius_sessions := put key sf (radius_sessions s)\<rparr>)" by (rule settling_session)
next
  fix s :: runtime and key and se :: access_session
  assume "settling c s" "(se_port se, se_mac se) = key" "lone_subject s key" "has (ports (cfg s)) (fst key)"
  then show "settling c (s\<lparr>radius_sessions := put key se (radius_sessions s)\<rparr>)" by (rule settling_file)
qed (simp_all add: settling_retire settling_end,
  (erule settling_same [THEN iffD2, rotated -1], simp_all add: event_def sequenced_def)+)

lemma captured_fewer:
  assumes "captured_policy s" "cfg t = cfg s" "set (radius_attempts t) \<subseteq> set (radius_attempts s)"
  shows "captured_policy t"
  using assms(1,3) unfolding captured_policy_def list_all_iff the_port_cong [OF assms(2)] by blast

lemma captured_put:
  assumes "captured_policy s" "cp_authentication (at_context a) = authentication (the_port s (fst key))"
  shows "captured_policy (s\<lparr>radius_attempts := put key a (radius_attempts s)\<rparr>)"
  using assms put_values [of _ key a "radius_attempts s"]
  by (fastforce simp: captured_policy_def list_all_iff the_port_def)

lemma subjects_same:
  assumes "subjects_ok s" "cfg t = cfg s" "radius_attempts t = radius_attempts s" "radius_sessions t = radius_sessions s"
  shows "subjects_ok t"
  using assms(1) settling_same [OF assms(2-4), of "cfg s"] captured_fewer [of s t]
  by (simp add: subjects_ok_iff assms(2,3))

lemma subjects_settled: "captured_policy t \<Longrightarrow> cfg t = cfg s \<Longrightarrow> settling (cfg s) t \<Longrightarrow> subjects_ok t"
  by (simp add: subjects_ok_iff)

interpretation subjects: runtime_invariant subjects_ok
proof unfold_locales
  fix s :: runtime and a :: attempt and key
  assume s: "subjects_ok s" and a: "(at_port a, at_mac a) = key" "lone_subject s key" "has (ports (cfg s)) (fst key)"
    "cp_authentication (at_context a) = authentication (the_port s (fst key))"
  have "settling (cfg s) s" "captured_policy s" using s by (simp_all add: subjects_ok_iff)
  then show "subjects_ok (s\<lparr>radius_attempts := put key a (radius_attempts s)\<rparr>)"
    using settling_start [OF _ a(1-3)] captured_put [OF _ a(4)] by (intro subjects_settled) simp_all
next
  fix s :: runtime and key and a b :: attempt
  assume s: "subjects_ok s" and a: "map_of (radius_attempts s) key = Some a"
    and b: "at_port b = at_port a" "at_mac b = at_mac a" "at_context b = at_context a"
  have ok: "settling (cfg s) s" "captured_policy s" using s by (simp_all add: subjects_ok_iff)
  have "cp_authentication (at_context b) = authentication (the_port s (fst key))"
    using ok(2) lookup_in_set [OF a] b(3) by (auto simp: captured_policy_def list_all_iff)
  then show "subjects_ok (s\<lparr>radius_attempts := put key b (radius_attempts s)\<rparr>)"
    using settling_attempt [OF ok(1) a b] captured_put [OF ok(2)] by (intro subjects_settled) simp_all
next
  fix s :: runtime and key and se sf :: access_session
  assume s: "subjects_ok s" and se: "map_of (radius_sessions s) key = Some se" "se_port sf = se_port se" "se_mac sf = se_mac se"
  have ok: "settling (cfg s) s" "captured_policy s" using s by (simp_all add: subjects_ok_iff)
  show "subjects_ok (s\<lparr>radius_sessions := put key sf (radius_sessions s)\<rparr>)"
    using settling_session [OF ok(1) se] captured_fewer [OF ok(2)] by (intro subjects_settled [of _ s]) simp_all
next
  fix s :: runtime and key and se :: access_session
  assume s: "subjects_ok s" and se: "(se_port se, se_mac se) = key" "lone_subject s key" "has (ports (cfg s)) (fst key)"
  have ok: "settling (cfg s) s" "captured_policy s" using s by (simp_all add: subjects_ok_iff)
  show "subjects_ok (s\<lparr>radius_sessions := put key se (radius_sessions s)\<rparr>)"
    using settling_file [OF ok(1) se] captured_fewer [OF ok(2)] by (intro subjects_settled [of _ s]) simp_all
next
  fix s :: runtime and key
  assume s: "subjects_ok s"
  have ok: "settling (cfg s) s" "captured_policy s" using s by (simp_all add: subjects_ok_iff)
  show "subjects_ok (s\<lparr>radius_attempts := drop_key key (radius_attempts s)\<rparr>)"
    using settling_retire [OF ok(1)] captured_fewer [OF ok(2)]
    by (intro subjects_settled [of _ s]) (simp_all add: drop_key_set)
next
  fix s :: runtime and key and se :: access_session
  assume s: "subjects_ok s"
  have ok: "settling (cfg s) s" "captured_policy s" using s by (simp_all add: subjects_ok_iff)
  have "captured_policy (without_session key se s)" by (rule captured_fewer [OF ok(2)]) (simp_all add: without_session_def)
  then show "subjects_ok (without_session key se s)"
    using settling_end [OF ok(1)] by (intro subjects_settled [of _ s]) (simp_all add: without_session_def)
qed (erule subjects_same, simp_all add: event_def sequenced_def)+

subsection \<open>Whose address is learned\<close>

definition admitted_row :: "runtime \<Rightarrow> (int \<times> pystr) \<times> fdb_row \<Rightarrow> bool" where
  "admitted_row s r = (case r of (k, row) \<Rightarrow>
     k = (f_fdb_id row, f_mac row) \<and> port_grants s (f_port row) (f_mac row))"

definition access_ok :: "runtime \<Rightarrow> bool" where
  \<comment> \<open>each learned address is one its port lets in\<close>
  "access_ok s \<longleftrightarrow> subjects_ok s \<and> is_dict (fdb s) \<and> list_all (admitted_row s) (fdb s)"

lemma access_ok_iff:
  "access_ok s \<longleftrightarrow> subjects_ok s \<and> is_dict (fdb s) \<and> (\<forall>r \<in> set (fdb s). admitted_row s r)"
  by (auto simp: access_ok_def list_all_iff)

lemma port_grants_same: "cfg t = cfg s \<Longrightarrow> keys (radius_sessions t) = keys (radius_sessions s) \<Longrightarrow>
    port_grants t = port_grants s"
  by (intro ext port_grants_cong)

lemma admitted_row_same: "cfg t = cfg s \<Longrightarrow> keys (radius_sessions t) = keys (radius_sessions s) \<Longrightarrow>
    admitted_row t = admitted_row s"
  using port_grants_same [of t s] by (simp add: admitted_row_def [abs_def])

lemma access_same:
  assumes "access_ok s" and "subjects_ok t" and "cfg t = cfg s"
    and "keys (radius_sessions t) = keys (radius_sessions s)" and "fdb t = fdb s"
  shows "access_ok t"
  using assms admitted_row_same [of t s] by (simp add: access_ok_iff)

lemma access_apart:
  assumes "access_ok s" and "cfg t = cfg s" "radius_attempts t = radius_attempts s"
    "radius_sessions t = radius_sessions s" "fdb t = fdb s"
  shows "access_ok t"
  using assms subjects_same [of s t] by (intro access_same [OF assms(1)]) (simp_all add: access_ok_def)

lemma covers_after_end:
  assumes "session_covers s (f_port row) (f_mac row)" and "\<not> ended_row s se row" and "key = (se_port se, se_mac se)"
  shows "session_covers (without_session key se s) (f_port row) (f_mac row)"
proof -
  from assms(1) obtain k where k: "k \<in> set (keys (radius_sessions s))" "fst k = f_port row"
      "pa_host_mode (authentication (the_port s (f_port row))) = Multi_host \<or> snd k = f_mac row"
    unfolding session_covers_def list_ex_iff by blast
  have "k \<noteq> key" using k(2,3) assms(2,3) by (auto simp: ended_row_def)
  then have "k \<in> set (keys (radius_sessions (without_session key se s)))"
    using k(1) by (simp add: without_session_def keys_drop_key)
  then show ?thesis
    using k(2,3) unfolding session_covers_def list_ex_iff by (auto simp: without_session_def the_port_def)
qed

lemma access_end:
  assumes ok: "access_ok s" and se: "map_of (radius_sessions s) key = Some se"
  shows "access_ok (without_session key se s)" (is "access_ok ?t")
proof -
  have "filed_sessions (radius_sessions s)" using ok by (simp add: access_ok_iff subjects_ok_def)
  then have id: "key = (se_port se, se_mac se)" by (rule filed_session_key) (rule se)
  have "admitted_row ?t r" if "r \<in> set (fdb ?t)" for r
  proof -
    obtain k row where r: "r = (k, row)" by (cases r)
    have row: "admitted_row s (k, row)" "\<not> ended_row s se row"
      using that ok by (auto simp: r without_session_def access_ok_iff)
    show ?thesis
      using row covers_after_end [OF _ row(2) id]
      by (auto simp: r admitted_row_def port_grants_def without_session_def the_port_def split: control.split_asm)
  qed
  moreover have "subjects_ok ?t" using ok se by (simp add: access_ok_iff subjects.I_end)
  ultimately show ?thesis
    using ok by (simp add: access_ok_iff without_session_def is_dict_filter)
qed

lemma access_fdb:
  assumes ok: "access_ok s" and "is_dict d" and "\<And>r. r \<in> set d \<Longrightarrow> r \<in> set (fdb s) \<or> admitted_row s r"
  shows "access_ok (s\<lparr>fdb := d\<rparr>)" (is "access_ok ?t")
proof -
  have same: "admitted_row ?t = admitted_row s" by (intro admitted_row_same) simp_all
  have "settling (cfg s) ?t = settling (cfg s) s" by (rule settling_same) simp_all
  then have "subjects_ok ?t" using ok by (simp add: access_ok_iff subjects_ok_iff captured_policy_def the_port_def)
  moreover have "admitted_row s r" if "r \<in> set d" for r using assms(3) [OF that] ok unfolding access_ok_iff by blast
  ultimately show ?thesis using assms(2) unfolding access_ok_iff same by simp
qed

lemma access_learn:
  assumes "access_ok s" and "k = (f_fdb_id row, f_mac row)" and "port_grants s (f_port row) (f_mac row)"
  shows "access_ok (s\<lparr>fdb := put k row (fdb s)\<rparr>)"
proof (rule access_fdb [OF assms(1)])
  show "is_dict (put k row (fdb s))" using assms(1) by (auto simp: access_ok_iff)
  show "r \<in> set (fdb s) \<or> admitted_row s r" if "r \<in> set (put k row (fdb s))" for r
    using put_values [OF that] assms(2,3) by (auto simp: admitted_row_def)
qed

lemma access_grant:
  assumes ok: "access_ok s" and t: "subjects_ok (s\<lparr>radius_sessions := put key se (radius_sessions s)\<rparr>)" (is "subjects_ok ?t")
    and absent: "map_of (radius_sessions s) key = None"
  shows "access_ok ?t"
proof -
  have keys: "set (keys (radius_sessions ?t)) = insert key (set (keys (radius_sessions s)))"
    using absent by (simp add: keys_put lookup_None_iff)
  have "admitted_row ?t r" if "admitted_row s r" for r
    using that keys by (auto simp: admitted_row_def port_grants_def session_covers_def list_ex_iff the_port_def
        split: control.splits)
  then show ?thesis using ok t by (simp add: access_ok_iff)
qed

lemma access_flush: "access_ok s \<Longrightarrow> access_ok (s\<lparr>fdb := filter P (fdb s)\<rparr>)"
  by (rule access_fdb) (auto simp: access_ok_iff intro: is_dict_filter)

lemma access_age: "access_ok s \<Longrightarrow> access_ok (s\<lparr>fdb := drop_key k (fdb s)\<rparr>)"
  by (rule access_fdb) (auto simp: access_ok_iff drop_key_set intro: is_dict_drop_key)

lemma access_subjects: "access_ok s \<Longrightarrow> subjects_ok s"
  by (simp add: access_ok_def)

interpretation access: runtime_invariant access_ok
proof unfold_locales
  fix s :: runtime and a :: attempt and key
  assume s: "access_ok s" and "(at_port a, at_mac a) = key" "lone_subject s key"
    "map_of (radius_attempts s) key = None" "has (ports (cfg s)) (fst key)"
    "cp_authentication (at_context a) = authentication (the_port s (fst key))"
  then have "subjects_ok (s\<lparr>radius_attempts := put key a (radius_attempts s)\<rparr>)"
    by (intro subjects.I_start) (simp_all add: access_subjects)
  then show "access_ok (s\<lparr>radius_attempts := put key a (radius_attempts s)\<rparr>)" by (rule access_same [OF s]) simp_all
next
  fix s :: runtime and key and a b :: attempt
  assume s: "access_ok s" and "map_of (radius_attempts s) key = Some a" "at_port b = at_port a" "at_mac b = at_mac a"
    "at_context b = at_context a"
  then have "subjects_ok (s\<lparr>radius_attempts := put key b (radius_attempts s)\<rparr>)"
    using subjects.I_attempt [of s key a b] by (simp add: access_subjects)
  then show "access_ok (s\<lparr>radius_attempts := put key b (radius_attempts s)\<rparr>)" by (rule access_same [OF s]) simp_all
next
  fix s :: runtime and key
  assume s: "access_ok s"
  then have "subjects_ok (s\<lparr>radius_attempts := drop_key key (radius_attempts s)\<rparr>)"
    by (intro subjects.I_retire access_subjects)
  then show "access_ok (s\<lparr>radius_attempts := drop_key key (radius_attempts s)\<rparr>)" by (rule access_same [OF s]) simp_all
next
  fix s :: runtime and key and se sf :: access_session
  assume s: "access_ok s" and se: "map_of (radius_sessions s) key = Some se"
    and "se_port sf = se_port se" "se_mac sf = se_mac se"
  then have "subjects_ok (s\<lparr>radius_sessions := put key sf (radius_sessions s)\<rparr>)"
    using subjects.I_session [of s key se sf] by (simp add: access_subjects)
  then show "access_ok (s\<lparr>radius_sessions := put key sf (radius_sessions s)\<rparr>)"
    by (rule access_same [OF s]) (simp_all add: keys_put_present [OF se])
next
  fix s :: runtime and k and row :: fdb_row
  assume "access_ok s" "k = (f_fdb_id row, f_mac row)" "port_grants s (f_port row) (f_mac row)"
  then show "access_ok (s\<lparr>fdb := put k row (fdb s)\<rparr>)" by (rule access_learn)
next
  fix s :: runtime and key and se :: access_session
  assume "access_ok s" "map_of (radius_sessions s) key = Some se"
  then show "access_ok (without_session key se s)" by (rule access_end)
next
  fix s :: runtime and key and se :: access_session
  assume s: "access_ok s" and "(se_port se, se_mac se) = key" "lone_subject s key"
    and absent: "map_of (radius_sessions s) key = None" and "has (ports (cfg s)) (fst key)"
    "int (length (radius_sessions s)) < source_limit (cfg_switch (cfg s))"
  then have "subjects_ok (s\<lparr>radius_sessions := put key se (radius_sessions s)\<rparr>)"
    by (intro subjects.I_file) (simp_all add: access_subjects)
  then show "access_ok (s\<lparr>radius_sessions := put key se (radius_sessions s)\<rparr>)" by (rule access_grant [OF s _ absent])
qed (simp_all add: access_age access_flush,
  (erule access_apart, simp_all add: event_def sequenced_def)+)

end
