(* ===== verification/Runtime_Results.thy ===== *)
theory Runtime_Results
  imports Runtime_Safety Radius_Planner
begin

text \<open>
  The commands of \<open>switchlab/engine.py\<close> (\<open>_apply\<close>) that act on sessions: the result of an exchange
  (\<open>radius-result\<close>), a planned CoA or Disconnect (\<open>radius-dynamic\<close>), the operator's action on a
  session (\<open>radius-session-action\<close>), the discovery tick and the queue commands. A command works on a
  copy of the runtime, which is discarded when it raises: a failure carries no state.
\<close>

datatype failure = Refused command_error | Raised py_error

definition refuse :: "int \<Rightarrow> string \<Rightarrow> failure + 'a" where
  "refuse code message = Inl (Refused (Command_error code message))"

definition checked_begin :: "command_error + (runtime \<times> begun) \<Rightarrow> failure + (runtime \<times> begun)" where
  "checked_begin r = (case r of Inl e \<Rightarrow> Inl (Refused e) | Inr x \<Rightarrow> Inr x)"

subsection \<open>The result of an exchange\<close>

record outcome =
  oc_attempt :: uid
  oc_result :: "access_result option"
  oc_failure :: "string option"
  oc_server :: "uid option"
  oc_signature :: "server_signature option"

datatype answer = Stale | Fallback | Rejected string | Accepted uid bool

definition status_json :: "string \<times> summary_status \<Rightarrow> json" where
  "status_json item = (case item of (nm, st) \<Rightarrow> JObject ((''name'', JName nm) #
     (case st of Absent \<Rightarrow> [(''status'', JName ''absent'')] | Invalid \<Rightarrow> [(''status'', JName ''invalid'')]
      | Present v \<Rightarrow> [(''status'', JName ''present''), (''value'', JInt v)])))"

definition omitted_json :: "(string + int) \<times> nat \<Rightarrow> json" where
  "omitted_json item = (case item of (which, n) \<Rightarrow> JObject
     [(''name'', case which of Inl nm \<Rightarrow> JName nm | Inr k \<Rightarrow> JText (str ''Attribute '' @ decimal (nat k))),
      (''count'', JInt (int n))])"

definition summary_json :: "access_summary option \<Rightarrow> json" where
  "summary_json o' = (case o' of None \<Rightarrow> JNull
     | Some y \<Rightarrow> JObject [(''nas_code'', JInt (sum_nas_code y)),
         (''attributes'', JList (map status_json (sum_attributes y))),
         (''omitted'', JList (map omitted_json (sum_omitted y)))])"

definition received_code :: "outcome \<Rightarrow> int option" where
  "received_code o' = map_option ar_code (oc_result o')"

definition base_reason :: "outcome \<Rightarrow> string" where
  "base_reason o' =
     (case oc_result o' of
        None \<Rightarrow> (case oc_failure o' of None \<Rightarrow> ''incomplete-exchange'' | Some f \<Rightarrow> f)
      | Some r \<Rightarrow> if ar_code r = 3 then ''server-reject'' else ''incomplete-exchange'')"

definition decided_policy :: "outcome \<Rightarrow> runtime \<Rightarrow> uid \<Rightarrow> failure + (string + authorization)" where
  \<comment> \<open>the policy of an acceptable Accept, or the reason there is none\<close>
  "decided_policy o' s pid =
     (case oc_result o' of
        Some r \<Rightarrow>
          if ar_code r = 2 then
            (case authorization r (the_port s pid) (vlans (cfg s)) of
               Inr policy \<Rightarrow> Inr (Inr policy)
             | Inl (RadiusError reason) \<Rightarrow> Inr (Inl reason)
             | Inl e \<Rightarrow> Inl (Raised e))
          else Inr (Inl (base_reason o'))
      | None \<Rightarrow> Inr (Inl (base_reason o')))"

definition pae_outcome :: "outcome \<Rightarrow> string + authorization \<Rightarrow> string" where
  "pae_outcome o' decision =
     (case decision of Inr _ \<Rightarrow> ''success''
      | Inl reason \<Rightarrow> if received_code o' = Some 3 then ''reject''
          else if reason = ''server-unavailable'' \<or> reason = ''invalid-reply'' then ''timeout'' else ''local'')"

definition fails_over :: "outcome \<Rightarrow> attempt \<Rightarrow> port \<Rightarrow> bool" where
  \<comment> \<open>a rejected EAP peer may be tried by MAB\<close>
  "fails_over o' a p \<longleftrightarrow> received_code o' = Some 3 \<and> at_method a \<noteq> By_mab \<and>
     pa_method (authentication p) = Dot1x_mab \<and> fallback_reject (authentication p)"

definition deny :: "subject \<Rightarrow> attempt \<Rightarrow> string \<Rightarrow> outcome \<Rightarrow> runtime \<Rightarrow> runtime" where
  "deny key a reason o' s =
     (let summary = map_option safe_access_summary (oc_result o');
          s = end_session key reason (Some 20) None s;
          s = put_status key (no_status\<lparr>ss_status := ''failed'', ss_reason := Some reason,
                ss_nas_code := received_code o', ss_response := summary,
                ss_context := Some (at_context a), retry_at_ms := Some (failed_retry s)\<rparr>) s
      in event ''authentication-failed'' [(''port_id'', JText (fst key)), (''mac'', JText (snd key)),
           (''reason'', JName reason),
           (''nas_code'', case received_code o' of None \<Rightarrow> JNull | Some c \<Rightarrow> JInt c),
           (''response'', summary_json summary)] s)"

definition access_policy :: "authorization \<Rightarrow> int \<times> vlan_source \<times> int option \<times> int option \<times> int" where
  "access_policy p = (au_vid p, au_source p, session_timeout p, idle_timeout p, termination_action p)"

definition fresh_session ::
  "subject \<Rightarrow> uid \<Rightarrow> attempt \<Rightarrow> authorization \<Rightarrow> access_session option \<Rightarrow> runtime \<Rightarrow> access_session \<times> runtime" where
  \<comment> \<open>\<open>AccessSession(...)\<close>; the two generations are drawn by the field factories\<close>
  "fresh_session key ident a policy previous s =
     (let (g, s) = draw s; (observed, s) = draw s
      in (\<lparr>se_id = ident, se_port = fst key, se_mac = snd key, se_method = at_method a, se_policy = policy,
           started_ms = sim_ms s,
           last_activity_ms = (case previous of None \<Rightarrow> None | Some p \<Rightarrow> last_activity_ms p),
           in_octets = 0, in_packets = 0, se_nas = at_nas a, grant_generation = g,
           observation_generation = observed, last_auth_ms = 0,
           idle_origin_ms = (case previous of None \<Rightarrow> sim_ms s | Some p \<Rightarrow> idle_origin_ms p),
           lease_deadline_ms = None, renewal_started_ms = None, renewal_automatic = False,
           accounting_identity = [], user_name = None, accounting_interval = 0, accounting_next_ms = None,
           auth_server = None, auth_server_signature = None\<rparr>, s))"

definition nonempty_or :: "bytes option \<Rightarrow> bytes option \<Rightarrow> bytes option" where
  \<comment> \<open>\<open>a or b\<close>\<close>
  "nonempty_or a b = (case a of Some (x # xs) \<Rightarrow> a | _ \<Rightarrow> b)"

definition granted_session ::
  "runtime \<Rightarrow> attempt \<Rightarrow> authorization \<Rightarrow> outcome \<Rightarrow> attribute list option \<Rightarrow> access_session \<Rightarrow> access_session" where
  \<comment> \<open>the grant written into a new or a continued session; the attributes are those of a new one\<close>
  "granted_session s a policy o' identity se =
     (let se = se\<lparr>se_policy := policy, se_method := at_method a, auth_server := oc_server o',
                 auth_server_signature := oc_signature o',
                 user_name := nonempty_or (au_username policy) (at_username a)\<rparr>;
          se = (case identity of None \<Rightarrow> se | Some attrs \<Rightarrow> se\<lparr>accounting_identity := attrs\<rparr>);
          period = (if ac_enabled (accounting (radius (cfg s))) then accounting_period s se else 0);
          se = (if identity \<noteq> None \<or> period \<noteq> accounting_interval se
                then se\<lparr>accounting_interval := period,
                       accounting_next_ms := (if period \<noteq> 0 then Some (sim_ms s + period * 1000) else None)\<rparr>
                else se)
      in se\<lparr>last_auth_ms := sim_ms s,
            lease_deadline_ms := map_option (\<lambda>t. sim_ms s + t * 1000) (session_timeout policy),
            renewal_started_ms := None\<rparr>)"

definition publish_grant ::
  "subject \<Rightarrow> attempt \<Rightarrow> authorization \<Rightarrow> outcome \<Rightarrow> bool \<Rightarrow> access_session \<Rightarrow> runtime \<Rightarrow> runtime" where
  \<comment> \<open>after the session is filed\<close>
  "publish_grant key a policy o' started se s =
     (let summary = map_option safe_access_summary (oc_result o');
          s = (if multi_auth s (fst key)
               then s\<lparr>last_auth_sessions := drop_key (fst key) (last_auth_sessions s)\<rparr> else s);
          s = (if started then queue_accounting 1 (Some se) None None False None s else s);
          s = (case accounting_warning policy of None \<Rightarrow> s
               | Some w \<Rightarrow> event ''accounting-warning''
                   [(''session_id'', JText (se_id se)), (''reason'', JName w)] s);
          s = put_status key (no_status\<lparr>ss_status := ''authorized'', ss_method := Some (auth_name (at_method a)),
                ss_session := Some (se_id se), ss_response := summary\<rparr>) s
      in event ''authentication-authorized'' [(''port_id'', JText (fst key)), (''mac'', JText (snd key)),
           (''session_id'', JText (se_id se)), (''vid'', JInt (session_vid s se)),
           (''source'', JName (if au_source policy = Port_default then ''port-default'' else ''radius'')),
           (''response'', summary_json summary)] s)"

definition session_to_grant ::
  "subject \<Rightarrow> attempt \<Rightarrow> authorization \<Rightarrow> runtime \<Rightarrow> uid \<times> access_session option \<times> runtime" where
  \<comment> \<open>a changed policy ends the session and takes a new identifier\<close>
  "session_to_grant key a policy s =
     (case map_of (radius_sessions s) key of
        Some se \<Rightarrow>
          if access_policy (se_policy se) \<noteq> access_policy policy then
            let (ident, s) = draw (end_session key ''reauthentication-policy-change'' None None s)
            in (ident, None, s)
          else (at_session a, Some se, s)
      | None \<Rightarrow> (at_session a, None, s))"

definition grant_identity ::
  "subject \<Rightarrow> attempt \<Rightarrow> access_session \<Rightarrow> runtime \<Rightarrow> failure + attribute list" where
  "grant_identity key a se s =
     (case at_nas a of
        None \<Rightarrow> Inl (Raised (RadiusError ''nas_identifier_override_required''))
      | Some nas \<Rightarrow> (case access_attributes (radius (cfg s)) (the_port s (fst key)) (snd key) (se_id se) None nas of
            Inl e \<Rightarrow> Inl (Raised e) | Inr attrs \<Rightarrow> Inr attrs))"

definition file_grant ::
  "subject \<Rightarrow> attempt \<Rightarrow> authorization \<Rightarrow> outcome \<Rightarrow> attribute list option \<Rightarrow> access_session \<Rightarrow> runtime \<Rightarrow>
     runtime \<times> answer" where
  "file_grant key a policy o' identity se s =
     (let se = granted_session s a policy o' identity se;
          s = publish_grant key a policy o' (identity \<noteq> None) se (put_session key se s);
          s = process_session_deadlines s
      in (s, Accepted (se_id se) (has (radius_sessions s) key)))"

definition grant ::
  "subject \<Rightarrow> attempt \<Rightarrow> authorization \<Rightarrow> outcome \<Rightarrow> runtime \<Rightarrow> failure + (runtime \<times> answer)" where
  "grant key a policy o' s =
     (let previous = map_of (radius_sessions s) key;
          (ident, old, s) = session_to_grant key a policy s
      in case old of
           Some se \<Rightarrow> Inr (file_grant key a policy o' None se s)
         | None \<Rightarrow>
             if source_limit (cfg_switch (cfg s)) \<le> int (length (radius_sessions s))
             then refuse 429 ''Authentication session capacity reached''
             else
               let (se, s) = fresh_session key ident a policy previous s
               in bind (grant_identity key a se s) (\<lambda>attrs.
                    Inr (file_grant key a policy o' (Some attrs) se s)))"

definition begins_with :: "string \<Rightarrow> string \<Rightarrow> bool" where
  "begins_with prefix t \<longleftrightarrow> take (length prefix) t = prefix"

definition decide ::
  "subject \<Rightarrow> attempt \<Rightarrow> outcome \<Rightarrow> string + authorization \<Rightarrow> runtime \<Rightarrow> failure + (runtime \<times> answer)" where
  \<comment> \<open>the attempt is consumed and the decision known\<close>
  "decide key a o' decision s =
     (let reason = (case decision of Inl r \<Rightarrow> r | Inr _ \<Rightarrow> base_reason o');
          s = pae_finish a (pae_outcome o' decision) s;
          s = (if begins_with ''native_'' reason then with_pae (fst key) (\<lambda>p. p\<lparr>precise := False\<rparr>) s else s)
      in if fails_over o' a (the_port s (fst key)) then
           bind (checked_begin (begin_authentication key True (automatic_renewal a) False s)) (\<lambda>(s, _).
             Inr (event ''authentication-method-fallback'' [(''port_id'', JText (fst key)),
               (''mac'', JText (snd key)), (''reason'', JName ''server-reject''), (''method'', JName ''mab''),
               (''response'', summary_json (map_option safe_access_summary (oc_result o')))] s, Fallback))
         else case decision of
             Inl reason \<Rightarrow> Inr (deny key a reason o' s, Rejected reason)
           | Inr policy \<Rightarrow> grant key a policy o' s)"

definition radius_result :: "subject \<Rightarrow> outcome \<Rightarrow> runtime \<Rightarrow> failure + (runtime \<times> answer)" where
  "radius_result key o' s =
     (case current_attempt s key (oc_attempt o') of
        None \<Rightarrow> Inr (s, Stale)
      | Some a \<Rightarrow>
          let s = s\<lparr>radius_attempts := drop_key key (radius_attempts s)\<rparr>
          in bind (decided_policy o' s (fst key)) (\<lambda>decision. decide key a o' decision s))"

subsection \<open>Dynamic authorization\<close>

definition still_planned :: "runtime \<Rightarrow> proposal \<Rightarrow> bool" where
  "still_planned s c \<longleftrightarrow>
     (case map_of (radius_sessions s) (pr_key c) of None \<Rightarrow> False
      | Some se \<Rightarrow> se_id se = pr_session c \<and> grant_generation se = pr_grant c)"

definition disconnect :: "subject \<Rightarrow> runtime \<Rightarrow> runtime" where
  "disconnect key s =
     (let s = end_session key ''dynamic-disconnect'' (Some 6) None s
      in put_status key (no_status\<lparr>ss_status := ''waiting-activity'', ss_method := Some ''configured'',
           ss_reason := Some ''dynamic-disconnect'', ss_context := authentication_context s key\<rparr>) s)"

definition change_grant :: "proposal \<Rightarrow> authorization \<Rightarrow> access_session \<Rightarrow> runtime \<Rightarrow> runtime" where
  \<comment> \<open>a CoA; the addresses of the session are learned again when its VLAN changes\<close>
  "change_grant c policy se s =
     (let old_vid = session_vid s se;
          s = retire_authentication (pr_key c) s;
          (g, s) = draw s;
          se = se\<lparr>se_policy := policy, lease_deadline_ms := pr_lease c, grant_generation := g,
                 renewal_started_ms := None\<rparr>;
          s = put_session (pr_key c) se s;
          s = (if session_vid s se \<noteq> old_vid
               then s\<lparr>fdb := filter (\<lambda>(_, row). \<not> ended_row s se row) (fdb s)\<rparr> else s)
      in event ''dynamic-coa'' [(''port_id'', JText (se_port se)), (''mac'', JText (se_mac se)),
           (''session_id'', JText (se_id se))] s)"

definition apply_change :: "runtime \<Rightarrow> proposal \<Rightarrow> runtime" where
  "apply_change s c =
     (case map_of (radius_sessions s) (pr_key c) of None \<Rightarrow> s
      | Some se \<Rightarrow> (case pr_policy c of
            None \<Rightarrow> disconnect (pr_key c) s
          | Some policy \<Rightarrow>
              if se_policy se \<noteq> policy \<or> lease_deadline_ms se \<noteq> pr_lease c
              then change_grant c policy se s else s))"

definition radius_dynamic :: "dynamic_plan \<Rightarrow> runtime \<Rightarrow> failure + runtime" where
  "radius_dynamic plan s =
     (if \<not> list_all (still_planned s) (pl_sessions plan)
      then refuse 409 ''Dynamic session changed before commit''
      else Inr (process_session_deadlines (foldl apply_change s (pl_sessions plan))))"

subsection \<open>Operator commands on sessions\<close>

definition drop_status :: "subject \<Rightarrow> runtime \<Rightarrow> runtime" where
  "drop_status key s = s\<lparr>radius_status := drop_key key (radius_status s)\<rparr>"

definition begin_if_subject :: "subject \<Rightarrow> runtime \<Rightarrow> failure + runtime" where
  "begin_if_subject key s =
     (if authentication_context s key = None then Inr s
      else bind (checked_begin (begin_authentication key False False False s)) (\<lambda>(s, _). Inr s))"

definition session_action :: "uid \<Rightarrow> bool \<Rightarrow> runtime \<Rightarrow> failure + runtime" where
  \<comment> \<open>restart or reauthenticate the session of the identifier\<close>
  "session_action ident restart s =
     (case List.find (\<lambda>(_, se). se_id se = ident) (radius_sessions s) of
        None \<Rightarrow> refuse 404 ''Session no longer exists''
      | Some (key, se) \<Rightarrow>
          let s = retire_authentication key s
          in bind (if restart
               then begin_if_subject key (drop_status key (end_session key ''manual-restart'' None None s))
               else bind (checked_begin (request_renewal key False s)) (\<lambda>(s, _). Inr s)) (\<lambda>s.
             Inr (event (if restart then ''authentication-restart'' else ''authentication-reauthenticate'')
               [(''port_id'', JText (fst key)), (''mac'', JText (snd key)), (''session_id'', JText (se_id se))] s)))"

definition radius_discover :: "runtime \<Rightarrow> runtime" where
  "radius_discover s = prepare_authentication (process_session_deadlines s)"

definition radius_shutdown :: "runtime \<Rightarrow> runtime" where
  "radius_shutdown s =
     queue_accounting 8 None None (Some ''application-shutdown'') False None
       (foldl (\<lambda>s key. end_session key ''application-shutdown'' None None s) s (keys (radius_sessions s)))"

subsection \<open>Queues\<close>

definition accounting_expired :: "runtime \<Rightarrow> accounting_record \<Rightarrow> bool" where
  "accounting_expired s r \<longleftrightarrow>
     clock_origin r \<noteq> process_origin s \<or> generated_elapsed r + 300 < elapsed_now s \<or>
     expires_wall r < wall_now s \<or> wall_now s < generated_wall r"

definition accounting_remaining :: "runtime \<Rightarrow> accounting_record \<Rightarrow> int" where
  "accounting_remaining s r =
     (if clock_origin r \<noteq> process_origin s \<or> wall_now s < generated_wall r then 0
      else max 0 (min (generated_elapsed r + 300 - elapsed_now s) (expires_wall r - wall_now s)))"

definition prune_record :: "runtime \<Rightarrow> accounting_record \<Rightarrow> runtime" where
  "prune_record s r = (if accounting_expired s r
     then accounting_drop ''expired'' [(''record_id'', JText (ar_id r))] s else s)"

definition accounting_prune :: "runtime \<Rightarrow> runtime" where
  "accounting_prune s =
     (foldl prune_record s (accounting_outbox s))
       \<lparr>accounting_outbox := filter (\<lambda>r. \<not> accounting_expired s r) (accounting_outbox s)\<rparr>"

definition accounting_event :: "uid \<Rightarrow> string \<Rightarrow> details \<Rightarrow> runtime \<Rightarrow> runtime \<times> bool" where
  "accounting_event ident phase details s =
     (case List.find (\<lambda>r. ar_id r = ident) (accounting_outbox s) of
        None \<Rightarrow> (s, False)
      | Some r \<Rightarrow>
          let s = (if phase = ''attempting''
                then s\<lparr>accounting_outbox := map (\<lambda>x. if ar_id x = ident
                       then x\<lparr>ar_status := ''sending'', ar_attempts := ar_attempts x + 1\<rparr> else x)
                     (accounting_outbox s)\<rparr> else s)
          in (event ''accounting'' ([(''status'', JName phase), (''record_id'', JText ident),
                (''session_id'', record_session r)] @ details) s, True))"

definition accounting_result :: "uid \<Rightarrow> string option \<Rightarrow> details \<Rightarrow> runtime \<Rightarrow> runtime \<times> bool" where
  \<comment> \<open>delivered, or dropped for a reason; \<open>details\<close> names the target\<close>
  "accounting_result ident dropped details s =
     (case List.find (\<lambda>r. ar_id r = ident) (accounting_outbox s) of
        None \<Rightarrow> (s, False)
      | Some r \<Rightarrow>
          let s = s\<lparr>accounting_outbox := filter (\<lambda>x. ar_id x \<noteq> ident) (accounting_outbox s)\<rparr>
          in (case dropped of
                None \<Rightarrow> event ''accounting'' ([(''status'', JName ''delivered''),
                  (''record_id'', JText ident), (''session_id'', record_session r)] @ details) s
              | Some reason \<Rightarrow> accounting_drop reason [(''record_id'', JText ident),
                  (''session_id'', record_session r)] s, True))"

definition notification_result :: "int \<Rightarrow> uid \<Rightarrow> details \<Rightarrow> runtime \<Rightarrow> runtime" where
  "notification_result ident target details s =
     (let given = [(''notification_id'', JInt ident), (''target_id'', JText target)] @ details
      in case outbox s of
           item # rest \<Rightarrow>
             if ev_id (ob_event item) = ident \<and> ob_target item = target then
               event ''notification''
                 (case ob_destination item of None \<Rightarrow> given | Some d \<Rightarrow> put ''destination'' (JText d) given)
                 (s\<lparr>outbox := rest\<rparr>)
             else event ''notification'' given s
         | [] \<Rightarrow> event ''notification'' given s)"

definition clear_learned :: "uid option \<Rightarrow> int option \<Rightarrow> runtime \<Rightarrow> failure + runtime" where
  "clear_learned pid v s =
     (if (case pid of None \<Rightarrow> False | Some p \<Rightarrow> \<not> has (ports (cfg s)) p) \<or>
         (case v of None \<Rightarrow> False | Some n \<Rightarrow> \<not> has (vlans (cfg s)) n)
      then refuse 404 ''Resource not found''
      else Inr (event ''fdb-clear''
        [(''port_id'', case pid of None \<Rightarrow> JNull | Some p \<Rightarrow> JText p),
         (''vid'', case v of None \<Rightarrow> JNull | Some n \<Rightarrow> JInt n)]
        (s\<lparr>fdb := filter (\<lambda>(_, row). \<not> ((case pid of None \<Rightarrow> True | Some p \<Rightarrow> f_port row = p) \<and>
             (case v of None \<Rightarrow> True | Some n \<Rightarrow> f_vid row = n))) (fdb s)\<rparr>)))"

end
