(* ===== verification/Runtime_Steps.thy ===== *)
theory Runtime_Steps
  imports Runtime_Results
begin

text \<open>
  The transition relation of a running switch: every command of \<open>switchlab/engine.py\<close> that leaves the
  configuration alone, and the clock. All invariants hold in every state it reaches.
\<close>

subsection \<open>What the end of a session leaves alone\<close>

lemma retire_apart:
  "cfg (retire_authentication key s) = cfg s"
  "radius_sessions (retire_authentication key s) = radius_sessions s"
  "radius_attempts (retire_authentication key s) = drop_key key (radius_attempts s)"
  by (simp_all add: retire_authentication_def with_pae_def Let_def delete_idem map_of_eq_None_iff split: option.split)

lemma ending_apart:
  "cfg (ending key se reason cause v s) = cfg s"
  "radius_sessions (ending key se reason cause v s) = radius_sessions s"
  "radius_attempts (ending key se reason cause v s) \<in> {radius_attempts s, drop_key key (radius_attempts s)}"
  by (auto simp: ending_def Let_def retire_renewal_def retire_apart note_last_session_def set_port_state_def
      with_pae_def queue_accounting_apart learned_apart split: option.split)

lemma end_session_none: "map_of (radius_sessions s) key = None \<Longrightarrow> end_session key reason cause v s = s"
  by (simp add: end_session_def)

lemma end_session_some:
  assumes "map_of (radius_sessions s) key = Some se"
  shows "cfg (end_session key reason cause v s) = cfg s"
    "radius_sessions (end_session key reason cause v s) = drop_key key (radius_sessions s)"
    "radius_attempts (end_session key reason cause v s) \<in> {radius_attempts s, drop_key key (radius_attempts s)}"
  using ending_apart [of key se reason "end_cause se reason cause" v "without_session key se s"]
  unfolding end_session_form [OF assms] by (simp_all add: event_def put_status_def without_session_def)

lemma end_session_apart:
  "cfg (end_session key reason cause v s) = cfg s"
  "radius_sessions (end_session key reason cause v s) = drop_key key (radius_sessions s)"
  "radius_attempts (end_session key reason cause v s) \<in> {radius_attempts s, drop_key key (radius_attempts s)}"
proof -
  consider "map_of (radius_sessions s) key = None" | se where "map_of (radius_sessions s) key = Some se" by blast
  then have "cfg (end_session key reason cause v s) = cfg s \<and>
      radius_sessions (end_session key reason cause v s) = drop_key key (radius_sessions s) \<and>
      radius_attempts (end_session key reason cause v s) \<in> {radius_attempts s, drop_key key (radius_attempts s)}"
  proof cases
    case 1
    then show ?thesis by (simp add: end_session_none delete_idem map_of_eq_None_iff)
  next
    case (2 se)
    show ?thesis using end_session_some [OF 2] by blast
  qed
  then show "cfg (end_session key reason cause v s) = cfg s"
    "radius_sessions (end_session key reason cause v s) = drop_key key (radius_sessions s)"
    "radius_attempts (end_session key reason cause v s) \<in> {radius_attempts s, drop_key key (radius_attempts s)}"
    by blast+
qed

lemma end_session_present: "present_subjects (end_session key reason cause v s) \<subseteq> present_subjects s"
  using end_session_apart(2,3) [of key reason cause v s] by (auto simp: present_subjects_def drop_key_set)

lemma lone_subject_kept:
  assumes "lone_subject s key" and "cfg t = cfg s" and "present_subjects t \<subseteq> insert key (present_subjects s)"
  shows "lone_subject t key"
  using assms multi_auth_cong [OF assms(2)] by (auto simp: lone_subject_iff)

lemma present_subjects_drawn [simp]: "present_subjects (s\<lparr>drawn := n\<rparr>) = present_subjects s"
  by (simp add: present_subjects_def)

lemma session_to_grant_result:
  assumes "session_to_grant key a policy s = (ident, old, t)"
  shows "cfg t = cfg s" "present_subjects t \<subseteq> present_subjects s"
    and "old = map_of (radius_sessions t) key"
    and "t = s \<or> (\<exists>n. t = (end_session key ''reauthentication-policy-change'' None None s)\<lparr>drawn := n\<rparr>)"
proof -
  let ?e = "end_session key ''reauthentication-policy-change'' None None s"
  have split: "t = s \<and> old = map_of (radius_sessions s) key \<or> (\<exists>n. t = ?e\<lparr>drawn := n\<rparr> \<and> old = None)"
  proof (cases "map_of (radius_sessions s) key")
    case None
    then show ?thesis using assms by (simp add: session_to_grant_def)
  next
    case (Some se)
    show ?thesis
    proof (cases "access_policy (se_policy se) = access_policy policy")
      case True
      then show ?thesis using assms Some by (auto simp: session_to_grant_def)
    next
      case False
      then have "t = ?e\<lparr>drawn := drawn ?e + 1\<rparr>" "old = None"
        using assms unfolding session_to_grant_def Some by (simp_all add: draw_def)
      then show ?thesis by blast
    qed
  qed
  note apart = end_session_apart(1,2) [of key "''reauthentication-policy-change''" None None s]
    end_session_present [of key "''reauthentication-policy-change''" None None s]
  show "t = s \<or> (\<exists>n. t = ?e\<lparr>drawn := n\<rparr>)" using split by blast
  show "cfg t = cfg s" using split apart(1) by auto
  show "present_subjects t \<subseteq> present_subjects s" using split apart(3) by auto
  show "old = map_of (radius_sessions t) key" using split apart(2) by (auto simp: dict_simps)
qed

lemma fresh_session_result:
  assumes "fresh_session key ident a policy previous s = (se, t)"
  shows "(se_port se, se_mac se) = key" "se_id se = ident" "\<exists>n. t = s\<lparr>drawn := n\<rparr>"
  using assms by (auto simp: fresh_session_def draw_def Let_def)

lemma granted_session_apart:
  "se_port (granted_session s a policy o' identity se) = se_port se \<and>
   se_mac (granted_session s a policy o' identity se) = se_mac se \<and>
   se_id (granted_session s a policy o' identity se) = se_id se \<and>
   se_policy (granted_session s a policy o' identity se) = policy"
  by (cases identity) (simp_all add: granted_session_def Let_def split del: if_split,
      (simp split: if_split)+)

lemma grant_cases:
  assumes "grant key a policy o' s = Inr (t, r)"
  obtains (continued) ident se u where "session_to_grant key a policy s = (ident, Some se, u)"
      "(t, r) = file_grant key a policy o' None se u"
  | (started) ident u se w attrs where "session_to_grant key a policy s = (ident, None, u)"
      "int (length (radius_sessions u)) < source_limit (cfg_switch (cfg u))"
      "fresh_session key ident a policy (map_of (radius_sessions s) key) u = (se, w)"
      "grant_identity key a se w = Inr attrs"
      "(t, r) = file_grant key a policy o' (Some attrs) se w"
proof -
  obtain ident old u where u: "session_to_grant key a policy s = (ident, old, u)"
    by (cases "session_to_grant key a policy s") auto
  note unfolded = assms [unfolded grant_def Let_def u prod.case]
  show ?thesis
  proof (cases old)
    case (Some se)
    have "(t, r) = file_grant key a policy o' None se u"
      using unfolded unfolding Some option.case by (simp only: sum.inject)
    then show ?thesis using u unfolding Some by (intro continued)
  next
    case None
    note rest = unfolded [unfolded None option.case]
    have room: "\<not> source_limit (cfg_switch (cfg u)) \<le> int (length (radius_sessions u))"
      using rest by (auto simp: refuse_def)
    obtain se w where w: "fresh_session key ident a policy (map_of (radius_sessions s) key) u = (se, w)"
      by (cases "fresh_session key ident a policy (map_of (radius_sessions s) key) u")
    obtain attrs where "grant_identity key a se w = Inr attrs"
        "Inr (file_grant key a policy o' (Some attrs) se w) = (Inr (t, r) :: failure + (runtime \<times> answer))"
      using rest unfolding if_not_P [OF room] w prod.case bind_Inr_iff by blast
    then show ?thesis using u room w unfolding None by (intro started) (simp_all only: sum.inject not_le eq_commute [of "(t, r)"])
  qed
qed

context runtime_invariant
begin

lemma I_deny: "I s \<Longrightarrow> I (deny key a reason o' s)"
  by (simp add: deny_def Let_def I_event I_put_status I_end_session)

lemma I_publish_grant: "I s \<Longrightarrow> I (publish_grant key a policy o' started se s)"
proof -
  assume s: "I s"
  let ?s1 = "if multi_auth s (fst key) then s\<lparr>last_auth_sessions := drop_key (fst key) (last_auth_sessions s)\<rparr> else s"
  have "I ?s1" using s I_last by simp
  then have s2: "I (if started then queue_accounting 1 (Some se) None None False None ?s1 else ?s1)"
    using I_queue_accounting by simp
  have s3: "I (case accounting_warning policy of None \<Rightarrow> t | Some w \<Rightarrow> event kind (d w) t)" if "I t" for t kind d
    using that I_event by (cases "accounting_warning policy") simp_all
  show ?thesis unfolding publish_grant_def Let_def by (intro I_event I_put_status s3 s2)
qed

lemma I_session_to_grant: "I s \<Longrightarrow> session_to_grant key a policy s = (ident, old, t) \<Longrightarrow> I t"
  using session_to_grant_result(4) [of key a policy s ident old t] I_drawn [OF I_end_session] by blast

lemma I_file_grant:
  assumes "I (put_session key (granted_session s a policy o' identity se) s)"
    and "(t, r) = file_grant key a policy o' identity se s"
  shows "I t"
  using assms(2) I_process_session_deadlines [OF I_publish_grant [OF assms(1)]]
  by (simp add: file_grant_def Let_def)

lemma I_grant:
  assumes s: "I s" and lone: "lone_subject s key" and port: "has (ports (cfg s)) (fst key)"
    and granted: "grant key a policy o' s = Inr (t, r)"
  shows "I t"
  using granted
proof (cases rule: grant_cases)
  case (continued ident se u)
  note facts = session_to_grant_result [OF continued(1)]
  have "I u" by (rule I_session_to_grant [OF s continued(1)])
  then have "I (put_session key (granted_session u a policy o' None se) u)"
    using facts(3) by (intro I_put_session) (simp_all add: granted_session_apart)
  then show ?thesis using continued(2) by (rule I_file_grant)
next
  case (started ident u se w attrs)
  note facts = session_to_grant_result [OF started(1)]
  have u: "I u" by (rule I_session_to_grant [OF s started(1)])
  obtain n where fresh: "(se_port se, se_mac se) = key" "w = u\<lparr>drawn := n\<rparr>"
    using fresh_session_result [OF started(3)] by blast
  have "lone_subject w key"
    by (rule lone_subject_kept [OF lone]) (use facts(1,2) fresh in auto)
  then have "I (put_session key (granted_session w a policy o' (Some attrs) se) w)"
    unfolding put_session_def using fresh started(2) facts(1,3) port I_drawn [OF u]
    by (intro I_file) (simp_all add: granted_session_apart)
  then show ?thesis using started(5) by (rule I_file_grant)
qed

end

subsection \<open>The commands\<close>

lemma pae_finish_apart:
  "cfg (pae_finish a outcome s) = cfg s" "present_subjects (pae_finish a outcome s) = present_subjects s"
  by (simp_all add: pae_finish_def set_port_state_def with_pae_def Let_def present_subjects_def
      split: option.split prod.split)

lemma with_pae_present: "present_subjects (with_pae pid f s) = present_subjects s"
  by (simp add: with_pae_def present_subjects_def)

lemma current_attempt_filed: "current_attempt s key ident = Some a \<Longrightarrow> map_of (radius_attempts s) key = Some a"
  by (auto simp: current_attempt_def Let_def split: option.splits if_splits)

lemma checked_begin_Inr: "checked_begin r = Inr x \<longleftrightarrow> r = Inr x"
  by (simp add: checked_begin_def split: sum.split)

context runtime_invariant
begin

lemma I_decide:
  assumes s: "I s" and lone: "lone_subject s key" and port: "has (ports (cfg s)) (fst key)"
    and result: "decide key a o' decision s = Inr (t, r)"
  shows "I t"
proof -
  define u where "u = (if begins_with ''native_'' (case decision of Inl r \<Rightarrow> r | Inr _ \<Rightarrow> base_reason o')
      then with_pae (fst key) (\<lambda>p. p\<lparr>precise := False\<rparr>) (pae_finish a (pae_outcome o' decision) s)
      else pae_finish a (pae_outcome o' decision) s)"
  have u: "I u" "cfg u = cfg s" "present_subjects u = present_subjects s"
    using I_with_pae [OF I_pae_finish [OF s]] I_pae_finish [OF s]
    by (auto simp: u_def learned_apart pae_finish_apart with_pae_present)
  have lone_u: "lone_subject u key" by (rule lone_subject_kept [OF lone]) (auto simp: u)
  have port_u: "has (ports (cfg u)) (fst key)" using port by (simp add: u(2))
  note rest = result [unfolded decide_def Let_def, folded u_def]
  show ?thesis
  proof (cases "fails_over o' a (the_port u (fst key))")
    case True
    then show ?thesis
      using rest by (auto simp: bind_Inr_iff checked_begin_Inr intro: I_event [OF I_begin_authentication [OF u(1)]])
  next
    case False
    then show ?thesis
      using rest by (auto simp: I_deny u(1) split: sum.splits intro: I_grant [OF u(1) lone_u port_u])
  qed
qed

lemma I_radius_result:
  assumes s: "I s" and lone: "has (radius_attempts s) key \<Longrightarrow> lone_subject s key \<and> has (ports (cfg s)) (fst key)"
    and result: "radius_result key o' s = Inr (t, r)"
  shows "I t"
proof (cases "current_attempt s key (oc_attempt o')")
  case None
  then show ?thesis using result s by (simp add: radius_result_def)
next
  case (Some a)
  let ?u = "s\<lparr>radius_attempts := drop_key key (radius_attempts s)\<rparr>"
  have here: "lone_subject s key" "has (ports (cfg ?u)) (fst key)"
    using lone current_attempt_filed [OF Some] by (simp_all add: has_def)
  have "lone_subject ?u key"
    by (rule lone_subject_kept [OF here(1)]) (auto simp: present_subjects_def drop_key_set)
  then show ?thesis
    using result by (auto simp: radius_result_def Some Let_def bind_Inr_iff intro: I_decide [OF I_retire [OF s] _ here(2)])
qed

lemma I_apply_change: "I s \<Longrightarrow> I (apply_change s c)"
proof (cases "map_of (radius_sessions s) (pr_key c)")
  case (Some se)
  assume s: "I s"
  have "I (change_grant c policy se s)" for policy
  proof -
    let ?t = "snd (draw (retire_authentication (pr_key c) s))"
    let ?se = "se\<lparr>se_policy := policy, lease_deadline_ms := pr_lease c,
        grant_generation := fst (draw (retire_authentication (pr_key c) s)), renewal_started_ms := None\<rparr>"
    have t: "I ?t" by (rule I_draw [OF I_retire_authentication [OF s]])
    have "map_of (radius_sessions ?t) (pr_key c) = Some se" using Some by (simp add: draw_def retire_apart)
    then have u: "I (put_session (pr_key c) ?se ?t)" by (rule I_put_session [OF t]) simp_all
    show ?thesis
      unfolding change_grant_def Let_def case_prod_unfold by (intro I_event) (auto intro: u I_flush [OF u])
  qed
  then show ?thesis
    using s by (auto simp: apply_change_def Some disconnect_def Let_def I_put_status I_end_session split: option.split)
qed (simp add: apply_change_def)

lemma I_radius_dynamic: "I s \<Longrightarrow> radius_dynamic plan s = Inr t \<Longrightarrow> I t"
  by (auto simp: radius_dynamic_def refuse_def split: if_splits
      intro!: I_process_session_deadlines I_foldl I_apply_change)

lemma I_begin_if_subject: "I s \<Longrightarrow> begin_if_subject key s = Inr t \<Longrightarrow> I t"
  by (auto simp: begin_if_subject_def bind_Inr_iff checked_begin_Inr split: if_splits
      elim!: I_begin_authentication [rotated])

lemma I_drop_status: "I s \<Longrightarrow> I (drop_status key s)"
  by (simp add: drop_status_def I_status)

lemma I_session_action:
  assumes s: "I s" and result: "session_action ident restart s = Inr t"
  shows "I t"
proof -
  obtain key se where found: "List.find (\<lambda>(_, se). se_id se = ident) (radius_sessions s) = Some (key, se)"
    using result by (cases "List.find (\<lambda>(_, se). se_id se = ident) (radius_sessions s)")
      (auto simp: session_action_def refuse_def)
  let ?u = "retire_authentication key s"
  have u: "I ?u" by (rule I_retire_authentication [OF s])
  obtain v where v: "t = event (if restart then ''authentication-restart'' else ''authentication-reauthenticate'')
      [(''port_id'', JText (fst key)), (''mac'', JText (snd key)), (''session_id'', JText (se_id se))] v"
    and run: "(if restart
         then begin_if_subject key (drop_status key (end_session key ''manual-restart'' None None ?u))
         else bind (checked_begin (request_renewal key False ?u)) (\<lambda>(s, _). Inr s)) = Inr v"
    using result unfolding session_action_def found option.case prod.case Let_def bind_Inr_iff by blast
  have "I v"
  proof (cases restart)
    case True
    then show ?thesis using run I_begin_if_subject [OF I_drop_status [OF I_end_session [OF u]]] by simp
  next
    case False
    then show ?thesis using run by (auto simp: bind_Inr_iff checked_begin_Inr intro: I_request_renewal [OF u])
  qed
  then show ?thesis by (simp add: v I_event)
qed

lemma I_radius_discover: "I s \<Longrightarrow> I (radius_discover s)"
  by (simp add: radius_discover_def I_prepare_authentication I_process_session_deadlines)

lemma I_radius_shutdown: "I s \<Longrightarrow> I (radius_shutdown s)"
  unfolding radius_shutdown_def by (intro I_queue_accounting I_foldl I_end_session)

lemma I_accounting_prune: "I s \<Longrightarrow> I (accounting_prune s)"
proof -
  assume s: "I s"
  let ?t = "foldl prune_record s (accounting_outbox s)"
  have t: "I ?t" by (rule I_foldl [OF _ s]) (simp add: prune_record_def I_accounting_drop)
  have "accounting_outbox ?t = accounting_outbox s"
  proof -
    have "accounting_outbox (foldl prune_record u rs) = accounting_outbox u" for u rs
      by (induction rs arbitrary: u) (simp_all add: prune_record_def accounting_drop_def event_def Let_def)
    then show ?thesis .
  qed
  then show ?thesis using I_prune [OF t, of "\<lambda>r. \<not> accounting_expired s r"] by (simp add: accounting_prune_def)
qed

lemma I_accounting_event: "I s \<Longrightarrow> I (fst (accounting_event ident phase details s))"
  by (auto simp: accounting_event_def Let_def split: option.split intro!: I_event I_mark)

lemma I_accounting_result: "I s \<Longrightarrow> I (fst (accounting_result ident dropped details s))"
  by (auto simp: accounting_result_def Let_def split: option.split intro!: I_event I_accounting_drop I_prune)

lemma I_notification_result: "I s \<Longrightarrow> I (notification_result n target details s)"
proof -
  assume s: "I s"
  have "I (s\<lparr>outbox := rest\<rparr>)" if "outbox s = item # rest" for item rest
    using I_cancel [OF s, of 1] that by simp
  then show ?thesis using s by (auto simp: notification_result_def Let_def I_event split: list.split)
qed

lemma I_clear_learned: "I s \<Longrightarrow> clear_learned pid v s = Inr t \<Longrightarrow> I t"
  by (auto simp: clear_learned_def refuse_def Let_def split: if_splits intro!: I_event I_flush)

end

end
