(* ===== verification/Mib_Views.thy ===== *)
theory Mib_Views
  imports Runtime_State Set_Plan
begin

text \<open>
  What \<open>switchlab/mib.py\<close> and the engine's commit read off a runtime: the emulated inventory, the
  PortList encoding of a set of ports, and the ports that belong to a VLAN at present. The octets of a
  UUID text are an argument, since \<open>uuid.UUID\<close> parses them.
\<close>

subsection \<open>Port lists\<close>

definition port_octet :: "int \<Rightarrow> nat" where
  "port_octet n = nat ((n - 1) div 8)"

definition port_mask :: "int \<Rightarrow> byte" where
  "port_mask n = drop_bit (nat ((n - 1) mod 8)) 0x80"

definition add_port :: "bytes \<Rightarrow> int \<Rightarrow> bytes" where
  "add_port data n = data[port_octet n := data ! port_octet n OR port_mask n]"

definition port_list_length :: "int list \<Rightarrow> nat" where
  "port_list_length ns = nat ((fold max ns 0 + 7) div 8)"

definition port_list :: "runtime \<Rightarrow> (port \<Rightarrow> bool) \<Rightarrow> bytes" where
  "port_list s P =
     foldl add_port (replicate (port_list_length (map bridge_port (vals (ports (cfg s))))) 0)
       (map bridge_port (filter P (vals (ports (cfg s)))))"

definition current_vlan_ports :: "runtime \<Rightarrow> int \<Rightarrow> uid set" where
  "current_vlan_ports s v =
     set (map p_id (filter (\<lambda>p. v \<in> set (admitted p)) (vals (ports (cfg s))))) \<union>
     set (map se_port (filter (\<lambda>se. session_vid s se = v) (vals (radius_sessions s))))"

subsection \<open>The inventory\<close>

record inventory_row =
  iv_index :: int
  iv_description :: pystr
  iv_parent :: int
  iv_class :: int
  iv_position :: int
  iv_name :: pystr
  iv_identity :: "bytes option" \<comment> \<open>columns 18 and 19; \<open>None\<close> leaves both empty\<close>
  iv_if_index :: "int option"

definition entity_inventory :: "(uid \<Rightarrow> bytes option) \<Rightarrow> configuration \<Rightarrow> inventory_row list" where
  "entity_inventory uuid c =
     \<lparr>iv_index = 1, iv_description = sw_description (cfg_switch c), iv_parent = 0, iv_class = 3,
       iv_position = -1, iv_name = sw_name (cfg_switch c), iv_identity = uuid (sw_id (cfg_switch c)),
       iv_if_index = None\<rparr> #
     map (\<lambda>p. \<lparr>iv_index = bridge_port p + 1, iv_description = str ''Emulated Ethernet port'', iv_parent = 1,
         iv_class = 10, iv_position = bridge_port p, iv_name = p_name p, iv_identity = uuid (p_id p),
         iv_if_index = Some (if_index p)\<rparr>)
       (sort_key bridge_port (vals (ports c)))"

subsection \<open>Lemmas\<close>

lemma port_mask_bit:
  assumes "1 \<le> n" and "b < 8"
  shows "bit (port_mask n) (7 - b) \<longleftrightarrow> int b = (n - 1) mod 8"
proof -
  define k where "k = nat ((n - 1) mod 8)"
  have k: "k < 8" "int k = (n - 1) mod 8" by (simp_all add: k_def)
  have bound: "b \<in> {0, 1, 2, 3, 4, 5, 6, 7}" "k \<in> {0, 1, 2, 3, 4, 5, 6, 7}" using assms(2) k(1) by auto
  have "bit (drop_bit k (0x80 :: byte)) (7 - b) \<longleftrightarrow> b = k"
    using bound by (auto simp: bit_drop_bit_eq bit_simps)
  then show ?thesis unfolding port_mask_def k_def [symmetric] k(2) [symmetric] by simp
qed

lemma length_add_port [simp]: "length (foldl add_port data ns) = length data"
  by (induction ns arbitrary: data) (simp_all add: add_port_def)

lemma fold_max: "n \<in> set ns \<Longrightarrow> n \<le> fold max ns (m :: int)"
  using Max_ge [of "set (m # ns)" n] unfolding Max.set_eq_fold by simp

lemma port_octet_lt: "n \<in> set ns \<Longrightarrow> 1 \<le> n \<Longrightarrow> port_octet n < port_list_length ns"
  using fold_max [of n ns 0] unfolding port_octet_def port_list_length_def by linarith

lemma port_number: "1 \<le> n \<Longrightarrow> b < 8 \<Longrightarrow> n = int (i * 8 + b + 1) \<longleftrightarrow> port_octet n = i \<and> int b = (n - 1) mod 8"
  unfolding port_octet_def by auto

lemma foldl_add_port_bit:
  assumes "\<And>n. n \<in> set ns \<Longrightarrow> 1 \<le> n" and "i < length data" and "b < 8"
  shows "bit (foldl add_port data ns ! i) (7 - b) \<longleftrightarrow> bit (data ! i) (7 - b) \<or> int (i * 8 + b + 1) \<in> set ns"
  using assms
proof (induction ns arbitrary: data)
  case (Cons n ns)
  have "bit (add_port data n ! i) (7 - b) \<longleftrightarrow> bit (data ! i) (7 - b) \<or> n = int (i * 8 + b + 1)"
    using Cons.prems port_number [of n b i] port_mask_bit [of n b]
    by (cases "port_octet n = i") (auto simp: add_port_def bit_or_iff)
  then show ?case using Cons by (auto simp: add_port_def)
qed simp

lemma port_bits_set: "set (port_bits raw) = {int (i * 8 + b + 1) | i b. i < length raw \<and> b < 8 \<and> bit (raw ! i) (7 - b)}"
proof -
  have "set (enumerate 0 raw) = {(i, raw ! i) | i. i < length raw}"
    by (force simp: enumerate_eq_zip set_zip)
  then show ?thesis unfolding port_bits_def by auto
qed

lemma port_list_ports:
  assumes "\<And>p. p \<in> set (vals (ports (cfg s))) \<Longrightarrow> 1 \<le> bridge_port p"
  shows "set (port_bits (port_list s P)) = bridge_port ` {p \<in> set (vals (ports (cfg s))). P p}"
    (is "_ = ?ns")
proof -
  let ?all = "map bridge_port (vals (ports (cfg s)))"
  let ?zero = "replicate (port_list_length ?all) (0 :: byte)"
  let ?sel = "map bridge_port (filter P (vals (ports (cfg s))))"
  have pos: "\<And>n. n \<in> set ?sel \<Longrightarrow> 1 \<le> n" using assms by auto
  have len: "length (port_list s P) = port_list_length ?all" by (simp add: port_list_def)
  have bits: "bit (port_list s P ! i) (7 - b) \<longleftrightarrow> int (i * 8 + b + 1) \<in> ?ns"
    if "i < port_list_length ?all" "b < 8" for i b
    using foldl_add_port_bit [of ?sel i ?zero b] pos that by (auto simp: port_list_def image_iff)
  have "n \<in> set (port_bits (port_list s P)) \<longleftrightarrow> n \<in> ?ns" for n
  proof
    assume "n \<in> set (port_bits (port_list s P))"
    then show "n \<in> ?ns" unfolding port_bits_set len using bits by blast
  next
    assume n: "n \<in> ?ns"
    then have "1 \<le> n" "n \<in> set ?all" using assms by auto
    define b where "b = nat ((n - 1) mod 8)"
    have b: "b < 8" "int b = (n - 1) mod 8" by (simp_all add: b_def)
    have eq: "n = int (port_octet n * 8 + b + 1)" using port_number [OF \<open>1 \<le> n\<close> b(1)] b(2) by blast
    have "port_octet n < port_list_length ?all" by (rule port_octet_lt) fact+
    moreover from this have "bit (port_list s P ! port_octet n) (7 - b)"
      using bits [of "port_octet n" b] b(1) n unfolding eq [symmetric] by blast
    ultimately show "n \<in> set (port_bits (port_list s P))"
      unfolding port_bits_set len using b(1) eq by blast
  qed
  then show ?thesis by blast
qed

definition wired_ports :: "configuration \<Rightarrow> bool" where
  \<comment> \<open>what \<open>references\<close> and the field limits say of the inventory\<close>
  "wired_ports c \<longleftrightarrow> is_dict (ports c) \<and> list_all (\<lambda>(k, p). k = p_id p \<and> 1 \<le> bridge_port p) (ports c) \<and>
     distinct (map bridge_port (vals (ports c)))"

lemma port_by_bridge:
  assumes "wired_ports c" and "p \<in> set (vals (ports c))"
  shows "port_by bridge_port c (bridge_port p) = Some (p_id p)"
proof -
  let ?d = "rev (map (\<lambda>p. (bridge_port p, p_id p)) (vals (ports c)))"
  have "distinct (map fst ?d)"
    using assms(1) by (simp add: wired_ports_def rev_map [symmetric] comp_def)
  moreover have "(bridge_port p, p_id p) \<in> set ?d" using assms(2) by auto
  ultimately show ?thesis unfolding port_by_def by (rule map_of_is_SomeI)
qed

text \<open>C25: a PortList that a GET returns, written back with a SET, names exactly the ports it was read
  from: the encoder of the projection and the decoder of the SET planner are inverse.\<close>

theorem port_list_written_back:
  assumes wired: "wired_ports (cfg s)" and kind: "kind \<in> {Egress_object, Forbidden_object, Untagged_object}"
  shows "binding_value (cfg s) kind (Wire_octets (port_list s P)) =
    Inr (Members_value (map fst (filter (\<lambda>(_, p). P p) (ports (cfg s)))))"
proof -
  let ?c = "cfg s" and ?bits = "port_bits (port_list s P)"
  have pos: "\<And>p. p \<in> set (vals (ports ?c)) \<Longrightarrow> 1 \<le> bridge_port p"
    using wired by (auto simp: wired_ports_def list_all_iff vals_def)
  have bits: "set ?bits = bridge_port ` {p \<in> set (vals (ports ?c)). P p}"
    by (rule port_list_ports [OF pos])
  have known: "\<not> list_ex (\<lambda>n. port_by bridge_port ?c n = None) ?bits"
    using bits port_by_bridge [OF wired] by (auto simp: list_ex_iff)
  have image: "(\<lambda>n. the (port_by bridge_port ?c n)) ` set ?bits = p_id ` {p \<in> set (vals (ports ?c)). P p}"
    unfolding bits image_image by (rule image_cong) (simp_all add: port_by_bridge [OF wired])
  have key: "k \<in> p_id ` {p \<in> set (vals (ports ?c)). P p} \<longleftrightarrow> P p" if "(k, p) \<in> set (ports ?c)" for k p
  proof -
    have "map_of (ports ?c) k = Some p" using wired that by (simp add: wired_ports_def is_dict_lookup)
    moreover have "map_of (ports ?c) (p_id q) = Some q" if q: "q \<in> set (vals (ports ?c))" for q
    proof -
      obtain a where a: "(a, q) \<in> set (ports ?c)" using q by (auto simp: vals_def)
      then have "a = p_id q" using wired by (auto simp: wired_ports_def list_all_iff)
      then show ?thesis using wired a by (simp add: wired_ports_def is_dict_lookup)
    qed
    moreover have "k = p_id p" using wired that by (auto simp: wired_ports_def list_all_iff)
    ultimately show ?thesis using that by (force simp: vals_def)
  qed
  have "filter (\<lambda>pid. pid \<in> set (map (\<lambda>n. the (port_by bridge_port ?c n)) ?bits)) (keys (ports ?c)) =
      map fst (filter (\<lambda>(k, _). k \<in> p_id ` {p \<in> set (vals (ports ?c)). P p}) (ports ?c))"
    unfolding set_map image by (simp add: filter_map comp_def case_prod_unfold)
  also have "\<dots> = map fst (filter (\<lambda>(_, p). P p) (ports ?c))"
    using key by (intro arg_cong [of _ _ "map fst"] filter_cong) auto
  finally show ?thesis
    using kind known by (auto simp: binding_value_def single_port_kinds_def Let_def)
qed

lemma port_list_written_back_witness:
  "binding_value (cfg example_runtime) Egress_object (Wire_octets (port_list example_runtime admin_up)) =
    Inr (Members_value [[112]])"
proof -
  have ports: "ports (cfg example_runtime) = [([112], default_port [112] 1 101 (str ''Ethernet1''))]"
    by code_simp
  have "wired_ports (cfg example_runtime)"
    by (simp add: wired_ports_def ports vals_def default_port_def is_dict_def)
  from port_list_written_back [OF this, of Egress_object admin_up]
  show ?thesis by (simp add: ports default_port_def)
qed

end
