(* ===== verification/Engine_Commit.thy ===== *)
theory Engine_Commit
  imports Runtime_Steps Mib_Views
begin

text \<open>
  What \<open>Engine._execute\<close> of \<open>switchlab/engine.py\<close> does after a command has worked on its copy of the
  runtime: reconcile attempts, sessions and accounting with the new configuration, renew what
  identifies the agent and its credentials, report links that went up or down, purge learned addresses,
  reschedule traffic, and count the revisions. The order in which Python iterates a set of ports or
  endpoints is open; the model takes the order of the dictionaries they come from.
\<close>

record touched =
  \<comment> \<open>\<open>affected_e\<close> and \<open>affected_p\<close>\<close>
  tc_endpoints :: "uid list"
  tc_ports :: "uid list"

definition untouched :: touched where
  "untouched = \<lparr>tc_endpoints = [], tc_ports = []\<rparr>"

subsection \<open>Identity of the agent and its credentials\<close>

definition lifecycle :: "configuration \<Rightarrow> snmp_settings \<times> oid option" where
  "lifecycle c = (snmp c, sys_object_id (sw_identity (cfg_switch c)))"

definition credential_changed :: "runtime \<Rightarrow> runtime \<Rightarrow> uid \<Rightarrow> credential \<Rightarrow> bool" where
  "credential_changed old s cid c \<longleftrightarrow>
     (let before = map_of (credentials (cfg old)) cid;
          policy = incoming_policy (cfg s) c;
          old_policy = (case before of None \<Rightarrow> None | Some b \<Rightarrow> incoming_policy (cfg old) b);
          view_id = (case policy of None \<Rightarrow> None | Some (_, wr, _) \<Rightarrow> wr_view_id wr)
      in before \<noteq> Some c \<or> policy \<noteq> old_policy \<or>
         optional_lookup (views (cfg s)) view_id \<noteq> optional_lookup (views (cfg old)) view_id)"

definition renew_generation ::
  "runtime \<Rightarrow> (uid, uid) dict \<times> runtime \<Rightarrow> uid \<times> credential \<Rightarrow> (uid, uid) dict \<times> runtime" where
  "renew_generation old acc row = (case (acc, row) of ((d, s), (cid, c)) \<Rightarrow>
     if credential_changed old s cid c
     then (let (g, s) = draw s in (put cid g d, s))
     else (put cid (the (map_of (credential_generations old) cid)) d, s))"

definition renew_credentials :: "runtime \<Rightarrow> runtime \<Rightarrow> runtime" where
  "renew_credentials old s =
     (let s = (if lifecycle (cfg s) \<noteq> lifecycle (cfg old)
               then let (a, s) = draw s in s\<lparr>activation := a\<rparr> else s);
          (d, s) = foldl (renew_generation old) ([], s) (credentials (cfg s))
      in s\<lparr>credential_generations := d\<rparr>)"

subsection \<open>Links\<close>

definition linked :: "runtime \<Rightarrow> uid \<Rightarrow> bool" where
  "linked s pid \<longleftrightarrow> has (ports (cfg s)) pid \<and> up s pid"

definition truth :: "bool \<Rightarrow> json" where
  \<comment> \<open>TruthValue\<close>
  "truth b = JInt (if b then 1 else 2)"

definition stamp_link :: "uid \<Rightarrow> runtime \<Rightarrow> runtime" where
  "stamp_link pid s =
     (if has (port_stats s) pid then on_counters pid (\<lambda>c. c\<lparr>c_last_change := uptime_now s\<rparr>) s else s)"

definition link_details :: "uid \<Rightarrow> port \<Rightarrow> bool \<Rightarrow> bool \<Rightarrow> details" where
  "link_details pid p before after =
     [(''port_id'', JText pid), (''if_index'', JInt (if_index p)), (''admin'', truth (admin_up p)),
      (''before'', truth before), (''after'', truth after)]"

definition report_link :: "runtime \<Rightarrow> runtime \<Rightarrow> uid \<Rightarrow> runtime" where
  "report_link old s pid =
     (let before = linked old pid; after = linked s pid;
          p = (case map_of (ports (cfg s)) pid of Some p \<Rightarrow> p | None \<Rightarrow> the_port old pid)
      in if before = after then s
         else notify (if after then LinkUp else LinkDown) (link_notifications p)
                (link_details pid p before after) (stamp_link pid s))"

definition all_ports :: "runtime \<Rightarrow> runtime \<Rightarrow> uid list" where
  "all_ports old s = remdups (keys (ports (cfg old)) @ keys (ports (cfg s)))"

definition flipped_ports :: "runtime \<Rightarrow> runtime \<Rightarrow> uid list" where
  "flipped_ports old s = filter (\<lambda>pid. linked old pid \<noteq> linked s pid) (all_ports old s)"

definition report_links :: "runtime \<Rightarrow> runtime \<Rightarrow> runtime" where
  "report_links old s = foldl (report_link old) s (all_ports old s)"

subsection \<open>Learned addresses and traffic\<close>

definition row_stands :: "runtime \<Rightarrow> (int \<times> pystr) \<times> fdb_row \<Rightarrow> bool" where
  "row_stands s r = (case r of (_, row) \<Rightarrow>
     has (ports (cfg s)) (f_port row) \<and> has (vlans (cfg s)) (f_vid row) \<and> up s (f_port row) \<and>
     (f_vid row \<in> set (admitted (the_port s (f_port row))) \<or>
      list_ex (\<lambda>se. se_port se = f_port row \<and> session_vid s se = f_vid row) (vals (radius_sessions s))))"

definition purge_rows :: "runtime \<Rightarrow> runtime" where
  "purge_rows s = s\<lparr>fdb := filter (row_stands s) (fdb s)\<rparr>"

definition renew_port :: "runtime \<Rightarrow> uid \<Rightarrow> runtime" where
  "renew_port s pid = (let (g, s) = draw s in s\<lparr>pgens := put pid g (pgens s)\<rparr>)"

definition renew_endpoint :: "runtime \<Rightarrow> uid \<Rightarrow> runtime" where
  "renew_endpoint s eid = (let (g, s) = draw s in s\<lparr>egens := put eid g (egens s)\<rparr>)"

definition attached_to :: "runtime \<Rightarrow> uid list \<Rightarrow> uid list" where
  "attached_to s ps = map fst (filter (\<lambda>(_, pid). pid \<in> set ps) (attachments (cfg s)))"

definition reroute :: "runtime \<Rightarrow> touched \<Rightarrow> runtime \<Rightarrow> runtime" where
  \<comment> \<open>new generations make captured jobs stale; the endpoints they concern are scheduled again\<close>
  "reroute old t s =
     (let ps = remdups (tc_ports t @ flipped_ports old s);
          s = foldl renew_port s (filter (has (ports (cfg s))) ps);
          s = foldl renew_endpoint s (remdups (tc_endpoints t))
      in foldl (schedule True) s (remdups (tc_endpoints t @ attached_to old ps @ attached_to s ps)))"

subsection \<open>VLAN times\<close>

definition ports_where :: "(port \<Rightarrow> bool) \<Rightarrow> configuration \<Rightarrow> uid set" where
  "ports_where P c = set (map p_id (filter P (vals (ports c))))"

definition vlan_touched :: "configuration \<Rightarrow> configuration \<Rightarrow> int \<Rightarrow> bool" where
  "vlan_touched before c v \<longleftrightarrow> map_of (vlans c) v \<noteq> map_of (vlans before) v \<or>
     list_ex (\<lambda>P. ports_where P before \<noteq> ports_where P c)
       [\<lambda>p. v \<in> set (admitted p), \<lambda>p. v \<in> set (untagged p), \<lambda>p. v \<in> set (forbidden p), \<lambda>p. pvid p = v]"

definition vlan_changed_at :: "int \<Rightarrow> runtime \<Rightarrow> runtime" where
  "vlan_changed_at v s =
     s\<lparr>vlan_times := put v (fst (the (map_of (vlan_times s) v)), uptime_now s) (vlan_times s)\<rparr>"

definition stamp_vlan :: "runtime \<Rightarrow> runtime \<Rightarrow> int \<Rightarrow> runtime" where
  "stamp_vlan old s v =
     (if \<not> has (vlans (cfg old)) v then s\<lparr>vlan_times := put v (uptime_now s, uptime_now s) (vlan_times s)\<rparr>
      else if vlan_touched (cfg old) (cfg s) v then vlan_changed_at v s else s)"

definition stamp_members :: "runtime \<Rightarrow> runtime \<Rightarrow> int \<Rightarrow> runtime" where
  "stamp_members old s v =
     (if has (vlans (cfg old)) v \<and> current_vlan_ports s v \<noteq> current_vlan_ports old v
      then vlan_changed_at v s else s)"

definition vlan_clock :: "runtime \<Rightarrow> runtime \<Rightarrow> runtime" where
  \<comment> \<open>the times of the VLANs that exist; all restart when the 32-bit ticks wrap\<close>
  "vlan_clock old s =
     (let s = foldl (stamp_members old) s (keys (vlans (cfg s)));
          s = s\<lparr>vlan_times := filter (\<lambda>(v, _). has (vlans (cfg s)) v) (vlan_times s)\<rparr>
      in if uptime_wraps s \<noteq> uptime_epoch s
         then s\<lparr>uptime_epoch := uptime_wraps s, vlan_times := map (\<lambda>v. (v, 0, 0)) (keys (vlans (cfg s)))\<rparr>
         else s)"

subsection \<open>The commit\<close>

record effect =
  \<comment> \<open>how \<open>_execute\<close> classifies an action\<close>
  ef_history :: bool  \<comment> \<open>publishes configuration events\<close>
  ef_links :: bool    \<comment> \<open>reports links and reroutes traffic\<close>
  ef_durable :: bool  \<comment> \<open>changes the configuration\<close>
  ef_reboot :: bool

definition traffic_effects :: "runtime \<Rightarrow> touched \<Rightarrow> runtime \<Rightarrow> runtime" where
  "traffic_effects old t s =
     (let s = reroute old t (purge_rows (report_links old s))
      in foldl (stamp_vlan old) s (keys (vlans (cfg s))))"

definition identity_effects :: "(uid \<Rightarrow> bytes option) \<Rightarrow> effect \<Rightarrow> runtime \<Rightarrow> runtime \<Rightarrow> runtime" where
  "identity_effects uuid e old s =
     (let s = reconcile_accounting old (reconcile_authentication old s);
          s = (if ef_reboot e then queue_accounting 7 None None None False None s
               else renew_credentials old s)
      in if entity_inventory uuid (cfg s) \<noteq> entity_inventory uuid (cfg old)
         then s\<lparr>entity_last_change := uptime_now s\<rparr> else s)"

definition notification_effects :: "runtime \<Rightarrow> runtime \<Rightarrow> runtime" where
  "notification_effects old s =
     (if \<not> gate s \<or> credentials (cfg s) \<noteq> credentials (cfg old) \<or> targets (cfg s) \<noteq> targets (cfg old)
      then cancel_outbox ''canceled-on-configuration'' s else s)"

definition settle :: "(uid \<Rightarrow> bytes option) \<Rightarrow> effect \<Rightarrow> touched \<Rightarrow> runtime \<Rightarrow> runtime \<Rightarrow> runtime" where
  \<comment> \<open>everything between \<open>_apply\<close> and the count of the revision\<close>
  "settle uuid e t old s =
     (let s = (if ef_history e then configuration_events (cfg old) s else s);
          s = identity_effects uuid e old s;
          s = (if ef_links e then traffic_effects old t s else s)
      in notification_effects old (vlan_clock old s))"

datatype saving = Save_nothing | Save_startup_policy | Save_inventory

definition count_revision :: "bool \<Rightarrow> saving \<Rightarrow> runtime \<Rightarrow> runtime" where
  \<comment> \<open>revisions, the saved startup policy, and whether the running configuration differs from it\<close>
  "count_revision durable saving s =
     (let s = s\<lparr>revision := revision s + 1,
               configuration_revision := (if durable then configuration_revision s + 1 else configuration_revision s)\<rparr>;
          (lab, logical) = split_configuration (cfg s);
          s = (case saving of
                 Save_nothing \<Rightarrow> s
               | Save_startup_policy \<Rightarrow> s\<lparr>startup_policy := logical, startup_revision := configuration_revision s\<rparr>
               | Save_inventory \<Rightarrow> s\<lparr>startup_policy := reconciled_startup (startup_policy s) (lab_ports lab),
                                      startup_revision := configuration_revision s\<rparr>)
      in if durable then s\<lparr>configuration_dirty := (logical \<noteq> reconciled_startup (startup_policy s) (lab_ports lab))\<rparr> else s)"

subsection \<open>Every invariant survives the commit\<close>

context runtime_invariant
begin

lemma I_activation: "I s \<Longrightarrow> I (s\<lparr>activation := a\<rparr>)"
  using I_generations [of s, where eg = "egens s" and pg = "pgens s" and cg = "credential_generations s" and act = "a"] by simp

lemma I_credential_generations: "I s \<Longrightarrow> I (s\<lparr>credential_generations := d\<rparr>)"
  using I_generations [of s, where eg = "egens s" and pg = "pgens s" and cg = "d" and act = "activation s"] by simp

lemma I_egens: "I s \<Longrightarrow> I (s\<lparr>egens := d\<rparr>)"
  using I_generations [of s, where eg = "d" and pg = "pgens s" and cg = "credential_generations s" and act = "activation s"] by simp

lemma I_pgens: "I s \<Longrightarrow> I (s\<lparr>pgens := d\<rparr>)"
  using I_generations [of s, where eg = "egens s" and pg = "d" and cg = "credential_generations s" and act = "activation s"] by simp

lemma I_vlan_times: "I s \<Longrightarrow> I (s\<lparr>vlan_times := vt\<rparr>)"
  using I_changes [of s, where el = "entity_last_change s" and ue = "uptime_epoch s" and vt = "vt"] by simp

lemma I_entity: "I s \<Longrightarrow> I (s\<lparr>entity_last_change := t\<rparr>)"
  using I_changes [of s, where el = "t" and ue = "uptime_epoch s" and vt = "vlan_times s"] by simp

lemma I_ticks: "I s \<Longrightarrow> I (s\<lparr>uptime_epoch := w\<rparr>)"
  using I_changes [of s, where el = "entity_last_change s" and ue = "w" and vt = "vlan_times s"] by simp

lemma I_wrap: "I s \<Longrightarrow> I (s\<lparr>uptime_epoch := w, vlan_times := vt\<rparr>)"
  using I_changes [of s, where el = "entity_last_change s" and ue = "w" and vt = "vt"] by simp

lemma I_renew_generations: "I s \<Longrightarrow> I (snd (foldl (renew_generation old) (d, s) cs))"
proof (induction cs arbitrary: d s)
  case (Cons c cs)
  then have "I (snd (renew_generation old (d, s) c))"
    by (simp add: renew_generation_def draw_def I_drawn split: prod.split)
  then show ?case
    using Cons.IH [of "snd (renew_generation old (d, s) c)" "fst (renew_generation old (d, s) c)"] by simp
qed simp

lemma I_renew_credentials: "I s \<Longrightarrow> I (renew_credentials old s)"
proof -
  assume s: "I s"
  define u where "u = (if lifecycle (cfg s) \<noteq> lifecycle (cfg old)
      then let (a, s) = draw s in s\<lparr>activation := a\<rparr> else s)"
  have "I u" using s I_draw by (simp add: u_def I_activation case_prod_unfold Let_def)
  then show ?thesis
    using I_renew_generations [of u old "[]" "credentials (cfg u)"]
    by (simp add: renew_credentials_def u_def [symmetric] Let_def case_prod_unfold I_credential_generations)
qed

lemma I_report_links: "I s \<Longrightarrow> I (report_links old s)"
  unfolding report_links_def
  by (rule I_foldl) (auto simp: report_link_def Let_def stamp_link_def intro!: I_notification I_on_counters)

lemma I_schedule: "I s \<Longrightarrow> I (schedule delay s eid)"
  by (auto simp: schedule_def Let_def I_jobs split: option.split)

lemma I_reroute: "I s \<Longrightarrow> I (reroute old t s)"
  unfolding reroute_def Let_def
  by (intro I_foldl) (auto simp: renew_port_def renew_endpoint_def draw_def I_schedule I_pgens I_egens I_drawn)

lemma I_vlan_clock: "I s \<Longrightarrow> I (vlan_clock old s)"
proof -
  assume s: "I s"
  have u: "I (foldl (stamp_members old) s vs)" for vs
    by (rule I_foldl [OF _ s]) (simp add: stamp_members_def vlan_changed_at_def I_vlan_times)
  show ?thesis
    unfolding vlan_clock_def Let_def by (simp add: I_wrap [OF u] I_vlan_times [OF u])
qed

lemma I_traffic_effects: "I s \<Longrightarrow> I (traffic_effects old t s)"
  unfolding traffic_effects_def Let_def
proof (rule I_foldl)
  show "I u \<Longrightarrow> I (stamp_vlan old u v)" for u v
    by (simp add: stamp_vlan_def vlan_changed_at_def I_vlan_times)
  assume "I s"
  then have "I (purge_rows (report_links old s))" unfolding purge_rows_def by (intro I_flush I_report_links)
  then show "I (reroute old t (purge_rows (report_links old s)))" by (rule I_reroute)
qed

lemma I_identity_effects: "I s \<Longrightarrow> I (identity_effects uuid e old s)"
  by (auto simp: identity_effects_def Let_def
      intro!: I_entity I_queue_accounting I_renew_credentials I_reconcile_accounting I_reconcile_authentication)

lemma I_settle:
  assumes s: "I s"
  shows "I (settle uuid e t old s)"
proof -
  let ?a = "if ef_history e then configuration_events (cfg old) s else s"
  let ?b = "identity_effects uuid e old ?a"
  let ?c = "if ef_links e then traffic_effects old t ?b else ?b"
  have "I ?a" using s I_configuration_events by simp
  then have "I ?b" by (rule I_identity_effects)
  then have "I ?c" using I_traffic_effects by simp
  then show ?thesis
    unfolding settle_def Let_def notification_effects_def by (simp add: I_cancel_outbox I_vlan_clock)
qed

lemma I_count_revision: "I s \<Longrightarrow> I (count_revision durable saving s)"
proof -
  assume s: "I s"
  have form: "\<exists>r c su sr d. count_revision durable saving s =
      s\<lparr>revision := r, configuration_revision := c, startup_policy := su, startup_revision := sr,
        configuration_dirty := d\<rparr>"
    by (cases saving; cases durable; rule exI, rule exI, rule exI, rule exI, rule exI)
      (rule runtime.equality; simp add: count_revision_def Let_def case_prod_unfold)+
  then show ?thesis using I_revisions [OF s] by auto
qed

end

end
