(* ===== verification/Engine_Commands.thy ===== *)
theory Engine_Commands
  imports Engine_Commit
begin

text \<open>
  The commands of \<open>Engine._apply\<close> (\<open>switchlab/engine.py\<close>) that leave the configuration alone: the
  clock, one observed job, the outcomes of the background services, notifications and the operator's
  actions on sessions and tables. A command is a function of the runtime that fails without a state, or
  gives the changed runtime, the ports and endpoints whose traffic it touches, and the reply.
\<close>

datatype reply =
    No_reply
  | Reply_id uid
  | Reply_vid int
  | Reply_answer answer
  | Reply_begun begun
  | Reply_flag bool
  | Reply_advance advance_operation
  | Reply_target uid uid

type_synonym applied = "failure + runtime \<times> touched \<times> reply"

definition quiet :: "runtime \<Rightarrow> applied" where
  \<comment> \<open>nothing is touched and nothing is returned\<close>
  "quiet s = Inr (s, untouched, No_reply)"

subsection \<open>The clock\<close>

definition advance_waits :: "runtime \<Rightarrow> bool" where
  "advance_waits s \<longleftrightarrow> (case advance_op s of None \<Rightarrow> False | Some op \<Rightarrow> ad_status op = ''waiting'')"

definition suspend_advance :: "int \<Rightarrow> int \<Rightarrow> runtime \<Rightarrow> runtime \<times> advance_operation" where
  \<comment> \<open>an advance that has to wait for an authentication exchange\<close>
  "suspend_advance start duration s =
     (let (i, s) = draw s;
          op = \<lparr>ad_id = i, ad_epoch = epoch s, ad_start_ms = start, ad_target_ms = start + duration,
                ad_status = ''waiting'', ad_waiting_reason = Some ''authentication'', ad_reached_ms = sim_ms s\<rparr>
      in (s\<lparr>advance_op := Some op\<rparr>, op))"

definition run_clock :: "nat \<Rightarrow> int \<Rightarrow> runtime \<Rightarrow> (failure + runtime \<times> bool) option" where
  "run_clock fuel duration s =
     map_option (\<lambda>r. case r of Inl e \<Rightarrow> Inl (Refused e) | Inr x \<Rightarrow> Inr x) (advance fuel duration s)"

definition advance_command :: "nat \<Rightarrow> int \<Rightarrow> bool \<Rightarrow> runtime \<Rightarrow> applied option" where
  "advance_command fuel duration automatic s =
     (if advance_waits s then Some (refuse 409 ''An advance already owns the timeline'')
      else if \<not> automatic \<and> \<not> paused (cfg s) then Some (refuse 409 ''Pause the clock before manual advancement'')
      else if \<not> (0 < duration \<and> duration \<le> 86400000) then Some (refuse 422 ''Duration must be 1-86400000 ms'')
      else map_option (\<lambda>r. bind r (\<lambda>(t, reached).
             if reached then quiet t
             else let (t, op) = suspend_advance (sim_ms s) duration t in Inr (t, untouched, Reply_advance op)))
           (run_clock fuel duration s))"

definition close_advance :: "string \<Rightarrow> advance_operation \<Rightarrow> advance_operation" where
  "close_advance status op = op\<lparr>ad_status := status, ad_waiting_reason := None\<rparr>"

definition current_operation :: "uid \<Rightarrow> runtime \<Rightarrow> failure + advance_operation" where
  "current_operation ident s =
     (case advance_op s of
        None \<Rightarrow> refuse 409 ''This advance is no longer current''
      | Some op \<Rightarrow> if ad_id op = ident then Inr op else refuse 409 ''This advance is no longer current'')"

definition stop_advance :: "uid \<Rightarrow> bool \<Rightarrow> runtime \<Rightarrow> applied" where
  \<comment> \<open>\<open>advance-cancel\<close> and \<open>advance-fail\<close>\<close>
  "stop_advance ident failed s =
     bind (current_operation ident s) (\<lambda>op.
       let op = (if ad_status op = ''waiting''
                 then close_advance (if failed then ''failed-on-guard'' else ''canceled'') op else op)
       in Inr (s\<lparr>advance_op := Some op\<rparr>, untouched, Reply_advance op))"

definition resumed_operation :: "runtime \<Rightarrow> bool \<Rightarrow> advance_operation \<Rightarrow> advance_operation" where
  "resumed_operation s reached op =
     op\<lparr>ad_reached_ms := sim_ms s, ad_status := (if reached then ''completed'' else ''waiting''),
        ad_waiting_reason := (if reached then None else Some ''authentication'')\<rparr>"

definition continue_advance :: "nat \<Rightarrow> uid \<Rightarrow> uid \<Rightarrow> runtime \<Rightarrow> applied option" where
  "continue_advance fuel ident captured s =
     (case current_operation ident s of
        Inl e \<Rightarrow> Some (Inl e)
      | Inr op \<Rightarrow>
          if ad_status op \<noteq> ''waiting'' then Some (Inr (s, untouched, Reply_advance op))
          else if \<not> (ad_epoch op = epoch s \<and> epoch s = captured)
          then Some (refuse 409 ''Advance belongs to an earlier simulation'')
          else map_option (\<lambda>r. bind r (\<lambda>(t, reached).
                 let op = resumed_operation t reached op
                 in Inr (t\<lparr>advance_op := Some op\<rparr>, untouched, Reply_advance op)))
               (run_clock fuel (ad_target_ms op - sim_ms s) s))"

subsection \<open>Services and notifications\<close>

definition cold_start :: "runtime \<Rightarrow> applied" where
  "cold_start s = quiet (notify ColdStart True [] s)"

definition test_notification :: "uid \<Rightarrow> runtime \<Rightarrow> applied" where
  "test_notification ident s =
     (if \<not> gate s then refuse 409 ''SNMP disabled: configure identity and enable SNMP''
      else case map_of (targets (cfg s)) ident of
          None \<Rightarrow> refuse 404 ''Resource not found''
        | Some t \<Rightarrow>
            if \<not> tg_enabled t \<or> \<not> c_enabled (the (map_of (credentials (cfg s)) (tg_credential_id t)))
            then refuse 409 ''Notification target is disabled''
            else
              let details = [(''status'', JName ''committed''), (''test'', JBool True)];
                  e = new_event ''coldStart'' details s;
                  s = event ''coldStart'' details s
              in if queue_limit (cfg_switch (cfg s)) \<le> int (length (outbox s))
                 then refuse 429 ''Notification queue is full''
                 else quiet (event ''notification'' (notification_details s ''queued'' t e)
                   (s\<lparr>outbox := outbox s @ [\<lparr>ob_event = e, ob_target = tg_id t,
                      ob_destination = Some (event_resource_label s t)\<rparr>]\<rparr>)))"

definition endpoint_sends_on :: "runtime \<Rightarrow> int \<Rightarrow> uid \<times> uid \<Rightarrow> bool" where
  "endpoint_sends_on s v row = (case row of (eid, pid) \<Rightarrow>
     list_ex (\<lambda>src. tagged_vid (the_port s pid) src = v) (endpoint_sources s eid))"

definition clear_command :: "uid option \<Rightarrow> int option \<Rightarrow> runtime \<Rightarrow> applied" where
  \<comment> \<open>the endpoints whose captured jobs could learn a cleared address again are touched\<close>
  "clear_command pid v s =
     bind (clear_learned pid v s) (\<lambda>t.
       Inr (t, \<lparr>tc_endpoints = map fst (filter (\<lambda>(eid, at).
              (case pid of None \<Rightarrow> True | Some p \<Rightarrow> at = p) \<and>
              (case v of None \<Rightarrow> True | Some n \<Rightarrow> endpoint_sends_on s n (eid, at))) (attachments (cfg s))),
            tc_ports = []\<rparr>, No_reply))"

subsection \<open>Sources\<close>

definition nominated :: "uid \<Rightarrow> uid \<Rightarrow> runtime \<Rightarrow> failure + endpoint \<times> source" where
  \<comment> \<open>the source of an endpoint a command names\<close>
  "nominated eid sid s =
     (case map_of (endpoints (cfg s)) eid of
        None \<Rightarrow> refuse 404 ''Resource not found''
      | Some e \<Rightarrow>
          (case List.find (\<lambda>src. src_id src = sid) (sources e) of
             None \<Rightarrow> refuse 404 ''Source not found''
           | Some src \<Rightarrow> Inr (e, src)))"

definition serve_source :: "bool \<Rightarrow> subject \<Rightarrow> runtime \<Rightarrow> failure + runtime" where
  \<comment> \<open>an action on a multi-host dependent concerns the owner of the shared session; a restart may
    nominate the source itself\<close>
  "serve_source restart key s =
     (let se = session_of s (fst key) (snd key);
          owner = (case se of None \<Rightarrow> key | Some se \<Rightarrow> (fst key, se_mac se));
          s = retire_authentication owner s
      in bind (if restart
           then begin_if_subject key (drop_status owner (end_session owner ''manual-restart'' None None s))
           else if se \<noteq> None then bind (checked_begin (request_renewal owner False s)) (\<lambda>(s, _). Inr s)
           else begin_if_subject key s) (\<lambda>s.
         Inr (event (if restart then ''authentication-restart'' else ''authentication-reauthenticate'')
           [(''port_id'', JText (fst key)), (''mac'', JText (snd owner))] s)))"

definition source_authentication :: "uid \<Rightarrow> uid \<Rightarrow> bool \<Rightarrow> runtime \<Rightarrow> applied" where
  "source_authentication eid sid restart s =
     bind (nominated eid sid s) (\<lambda>(e, src).
     bind (case map_of (attachments (cfg s)) (e_id e) of
             None \<Rightarrow> Inr s
           | Some pid \<Rightarrow> serve_source restart (pid, src_mac src) s) (\<lambda>s.
       Inr (s, untouched, Reply_id sid)))"

subsection \<open>Operational commands\<close>

datatype operation =
    Op_advance int bool
  | Op_continue uid uid
  | Op_stop uid bool
  | Op_job job
  | Op_begin subject
  | Op_pae subject uid "bytes list"
  | Op_result subject outcome
  | Op_dynamic dynamic_plan
  | Op_session uid bool
  | Op_source uid uid bool
  | Op_discover
  | Op_shutdown
  | Op_accounting_prune
  | Op_accounting_event uid string details
  | Op_accounting_result uid "string option" details
  | Op_notification_result int uid details
  | Op_cold_start
  | Op_test_notification uid
  | Op_clear "uid option" "int option"

fun operate :: "nat \<Rightarrow> operation \<Rightarrow> runtime \<Rightarrow> applied option" where
  "operate fuel (Op_advance duration automatic) s = advance_command fuel duration automatic s"
| "operate fuel (Op_continue ident captured) s = continue_advance fuel ident captured s"
| "operate fuel (Op_stop ident failed) s = Some (stop_advance ident failed s)"
| "operate fuel (Op_job j) s = Some (let (s, ok) = observe j s in Inr (s, untouched, Reply_flag ok))"
| "operate fuel (Op_begin key) s = Some (bind (checked_begin (begin_authentication key False False False s))
     (\<lambda>(s, r). Inr (s, untouched, Reply_begun r)))"
| "operate fuel (Op_pae key ident frames) s = Some (let (s, seen) = pae_observe key ident frames s
     in Inr (s, untouched, Reply_flag seen))"
| "operate fuel (Op_result key r) s = Some (bind (radius_result key r s)
     (\<lambda>(s, a). Inr (s, untouched, Reply_answer a)))"
| "operate fuel (Op_dynamic plan) s = Some (bind (radius_dynamic plan s) quiet)"
| "operate fuel (Op_session ident restart) s = Some (bind (session_action ident restart s)
     (\<lambda>s. Inr (s, untouched, Reply_id ident)))"
| "operate fuel (Op_source eid sid restart) s = Some (source_authentication eid sid restart s)"
| "operate fuel Op_discover s = Some (quiet (radius_discover s))"
| "operate fuel Op_shutdown s = Some (quiet (radius_shutdown s))"
| "operate fuel Op_accounting_prune s = Some (quiet (accounting_prune s))"
| "operate fuel (Op_accounting_event ident phase d) s = Some (let (s, known) = accounting_event ident phase d s
     in Inr (s, untouched, Reply_flag known))"
| "operate fuel (Op_accounting_result ident dropped d) s = Some (let (s, known) = accounting_result ident dropped d s
     in Inr (s, untouched, Reply_flag known))"
| "operate fuel (Op_notification_result n t d) s = Some (quiet (notification_result n t d s))"
| "operate fuel Op_cold_start s = Some (cold_start s)"
| "operate fuel (Op_test_notification ident) s = Some (test_notification ident s)"
| "operate fuel (Op_clear pid v) s = Some (clear_command pid v s)"

fun operation_effect :: "operation \<Rightarrow> effect" where
  \<comment> \<open>none publishes configuration events; only clearing learned addresses counts as durable\<close>
  "operation_effect (Op_advance _ _) = \<lparr>ef_history = False, ef_links = False, ef_durable = False, ef_reboot = False\<rparr>"
| "operation_effect (Op_job _) = \<lparr>ef_history = False, ef_links = False, ef_durable = False, ef_reboot = False\<rparr>"
| "operation_effect (Op_notification_result _ _ _) =
     \<lparr>ef_history = False, ef_links = False, ef_durable = False, ef_reboot = False\<rparr>"
| "operation_effect Op_cold_start = \<lparr>ef_history = False, ef_links = False, ef_durable = False, ef_reboot = False\<rparr>"
| "operation_effect (Op_test_notification _) =
     \<lparr>ef_history = False, ef_links = False, ef_durable = False, ef_reboot = False\<rparr>"
| "operation_effect (Op_clear _ _) = \<lparr>ef_history = False, ef_links = True, ef_durable = True, ef_reboot = False\<rparr>"
| "operation_effect _ = \<lparr>ef_history = False, ef_links = True, ef_durable = False, ef_reboot = False\<rparr>"

end
