(* ===== verification/Engine_Edits.thy ===== *)
theory Engine_Edits
  imports Engine_Commands
begin

text \<open>
  The commands of \<open>Engine._apply\<close> (\<open>switchlab/engine.py\<close>) that change the configuration: endpoints and
  where they are attached, ports, VLANs, the switch, the startup policy, a reboot, and a planned SNMP SET.
  A JSON patch is a record with an optional value for each field the command accepts, so a field the
  source refuses by name is none of them. A value the model class refuses, or a cross reference that
  fails, is the configuration error of the source, answered with status 422.
\<close>

definition unvalidated :: "string \<Rightarrow> failure + 'a" where
  \<comment> \<open>\<open>ValidationError\<close>, which the API answers with 422\<close>
  "unvalidated message = refuse 422 message"

definition validated :: "string + 'a \<Rightarrow> failure + 'a" where
  "validated r = (case r of Inl e \<Rightarrow> unvalidated e | Inr x \<Rightarrow> Inr x)"

definition need :: "bool \<Rightarrow> int \<Rightarrow> string \<Rightarrow> failure + unit" where
  "need ok code message = (if ok then Inr () else refuse code message)"

definition resource :: "('k, 'v) dict \<Rightarrow> 'k \<Rightarrow> failure + 'v" where
  "resource d k = (case map_of d k of None \<Rightarrow> refuse 404 ''Resource not found'' | Some v \<Rightarrow> Inr v)"

definition given :: "'a option \<Rightarrow> 'a \<Rightarrow> 'a" where
  "given patch old = (case patch of None \<Rightarrow> old | Some v \<Rightarrow> v)"

definition touch_endpoints :: "uid list \<Rightarrow> touched" where
  "touch_endpoints es = \<lparr>tc_endpoints = es, tc_ports = []\<rparr>"

definition touch_ports :: "uid list \<Rightarrow> touched" where
  "touch_ports ps = \<lparr>tc_endpoints = [], tc_ports = ps\<rparr>"

definition endpoint_capacity :: "configuration \<Rightarrow> failure + unit" where
  "endpoint_capacity c =
     need (int (length (endpoints c)) \<le> endpoint_limit (cfg_switch c)) 429 ''Endpoint capacity reached''"

definition source_count :: "configuration \<Rightarrow> nat" where
  "source_count c = sum_list (map (\<lambda>e. length (sources e)) (vals (endpoints c)))"

definition source_capacity :: "configuration \<Rightarrow> failure + unit" where
  "source_capacity c = need (int (source_count c) \<le> source_limit (cfg_switch c)) 429 ''Source capacity reached''"

subsection \<open>Endpoints\<close>

fun normal_sources :: "source list \<Rightarrow> string + source list" where
  \<comment> \<open>the validator of \<open>Source.mac\<close> stores the normal form\<close>
  "normal_sources [] = Inr []"
| "normal_sources (src # rest) =
     (case mac (src_mac src) of
        Inl e \<Rightarrow> Inl ''Invalid MAC address''
      | Inr m \<Rightarrow> bind (normal_sources rest) (\<lambda>ss. Inr (src\<lparr>src_mac := m\<rparr> # ss)))"

definition validate_endpoint :: "endpoint \<Rightarrow> string + endpoint" where
  "validate_endpoint e =
     bind (normal_sources (sources e)) (\<lambda>ss.
       let e = e\<lparr>sources := ss\<rparr> in if valid_endpoint e then Inr e else Inl ''Invalid endpoint'')"

definition check_sources :: "configuration \<Rightarrow> source list \<Rightarrow> failure + unit" where
  "check_sources c ss = validated (first_error (map (\<lambda>src. check_profile c (supplicant src)) ss))"

definition endpoint_create :: "endpoint \<Rightarrow> runtime \<Rightarrow> applied" where
  "endpoint_create e s =
     bind (validated (validate_endpoint e)) (\<lambda>e.
     bind (need (\<not> has (endpoints (cfg s)) (e_id e)) 409 ''Endpoint ID already exists'') (\<lambda>_.
       let c = (cfg s)\<lparr>endpoints := put (e_id e) e (endpoints (cfg s))\<rparr>
       in bind (check_sources c (sources e)) (\<lambda>_.
          bind (endpoint_capacity c) (\<lambda>_.
          bind (source_capacity c) (\<lambda>_.
            Inr (event ''endpoint-created'' [(''endpoint_id'', JText (e_id e))] (s\<lparr>cfg := c\<rparr>),
                 touch_endpoints [e_id e], Reply_id (e_id e)))))))"

definition endpoint_event :: "string \<Rightarrow> uid \<Rightarrow> pystr \<Rightarrow> runtime \<Rightarrow> runtime" where
  "endpoint_event kind eid name s =
     event kind [(''endpoint_id'', JText eid), (''endpoint_name'', JText name)] s"

definition endpoint_delete :: "uid \<Rightarrow> runtime \<Rightarrow> applied" where
  "endpoint_delete eid s =
     bind (resource (endpoints (cfg s)) eid) (\<lambda>e.
     bind (need (\<not> has (attachments (cfg s)) eid) 409 ''Disconnect the endpoint before deleting it'') (\<lambda>_.
       Inr (endpoint_event ''endpoint-delete'' eid (e_name e)
              (s\<lparr>cfg := (cfg s)\<lparr>endpoints := drop_key eid (endpoints (cfg s))\<rparr>\<rparr>),
            touch_endpoints [eid], Reply_id eid)))"

record endpoint_patch =
  ep_name :: "pystr option"
  ep_metadata :: "(pystr, pystr) dict option"
  ep_active :: "bool option"
  ep_sources :: "(source \<times> bool) list option" \<comment> \<open>whether the supplicant is given\<close>

definition kept_supplicant :: "endpoint \<Rightarrow> source \<times> bool \<Rightarrow> source" where
  "kept_supplicant e row = (case row of (src, explicit) \<Rightarrow>
     (case List.find (\<lambda>x. src_id x = src_id src) (rev (sources e)) of
        None \<Rightarrow> src
      | Some saved \<Rightarrow> if explicit then src else src\<lparr>supplicant := supplicant saved\<rparr>))"

definition patched_endpoint :: "endpoint_patch \<Rightarrow> endpoint \<Rightarrow> endpoint" where
  "patched_endpoint p e =
     e\<lparr>e_name := given (ep_name p) (e_name e), metadata := given (ep_metadata p) (metadata e),
       active := given (ep_active p) (active e),
       sources := given (map_option (map (kept_supplicant e)) (ep_sources p)) (sources e),
       e_revision := e_revision e + 1\<rparr>"

definition endpoint_edit :: "uid \<Rightarrow> endpoint_patch \<Rightarrow> runtime \<Rightarrow> applied" where
  "endpoint_edit eid p s =
     bind (resource (endpoints (cfg s)) eid) (\<lambda>old.
     bind (validated (validate_endpoint (patched_endpoint p old))) (\<lambda>e.
       let c = (cfg s)\<lparr>endpoints := put eid e (endpoints (cfg s))\<rparr>
       in bind (if ep_sources p = None then Inr ()
                else bind (check_sources c (sources e)) (\<lambda>_. source_capacity c)) (\<lambda>_.
            Inr (endpoint_event ''endpoint-edit'' eid (e_name e) (s\<lparr>cfg := c\<rparr>),
                 touch_endpoints (if ep_sources p = None \<and> ep_active p = None then [] else [eid]),
                 Reply_id eid))))"

fun colons :: "pystr \<Rightarrow> pystr" where
  \<comment> \<open>\<open>bytes.hex(":")\<close> of lower-case hexadecimal digits\<close>
  "colons (a # b # c # rest) = a # b # 58 # colons (c # rest)"
| "colons t = t"

definition local_mac :: "uid \<Rightarrow> pystr" where
  \<comment> \<open>a locally administered address from the first ten digits of a UUID\<close>
  "local_mac u = str ''02:'' @ colons (take 10 (filter (\<lambda>ch. ch \<noteq> 45) u))"

fun clone_sources :: "bool \<Rightarrow> source list \<Rightarrow> runtime \<Rightarrow> source list \<times> runtime" where
  "clone_sources preserve [] s = ([], s)"
| "clone_sources preserve (src # rest) s =
     (let (i, s) = draw s;
          (m, s) = (if preserve then (src_mac src, s) else (let (u, s) = draw s in (local_mac u, s)));
          (ss, s) = clone_sources preserve rest s
      in (src\<lparr>src_id := i, src_mac := m\<rparr> # ss, s))"

definition endpoint_clone :: "uid \<Rightarrow> pystr option \<Rightarrow> bool \<Rightarrow> runtime \<Rightarrow> applied" where
  "endpoint_clone eid name preserve s =
     bind (resource (endpoints (cfg s)) eid) (\<lambda>e.
       let (i, s) = draw s;
           (ss, s) = clone_sources preserve (sources e) s
       in endpoint_create (e\<lparr>e_id := i, e_revision := 0, sources := ss,
            e_name := (if truthy name then the name else e_name e @ str '' copy'')\<rparr>) s)"

subsection \<open>Attachments\<close>

definition optional_text :: "uid option \<Rightarrow> json" where
  "optional_text t = (case t of None \<Rightarrow> JNull | Some u \<Rightarrow> JText u)"

definition place_endpoint :: "string \<Rightarrow> uid \<Rightarrow> (uid, uid) dict \<Rightarrow> runtime \<Rightarrow> applied" where
  \<comment> \<open>the event and the reply of \<open>attach\<close> and \<open>detach\<close>\<close>
  "place_endpoint kind eid placed s =
     (let before = map_of (attachments (cfg s)) eid; after = map_of placed eid;
          s = s\<lparr>cfg := (cfg s)\<lparr>attachments := placed\<rparr>\<rparr>;
          s = (if before = after then s
               else event kind [(''endpoint_id'', JText eid), (''before_port_id'', optional_text before),
                      (''after_port_id'', optional_text after)] s)
      in Inr (s, touch_endpoints [eid], Reply_id eid))"

definition attach :: "uid \<Rightarrow> uid \<Rightarrow> runtime \<Rightarrow> applied" where
  "attach eid pid s =
     bind (resource (endpoints (cfg s)) eid) (\<lambda>_.
     bind (resource (ports (cfg s)) pid) (\<lambda>p.
     bind (need (mode p = Shared \<or> filter (\<lambda>e. e \<noteq> eid) (attached s pid) = []) 409
             ''Direct port already has an endpoint'') (\<lambda>_.
       place_endpoint ''attach'' eid (put eid pid (attachments (cfg s))) s)))"

definition detach :: "uid \<Rightarrow> runtime \<Rightarrow> applied" where
  "detach eid s =
     bind (resource (endpoints (cfg s)) eid) (\<lambda>_.
       place_endpoint ''detach'' eid (drop_key eid (attachments (cfg s))) s)"

subsection \<open>Ports\<close>

record port_patch =
  po_name :: "pystr option"
  po_alias :: "pystr option"
  po_admin_up :: "bool option"
  po_mode :: "port_mode option"
  po_shared_partner :: "bool option"
  po_forced_down :: "bool option"
  po_speed :: "int option"
  po_mtu :: "int option"
  po_pvid :: "int option"
  po_admitted :: "int list option"
  po_untagged :: "int list option"
  po_forbidden :: "int list option"
  po_notify :: "bool option"
  po_authentication :: "port_authentication option"

definition patched_port :: "port_patch \<Rightarrow> port \<Rightarrow> port" where
  "patched_port q p =
     p\<lparr>p_name := given (po_name q) (p_name p), p_alias := given (po_alias q) (p_alias p),
       admin_up := given (po_admin_up q) (admin_up p), mode := given (po_mode q) (mode p),
       shared_partner := given (po_shared_partner q) (shared_partner p),
       forced_down := given (po_forced_down q) (forced_down p), speed := given (po_speed q) (speed p),
       mtu := given (po_mtu q) (mtu p), pvid := given (po_pvid q) (pvid p),
       admitted := given (po_admitted q) (admitted p), untagged := given (po_untagged q) (untagged p),
       forbidden := given (po_forbidden q) (forbidden p),
       link_notifications := given (po_notify q) (link_notifications p),
       authentication := given (po_authentication q) (authentication p)\<rparr>"

definition completed_patch :: "port \<Rightarrow> port_patch \<Rightarrow> port_patch" where
  \<comment> \<open>a port turned shared has its partner; a moved PVID takes its untagged membership along\<close>
  "completed_patch p q =
     (let q = (if po_mode q = Some Shared \<and> mode p \<noteq> Shared then q\<lparr>po_shared_partner := Some True\<rparr> else q)
      in case po_pvid q of None \<Rightarrow> q
         | Some v \<Rightarrow> if v \<noteq> pvid p \<and> po_untagged q = None
             then q\<lparr>po_untagged := Some (sort (remdups (v # filter (\<lambda>u. u \<noteq> pvid p) (untagged p))))\<rparr> else q)"

definition edits_vlans :: "port_patch \<Rightarrow> bool" where
  "edits_vlans q \<longleftrightarrow> po_pvid q \<noteq> None \<or> po_admitted q \<noteq> None \<or> po_untagged q \<noteq> None \<or> po_forbidden q \<noteq> None"

definition reroutes :: "port \<Rightarrow> port \<Rightarrow> bool" where
  \<comment> \<open>more than the name, the alias and the notifications changed\<close>
  "reroutes old p \<longleftrightarrow>
     p\<lparr>p_name := p_name old, p_alias := p_alias old, link_notifications := link_notifications old\<rparr> \<noteq> old"

definition port_edit :: "uid \<Rightarrow> port_patch \<Rightarrow> runtime \<Rightarrow> applied" where
  "port_edit pid q s =
     bind (resource (ports (cfg s)) pid) (\<lambda>old.
     bind (need (po_mode q = Some Direct \<longrightarrow> length (attached s pid) \<le> 1) 409
             ''Disconnect extra endpoints before selecting direct mode'') (\<lambda>_.
       let q = completed_patch old q; p = patched_port q old
       in bind (validated (check (valid_port p) ''Invalid port'')) (\<lambda>_.
          bind (if edits_vlans q then validated (check_port (cfg s) pid p) else Inr ()) (\<lambda>_.
            Inr (s\<lparr>cfg := (cfg s)\<lparr>ports := put pid p (ports (cfg s))\<rparr>\<rparr>,
                 touch_ports (if reroutes old p then [pid] else []), No_reply)))))"

record port_fields =
  pf_name :: "pystr option"
  pf_speed :: "int option"
  pf_mtu :: "int option"

definition fresh_port :: "port_fields \<Rightarrow> uid \<Rightarrow> Configuration.switch \<Rightarrow> port" where
  "fresh_port f ident sw =
     (let p = default_port ident (next_bridge_port sw) (next_if_index sw)
                (str ''Ethernet'' @ decimal (nat (next_bridge_port sw)))
      in p\<lparr>p_name := given (pf_name f) (p_name p), speed := given (pf_speed f) (speed p),
           mtu := given (pf_mtu f) (mtu p)\<rparr>)"

definition with_port :: "port \<Rightarrow> configuration \<Rightarrow> configuration" where
  "with_port p c =
     (let sw = cfg_switch c
      in c\<lparr>ports := put (p_id p) p (ports c),
           cfg_switch := sw\<lparr>port_count := port_count sw + 1, next_bridge_port := next_bridge_port sw + 1,
             next_if_index := next_if_index sw + 1\<rparr>\<rparr>)"

definition port_create :: "port_fields \<Rightarrow> runtime \<Rightarrow> applied" where
  "port_create f s =
     bind (need (length (ports (cfg s)) < 256) 429 ''Port limit reached (256)'') (\<lambda>_.
     bind (need (next_bridge_port (cfg_switch (cfg s)) \<le> 65535) 429 ''Bridge port identity space exhausted'') (\<lambda>_.
     bind (need (next_if_index (cfg_switch (cfg s)) \<le> 2147483647) 429 ''Interface identity space exhausted'') (\<lambda>_.
       let (i, s) = draw s; p = fresh_port f i (cfg_switch (cfg s))
       in bind (validated (check (valid_port p) ''Invalid port'')) (\<lambda>_.
            let s = s\<lparr>cfg := with_port p (cfg s),
                  port_stats := put i \<lparr>c_in_octets = 0, c_in_ucast = 0, c_in_discards = 0,
                    c_last_change = uptime_now s, c_discontinuity = uptime_now s\<rparr> (port_stats s)\<rparr>
            in Inr (event ''port-create'' [(''port_id'', JText i)] s, touch_ports [i], Reply_id i)))))"

definition on_port_key :: "uid \<Rightarrow> subject \<Rightarrow> bool" where
  "on_port_key pid key \<longleftrightarrow> fst key = pid"

definition detach_from :: "uid \<Rightarrow> runtime \<Rightarrow> uid \<Rightarrow> runtime" where
  "detach_from pid s eid =
     event ''detach'' [(''endpoint_id'', JText eid), (''before_port_id'', JText pid), (''after_port_id'', JNull)]
       (s\<lparr>cfg := (cfg s)\<lparr>attachments := drop_key eid (attachments (cfg s))\<rparr>\<rparr>)"

definition without_port :: "uid \<Rightarrow> runtime \<Rightarrow> runtime" where
  "without_port pid s =
     s\<lparr>cfg := (cfg s)\<lparr>ports := drop_key pid (ports (cfg s)),
         cfg_switch := (cfg_switch (cfg s))\<lparr>port_count := port_count (cfg_switch (cfg s)) - 1\<rparr>\<rparr>,
       port_stats := drop_key pid (port_stats s), pgens := drop_key pid (pgens s), pae := drop_key pid (pae s),
       last_auth_sessions := drop_key pid (last_auth_sessions s),
       radius_status := filter (\<lambda>(k, _). \<not> on_port_key pid k) (radius_status s),
       renewal_budget := filter (\<lambda>(k, _). \<not> on_port_key pid k) (renewal_budget s)\<rparr>"

definition end_port_sessions :: "uid \<Rightarrow> string \<Rightarrow> int \<Rightarrow> runtime \<Rightarrow> runtime" where
  "end_port_sessions pid reason cause s =
     foldl (\<lambda>s key. end_session key reason (Some cause) None s) s
       (filter (on_port_key pid) (keys (radius_sessions s)))"

definition retire_port :: "uid \<Rightarrow> runtime \<Rightarrow> runtime" where
  "retire_port pid s =
     foldl (\<lambda>s key. retire_authentication key s) s (filter (on_port_key pid) (keys (radius_attempts s)))"

definition port_delete :: "uid \<Rightarrow> runtime \<Rightarrow> applied" where
  "port_delete pid s =
     bind (resource (ports (cfg s)) pid) (\<lambda>_.
       let es = attached s pid;
           s = retire_port pid (end_port_sessions pid ''port-deleted'' 6 s);
           s = foldl (detach_from pid) s es;
           s = event ''port-delete'' [(''port_id'', JText pid)] s
       in Inr (without_port pid s, \<lparr>tc_endpoints = es, tc_ports = [pid]\<rparr>, Reply_id pid))"

subsection \<open>VLANs\<close>

definition tagged_endpoints :: "configuration \<Rightarrow> int list \<Rightarrow> uid list" where
  "tagged_endpoints c vs = map e_id (filter (\<lambda>e. list_ex (\<lambda>src. \<exists>v \<in> set vs. tag src = Tag v) (sources e)) (vals (endpoints c)))"

definition vlan_create :: "int \<Rightarrow> pystr option \<Rightarrow> int option \<Rightarrow> runtime \<Rightarrow> applied" where
  "vlan_create v name fid s =
     (let x = \<lparr>vid = v, vl_name = given name [], fdb_id = given fid (1000 + v)\<rparr>
      in bind (validated (check (valid_vlan x) ''Invalid VLAN'')) (\<lambda>_.
         bind (need (\<not> has (vlans (cfg s)) v) 409 ''VLAN already exists'') (\<lambda>_.
         bind (validated (check (list_all (\<lambda>y. fdb_id y \<noteq> fdb_id x) (vals (vlans (cfg s))))
                 ''FDB IDs must be distinct'')) (\<lambda>_.
           Inr (s\<lparr>cfg := (cfg s)\<lparr>vlans := put v x (vlans (cfg s))\<rparr>\<rparr>,
                touch_endpoints (tagged_endpoints (cfg s) [v]), Reply_vid v)))))"

definition vlan_edit :: "int \<Rightarrow> pystr \<Rightarrow> runtime \<Rightarrow> applied" where
  "vlan_edit v name s =
     bind (resource (vlans (cfg s)) v) (\<lambda>old.
       let x = old\<lparr>vl_name := name\<rparr>
       in bind (validated (check (valid_vlan x) ''Invalid VLAN'')) (\<lambda>_.
            Inr (s\<lparr>cfg := (cfg s)\<lparr>vlans := put v x (vlans (cfg s))\<rparr>\<rparr>, untouched, No_reply)))"

definition uses_vlan :: "int \<Rightarrow> port \<Rightarrow> bool" where
  "uses_vlan v p \<longleftrightarrow> v \<in> set (admitted p) \<or> v \<in> set (untagged p) \<or> v \<in> set (forbidden p) \<or> pvid p = v"

definition include_vlan_1 :: "int list \<Rightarrow> int list" where
  "include_vlan_1 vs = sort (remdups (vs @ [1]))"

definition port_without_vlan :: "int \<Rightarrow> port \<Rightarrow> port" where
  \<comment> \<open>memberships go; a port on the VLAN falls back to VLAN 1, untagged as it was\<close>
  "port_without_vlan v p =
     (let keep = filter (\<lambda>x. x \<noteq> v); native = (v \<in> set (untagged p));
          q = p\<lparr>admitted := keep (admitted p), untagged := keep (untagged p), forbidden := keep (forbidden p)\<rparr>
      in if pvid p = v then
           let q = q\<lparr>pvid := 1, admitted := include_vlan_1 (admitted q)\<rparr>
           in if native then q\<lparr>untagged := include_vlan_1 (untagged q)\<rparr> else q
         else q)"

definition configuration_without_vlan :: "int \<Rightarrow> configuration \<Rightarrow> configuration" where
  "configuration_without_vlan v c =
     c\<lparr>vlans := drop_key v (vlans c),
       ports := map (\<lambda>(k, p). (k, if uses_vlan v p then port_without_vlan v p else p)) (ports c),
       cfg_switch := (if legacy_vlan (cfg_switch c) = v then (cfg_switch c)\<lparr>legacy_vlan := 1\<rparr> else cfg_switch c)\<rparr>"

definition vlan_delete :: "int \<Rightarrow> runtime \<Rightarrow> applied" where
  "vlan_delete v s =
     bind (resource (vlans (cfg s)) v) (\<lambda>_.
     bind (need (v \<noteq> 1) 409 ''VLAN 1 cannot be deleted'') (\<lambda>_.
       let used = map fst (filter (\<lambda>(_, p). uses_vlan v p) (ports (cfg s)));
           c = configuration_without_vlan v (cfg s)
       in bind (validated (first_error (map (\<lambda>pid. check_port c pid (the (map_of (ports c) pid))) used))) (\<lambda>_.
            Inr (s\<lparr>cfg := c, vlan_deletes := vlan_deletes s + 1\<rparr>,
                 \<lparr>tc_endpoints = tagged_endpoints (cfg s) [v], tc_ports = used\<rparr>, No_reply))))"

end
