(* ===== verification/Records_Radius.thy ===== *)
theory Records_Radius
  imports Engine_Edits
begin

text \<open>
  The commands of \<open>Engine._apply\<close> (\<open>switchlab/engine.py\<close>) that edit the RADIUS records: options,
  authentication servers, accounting targets, senders of dynamic requests, certificate material and
  supplicant templates. A command is a function of the configuration and of the identifiers a \<open>uid()\<close>
  would draw; it gives the changed configuration, how many identifiers it drew, and what the history
  says of it. A JSON patch is a record with an optional value per field, doubly optional where the field
  may be null. Texts that \<open>ipaddress\<close> or IDNA parse arrive in their normal form, and whether
  \<open>cryptography\<close> accepts a certificate with its key is a field of the patch.
\<close>

record made =
  mk_cfg :: configuration
  mk_new :: nat                              \<comment> \<open>identifiers drawn\<close>
  mk_notes :: "(string \<times> details) list"      \<comment> \<open>the events\<close>
  mk_reply :: reply

definition noted :: "string \<Rightarrow> uid \<Rightarrow> pystr \<Rightarrow> nat \<Rightarrow> configuration \<Rightarrow> made" where
  "noted kind ident label new c =
     \<lparr>mk_cfg = c, mk_new = new, mk_notes = [(kind, [(''resource_id'', JText ident), (''resource_label'', JText label)])], mk_reply = Reply_id ident\<rparr>"

definition required :: "'a option \<Rightarrow> 'a option \<Rightarrow> string + 'a" where
  \<comment> \<open>a field without a default: patched, or as stored\<close>
  "required patch old =
     (case patch of Some v \<Rightarrow> Inr v
      | None \<Rightarrow> (case old of Some v \<Rightarrow> Inr v | None \<Rightarrow> Inl ''Field required''))"

definition stored_or :: "'b \<Rightarrow> ('a \<Rightarrow> 'b) \<Rightarrow> 'a option \<Rightarrow> 'b" where
  \<comment> \<open>a field of the stored record, or its default\<close>
  "stored_or absent f old = (case old of None \<Rightarrow> absent | Some x \<Rightarrow> f x)"

definition unless_blank :: "bool \<Rightarrow> pystr option \<Rightarrow> pystr option" where
  \<comment> \<open>in an edit, an empty secret stands for the stored one\<close>
  "unless_blank editing p = (if editing \<and> p = Some [] then None else p)"

definition unless_blank_null :: "bool \<Rightarrow> pystr option option \<Rightarrow> pystr option option" where
  "unless_blank_null editing p = (if editing \<and> p = Some (Some []) then None else p)"

definition drawn_for :: "uid option \<Rightarrow> nat" where
  "drawn_for ident = (if ident = None then 1 else 0)"

definition within_limit :: "nat \<Rightarrow> 'a list \<Rightarrow> string + unit" where
  \<comment> \<open>\<open>check_collection_limit\<close>\<close>
  "within_limit most xs = check (length xs \<le> most) ''Collection exceeds its limit''"

definition with_radius :: "radius_settings \<Rightarrow> configuration \<Rightarrow> configuration" where
  "with_radius r c = c\<lparr>radius := r\<rparr>"

subsection \<open>Servers and accounting targets\<close>

record server_patch =
  vq_id :: "uid option"
  vq_label :: "pystr option"
  vq_enabled :: "bool option"
  vq_address :: "ip option"
  vq_port :: "int option"
  vq_secret :: "pystr option"
  vq_source :: "ip option option"
  vq_position :: "int option"

definition merged_server :: "int \<Rightarrow> uid \<Rightarrow> server_patch \<Rightarrow> radius_server option \<Rightarrow> string + radius_server" where
  "merged_server port fresh q old =
     bind (required (vq_label q) (map_option rs_label old)) (\<lambda>label.
     bind (required (vq_address q) (map_option rs_address old)) (\<lambda>address.
     bind (required (unless_blank (old \<noteq> None) (vq_secret q)) (map_option rs_secret old)) (\<lambda>secret.
       let v = \<lparr>rs_id = given (vq_id q) fresh, rs_label = label,
                 rs_enabled = given (vq_enabled q) (stored_or True rs_enabled old), rs_address = address,
                 rs_port = given (vq_port q) (stored_or port rs_port old), rs_secret = secret,
                 rs_source = given (vq_source q) (stored_or None rs_source old)\<rparr>
       in bind (server_ok v) (\<lambda>_. Inr v))))"

definition insert_at :: "int \<Rightarrow> 'a \<Rightarrow> 'a list \<Rightarrow> 'a list" where
  \<comment> \<open>\<open>list.insert\<close>: a negative index counts from the end\<close>
  "insert_at i x xs =
     (let n = int (length xs); k = nat (max 0 (min n (if i < 0 then i + n else i))) in take k xs @ x # drop k xs)"

definition placed_server :: "int option \<Rightarrow> radius_server \<Rightarrow> radius_server list \<Rightarrow> radius_server list" where
  \<comment> \<open>a saved server keeps its place unless it is given one; a new one comes last\<close>
  "placed_server position v vs =
     (let others = filter (\<lambda>x. rs_id x \<noteq> rs_id v) vs;
          old = int (length (takeWhile (\<lambda>x. rs_id x \<noteq> rs_id v) vs))
      in insert_at (min (int (length others)) (given position old)) v others)"

definition server_of :: "uid option \<Rightarrow> radius_server list \<Rightarrow> radius_server option" where
  "server_of ident vs = List.find (\<lambda>v. Some (rs_id v) = ident) vs"

definition save_server ::
  "int \<Rightarrow> server_patch \<Rightarrow> uid \<Rightarrow> radius_server list \<Rightarrow> failure + radius_server \<times> radius_server list" where
  "save_server port q fresh vs =
     bind (validated (merged_server port fresh q (server_of (vq_id q) vs))) (\<lambda>v.
       let vs = placed_server (vq_position q) v vs
       in bind (validated (within_limit 16 vs)) (\<lambda>_. Inr (v, vs)))"

definition remove_server ::
  "string \<Rightarrow> uid \<Rightarrow> radius_server list \<Rightarrow> failure + radius_server \<times> radius_server list" where
  "remove_server message ident vs =
     (case server_of (Some ident) vs of
        None \<Rightarrow> refuse 404 message
      | Some v \<Rightarrow> Inr (v, filter (\<lambda>x. rs_id x \<noteq> ident) vs))"

definition radius_server_save :: "server_patch \<Rightarrow> (nat \<Rightarrow> uid) \<Rightarrow> configuration \<Rightarrow> failure + made" where
  "radius_server_save q fresh c =
     bind (save_server 1812 q (fresh 0) (servers (radius c))) (\<lambda>(v, vs).
       Inr (noted ''radius-server-save'' (rs_id v) (rs_label v) (drawn_for (vq_id q))
         (with_radius ((radius c)\<lparr>servers := vs\<rparr>) c)))"

definition radius_server_delete :: "uid \<Rightarrow> configuration \<Rightarrow> failure + made" where
  "radius_server_delete ident c =
     bind (remove_server ''Server not found'' ident (servers (radius c))) (\<lambda>(v, vs).
       Inr ((noted ''radius-server-delete'' ident (rs_label v) 0
         (with_radius ((radius c)\<lparr>servers := vs\<rparr>) c))\<lparr>mk_reply := No_reply\<rparr>))"

definition with_targets :: "radius_server list \<Rightarrow> configuration \<Rightarrow> configuration" where
  "with_targets vs c = with_radius ((radius c)\<lparr>accounting := (accounting (radius c))\<lparr>ac_targets := vs\<rparr>\<rparr>) c"

definition accounting_target_save :: "server_patch \<Rightarrow> (nat \<Rightarrow> uid) \<Rightarrow> configuration \<Rightarrow> failure + made" where
  "accounting_target_save q fresh c =
     bind (save_server 1813 q (fresh 0) (ac_targets (accounting (radius c)))) (\<lambda>(v, vs).
       Inr (noted ''accounting-target-save'' (rs_id v) (rs_label v) (drawn_for (vq_id q)) (with_targets vs c)))"

definition accounting_target_delete :: "uid \<Rightarrow> configuration \<Rightarrow> failure + made" where
  "accounting_target_delete ident c =
     bind (remove_server ''Accounting target not found'' ident (ac_targets (accounting (radius c)))) (\<lambda>(v, vs).
       Inr ((noted ''accounting-target-delete'' ident (rs_label v) 0 (with_targets vs c))\<lparr>mk_reply := No_reply\<rparr>))"

subsection \<open>Senders of dynamic requests\<close>

record sender_patch =
  dq_id :: "uid option"
  dq_label :: "pystr option"
  dq_enabled :: "bool option"
  dq_address :: "ip option"
  dq_secret :: "pystr option"

definition merged_sender :: "uid \<Rightarrow> sender_patch \<Rightarrow> dynamic_sender option \<Rightarrow> string + dynamic_sender" where
  "merged_sender fresh q old =
     bind (required (dq_label q) (map_option ds_label old)) (\<lambda>label.
     bind (required (dq_address q) (map_option ds_address old)) (\<lambda>address.
     bind (required (unless_blank (old \<noteq> None) (dq_secret q)) (map_option ds_secret old)) (\<lambda>secret.
       let d = \<lparr>ds_id = given (dq_id q) fresh, ds_label = label,
                 ds_enabled = given (dq_enabled q) (stored_or True ds_enabled old),
                 ds_address = ipv4_mapped address, ds_secret = secret\<rparr>
       in bind (sender_ok d) (\<lambda>_. Inr d))))"

definition with_dynamic :: "dynamic_settings \<Rightarrow> configuration \<Rightarrow> configuration" where
  "with_dynamic d c = with_radius ((radius c)\<lparr>dynamic_authorization := d\<rparr>) c"

definition dynamic_sender_save :: "sender_patch \<Rightarrow> (nat \<Rightarrow> uid) \<Rightarrow> configuration \<Rightarrow> failure + made" where
  "dynamic_sender_save q fresh c =
     (let dy = dynamic_authorization (radius c)
      in bind (validated (merged_sender (fresh 0) q (List.find (\<lambda>d. Some (ds_id d) = dq_id q) (dy_senders dy)))) (\<lambda>d.
           let dy = dy\<lparr>dy_senders := filter (\<lambda>x. ds_id x \<noteq> ds_id d) (dy_senders dy) @ [d]\<rparr>
           in bind (validated (within_limit 64 (dy_senders dy))) (\<lambda>_.
              bind (if ds_enabled d then validated (check_sender_addresses dy) else Inr ()) (\<lambda>_.
                Inr (noted ''dynamic-sender-save'' (ds_id d) (ds_label d) (drawn_for (dq_id q)) (with_dynamic dy c))))))"

definition dynamic_sender_delete :: "uid \<Rightarrow> configuration \<Rightarrow> failure + made" where
  "dynamic_sender_delete ident c =
     (let dy = dynamic_authorization (radius c)
      in case List.find (\<lambda>d. ds_id d = ident) (dy_senders dy) of
           None \<Rightarrow> refuse 404 ''Sender not found''
         | Some d \<Rightarrow> Inr ((noted ''dynamic-sender-delete'' ident (ds_label d) 0
             (with_dynamic (dy\<lparr>dy_senders := filter (\<lambda>x. ds_id x \<noteq> ident) (dy_senders dy)\<rparr>) c))\<lparr>mk_reply := No_reply\<rparr>))"

subsection \<open>Options\<close>

definition announced :: "string \<Rightarrow> configuration \<Rightarrow> made" where
  \<comment> \<open>an edit whose event names no record\<close>
  "announced kind c = \<lparr>mk_cfg = c, mk_new = 0, mk_notes = [(kind, [])], mk_reply = No_reply\<rparr>"

record radius_patch =
  rq_timeout :: "int option"
  rq_attempts :: "int option"
  rq_exchange :: "int option"
  rq_retry :: "int option"
  rq_discovery :: "int option"
  rq_reauthentication :: "int option"
  rq_inactivity :: "int option"
  rq_identifier :: "pystr option option"
  rq_nas_address :: "bytes option option"
  rq_mab_case :: "text_case option"
  rq_mab_separator :: "pystr option"
  rq_station_case :: "text_case option"
  rq_station_separator :: "pystr option"

definition patched_radius :: "radius_patch \<Rightarrow> radius_settings \<Rightarrow> radius_settings" where
  "patched_radius q r =
     r\<lparr>response_timeout_seconds := given (rq_timeout q) (response_timeout_seconds r),
       attempts := given (rq_attempts q) (attempts r),
       exchange_timeout_seconds := given (rq_exchange q) (exchange_timeout_seconds r),
       failed_cycle_retry_seconds := given (rq_retry q) (failed_cycle_retry_seconds r),
       discovery_seconds := given (rq_discovery q) (discovery_seconds r),
       reauthentication_seconds := given (rq_reauthentication q) (reauthentication_seconds r),
       inactivity_seconds := given (rq_inactivity q) (inactivity_seconds r),
       nas_identifier := given (rq_identifier q) (nas_identifier r),
       nas_ip_address := given (rq_nas_address q) (nas_ip_address r),
       mab_case := given (rq_mab_case q) (mab_case r),
       mab_separator := given (rq_mab_separator q) (mab_separator r),
       station_case := given (rq_station_case q) (station_case r),
       station_separator := given (rq_station_separator q) (station_separator r)\<rparr>"

definition radius_settings_edit :: "radius_patch \<Rightarrow> configuration \<Rightarrow> failure + made" where
  "radius_settings_edit q c =
     (let r = patched_radius q (radius c)
      in bind (validated (radius_options r)) (\<lambda>_. Inr (announced ''radius-settings'' (with_radius r c))))"

record accounting_patch =
  aq_enabled :: "bool option"
  aq_timeout :: "int option"
  aq_attempts :: "int option"
  aq_backoff :: "int option"
  aq_interim :: "int option option"

definition patched_accounting :: "accounting_patch \<Rightarrow> accounting_settings \<Rightarrow> accounting_settings" where
  "patched_accounting q a =
     a\<lparr>ac_enabled := given (aq_enabled q) (ac_enabled a),
       ac_response_timeout := given (aq_timeout q) (ac_response_timeout a),
       ac_attempts := given (aq_attempts q) (ac_attempts a),
       ac_retry_backoff := given (aq_backoff q) (ac_retry_backoff a),
       ac_interim := given (aq_interim q) (ac_interim a)\<rparr>"

definition accounting_settings_edit :: "accounting_patch \<Rightarrow> configuration \<Rightarrow> failure + made" where
  "accounting_settings_edit q c =
     (let a = patched_accounting q (accounting (radius c))
      in bind (validated (accounting_options a)) (\<lambda>_.
           Inr (announced ''accounting-settings'' (with_radius ((radius c)\<lparr>accounting := a\<rparr>) c))))"

record dynamic_patch =
  yq_enabled :: "bool option"
  yq_host :: "ip option"
  yq_port :: "int option"

definition dynamic_settings_edit :: "dynamic_patch \<Rightarrow> configuration \<Rightarrow> failure + made" where
  "dynamic_settings_edit q c =
     (let dy = dynamic_authorization (radius c);
          dy = dy\<lparr>dy_enabled := given (yq_enabled q) (dy_enabled dy), dy_host := given (yq_host q) (dy_host dy),
                  dy_port := given (yq_port q) (dy_port dy)\<rparr>
      in bind (validated (check (between 1 65535 (dy_port dy)) ''Invalid port'')) (\<lambda>_.
           Inr (announced ''dynamic-settings'' (with_dynamic dy c))))"

subsection \<open>Supplicant profiles\<close>

record supplicant_patch =
  sq_method :: "eap_method option"
  sq_identity :: "pystr option"
  sq_username :: "pystr option"
  sq_password :: "pystr option option"
  sq_trust :: "uid option"
  sq_client :: "uid option option"
  sq_server_name :: "pystr option"

definition starts_afresh :: "supplicant_profile option \<Rightarrow> supplicant_patch \<Rightarrow> bool" where
  "starts_afresh previous q \<longleftrightarrow>
     (case previous of None \<Rightarrow> True | Some p \<Rightarrow> given (sq_method q) (sp_method p) \<noteq> sp_method p)"

definition fresh_fields :: "supplicant_patch \<Rightarrow> bool" where
  \<comment> \<open>the fields a profile of a new or changed type must bring\<close>
  "fresh_fields q \<longleftrightarrow> sq_identity q \<noteq> None \<and> sq_trust q \<noteq> None \<and> sq_server_name q \<noteq> None \<and>
     (if sq_method q = Some Peap then sq_username q \<noteq> None \<and> sq_password q \<noteq> None else sq_client q \<noteq> None)"

definition merged_profile :: "supplicant_patch \<Rightarrow> supplicant_profile option \<Rightarrow> string + supplicant_profile" where
  "merged_profile q old =
     bind (required (sq_method q) (map_option sp_method old)) (\<lambda>method.
     bind (required (sq_identity q) (map_option sp_identity old)) (\<lambda>ident.
     bind (required (sq_trust q) (map_option trust_id old)) (\<lambda>trust.
     bind (required (sq_server_name q) (map_option server_name old)) (\<lambda>name.
       let p = \<lparr>sp_method = method, sp_identity = ident, sp_username = given (sq_username q) (stored_or [] sp_username old),
                 sp_password = given (sq_password q) (stored_or None sp_password old), trust_id = trust,
                 client_identity_id = given (sq_client q) (stored_or None client_identity_id old), server_name = name\<rparr>
       in bind (supplicant_ok p) (\<lambda>_. Inr p)))))"

definition merge_supplicant ::
  "supplicant_profile option \<Rightarrow> supplicant_patch option \<Rightarrow> failure + supplicant_profile option" where
  "merge_supplicant previous patch =
     (case patch of
        None \<Rightarrow> Inr None
      | Some q \<Rightarrow>
          bind (need (starts_afresh previous q \<longrightarrow> fresh_fields q) 422
                  ''Select the active identity, trust and credentials for this supplicant type'') (\<lambda>_.
            let q = q\<lparr>sq_password := unless_blank_null (\<not> starts_afresh previous q) (sq_password q)\<rparr>
            in bind (validated (merged_profile q previous)) (\<lambda>p. Inr (Some p))))"

subsection \<open>Certificate material and templates\<close>

record material_patch =
  mq_id :: "uid option"
  mq_label :: "pystr option"
  mq_kind :: "material_kind option"
  mq_certificate :: "pystr option"
  mq_private_key :: "pystr option option"
  mq_key_password :: "pystr option option"
  mq_accepted :: bool \<comment> \<open>what \<open>cryptography\<close> says of the merged certificate, key and key password\<close>

definition merged_material :: "uid \<Rightarrow> material_patch \<Rightarrow> radius_material option \<Rightarrow> string + radius_material" where
  "merged_material fresh q old =
     bind (required (mq_label q) (map_option m_label old)) (\<lambda>label.
     bind (required (mq_kind q) (map_option m_kind old)) (\<lambda>kind.
     bind (required (unless_blank (old \<noteq> None) (mq_certificate q)) (map_option certificate old)) (\<lambda>cert.
       let m = \<lparr>m_id = given (mq_id q) fresh, m_label = label, m_kind = kind, certificate = cert,
                 private_key = given (unless_blank_null (old \<noteq> None) (mq_private_key q)) (stored_or None private_key old),
                 key_password = given (unless_blank_null (old \<noteq> None) (mq_key_password q)) (stored_or None key_password old)\<rparr>
       in bind (material_ok (mq_accepted q) m) (\<lambda>_. Inr m))))"

definition radius_material_save :: "material_patch \<Rightarrow> (nat \<Rightarrow> uid) \<Rightarrow> configuration \<Rightarrow> failure + made" where
  "radius_material_save q fresh c =
     (let old = optional_lookup (materials (radius c)) (mq_id q)
      in bind (validated (merged_material (fresh 0) q old)) (\<lambda>m.
           let c = with_radius ((radius c)\<lparr>materials := put (m_id m) m (materials (radius c))\<rparr>) c
           in bind (validated (within_limit 128 (materials (radius c)))) (\<lambda>_.
              bind (case old of None \<Rightarrow> Inr ()
                    | Some o' \<Rightarrow> if m_kind o' \<noteq> m_kind m then validated (check_material_dependents c (m_id m)) else Inr ()) (\<lambda>_.
                Inr (noted ''radius-material-save'' (m_id m) (m_label m) (drawn_for (mq_id q)) c)))))"

definition radius_material_delete :: "uid \<Rightarrow> configuration \<Rightarrow> failure + made" where
  "radius_material_delete ident c =
     bind (resource (materials (radius c)) ident) (\<lambda>m.
       let c = with_radius ((radius c)\<lparr>materials := drop_key ident (materials (radius c))\<rparr>) c
       in bind (validated (check_material_dependents c ident)) (\<lambda>_.
            Inr ((noted ''radius-material-delete'' ident (m_label m) 0 c)\<lparr>mk_reply := No_reply\<rparr>)))"

record template_patch =
  tq_id :: "uid option"
  tq_label :: "pystr option"
  tq_profile :: "supplicant_patch option option"

definition template_profile :: "template_patch \<Rightarrow> supplicant_template option \<Rightarrow> failure + supplicant_profile" where
  \<comment> \<open>a template has a profile: one that is not given is the stored one, and null is none\<close>
  "template_profile q old =
     (case tq_profile q of
        None \<Rightarrow> validated (required None (map_option t_profile old))
      | Some patch \<Rightarrow>
          bind (merge_supplicant (map_option t_profile old) patch) (\<lambda>p. validated (required p None)))"

definition radius_template_save :: "template_patch \<Rightarrow> (nat \<Rightarrow> uid) \<Rightarrow> configuration \<Rightarrow> failure + made" where
  "radius_template_save q fresh c =
     (let old = optional_lookup (templates (radius c)) (tq_id q)
      in bind (template_profile q old) (\<lambda>p.
         bind (validated (required (tq_label q) (map_option t_label old))) (\<lambda>label.
           let t = \<lparr>t_id = given (tq_id q) (fresh 0), t_label = label,
                     t_revision = stored_or 0 (\<lambda>o'. t_revision o' + 1) old, t_profile = p\<rparr>;
               c = with_radius ((radius c)\<lparr>templates := put (t_id t) t (templates (radius c))\<rparr>) c
           in bind (validated (check (label_ok label) ''Invalid template'')) (\<lambda>_.
              bind (validated (within_limit 256 (templates (radius c)))) (\<lambda>_.
              bind (validated (check_profile c (Some p))) (\<lambda>_.
                Inr (noted ''radius-template-save'' (t_id t) label (drawn_for (tq_id q)) c)))))))"

definition radius_template_delete :: "uid \<Rightarrow> configuration \<Rightarrow> failure + made" where
  "radius_template_delete ident c =
     bind (resource (templates (radius c)) ident) (\<lambda>t.
       Inr ((noted ''radius-template-delete'' ident (t_label t) 0
         (with_radius ((radius c)\<lparr>templates := drop_key ident (templates (radius c))\<rparr>) c))\<lparr>mk_reply := No_reply\<rparr>))"

end
