(* ===== verification/Records_Snmp.thy ===== *)
theory Records_Snmp
  imports Records_Radius
begin

text \<open>
  The commands of \<open>Engine._apply\<close> (\<open>switchlab/engine.py\<close>) that edit the SNMP records: the agent's
  settings, credentials with their conversion between SNMPv2c and SNMPv3, access groups, views and
  notification targets; the profile of an endpoint's source; and the record commands as one type.
\<close>

subsection \<open>Settings and views\<close>

record snmp_patch =
  nq_enabled :: "bool option"
  nq_host :: "ip option"
  nq_port :: "int option"
  nq_max_varbinds :: "int option"

definition snmp_settings_edit :: "snmp_patch \<Rightarrow> configuration \<Rightarrow> failure + made" where
  "snmp_settings_edit q c =
     (let n = snmp c;
          n = \<lparr>sn_enabled = given (nq_enabled q) (sn_enabled n), sn_host = given (nq_host q) (sn_host n),
               sn_port = given (nq_port q) (sn_port n), max_varbinds = given (nq_max_varbinds q) (max_varbinds n)\<rparr>
      in bind (validated (check (between 1 65535 (sn_port n) \<and> between 1 1000 (max_varbinds n)) ''Invalid SNMP settings'')) (\<lambda>_.
           Inr (announced ''snmp-settings'' (c\<lparr>snmp := n\<rparr>))))"

record view_patch =
  wq_id :: "uid option"
  wq_name :: "pystr option"
  wq_includes :: "oid list option"

definition view_save :: "view_patch \<Rightarrow> (nat \<Rightarrow> uid) \<Rightarrow> configuration \<Rightarrow> failure + made" where
  "view_save q fresh c =
     (let old = optional_lookup (views c) (wq_id q)
      in bind (validated (required (wq_name q) (map_option v_name old))) (\<lambda>name.
         bind (validated (required (wq_includes q) (map_option includes_oids old))) (\<lambda>oids.
           let v = \<lparr>v_id = given (wq_id q) (fresh 0), v_name = name, includes_oids = oids\<rparr>;
               c = c\<lparr>views := put (v_id v) v (views c)\<rparr>
           in bind (validated (check (length name \<le> 80 \<and> 1 \<le> length oids \<and> length oids \<le> 32) ''Invalid view'')) (\<lambda>_.
              bind (validated (snmp_limit (views c))) (\<lambda>_.
                Inr (noted ''view-save'' (v_id v) name (drawn_for (wq_id q)) c))))))"

definition selects_view :: "uid \<Rightarrow> polling_access \<times> writing_access \<Rightarrow> bool" where
  "selects_view ident policy \<longleftrightarrow> pl_view_id (fst policy) = ident \<or> wr_view_id (snd policy) = Some ident"

definition access_policies :: "configuration \<Rightarrow> (polling_access \<times> writing_access) list" where
  \<comment> \<open>the communities, then the groups\<close>
  "access_policies c =
     List.map_filter (\<lambda>cr. case c_access cr of V2c pl wr \<Rightarrow> Some (pl, wr) | V3 _ \<Rightarrow> None) (vals (credentials c)) @
     map (\<lambda>g. (g_polling g, g_writing g)) (vals (groups c))"

definition view_delete :: "uid \<Rightarrow> configuration \<Rightarrow> failure + made" where
  "view_delete ident c =
     bind (resource (views c) ident) (\<lambda>v.
       let c = c\<lparr>views := drop_key ident (views c)\<rparr>
       in bind (validated (first_error (map (\<lambda>(pl, wr). check_policy c pl wr) (filter (selects_view ident) (access_policies c))))) (\<lambda>_.
            Inr ((noted ''view-delete'' ident (v_name v) 0 c)\<lparr>mk_reply := No_reply\<rparr>)))"

subsection \<open>Access\<close>

record polling_patch =
  pq_enabled :: "bool option"
  pq_view :: "uid option"
  pq_networks :: "network list option"

record writing_patch =
  xq_enabled :: "bool option"
  xq_view :: "uid option option"
  xq_networks :: "network list option"

definition default_polling :: polling_access where
  "default_polling = \<lparr>pl_enabled = False, pl_view_id = str ''all'', pl_networks = []\<rparr>"

definition default_writing :: writing_access where
  "default_writing = \<lparr>wr_enabled = False, wr_view_id = None, wr_networks = []\<rparr>"

definition patched_polling :: "polling_patch option \<Rightarrow> polling_access \<Rightarrow> polling_access" where
  \<comment> \<open>\<open>merge_policy\<close>: a use given in part keeps the rest of the stored one\<close>
  "patched_polling q pl =
     (case q of None \<Rightarrow> pl
      | Some q \<Rightarrow> \<lparr>pl_enabled = given (pq_enabled q) (pl_enabled pl), pl_view_id = given (pq_view q) (pl_view_id pl),
                   pl_networks = given (pq_networks q) (pl_networks pl)\<rparr>)"

definition patched_writing :: "writing_patch option \<Rightarrow> writing_access \<Rightarrow> writing_access" where
  "patched_writing q wr =
     (case q of None \<Rightarrow> wr
      | Some q \<Rightarrow> \<lparr>wr_enabled = given (xq_enabled q) (wr_enabled wr), wr_view_id = given (xq_view q) (wr_view_id wr),
                   wr_networks = given (xq_networks q) (wr_networks wr)\<rparr>)"

record group_patch =
  gq_id :: "uid option"
  gq_label :: "pystr option"
  gq_level :: "security_level option"
  gq_polling :: "polling_patch option"
  gq_writing :: "writing_patch option"

definition add_group :: "access_group \<Rightarrow> configuration \<Rightarrow> failure + configuration" where
  \<comment> \<open>a valid group enters the collection and its references are checked\<close>
  "add_group g c =
     bind (validated (group_ok g)) (\<lambda>_.
       let c = c\<lparr>groups := put (g_id g) g (groups c)\<rparr>
       in bind (validated (snmp_limit (groups c))) (\<lambda>_.
          bind (validated (check_policy c (g_polling g) (g_writing g))) (\<lambda>_. Inr c)))"

definition group_save :: "group_patch \<Rightarrow> (nat \<Rightarrow> uid) \<Rightarrow> configuration \<Rightarrow> failure + made" where
  "group_save q fresh c =
     (let old = optional_lookup (groups c) (gq_id q)
      in bind (validated (required (gq_label q) (map_option g_label old))) (\<lambda>label.
           let g = \<lparr>g_id = given (gq_id q) (fresh 0), g_label = label,
                     minimum_security_level = given (gq_level q) (stored_or AuthPriv minimum_security_level old),
                     g_polling = patched_polling (gq_polling q) (stored_or default_polling g_polling old),
                     g_writing = patched_writing (gq_writing q) (stored_or default_writing g_writing old)\<rparr>
           in bind (add_group g c) (\<lambda>c. Inr (noted ''group-save'' (g_id g) label (drawn_for (gq_id q)) c))))"

definition in_group :: "uid \<Rightarrow> credential \<Rightarrow> bool" where
  "in_group ident cr \<longleftrightarrow> c_access cr = V3 (Some ident)"

definition group_delete :: "uid \<Rightarrow> configuration \<Rightarrow> failure + made" where
  "group_delete ident c =
     bind (resource (groups c) ident) (\<lambda>g.
       let c = c\<lparr>groups := drop_key ident (groups c)\<rparr>
       in bind (validated (first_error (map (\<lambda>cr. check_credential c cr False)
                (filter (in_group ident) (vals (credentials c)))))) (\<lambda>_.
            Inr ((noted ''group-delete'' ident (g_label g) 0 c)\<lparr>mk_reply := No_reply\<rparr>)))"

subsection \<open>Credentials\<close>

datatype protocol = Community_based | User_based
datatype transfer = Keep_access | No_access | Other_transfer

definition protocol_of :: "credential \<Rightarrow> protocol" where
  "protocol_of c = (if is_v3 (c_access c) then User_based else Community_based)"

record credential_patch =
  cq_id :: "uid option"
  cq_protocol :: "protocol option"
  cq_enabled :: "bool option"
  cq_label :: "pystr option"
  cq_username :: "pystr option"
  cq_level :: "security_level option"
  cq_auth :: "auth_protocol option"
  cq_priv :: "priv_protocol option"
  cq_community :: "pystr option option"
  cq_auth_key :: "pystr option option"
  cq_priv_key :: "pystr option option"
  cq_polling :: "polling_patch option"
  cq_writing :: "writing_patch option"
  cq_group :: "uid option option"
  cq_transfer :: "transfer option"

definition check_conversion :: "protocol \<Rightarrow> credential_patch \<Rightarrow> failure + unit" where
  "check_conversion to q =
     bind (need (cq_polling q = None \<and> cq_writing q = None) 422
             ''Protocol conversion cannot include read/write overrides'') (\<lambda>_.
     bind (if to = User_based then
             bind (need (cq_level q \<noteq> None) 422
                     ''Select an explicit protection profile for protocol conversion'') (\<lambda>_.
               need ((cq_transfer q \<noteq> None) \<noteq> (cq_group q \<noteq> None)) 422
                 ''Choose keep, none, or an existing group for protocol conversion'')
           else need (cq_transfer q \<noteq> None \<and> cq_group q = None) 422
                  ''Choose keep or none for protocol conversion'') (\<lambda>_.
       need (cq_transfer q \<noteq> Some Other_transfer) 422 ''Invalid access transfer''))"

definition access_before :: "configuration \<Rightarrow> credential \<Rightarrow> polling_access \<times> writing_access" where
  "access_before c old =
     (case incoming_policy c old of None \<Rightarrow> (default_polling, default_writing) | Some (pl, wr, _) \<Rightarrow> (pl, wr))"

definition kept_group :: "uid \<Rightarrow> credential_patch \<Rightarrow> credential \<Rightarrow> configuration \<Rightarrow> access_group" where
  \<comment> \<open>the group that takes over the policy of a community\<close>
  "kept_group ident q old c =
     (let (pl, wr) = access_before c old
      in \<lparr>g_id = ident, g_label = given (cq_label q) (c_label old),
          minimum_security_level = given (cq_level q) AuthPriv, g_polling = pl, g_writing = wr\<rparr>)"

definition converted_access ::
  "protocol \<Rightarrow> credential_patch \<Rightarrow> credential \<Rightarrow> uid \<Rightarrow> configuration \<Rightarrow> failure + configuration \<times> nat \<times> access" where
  \<comment> \<open>with a group the new access of a converted credential selects, and the identifiers drawn\<close>
  "converted_access to q old fresh c =
     bind (check_conversion to q) (\<lambda>_.
       case to of
         User_based \<Rightarrow>
           if cq_transfer q = Some Keep_access then
             bind (add_group (kept_group fresh q old c) c) (\<lambda>c. Inr (c, 1, V3 (Some fresh)))
           else Inr (c, 0, V3 (if cq_transfer q = None then given (cq_group q) None else None))
       | Community_based \<Rightarrow>
           let (pl, wr) = (if cq_transfer q = Some Keep_access then access_before c old else (default_polling, default_writing))
           in Inr (c, 0, V2c pl wr))"

definition edited_access :: "protocol \<Rightarrow> credential_patch \<Rightarrow> credential option \<Rightarrow> failure + access" where
  \<comment> \<open>the access of a new credential, or of one that keeps its protocol\<close>
  "edited_access to q old =
     bind (need (cq_transfer q = None) 422 ''Access transfer is only valid for protocol conversion'') (\<lambda>_.
     bind (if to = User_based then need (cq_polling q = None \<and> cq_writing q = None) 422
             ''SNMPv3 incoming access belongs to the selected group''
           else need (cq_group q = None) 422 ''SNMPv2c communities cannot select a group'') (\<lambda>_.
       Inr (case to of
              User_based \<Rightarrow> V3 (given (cq_group q) (case map_option c_access old of Some (V3 g) \<Rightarrow> g | _ \<Rightarrow> None))
            | Community_based \<Rightarrow>
                (case (case map_option c_access old of Some (V2c pl wr) \<Rightarrow> (pl, wr) | _ \<Rightarrow> (default_polling, default_writing)) of
                   (pl, wr) \<Rightarrow> V2c (patched_polling (cq_polling q) pl) (patched_writing (cq_writing q) wr)))))"

definition renewed_credential ::
  "protocol \<Rightarrow> credential_patch \<Rightarrow> uid \<Rightarrow> pystr \<Rightarrow> bool \<Rightarrow> access \<Rightarrow> credential" where
  \<comment> \<open>a new or converted credential has the secrets of the patch alone\<close>
  "renewed_credential to q ident label enabled a =
     (let user = (to = User_based)
      in \<lparr>c_id = ident, c_enabled = enabled, c_label = label,
          c_username = (if user then given (cq_username q) [] else []),
          c_security_level = (if user then given (cq_level q) AuthPriv else NoAuthNoPriv),
          c_auth_protocol = given (cq_auth q) Sha256, c_priv_protocol = given (cq_priv q) Aes128,
          c_community = (if user then None else given (cq_community q) None),
          c_auth_key = (if user then given (cq_auth_key q) None else None),
          c_priv_key = (if user then given (cq_priv_key q) None else None), c_access = a\<rparr>)"

definition edited_credential :: "credential_patch \<Rightarrow> access \<Rightarrow> credential \<Rightarrow> credential" where
  \<comment> \<open>an empty secret stands for the stored one\<close>
  "edited_credential q a old =
     old\<lparr>c_id := given (cq_id q) (c_id old), c_enabled := given (cq_enabled q) (c_enabled old), c_label := given (cq_label q) (c_label old),
       c_username := given (cq_username q) (c_username old), c_security_level := given (cq_level q) (c_security_level old),
       c_auth_protocol := given (cq_auth q) (c_auth_protocol old), c_priv_protocol := given (cq_priv q) (c_priv_protocol old),
       c_community := given (unless_blank_null True (cq_community q)) (c_community old),
       c_auth_key := given (unless_blank_null True (cq_auth_key q)) (c_auth_key old),
       c_priv_key := given (unless_blank_null True (cq_priv_key q)) (c_priv_key old), c_access := a\<rparr>"

definition merge_credential ::
  "credential_patch \<Rightarrow> credential option \<Rightarrow> uid \<Rightarrow> configuration \<Rightarrow> failure + configuration \<times> nat \<times> credential" where
  "merge_credential q old fresh c =
     (let to = given (cq_protocol q) (stored_or Community_based protocol_of old)
      in bind (case old of
           None \<Rightarrow>
             bind (edited_access to q None) (\<lambda>a.
             bind (validated (required (cq_label q) None)) (\<lambda>label.
               Inr (c, drawn_for (cq_id q),
                 renewed_credential to q (given (cq_id q) fresh) label (given (cq_enabled q) True) a)))
         | Some o' \<Rightarrow>
             if to = protocol_of o' then
               bind (edited_access to q old) (\<lambda>a. Inr (c, 0, edited_credential q a o'))
             else
               bind (converted_access to q o' fresh c) (\<lambda>(c, n, a).
                 Inr (c, n, renewed_credential to q (given (cq_id q) (c_id o')) (given (cq_label q) (c_label o'))
                   (given (cq_enabled q) (c_enabled o')) a))) (\<lambda>(c, n, cr).
         bind (validated (credential_ok cr)) (\<lambda>_. Inr (c, n, cr))))"

definition add_credential :: "credential \<Rightarrow> configuration \<Rightarrow> failure + configuration" where
  "add_credential cr c =
     (let c = c\<lparr>credentials := put (c_id cr) cr (credentials c)\<rparr>
      in bind (validated (snmp_limit (credentials c))) (\<lambda>_.
         bind (validated (check_credential c cr True)) (\<lambda>_. Inr c)))"

definition known_group :: "configuration \<Rightarrow> credential \<Rightarrow> failure + unit" where
  "known_group c cr =
     (case c_access cr of
        V3 (Some g) \<Rightarrow> need (has (groups c) g) 422 ''Unknown SNMPv3 group''
      | _ \<Rightarrow> Inr ())"

definition credential_save :: "credential_patch \<Rightarrow> (nat \<Rightarrow> uid) \<Rightarrow> configuration \<Rightarrow> failure + made" where
  "credential_save q fresh c =
     bind (merge_credential q (optional_lookup (credentials c) (cq_id q)) (fresh 0) c) (\<lambda>(c, n, cr).
     bind (known_group c cr) (\<lambda>_.
     bind (add_credential cr c) (\<lambda>c.
       Inr (noted ''credential-save'' (c_id cr) (c_label cr) n c))))"

definition selects_credential :: "uid \<Rightarrow> target \<Rightarrow> bool" where
  "selects_credential ident t \<longleftrightarrow> tg_credential_id t = ident"

definition credential_delete :: "uid \<Rightarrow> configuration \<Rightarrow> failure + made" where
  "credential_delete ident c =
     bind (resource (credentials c) ident) (\<lambda>cr.
       let c = c\<lparr>credentials := drop_key ident (credentials c)\<rparr>
       in bind (validated (first_error (map (check_target c) (filter (selects_credential ident) (vals (targets c)))))) (\<lambda>_.
            Inr ((noted ''credential-delete'' ident (c_label cr) 0 c)\<lparr>mk_reply := No_reply\<rparr>)))"

subsection \<open>Targets\<close>

record credential_auth =
  \<comment> \<open>\<open>CredentialAuth\<close>: a credential without an identity, created with a target\<close>
  ka_protocol :: "protocol option"
  ka_label :: "pystr option"
  ka_username :: "pystr option"
  ka_level :: "security_level option"
  ka_auth :: "auth_protocol option"
  ka_priv :: "priv_protocol option"
  ka_community :: "pystr option option"
  ka_auth_key :: "pystr option option"
  ka_priv_key :: "pystr option option"

definition full_auth :: "credential_auth \<Rightarrow> string + credential" where
  \<comment> \<open>the model with its defaults; identity and access are those of no credential yet\<close>
  "full_auth k =
     (let user = (given (ka_protocol k) Community_based = User_based)
      in bind (required (ka_label k) None) (\<lambda>label.
           let cr = \<lparr>c_id = [], c_enabled = True, c_label = label, c_username = given (ka_username k) [],
                      c_security_level = given (ka_level k) (if user then AuthPriv else NoAuthNoPriv),
                      c_auth_protocol = given (ka_auth k) Sha256, c_priv_protocol = given (ka_priv k) Aes128,
                      c_community = given (ka_community k) None, c_auth_key = given (ka_auth_key k) None,
                      c_priv_key = given (ka_priv_key k) None,
                      c_access = (if user then V3 None else V2c default_polling default_writing)\<rparr>
           in bind (credential_ok cr) (\<lambda>_. Inr cr)))"

definition dumped_auth :: "credential \<Rightarrow> credential_patch" where
  \<comment> \<open>\<open>model_dump\<close>\<close>
  "dumped_auth cr =
     \<lparr>cq_id = None, cq_protocol = Some (protocol_of cr), cq_enabled = None, cq_label = Some (c_label cr),
      cq_username = Some (c_username cr), cq_level = Some (c_security_level cr), cq_auth = Some (c_auth_protocol cr),
      cq_priv = Some (c_priv_protocol cr), cq_community = Some (c_community cr), cq_auth_key = Some (c_auth_key cr),
      cq_priv_key = Some (c_priv_key cr), cq_polling = None, cq_writing = None, cq_group = None, cq_transfer = None\<rparr>"

record target_patch =
  hq_id :: "uid option"
  hq_address :: "ip option"
  hq_port :: "int option"
  hq_credential :: "uid option"
  hq_enabled :: "bool option"
  hq_types :: "trap_type list option"
  hq_source :: "ip option option"
  hq_new :: "credential_auth option"

definition inline_credential ::
  "credential_auth option \<Rightarrow> (nat \<Rightarrow> uid) \<Rightarrow> configuration \<Rightarrow> failure + configuration \<times> nat \<times> credential option" where
  "inline_credential k fresh c =
     (case k of
        None \<Rightarrow> Inr (c, 0, None)
      | Some k \<Rightarrow>
          bind (validated (full_auth k)) (\<lambda>auth.
          bind (merge_credential (dumped_auth auth) None (fresh 0) c) (\<lambda>(c, n, cr).
          bind (add_credential cr c) (\<lambda>c. Inr (c, n, Some cr)))))"

definition merged_target :: "target_patch \<Rightarrow> uid \<Rightarrow> uid \<Rightarrow> target option \<Rightarrow> string + target" where
  "merged_target q fresh cid old =
     bind (required (hq_address q) (map_option tg_address old)) (\<lambda>address.
       let t = \<lparr>tg_id = given (hq_id q) fresh, tg_address = address,
                 tg_port = given (hq_port q) (stored_or 162 tg_port old), tg_credential_id = cid,
                 tg_enabled = given (hq_enabled q) (stored_or True tg_enabled old),
                 tg_types = given (hq_types q) (stored_or [LinkUp, LinkDown, ColdStart] tg_types old),
                 tg_source = given (hq_source q) (stored_or None tg_source old)\<rparr>
       in bind (check (between 1 65535 (tg_port t)) ''Invalid target'') (\<lambda>_. Inr t))"

definition target_save ::
  "target_patch \<Rightarrow> (nat \<Rightarrow> uid) \<Rightarrow> (target \<Rightarrow> pystr) \<Rightarrow> configuration \<Rightarrow> failure + made" where
  "target_save q fresh label c =
     bind (need ((hq_credential q = None) \<noteq> (hq_new q = None)) 422
             ''Select an existing credential or create one, not both'') (\<lambda>_.
     bind (inline_credential (hq_new q) fresh c) (\<lambda>(c, n, created).
       let cid = (case created of Some cr \<Rightarrow> c_id cr | None \<Rightarrow> the (hq_credential q))
       in bind (validated (merged_target q (fresh n) cid (optional_lookup (targets c) (hq_id q)))) (\<lambda>t.
            let c = c\<lparr>targets := put (tg_id t) t (targets c)\<rparr>
            in bind (validated (snmp_limit (targets c))) (\<lambda>_.
               bind (validated (check_target c t)) (\<lambda>_.
                 Inr \<lparr>mk_cfg = c, mk_new = n + drawn_for (hq_id q),
                   mk_notes = (case created of None \<Rightarrow> []
                     | Some cr \<Rightarrow> mk_notes (noted ''credential-save'' (c_id cr) (c_label cr) 0 c)) @
                     mk_notes (noted ''target-save'' (tg_id t) (label t) 0 c),
                   mk_reply = Reply_target (tg_id t) cid\<rparr>)))))"

definition target_delete :: "uid \<Rightarrow> (target \<Rightarrow> pystr) \<Rightarrow> configuration \<Rightarrow> failure + made" where
  "target_delete ident label c =
     bind (resource (targets c) ident) (\<lambda>t.
       Inr ((noted ''target-delete'' ident (label t) 0 (c\<lparr>targets := drop_key ident (targets c)\<rparr>))\<lparr>mk_reply := No_reply\<rparr>))"

subsection \<open>Record commands\<close>

datatype record_edit =
    Rec_server server_patch
  | Rec_server_delete uid
  | Rec_accounting_target server_patch
  | Rec_accounting_target_delete uid
  | Rec_sender sender_patch
  | Rec_sender_delete uid
  | Rec_radius radius_patch
  | Rec_accounting accounting_patch
  | Rec_dynamic dynamic_patch
  | Rec_material material_patch
  | Rec_material_delete uid
  | Rec_template template_patch
  | Rec_template_delete uid
  | Rec_snmp snmp_patch
  | Rec_view view_patch
  | Rec_view_delete uid
  | Rec_group group_patch
  | Rec_group_delete uid
  | Rec_credential credential_patch
  | Rec_credential_delete uid
  | Rec_target target_patch
  | Rec_target_delete uid

fun record_change :: "record_edit \<Rightarrow> (nat \<Rightarrow> uid) \<Rightarrow> (target \<Rightarrow> pystr) \<Rightarrow> configuration \<Rightarrow> failure + made" where
  "record_change (Rec_server q) fresh label c = radius_server_save q fresh c"
| "record_change (Rec_server_delete i) fresh label c = radius_server_delete i c"
| "record_change (Rec_accounting_target q) fresh label c = accounting_target_save q fresh c"
| "record_change (Rec_accounting_target_delete i) fresh label c = accounting_target_delete i c"
| "record_change (Rec_sender q) fresh label c = dynamic_sender_save q fresh c"
| "record_change (Rec_sender_delete i) fresh label c = dynamic_sender_delete i c"
| "record_change (Rec_radius q) fresh label c = radius_settings_edit q c"
| "record_change (Rec_accounting q) fresh label c = accounting_settings_edit q c"
| "record_change (Rec_dynamic q) fresh label c = dynamic_settings_edit q c"
| "record_change (Rec_material q) fresh label c = radius_material_save q fresh c"
| "record_change (Rec_material_delete i) fresh label c = radius_material_delete i c"
| "record_change (Rec_template q) fresh label c = radius_template_save q fresh c"
| "record_change (Rec_template_delete i) fresh label c = radius_template_delete i c"
| "record_change (Rec_snmp q) fresh label c = snmp_settings_edit q c"
| "record_change (Rec_view q) fresh label c = view_save q fresh c"
| "record_change (Rec_view_delete i) fresh label c = view_delete i c"
| "record_change (Rec_group q) fresh label c = group_save q fresh c"
| "record_change (Rec_group_delete i) fresh label c = group_delete i c"
| "record_change (Rec_credential q) fresh label c = credential_save q fresh c"
| "record_change (Rec_credential_delete i) fresh label c = credential_delete i c"
| "record_change (Rec_target q) fresh label c = target_save q fresh label c"
| "record_change (Rec_target_delete i) fresh label c = target_delete i label c"

definition noted_event :: "runtime \<Rightarrow> string \<times> details \<Rightarrow> runtime" where
  "noted_event s n = (case n of (kind, d) \<Rightarrow> event kind d s)"

definition record_command :: "record_edit \<Rightarrow> runtime \<Rightarrow> applied" where
  "record_command e s =
     bind (record_change e (\<lambda>i. fresh_ids s (drawn s + i)) (event_resource_label s) (cfg s)) (\<lambda>m.
       Inr (foldl noted_event (s\<lparr>cfg := mk_cfg m, drawn := drawn s + mk_new m\<rparr>) (mk_notes m), untouched, mk_reply m))"

subsection \<open>The profile of a source\<close>

definition empty_supplicant_patch :: supplicant_patch where
  "empty_supplicant_patch = \<lparr>sq_method = None, sq_identity = None, sq_username = None, sq_password = None,
     sq_trust = None, sq_client = None, sq_server_name = None\<rparr>"

primrec update_first :: "('a \<Rightarrow> bool) \<Rightarrow> ('a \<Rightarrow> 'a) \<Rightarrow> 'a list \<Rightarrow> 'a list" where
  "update_first P f [] = []"
| "update_first P f (x # xs) = (if P x then f x # xs else x # update_first P f xs)"

definition base_profile ::
  "uid option \<Rightarrow> supplicant_patch option option \<Rightarrow> source \<Rightarrow> configuration \<Rightarrow> failure + supplicant_profile option" where
  \<comment> \<open>what the patch is merged into: the stored profile or a copy of a template's\<close>
  "base_profile template q src c =
     (case template of
        None \<Rightarrow> bind (need (q \<noteq> None) 422 ''Supply a profile or a template'') (\<lambda>_. Inr (supplicant src))
      | Some tid \<Rightarrow>
          bind (resource (templates (radius c)) tid) (\<lambda>t.
          bind (need (q \<noteq> Some None) 422 ''A template copy cannot also clear the profile'') (\<lambda>_.
            Inr (Some (t_profile t)))))"

definition with_profile :: "uid \<Rightarrow> supplicant_profile option \<Rightarrow> endpoint \<Rightarrow> endpoint" where
  "with_profile sid p e =
     e\<lparr>sources := update_first (\<lambda>src. src_id src = sid) (\<lambda>src. src\<lparr>supplicant := p\<rparr>) (sources e),
       e_revision := e_revision e + 1\<rparr>"

definition supplicant_save ::
  "uid \<Rightarrow> uid \<Rightarrow> uid option \<Rightarrow> supplicant_patch option option \<Rightarrow> bool \<Rightarrow> runtime \<Rightarrow> applied" where
  "supplicant_save eid sid template q restart s =
     bind (nominated eid sid s) (\<lambda>(e, src).
     bind (base_profile template q src (cfg s)) (\<lambda>base.
     bind (merge_supplicant base (given q (Some empty_supplicant_patch))) (\<lambda>p.
     bind (validated (check_profile (cfg s) p)) (\<lambda>_.
       let c = (cfg s)\<lparr>endpoints := put eid (with_profile sid p e) (endpoints (cfg s))\<rparr>;
           s = event ''source-supplicant-save'' [(''endpoint_id'', JText (e_id e)), (''source_id'', JText sid)] (s\<lparr>cfg := c\<rparr>)
       in bind (case map_of (attachments (cfg s)) (e_id e) of
                  None \<Rightarrow> Inr s
                | Some pid \<Rightarrow> if restart then serve_source True (pid, src_mac src) s else Inr s) (\<lambda>s.
            Inr (s, untouched, Reply_id sid))))))"

end
