(* ===== verification/Engine_Policy.thy ===== *)
theory Engine_Policy
  imports Records_Snmp
begin

text \<open>
  The remaining commands of \<open>Engine._apply\<close> (\<open>switchlab/engine.py\<close>) that change the configuration: the
  switch, the clock's pause, the startup policy, a reboot to it, and a planned SNMP SET with its 802.1X
  actions; and the commands as one type.
\<close>

subsection \<open>The switch\<close>

record switch_patch =
  sx_name :: "pystr option"
  sx_description :: "pystr option"
  sx_contact :: "pystr option"
  sx_location :: "pystr option"
  sx_identity :: "Configuration.identity option"
  sx_base_mac :: "pystr option"
  sx_legacy_vlan :: "int option"
  sx_aging_seconds :: "int option"
  sx_fdb_limit :: "int option"
  sx_endpoint_limit :: "int option"
  sx_source_limit :: "int option"
  sx_queue_limit :: "int option"

definition patched_switch :: "switch_patch \<Rightarrow> Configuration.switch \<Rightarrow> string + Configuration.switch" where
  \<comment> \<open>the validator of \<open>base_mac\<close> stores the normal form\<close>
  "patched_switch q w =
     (case mac (given (sx_base_mac q) (base_mac w)) of
        Inl _ \<Rightarrow> Inl ''Invalid MAC address''
      | Inr m \<Rightarrow>
          let w = w\<lparr>sw_name := given (sx_name q) (sw_name w),
                sw_description := given (sx_description q) (sw_description w),
                sw_contact := given (sx_contact q) (sw_contact w),
                sw_location := given (sx_location q) (sw_location w),
                sw_identity := given (sx_identity q) (sw_identity w), base_mac := m,
                legacy_vlan := given (sx_legacy_vlan q) (legacy_vlan w),
                aging_seconds := given (sx_aging_seconds q) (aging_seconds w),
                fdb_limit := given (sx_fdb_limit q) (fdb_limit w),
                endpoint_limit := given (sx_endpoint_limit q) (endpoint_limit w),
                source_limit := given (sx_source_limit q) (source_limit w),
                queue_limit := given (sx_queue_limit q) (queue_limit w)\<rparr>
          in if valid_switch w then Inr w else Inl ''Invalid switch'')"

definition rows_aged :: "int \<Rightarrow> runtime \<Rightarrow> runtime" where
  \<comment> \<open>the learned addresses take a new aging time, and those now too old go\<close>
  "rows_aged seconds s =
     expire (s\<lparr>fdb := map (\<lambda>(k, row). (k, row\<lparr>expires_at_ms := last_seen_ms row + seconds * 1000\<rparr>)) (fdb s)\<rparr>)"

definition switch_edit :: "switch_patch \<Rightarrow> runtime \<Rightarrow> applied" where
  "switch_edit q s =
     bind (validated (patched_switch q (cfg_switch (cfg s)))) (\<lambda>w.
       let c = (cfg s)\<lparr>cfg_switch := w\<rparr>
       in bind (if sx_legacy_vlan q = None then Inr ()
                else validated (check (has (vlans c) (legacy_vlan w)) ''VLAN 1 and the legacy VLAN must exist'')) (\<lambda>_.
          bind (if sx_endpoint_limit q = None then Inr () else endpoint_capacity c) (\<lambda>_.
          bind (if sx_source_limit q = None then Inr () else source_capacity c) (\<lambda>_.
            let aged = aging_seconds w \<noteq> aging_seconds (cfg_switch (cfg s)); s = s\<lparr>cfg := c\<rparr>
            in quiet (if aged then rows_aged (aging_seconds w) s else s)))))"

subsection \<open>The clock and the startup policy\<close>

definition pause_clock :: "bool \<Rightarrow> runtime \<Rightarrow> applied" where
  "pause_clock stop s =
     bind (need (stop \<or> \<not> advance_waits s) 409
             ''An advance owns the timeline; complete or cancel it before resuming'') (\<lambda>_.
       quiet (event (if stop then ''pause'' else ''resume'') [] (s\<lparr>cfg := (cfg s)\<lparr>paused := stop\<rparr>\<rparr>)))"

definition save_startup :: "runtime \<Rightarrow> applied" where
  "save_startup s = quiet (event ''configuration-saved'' [] s)"

definition end_sessions :: "string \<Rightarrow> runtime \<Rightarrow> runtime" where
  "end_sessions reason s = foldl (\<lambda>s key. end_session key reason None None s) s (keys (radius_sessions s))"

definition reboot :: "uid list \<Rightarrow> runtime \<Rightarrow> applied" where
  \<comment> \<open>the last accounting records carry the old policy; the reset starts from the startup policy;
      \<open>refused\<close> names the certificates that \<open>cryptography\<close> does not accept\<close>
  "reboot refused s =
     bind (validated (compose_configuration (\<lambda>m. m_id m \<notin> set refused) (fst (split_configuration (cfg s))) (startup_policy s))) (\<lambda>c.
       let s = queue_accounting 8 None None (Some ''management-reboot'') False None (end_sessions ''management-reboot'' s)
       in bind (endpoint_capacity c) (\<lambda>_.
          bind (source_capacity c) (\<lambda>_.
            quiet (event ''boot'' [] (reset_operational True False (s\<lparr>cfg := c\<rparr>))))))"

subsection \<open>A planned SET\<close>

definition initialize_port :: "uid \<Rightarrow> runtime \<Rightarrow> runtime" where
  "initialize_port pid s =
     (let s = retire_port pid (end_port_sessions pid ''port-initialized'' 21 s);
          s = s\<lparr>radius_status := filter (\<lambda>(k, _). \<not> on_port_key pid k) (radius_status s)\<rparr>
      in set_port_state pid (Some 1) (Some 7) s)"

fun renew_each :: "subject list \<Rightarrow> runtime \<Rightarrow> failure + runtime" where
  "renew_each [] s = Inr s"
| "renew_each (key # rest) s =
     bind (checked_begin (request_renewal key False (retire_authentication key s))) (\<lambda>(s, _). renew_each rest s)"

definition port_addresses :: "runtime \<Rightarrow> uid \<Rightarrow> pystr list" where
  "port_addresses s pid = sort (remdups (concat (map (\<lambda>eid. map src_mac (endpoint_sources s eid)) (attached s pid))))"

definition start_address :: "uid \<Rightarrow> runtime \<Rightarrow> pystr \<Rightarrow> runtime" where
  "start_address pid s address =
     (if session_of s pid address \<noteq> None then s
      else case begin_authentication (pid, address) False False False s of
        Inr (s, _) \<Rightarrow> s
      | Inl _ \<Rightarrow> put_status (pid, address) (no_status\<lparr>ss_status := ''blocked'',
          ss_reason := Some ''local-configuration-error''\<rparr>) s)"

definition start_addresses :: "uid \<Rightarrow> runtime \<Rightarrow> runtime" where
  "start_addresses pid s =
     (if pa_control (authentication (the_port s pid)) = Auto \<and> up s pid
      then foldl (start_address pid) s (port_addresses s pid) else s)"

definition settle_pae :: "uid \<Rightarrow> pae_action \<Rightarrow> runtime \<Rightarrow> runtime" where
  \<comment> \<open>the state the port shows after the action\<close>
  "settle_pae pid action s =
     (let control = pa_control (authentication (the_port s pid));
          s = (if action = Initialize \<and> control = Auto \<and> \<not> list_ex (on_port_key pid) (keys (radius_attempts s))
               then set_port_state pid (Some (if up s pid then 3 else 2)) (Some 6) s else s)
      in if control \<noteq> Auto
         then set_port_state pid (Some (if control = Force_authorized then 8 else 9)) (Some 6) s else s)"

definition pae_step :: "runtime \<Rightarrow> uid \<times> pae_action \<Rightarrow> failure + runtime" where
  "pae_step s row = (case row of (pid, action) \<Rightarrow>
     bind (if action = Initialize then Inr (initialize_port pid s)
           else if pa_control (authentication (the_port s pid)) = Auto
           then renew_each (filter (on_port_key pid) (keys (radius_sessions s))) s else Inr s) (\<lambda>s.
       Inr (event (if action = Initialize then ''pae-initialize'' else ''pae-reauthenticate'')
         [(''port_id'', JText pid)] (settle_pae pid action (start_addresses pid s)))))"

fun pae_steps :: "(uid \<times> pae_action) list \<Rightarrow> runtime \<Rightarrow> failure + runtime" where
  "pae_steps [] s = Inr s"
| "pae_steps (row # rest) s = bind (pae_step s row) (pae_steps rest)"

definition snmp_set :: "set_plan \<Rightarrow> runtime \<Rightarrow> applied" where
  "snmp_set plan s =
     (let c = pl_candidate plan;
          s = s\<lparr>cfg := c, vlan_deletes := vlan_deletes s + int (length (pl_deletes plan))\<rparr>;
          s = event ''snmp-set'' [(''assignments'', JInt (int (length (pl_assignments plan))))] s
      in bind (pae_steps (pl_actions plan) s) (\<lambda>s.
           Inr (s, \<lparr>tc_endpoints = tagged_endpoints c (pl_creates plan @ pl_deletes plan),
                    tc_ports = pl_affected plan\<rparr>, No_reply)))"

subsection \<open>Configuration commands\<close>

datatype edit =
    Ed_endpoint_create endpoint
  | Ed_endpoint_edit uid endpoint_patch
  | Ed_endpoint_delete uid
  | Ed_endpoint_clone uid "pystr option" bool
  | Ed_attach uid uid
  | Ed_detach uid
  | Ed_port_create port_fields
  | Ed_port_edit uid port_patch
  | Ed_port_delete uid
  | Ed_vlan_create int "pystr option" "int option"
  | Ed_vlan_edit int pystr
  | Ed_vlan_delete int
  | Ed_switch switch_patch
  | Ed_pause bool
  | Ed_save
  | Ed_reboot "uid list"
  | Ed_set set_plan
  | Ed_record record_edit
  | Ed_supplicant uid uid "uid option" "supplicant_patch option option" bool

fun edit_with :: "edit \<Rightarrow> runtime \<Rightarrow> applied" where
  "edit_with (Ed_endpoint_create e) s = endpoint_create e s"
| "edit_with (Ed_endpoint_edit eid p) s = endpoint_edit eid p s"
| "edit_with (Ed_endpoint_delete eid) s = endpoint_delete eid s"
| "edit_with (Ed_endpoint_clone eid name preserve) s = endpoint_clone eid name preserve s"
| "edit_with (Ed_attach eid pid) s = attach eid pid s"
| "edit_with (Ed_detach eid) s = detach eid s"
| "edit_with (Ed_port_create f) s = port_create f s"
| "edit_with (Ed_port_edit pid q) s = port_edit pid q s"
| "edit_with (Ed_port_delete pid) s = port_delete pid s"
| "edit_with (Ed_vlan_create v name fid) s = vlan_create v name fid s"
| "edit_with (Ed_vlan_edit v name) s = vlan_edit v name s"
| "edit_with (Ed_vlan_delete v) s = vlan_delete v s"
| "edit_with (Ed_switch q) s = switch_edit q s"
| "edit_with (Ed_pause stop) s = pause_clock stop s"
| "edit_with Ed_save s = save_startup s"
| "edit_with (Ed_reboot refused) s = reboot refused s"
| "edit_with (Ed_set plan) s = snmp_set plan s"
| "edit_with (Ed_record e) s = record_command e s"
| "edit_with (Ed_supplicant eid sid template q restart) s = supplicant_save eid sid template q restart s"

fun edit_effect :: "edit \<Rightarrow> effect" where
  "edit_effect (Ed_reboot _) = \<lparr>ef_history = False, ef_links = False, ef_durable = True, ef_reboot = True\<rparr>"
| "edit_effect (Ed_set _) = \<lparr>ef_history = True, ef_links = True, ef_durable = True, ef_reboot = False\<rparr>"
| "edit_effect (Ed_port_edit _ _) = \<lparr>ef_history = True, ef_links = True, ef_durable = True, ef_reboot = False\<rparr>"
| "edit_effect (Ed_switch _) = \<lparr>ef_history = True, ef_links = True, ef_durable = True, ef_reboot = False\<rparr>"
| "edit_effect (Ed_vlan_create _ _ _) = \<lparr>ef_history = True, ef_links = True, ef_durable = True, ef_reboot = False\<rparr>"
| "edit_effect (Ed_vlan_edit _ _) = \<lparr>ef_history = True, ef_links = True, ef_durable = True, ef_reboot = False\<rparr>"
| "edit_effect (Ed_vlan_delete _) = \<lparr>ef_history = True, ef_links = True, ef_durable = True, ef_reboot = False\<rparr>"
| "edit_effect _ = \<lparr>ef_history = False, ef_links = True, ef_durable = True, ef_reboot = False\<rparr>"

fun edit_saving :: "edit \<Rightarrow> saving" where
  "edit_saving Ed_save = Save_startup_policy"
| "edit_saving (Ed_port_create _) = Save_inventory"
| "edit_saving (Ed_port_delete _) = Save_inventory"
| "edit_saving _ = Save_nothing"

end
