(* ===== verification/Engine.thy ===== *)
theory Engine
  imports Engine_Policy
begin

text \<open>
  \<open>Engine.execute\<close> of \<open>switchlab/engine.py\<close>: one command against the published state, with the
  idempotency table, the two optimistic revision checks, and publication only after the store has
  committed. The SHA-256 of a request stands for the request itself. The fate of the store's commit is
  an argument (theory Storage models it); a commit that fails leaves the published state as it was, and
  after one whose outcome is unknown the engine refuses every command. The metadata of dynamic
  authorization receipts that the commit also stores is not modelled.
\<close>

datatype request = Operate operation | Edit edit

record result =
  rs_reply :: reply
  rs_revision :: int
  rs_configuration_revision :: int
  rs_simulation_ms :: int

record memo =
  me_request :: request
  me_result :: result
  me_incarnation :: "uid option"

record engine =
  en_state :: runtime
  en_memory :: "(pystr, memo) dict"
  en_fault :: "string option" \<comment> \<open>the store's fault\<close>

datatype fate = Saved | Undone | Lost string
  \<comment> \<open>a commit: done, rolled back, or unknown\<close>

datatype problem = Failed failure | Not_saved | Storage_fault string

definition published :: "reply \<Rightarrow> runtime \<Rightarrow> result" where
  "published r s = \<lparr>rs_reply = r, rs_revision = revision s,
     rs_configuration_revision = configuration_revision s, rs_simulation_ms = sim_ms s\<rparr>"

definition known_record :: "runtime \<Rightarrow> uid \<Rightarrow> bool" where
  "known_record s ident \<longleftrightarrow> list_ex (\<lambda>r. ar_id r = ident) (accounting_outbox s)"

fun idle_request :: "runtime \<Rightarrow> request \<Rightarrow> reply option" where
  \<comment> \<open>requests answered without a transaction\<close>
  "idle_request s (Operate (Op_accounting_event ident _ _)) =
     (if known_record s ident then None else Some (Reply_flag False))"
| "idle_request s (Operate (Op_accounting_result ident _ _)) =
     (if known_record s ident then None else Some (Reply_flag False))"
| "idle_request s (Operate (Op_result key r)) =
     (if current_attempt s key (oc_attempt r) = None then Some (Reply_answer Stale) else None)"
| "idle_request s (Operate (Op_pae key ident _)) =
     (if current_attempt s key ident = None then Some (Reply_answer Stale) else None)"
| "idle_request s (Operate (Op_advance _ automatic)) =
     (if automatic \<and> (radius_attempts s \<noteq> [] \<or> advance_waits s)
      then Some (case advance_op s of None \<Rightarrow> No_reply | Some op \<Rightarrow> Reply_advance op) else None)"
| "idle_request s _ = None"

fun request_effect :: "request \<Rightarrow> effect" where
  "request_effect (Operate op) = operation_effect op"
| "request_effect (Edit e) = edit_effect e"

fun request_saving :: "request \<Rightarrow> saving" where
  "request_saving (Operate _) = Save_nothing"
| "request_saving (Edit e) = edit_saving e"

fun perform :: "nat \<Rightarrow> request \<Rightarrow> runtime \<Rightarrow> applied option" where
  \<comment> \<open>a SET is planned on the configuration it changes\<close>
  "perform fuel (Operate op) s = operate fuel op s"
| "perform fuel (Edit e) s = Some (case e of
     Ed_set plan \<Rightarrow> if pl_before plan = cfg s then edit_with e s else refuse 500 ''Stale SET plan''
   | _ \<Rightarrow> edit_with e s)"

definition stale_revision :: "int option \<Rightarrow> int option \<Rightarrow> runtime \<Rightarrow> string option" where
  "stale_revision expected expected_config s =
     (if expected \<noteq> None \<and> expected \<noteq> Some (revision s)
      then Some ''Stale state revision; reload and retry''
      else if expected_config \<noteq> None \<and> expected_config \<noteq> Some (configuration_revision s)
      then Some ''Configuration changed while editing; reload and retry'' else None)"

definition rejected :: "int \<Rightarrow> string \<Rightarrow> problem + 'a" where
  "rejected code message = Inl (Failed (Refused (Command_error code message)))"

definition replay :: "request \<Rightarrow> memo \<Rightarrow> runtime \<Rightarrow> problem + result" where
  "replay q m s =
     (if me_request m \<noteq> q then rejected 409 ''Idempotency key was used for another command''
      else if given (me_incarnation m) (incarnation s) \<noteq> incarnation s
      then rejected 409 ''Command belongs to an earlier running configuration; use a new idempotency key''
      else Inr (me_result m))"

definition follow_advance :: "runtime \<Rightarrow> memo \<Rightarrow> memo" where
  \<comment> \<open>remembered results show where their advance has got to\<close>
  "follow_advance s m =
     (case (advance_op s, rs_reply (me_result m)) of
        (Some op, Reply_advance prior) \<Rightarrow>
          if ad_id prior = ad_id op
          then m\<lparr>me_result := (me_result m)\<lparr>rs_reply := Reply_advance op, rs_simulation_ms := ad_reached_ms op\<rparr>\<rparr>
          else m
      | _ \<Rightarrow> m)"

fun bound_to_running :: "request \<Rightarrow> bool" where
  "bound_to_running (Edit Ed_save) = False"
| "bound_to_running (Edit (Ed_reboot _)) = False"
| "bound_to_running (Edit (Ed_port_create _)) = False"
| "bound_to_running (Edit (Ed_port_delete _)) = False"
| "bound_to_running _ = True"

definition remember ::
  "pystr option \<Rightarrow> request \<Rightarrow> result \<Rightarrow> runtime \<Rightarrow> runtime \<Rightarrow> (pystr, memo) dict \<Rightarrow> (pystr, memo) dict" where
  "remember key q r old s d =
     (let d = map (\<lambda>(k, m). (k, follow_advance s m)) d
      in case key of None \<Rightarrow> d
         | Some k \<Rightarrow> keep_last 256 (put k \<lparr>me_request = q, me_result = r,
             me_incarnation = (if bound_to_running q \<and>
               snd (split_configuration (cfg old)) \<noteq> snd (split_configuration (cfg s))
               then Some (incarnation s) else None)\<rparr> d))"

definition transact ::
  "nat \<Rightarrow> (uid \<Rightarrow> bytes option) \<Rightarrow> request \<Rightarrow> runtime \<Rightarrow> (failure + runtime \<times> reply) option" where
  \<comment> \<open>the candidate a request makes of the published state\<close>
  "transact fuel uuid q s =
     map_option (\<lambda>r. bind r (\<lambda>(t, tc, reply).
         Inr (count_revision (ef_durable (request_effect q)) (request_saving q)
                (settle uuid (request_effect q) tc s t), reply)))
       (perform fuel q s)"

record call =
  \<comment> \<open>the arguments of \<open>execute\<close>\<close>
  ca_request :: request
  ca_expected :: "int option"
  ca_key :: "pystr option"
  ca_expected_config :: "int option"

definition call_key :: "call \<Rightarrow> pystr option" where
  \<comment> \<open>an empty key is none\<close>
  "call_key c = (if truthy (ca_key c) then ca_key c else None)"

definition publish ::
  "(runtime \<Rightarrow> fate) \<Rightarrow> call \<Rightarrow> engine \<Rightarrow> runtime \<Rightarrow> reply \<Rightarrow> (problem + result) \<times> engine" where
  \<comment> \<open>the candidate takes the place of the published state once the store has it\<close>
  "publish stored c en t reply =
     (case stored t of
        Saved \<Rightarrow> (Inr (published reply t),
          en\<lparr>en_state := t, en_memory := remember (call_key c) (ca_request c) (published reply t)
             (en_state en) t (en_memory en)\<rparr>)
      | Undone \<Rightarrow> (Inl Not_saved, en)
      | Lost reason \<Rightarrow> (Inl (Storage_fault reason), en\<lparr>en_fault := Some reason\<rparr>))"

definition fresh_transaction ::
  "nat \<Rightarrow> (uid \<Rightarrow> bytes option) \<Rightarrow> (runtime \<Rightarrow> fate) \<Rightarrow> call \<Rightarrow> engine \<Rightarrow> ((problem + result) \<times> engine) option" where
  "fresh_transaction fuel uuid stored c en =
     (case stale_revision (ca_expected c) (ca_expected_config c) (en_state en) of
        Some message \<Rightarrow> Some (rejected 409 message, en)
      | None \<Rightarrow>
          map_option (\<lambda>r. case r of
              Inl e \<Rightarrow> (Inl (Failed e), en)
            | Inr (t, reply) \<Rightarrow> publish stored c en t reply)
            (transact fuel uuid (ca_request c) (en_state en)))"

definition execute ::
  "nat \<Rightarrow> (uid \<Rightarrow> bytes option) \<Rightarrow> (runtime \<Rightarrow> fate) \<Rightarrow> call \<Rightarrow> engine \<Rightarrow> ((problem + result) \<times> engine) option" where
  "execute fuel uuid stored c en =
     (case en_fault en of
        Some reason \<Rightarrow> Some (Inl (Storage_fault reason), en)
      | None \<Rightarrow>
          (case idle_request (en_state en) (ca_request c) of
             Some reply \<Rightarrow> Some (Inr (published reply (en_state en)), en)
           | None \<Rightarrow>
               (case optional_lookup (en_memory en) (call_key c) of
                  Some m \<Rightarrow> Some (replay (ca_request c) m (en_state en), en)
                | None \<Rightarrow> fresh_transaction fuel uuid stored c en)))"

subsection \<open>Start of the process\<close>

record saved_state =
  \<comment> \<open>what the store holds of an earlier process\<close>
  sv_revision :: int
  sv_configuration_revision :: int
  sv_startup_revision :: int
  sv_events :: "event_record list"
  sv_outbox :: "outbox_item list"
  sv_accounting :: "accounting_record list"
  sv_accounting_sequence :: int
  sv_accounting_drops :: "(string, int) dict"
  sv_queue_octets :: nat \<comment> \<open>of the JSON text of the accounting queue\<close>
  sv_memory :: "(pystr, memo) dict"

definition drop_foreign :: "runtime \<Rightarrow> accounting_record \<Rightarrow> runtime" where
  \<comment> \<open>a record queued under another accounting policy is not delivered\<close>
  "drop_foreign s r =
     (if accounting_policy_matches s r then s
      else accounting_drop ''configuration-change'' [(''record_id'', JText (ar_id r))]
             (s\<lparr>accounting_outbox := remove1 r (accounting_outbox s)\<rparr>))"

definition restored_runtime :: "environment \<Rightarrow> configuration \<Rightarrow> saved_state \<Rightarrow> runtime" where
  "restored_runtime env c sv =
     (new_runtime env c)\<lparr>revision := sv_revision sv,
       configuration_revision := sv_configuration_revision sv + 1, startup_revision := sv_startup_revision sv,
       events := sv_events sv, event_id := fold max (map ev_id (sv_events sv)) 0, outbox := sv_outbox sv,
       accounting_outbox := sv_accounting sv, accounting_sequence := sv_accounting_sequence sv,
       accounting_drops := sv_accounting_drops sv\<rparr>"

definition interrupt_memo :: "memo \<Rightarrow> memo" where
  "interrupt_memo m =
     (case rs_reply (me_result m) of
        Reply_advance op \<Rightarrow>
          if ad_status op = ''waiting''
          then m\<lparr>me_result := (me_result m)\<lparr>rs_reply := Reply_advance (close_advance ''interrupted-on-boot'' op)\<rparr>\<rparr>
          else m
      | _ \<Rightarrow> m)"

definition boot :: "environment \<Rightarrow> configuration \<Rightarrow> saved_state \<Rightarrow> failure + engine" where
  "boot env c sv =
     bind (endpoint_capacity c) (\<lambda>_. bind (source_capacity c) (\<lambda>_.
       if 1024 < length (sv_accounting sv) \<or> 8 * 1024 * 1024 < sv_queue_octets sv
       then refuse 500 ''Invalid saved accounting queue''
       else
         let s = restored_runtime env c sv;
             s = foldl drop_foreign s (accounting_outbox s);
             s = event ''boot'' [] (reset_operational True False s);
             s = queue_accounting 7 None None None False None s
         in Inr \<lparr>en_state = s\<lparr>revision := revision s + 1\<rparr>,
                 en_memory = map (\<lambda>(k, m). (k, interrupt_memo m)) (sv_memory sv), en_fault = None\<rparr>))"

end
