(* ===== verification/Engine_Invariant.thy ===== *)
theory Engine_Invariant
  imports Engine
begin

text \<open>
  The invariants across whole commands: \<open>operate\<close> and the commit keep every property of the interface
  \<open>runtime_invariant\<close>; configuration commands keep those of its extension \<open>configured_invariant\<close>, and who
  is on a port stays within the host mode of that port because the commit reconciles attempts and
  sessions with the new configuration.
\<close>

subsection \<open>Operational commands\<close>

lemma quiet_Inr: "quiet s = Inr (t, tc, r) \<longleftrightarrow> t = s \<and> tc = untouched \<and> r = No_reply"
  by (auto simp: quiet_def)

lemma refuse_Inr [simp]: "refuse code message \<noteq> Inr x"
  by (simp add: refuse_def)

lemma run_clock_Inr: "run_clock fuel duration s = Some (Inr x) \<longleftrightarrow> advance fuel duration s = Some (Inr x)"
  by (cases "advance fuel duration s") (auto simp: run_clock_def split: sum.splits)

lemma subjects_attempt:
  "subjects_ok s \<Longrightarrow> has (radius_attempts s) key \<Longrightarrow> lone_subject s key \<and> has (ports (cfg s)) (fst key)"
  using subjects_lone [of s key] attempt_present [of s key] by (auto simp: has_def)

context runtime_invariant
begin

lemma I_advance_command:
  assumes "I s" and "advance_command fuel duration automatic s = Some (Inr (t, tc, r))"
  shows "I t"
  using assms I_advance_clock [OF assms(1), of fuel duration]
  by (auto simp: advance_command_def bind_Inr_iff quiet_Inr run_clock_Inr suspend_advance_def draw_def Let_def
      intro!: I_advance I_drawn split: if_splits)

lemma I_stop_advance: "I s \<Longrightarrow> stop_advance ident failed s = Inr (t, tc, r) \<Longrightarrow> I t"
  by (auto simp: stop_advance_def bind_Inr_iff Let_def I_advance)

lemma I_continue_advance:
  assumes "I s" and "continue_advance fuel ident captured s = Some (Inr (t, tc, r))"
  shows "I t"
  using assms I_advance_clock [OF assms(1), of fuel]
  by (auto simp: continue_advance_def bind_Inr_iff run_clock_Inr Let_def
      intro!: I_advance split: if_splits sum.splits)

lemma I_cold_start: "I s \<Longrightarrow> cold_start s = Inr (t, tc, r) \<Longrightarrow> I t"
  by (auto simp: cold_start_def quiet_Inr I_notification)

lemma I_test_notification:
  assumes s: "I s" and result: "test_notification ident s = Inr (t, tc, r)"
  shows "I t"
proof -
  obtain kind d e x where t: "t = event kind d ((event ''coldStart'' x s)\<lparr>outbox := outbox (event ''coldStart'' x s) @ [e]\<rparr>)"
    and room: "int (length (outbox (event ''coldStart'' x s))) < queue_limit (cfg_switch (cfg (event ''coldStart'' x s)))"
    using result by (auto simp: test_notification_def Let_def quiet_Inr split: if_splits option.splits)
  show ?thesis unfolding t by (intro I_event I_notify room s)
qed

lemma I_clear_command: "I s \<Longrightarrow> clear_command pid v s = Inr (t, tc, r) \<Longrightarrow> I t"
  by (auto simp: clear_command_def bind_Inr_iff intro: I_clear_learned)

lemma I_serve_source:
  assumes s: "I s" and result: "serve_source restart key s = Inr t"
  shows "I t"
proof -
  define owner where "owner = (case session_of s (fst key) (snd key) of None \<Rightarrow> key | Some se \<Rightarrow> (fst key, se_mac se))"
  have u: "I (retire_authentication owner s)" by (rule I_retire_authentication [OF s])
  then have ended: "I (drop_status owner (end_session owner ''manual-restart'' None None (retire_authentication owner s)))"
    by (intro I_drop_status I_end_session)
  show ?thesis
    using result unfolding serve_source_def Let_def owner_def [symmetric]
    by (auto simp: bind_Inr_iff checked_begin_Inr intro!: I_event intro: I_begin_if_subject [OF ended]
        I_begin_if_subject [OF u] I_request_renewal [OF u] split: if_splits)
qed

lemma I_source_authentication: "I s \<Longrightarrow> source_authentication eid sid restart s = Inr (t, tc, r) \<Longrightarrow> I t"
  by (auto simp: source_authentication_def bind_Inr_iff split: option.splits elim: I_serve_source)

lemma I_operate:
  assumes s: "I s" and who: "subjects_ok s" and result: "operate fuel op s = Some (Inr (t, tc, r))"
  shows "I t"
proof (cases op)
  case (Op_advance duration automatic)
  then show ?thesis using result I_advance_command [OF s] by simp
next
  case (Op_continue ident captured)
  then show ?thesis using result I_continue_advance [OF s] by simp
next
  case (Op_stop ident failed)
  then show ?thesis using result I_stop_advance [OF s] by simp
next
  case (Op_job j)
  then show ?thesis using result I_observe [OF s, of j] by (simp add: Let_def case_prod_unfold)
next
  case (Op_begin key)
  then show ?thesis using result by (auto simp: bind_Inr_iff checked_begin_Inr intro: I_begin_authentication [OF s])
next
  case (Op_pae key ident frames)
  then show ?thesis using result I_pae_observe [OF s, of key ident frames] by (simp add: Let_def case_prod_unfold)
next
  case (Op_result key o')
  then show ?thesis
    using result subjects_attempt [OF who, of key] by (auto simp: bind_Inr_iff intro: I_radius_result [OF s])
next
  case (Op_dynamic plan)
  then show ?thesis using result by (auto simp: bind_Inr_iff quiet_Inr intro: I_radius_dynamic [OF s])
next
  case (Op_session ident restart)
  then show ?thesis using result by (auto simp: bind_Inr_iff intro: I_session_action [OF s])
next
  case (Op_source eid sid restart)
  then show ?thesis using result I_source_authentication [OF s] by simp
next
  case (Op_accounting_event ident phase d)
  then show ?thesis using result I_accounting_event [OF s, of ident phase d] by (simp add: Let_def case_prod_unfold)
next
  case (Op_accounting_result ident dropped d)
  then show ?thesis using result I_accounting_result [OF s, of ident dropped d] by (simp add: Let_def case_prod_unfold)
next
  case (Op_clear pid v)
  then show ?thesis using result I_clear_command [OF s] by simp
next
  case (Op_test_notification ident)
  then show ?thesis using result I_test_notification [OF s] by simp
next
  case Op_cold_start
  then show ?thesis using result I_cold_start [OF s] by simp
qed (use result s in \<open>simp_all add: quiet_Inr I_radius_discover I_radius_shutdown I_accounting_prune I_notification_result\<close>)

lemma I_commit:
  "I t \<Longrightarrow> I (count_revision durable saving (settle uuid e tc old t))"
  by (intro I_count_revision I_settle)

lemma I_transact_operation:
  assumes "I s" and "subjects_ok s" and "transact fuel uuid (Operate op) s = Some (Inr (t, r))"
  shows "I t"
  using assms(3) by (auto simp: transact_def bind_Inr_iff intro: I_commit [OF I_operate [OF assms(1,2)]])

end

subsection \<open>The actions of a SET\<close>

context runtime_invariant
begin

lemma I_end_port_sessions: "I s \<Longrightarrow> I (end_port_sessions pid reason cause s)"
  unfolding end_port_sessions_def by (rule I_foldl) (rule I_end_session)

lemma I_retire_port: "I s \<Longrightarrow> I (retire_port pid s)"
  unfolding retire_port_def by (rule I_foldl) (rule I_retire_authentication)

lemma I_initialize_port: "I s \<Longrightarrow> I (initialize_port pid s)"
  unfolding initialize_port_def Let_def by (intro I_set_port_state I_status I_retire_port I_end_port_sessions)

lemma I_renew_each: "I s \<Longrightarrow> renew_each ks s = Inr t \<Longrightarrow> I t"
proof (induction ks arbitrary: s)
  case (Cons key ks)
  from Cons.prems(2) obtain u b where "request_renewal key False (retire_authentication key s) = Inr (u, b)"
      "renew_each ks u = Inr t"
    by (auto simp: bind_Inr_iff checked_begin_Inr)
  then show ?case using Cons.IH I_request_renewal [OF I_retire_authentication [OF Cons.prems(1)]] by blast
qed simp

lemma I_start_addresses: "I s \<Longrightarrow> I (start_addresses pid s)"
  unfolding start_addresses_def
  by (auto simp: start_address_def intro!: I_foldl I_put_status split: sum.split elim!: I_begin_authentication [rotated])

lemma I_settle_pae: "I s \<Longrightarrow> I (settle_pae pid action s)"
  by (auto simp: settle_pae_def Let_def I_set_port_state)

lemma I_pae_steps: "I s \<Longrightarrow> pae_steps rows s = Inr t \<Longrightarrow> I t"
proof (induction rows arbitrary: s)
  case (Cons row rows)
  obtain pid action where row: "row = (pid, action)" by (cases row)
  from Cons.prems(2) obtain u where u: "pae_step s row = Inr u" "pae_steps rows u = Inr t"
    by (auto simp: bind_Inr_iff)
  have "I v" if "(if action = Initialize then Inr (initialize_port pid s)
      else if pa_control (authentication (the_port s pid)) = Auto
      then renew_each (filter (on_port_key pid) (keys (radius_sessions s))) s else Inr s) = (Inr v :: failure + runtime)" for v
    using that Cons.prems(1) I_initialize_port I_renew_each by (auto split: if_splits)
  then have "I u"
    using u(1) by (auto simp: pae_step_def row bind_Inr_iff intro!: I_event I_settle_pae I_start_addresses split: prod.splits)
  then show ?case using Cons.IH u(2) by blast
qed simp

lemma I_end_sessions: "I s \<Longrightarrow> I (end_sessions reason s)"
  unfolding end_sessions_def by (rule I_foldl) (rule I_end_session)

lemma I_interrupt: "I s \<Longrightarrow> I (interrupt_advance again s)"
  by (simp add: interrupt_advance_def I_advance split: option.split)

lemma I_draw_each: "I s \<Longrightarrow> I (snd (draw_each ks s))"
  by (induction ks arbitrary: s) (simp_all add: Let_def case_prod_unfold draw_def I_drawn)

end

subsection \<open>Configuration commands\<close>

locale configured_invariant = runtime_invariant +
  assumes I_cfg: "I s \<Longrightarrow> I (s\<lparr>cfg := conf\<rparr>)"
    and I_fdb: "I s \<Longrightarrow> I (s\<lparr>fdb := table\<rparr>)"
    and I_deletes: "I s \<Longrightarrow> I (s\<lparr>vlan_deletes := deletions\<rparr>)"
    and I_budget: "I s \<Longrightarrow> I (s\<lparr>renewal_budget := budget\<rparr>)"
    and I_epochs: "I s \<Longrightarrow> I (s\<lparr>epoch := ep, incarnation := inc\<rparr>)"
    and I_cleared: "I s \<Longrightarrow> I (s\<lparr>radius_sessions := []\<rparr>)"
begin

lemma I_endpoint_create: "I s \<Longrightarrow> endpoint_create e s = Inr (t, tc, r) \<Longrightarrow> I t"
  by (auto simp: endpoint_create_def bind_Inr_iff Let_def intro!: I_event I_cfg)

lemma I_clone_sources: "I s \<Longrightarrow> I (snd (clone_sources preserve srcs s))"
  by (induction srcs arbitrary: s) (simp_all add: Let_def case_prod_unfold draw_def I_drawn)

lemma I_endpoint_clone: "I s \<Longrightarrow> endpoint_clone eid name preserve s = Inr (t, tc, r) \<Longrightarrow> I t"
  by (auto simp: endpoint_clone_def bind_Inr_iff Let_def case_prod_unfold
      elim!: I_endpoint_create [rotated] intro!: I_clone_sources I_draw)

lemma I_place_endpoint: "I s \<Longrightarrow> place_endpoint kind eid placed s = Inr (t, tc, r) \<Longrightarrow> I t"
  by (auto simp: place_endpoint_def Let_def intro!: I_event I_cfg split: if_splits)

lemma I_port_create: "I s \<Longrightarrow> port_create f s = Inr (t, tc, r) \<Longrightarrow> I t"
  by (auto simp: port_create_def bind_Inr_iff Let_def draw_def intro!: I_event I_stats I_cfg I_drawn)

lemma I_without_port: "I s \<Longrightarrow> I (without_port pid s)"
proof -
  assume s: "I s"
  let ?c = "(cfg s)\<lparr>ports := drop_key pid (ports (cfg s)),
      cfg_switch := (cfg_switch (cfg s))\<lparr>port_count := port_count (cfg_switch (cfg s)) - 1\<rparr>\<rparr>"
  have "I (s\<lparr>cfg := ?c, port_stats := a, pgens := b, pae := d, last_auth_sessions := l, radius_status := st,
      renewal_budget := rb\<rparr>)" for a b d l st rb
    using I_budget [OF I_status [OF I_last [OF I_pae [OF I_pgens [OF I_stats [OF I_cfg [OF s]]]]]]] .
  then show ?thesis by (simp add: without_port_def)
qed

lemma I_port_delete: "I s \<Longrightarrow> port_delete pid s = Inr (t, tc, r) \<Longrightarrow> I t"
  by (auto simp: port_delete_def bind_Inr_iff Let_def detach_from_def
      intro!: I_without_port I_event I_foldl I_cfg I_retire_port I_end_port_sessions)

lemma I_switch_edit: "I s \<Longrightarrow> switch_edit q s = Inr (t, tc, r) \<Longrightarrow> I t"
  by (auto simp: switch_edit_def bind_Inr_iff Let_def quiet_Inr rows_aged_def intro!: I_expire I_fdb I_cfg)

lemma I_quiesced: "I s \<Longrightarrow> I (quiesced again announce s)"
  unfolding quiesced_def Let_def
  by (intro I_interrupt I_cancel_outbox) (simp add: I_queue_accounting I_foldl I_end_session)

lemma I_forget_work: "I s \<Longrightarrow> I (forget_work s)"
proof -
  assume s: "I s"
  define v where "v = (snd (draw s))\<lparr>epoch := fst (draw s), sim_ms := 0, fdb := [], jobs := []\<rparr>"
  have "I (x\<lparr>epoch := e, sim_ms := 0, fdb := [], jobs := []\<rparr>)" if "I x" for x e
    using I_jobs [OF I_fdb [OF I_time [OF I_epochs [OF that, where ep = e and inc = "incarnation x"]]]] by simp
  then have v: "I v" unfolding v_def using I_draw [OF s] by blast
  have "I (foldl (\<lambda>s key. retire_authentication key s) v (keys (radius_attempts v)))"
    by (rule I_foldl [OF _ v]) (rule I_retire_authentication)
  from I_fresh_budget [OF I_status [OF I_cleared [OF this]]] show ?thesis
    by (simp add: forget_work_def v_def Let_def case_prod_unfold)
qed

lemma I_rebooted: "I x \<Longrightarrow> I (rebooted x)"
proof -
  assume x: "I x"
  define y where "y = snd (draw_each (keys (credentials (cfg x))) (snd (draw (x\<lparr>incarnation := epoch x, pae := [],
    last_auth_sessions := []\<rparr>))))"
  have "I (x\<lparr>incarnation := epoch x, pae := [], last_auth_sessions := []\<rparr>)"
    using I_last [OF I_pae [OF I_epochs [OF x, where ep = "epoch x" and inc = "epoch x"]]] by simp
  then have y: "I y" unfolding y_def by (intro I_draw_each I_draw)
  have gens: "I (y\<lparr>activation := a, credential_generations := d\<rparr>)" for a d
    by (rule I_credential_generations [OF I_activation [OF y]])
  then have "I (y\<lparr>activation := a, credential_generations := d, uptime_now := 0\<rparr>)" for a d
    using I_environment [OF gens, where un = 0 and uw = "uptime_wraps y" and wn = "wall_now y" and en = "elapsed_now y"]
    by simp
  from I_vlan_times [OF I_deletes [OF I_entity [OF I_ticks [OF this]]]]
  have "I (y\<lparr>activation := a, credential_generations := d, uptime_now := 0, uptime_epoch := ue,
      entity_last_change := el, vlan_deletes := n, vlan_times := vt\<rparr>)" for a d el ue vt n .
  then show ?thesis
    by (simp add: rebooted_def y_def Let_def case_prod_unfold draw_def)
qed

lemma I_recount: "I s \<Longrightarrow> I (recount again s)"
proof -
  assume s: "I s"
  have "I (snd (draw_each k2 (snd (draw_each k1 (s\<lparr>learned_discards := n, port_stats := st\<rparr>)))))" for k1 k2 n st
    by (intro I_draw_each I_stats I_discards s)
  from I_pgens [OF I_egens [OF this]] show ?thesis
    unfolding recount_def Let_def case_prod_unfold .
qed

lemma I_reset_operational: "I s \<Longrightarrow> I (reset_operational again announce s)"
  unfolding reset_operational_def Let_def
  by (intro I_foldl I_schedule I_recount) (simp_all add: I_rebooted I_forget_work I_quiesced)

lemma I_reboot: "I s \<Longrightarrow> reboot refused s = Inr (t, tc, r) \<Longrightarrow> I t"
  by (auto simp: reboot_def bind_Inr_iff Let_def quiet_Inr
      intro!: I_event I_reset_operational I_cfg I_queue_accounting I_end_sessions)

lemma I_snmp_set: "I s \<Longrightarrow> snmp_set plan s = Inr (t, tc, r) \<Longrightarrow> I t"
  using I_deletes [OF I_cfg, of s]
  by (auto simp: snmp_set_def bind_Inr_iff Let_def intro!: I_event elim!: I_pae_steps [rotated])

lemma I_record_command: "I s \<Longrightarrow> record_command e s = Inr (t, tc, r) \<Longrightarrow> I t"
  by (auto simp: record_command_def bind_Inr_iff noted_event_def case_prod_unfold intro!: I_foldl I_event I_drawn I_cfg)

lemma I_supplicant_save:
  assumes s: "I s" and result: "supplicant_save eid sid template q restart s = Inr (t, tc, r)"
  shows "I t"
proof -
  have noted: "I (event kind d (s\<lparr>cfg := c\<rparr>))" for kind d c by (intro I_event I_cfg s)
  show ?thesis
    using result by (auto simp: supplicant_save_def bind_Inr_iff Let_def noted split: option.splits if_splits
        intro: I_serve_source [OF noted])
qed

lemma I_edit_with:
  assumes s: "I s" and result: "edit_with e s = Inr (t, tc, r)"
  shows "I t"
proof (cases e)
  case (Ed_endpoint_create e)
  then show ?thesis using result I_endpoint_create [OF s] by simp
next
  case (Ed_endpoint_clone eid name preserve)
  then show ?thesis using result I_endpoint_clone [OF s] by simp
next
  case (Ed_attach eid pid)
  then show ?thesis using result by (auto simp: attach_def bind_Inr_iff intro: I_place_endpoint [OF s])
next
  case (Ed_detach eid)
  then show ?thesis using result by (auto simp: detach_def bind_Inr_iff intro: I_place_endpoint [OF s])
next
  case (Ed_port_create f)
  then show ?thesis using result I_port_create [OF s] by simp
next
  case (Ed_port_delete pid)
  then show ?thesis using result I_port_delete [OF s] by simp
next
  case (Ed_switch q)
  then show ?thesis using result I_switch_edit [OF s] by simp
next
  case (Ed_reboot refused)
  then show ?thesis using result I_reboot [OF s] by simp
next
  case (Ed_set plan)
  then show ?thesis using result I_snmp_set [OF s] by simp
next
  case (Ed_record e)
  then show ?thesis using result I_record_command [OF s] by simp
next
  case (Ed_supplicant eid sid template q restart)
  then show ?thesis using result I_supplicant_save [OF s] by simp
qed (use result s in \<open>auto simp: endpoint_edit_def endpoint_delete_def endpoint_event_def port_edit_def vlan_create_def
    vlan_edit_def vlan_delete_def pause_clock_def save_startup_def quiet_Inr bind_Inr_iff Let_def
    intro!: I_event I_cfg I_deletes [OF I_cfg]\<close>)

end

interpretation numbering: configured_invariant numbered
  by unfold_locales (simp_all add: numbered_def)

interpretation history: configured_invariant history_ok
  by unfold_locales (simp_all add: history_ok_def numbered_def)

interpretation accounting: configured_invariant accounting_ok
  by unfold_locales (simp_all add: accounting_ok_def)

end
