(* ===== verification/Engine_Safety.thy ===== *)
theory Engine_Safety
  imports Engine_Invariant
begin

text \<open>
  Who is on a port across a change of the configuration. Between the change and the end of the commit
  two subjects may share a port that takes only one, but only where the policy of the port changed
  (\<open>settling\<close>); \<open>reconcile_authentication\<close> then retires the attempts captured under the old policy and
  ends the sessions of the port, so that the committed runtime satisfies \<open>subjects_ok\<close> again.
\<close>

subsection \<open>After the change\<close>

lemma settling_configured:
  assumes ok: "subjects_ok s" and t: "radius_attempts t = radius_attempts s" "radius_sessions t = radius_sessions s"
    and ports: "\<And>k. k \<in> present_subjects s \<Longrightarrow> has (ports (cfg t)) (fst k)"
  shows "settling (cfg s) t"
proof -
  have same: "present_subjects t = present_subjects s" by (simp add: present_subjects_def t)
  have "authentication (the_port s (fst k)) \<noteq> authentication (the_port t (fst k)) \<and> stale_attempt t k"
    if k: "k \<in> present_subjects s" and l: "l \<in> present_subjects s" and crowd: "crowded t k l" for k l
  proof -
    have "lone_subject s k" using subjects_lone [OF ok k] by simp
    then have "multi_auth s (fst k)" using crowd l by (auto simp: lone_subject_iff crowded_def)
    then have new: "authentication (the_port s (fst k)) \<noteq> authentication (the_port t (fst k))"
      using crowd by (auto simp: crowded_def multi_auth_def)
    have "captured_policy s" using ok by (simp add: subjects_ok_iff)
    then have "stale_attempt t k"
      using new lookup_in_set [of "radius_attempts s" k]
      by (fastforce simp: stale_attempt_def t captured_policy_def list_all_iff split: option.splits)
    with new show ?thesis by simp
  qed
  then show ?thesis
    using ok ports by (simp add: settling_def same t subjects_ok_def the_port_def [symmetric])
qed

lemma present_port: "subjects_ok s \<Longrightarrow> k \<in> present_subjects s \<Longrightarrow> has (ports (cfg s)) (fst k)"
  using subjects_lone by blast

lemma settling_edit:
  assumes "subjects_ok s" "radius_attempts t = radius_attempts s" "radius_sessions t = radius_sessions s"
    and "\<And>pid. has (ports (cfg s)) pid \<Longrightarrow> has (ports (cfg t)) pid"
  shows "settling (cfg s) t"
  using assms present_port by (intro settling_configured) blast+

lemma settling_unchanged: "subjects_ok s \<Longrightarrow> settling (cfg s) s"
  by (simp add: subjects_ok_iff)

lemma event_apart [simp]:
  "radius_attempts (event kind d s) = radius_attempts s" "radius_sessions (event kind d s) = radius_sessions s"
  "cfg (event kind d s) = cfg s"
  by (simp_all add: event_def)

subsection \<open>Commands\<close>

lemma has_put: "has (put k v d) i \<longleftrightarrow> i = k \<or> has d i"
  by (auto simp: has_def lookup_put)

lemma has_drop_key: "has (drop_key k d) i \<longleftrightarrow> i \<noteq> k \<and> has d i"
  by (auto simp: has_def lookup_drop_key)

lemma has_keys: "has d k \<longleftrightarrow> k \<in> set (keys d)"
  by (metis has_def lookup_None_iff)

lemma settled_endpoint_create:
  "subjects_ok s \<Longrightarrow> endpoint_create e s = Inr (t, tc, r) \<Longrightarrow> settling (cfg s) t"
  by (auto simp: endpoint_create_def bind_Inr_iff Let_def intro!: settling_edit)

lemma clone_sources_form: "\<exists>n. snd (clone_sources preserve srcs s) = s\<lparr>drawn := n\<rparr>"
proof (induction srcs arbitrary: s)
  case Nil
  show ?case by (rule exI [of _ "drawn s"]) simp
next
  case (Cons src srcs)
  show ?case
    using Cons.IH [of "s\<lparr>drawn := drawn s + 1\<rparr>"] Cons.IH [of "s\<lparr>drawn := drawn s + 1 + 1\<rparr>"]
    by (auto simp: draw_def Let_def case_prod_unfold)
qed

lemma subjects_drawn: "subjects_ok s \<Longrightarrow> subjects_ok (s\<lparr>drawn := n\<rparr>)"
  by (erule subjects_same) simp_all

lemma settled_endpoint_clone:
  assumes ok: "subjects_ok s" and result: "endpoint_clone eid name preserve s = Inr (t, tc, r)"
  shows "settling (cfg s) t"
proof -
  obtain e i ss u where u: "snd (clone_sources preserve (sources e) (s\<lparr>drawn := drawn s + 1\<rparr>)) = u"
    and t: "endpoint_create (e\<lparr>e_id := i, e_revision := 0, sources := ss,
            e_name := (if truthy name then the name else e_name e @ str '' copy'')\<rparr>) u = Inr (t, tc, r)"
    using result by (auto simp: endpoint_clone_def bind_Inr_iff Let_def draw_def case_prod_unfold)
  obtain n where "u = s\<lparr>drawn := n\<rparr>"
    using clone_sources_form [of preserve "sources e" "s\<lparr>drawn := drawn s + 1\<rparr>"] u by auto
  then have "subjects_ok u" "cfg u = cfg s" using ok by (simp_all add: subjects_drawn)
  then show ?thesis using settled_endpoint_create [OF _ t] by simp
qed

lemma settled_place_endpoint:
  "subjects_ok s \<Longrightarrow> place_endpoint kind eid placed s = Inr (t, tc, r) \<Longrightarrow> settling (cfg s) t"
  by (auto simp: place_endpoint_def Let_def intro!: settling_edit split: if_splits)

lemma settled_port_create: "subjects_ok s \<Longrightarrow> port_create f s = Inr (t, tc, r) \<Longrightarrow> settling (cfg s) t"
  by (auto simp: port_create_def bind_Inr_iff Let_def draw_def with_port_def has_put intro!: settling_edit)

lemma settled_switch_edit:
  assumes ok: "subjects_ok s" and result: "switch_edit q s = Inr (t, tc, r)"
  shows "settling (cfg s) t"
proof -
  obtain w aged where t: "t = (if aged then rows_aged (aging_seconds w) (s\<lparr>cfg := (cfg s)\<lparr>cfg_switch := w\<rparr>\<rparr>)
      else s\<lparr>cfg := (cfg s)\<lparr>cfg_switch := w\<rparr>\<rparr>)"
    using result by (auto simp: switch_edit_def bind_Inr_iff Let_def quiet_Inr)
  have "settling (cfg s) (s\<lparr>cfg := (cfg s)\<lparr>cfg_switch := w\<rparr>, fdb := table\<rparr>)" for table
    by (rule settling_edit [OF ok]) simp_all
  moreover have "settling (cfg s) (s\<lparr>cfg := (cfg s)\<lparr>cfg_switch := w\<rparr>\<rparr>)"
    by (rule settling_edit [OF ok]) simp_all
  ultimately show ?thesis unfolding t rows_aged_def by (auto intro!: settles.I_expire)
qed

lemma detach_from_apart:
  "radius_attempts (foldl (detach_from pid) s es) = radius_attempts s"
  "radius_sessions (foldl (detach_from pid) s es) = radius_sessions s"
  "ports (cfg (foldl (detach_from pid) s es)) = ports (cfg s)"
  by (induction es arbitrary: s) (simp_all add: detach_from_def)

lemma foldl_keeps: "(\<And>s x. f (g s x) = f s) \<Longrightarrow> f (foldl g s xs) = f s"
  by (induction xs arbitrary: s) simp_all

lemma end_port_sessions_cfg: "cfg (end_port_sessions pid reason cause s) = cfg s"
  unfolding end_port_sessions_def by (rule foldl_keeps) (rule end_session_apart)

lemma retire_port_cfg: "cfg (retire_port pid s) = cfg s"
  unfolding retire_port_def by (rule foldl_keeps) (rule retire_apart)

lemma keys_dropped:
  assumes "\<And>s x. d (g s x) = drop_key x (d s)"
  shows "keys (d (foldl g s xs)) = filter (\<lambda>k. k \<notin> set xs) (keys (d s))"
  by (induction xs arbitrary: s) (auto simp: assms keys_drop_key intro: filter_cong)

lemma end_port_sessions_keys:
  "keys (radius_sessions (end_port_sessions pid reason cause s)) =
     filter (\<lambda>k. fst k \<noteq> pid) (keys (radius_sessions s))"
  unfolding end_port_sessions_def
  by (subst keys_dropped [where d = radius_sessions], rule end_session_apart) (auto simp: on_port_key_def intro!: filter_cong)

lemma retire_port_keys:
  "keys (radius_attempts (retire_port pid s)) = filter (\<lambda>k. fst k \<noteq> pid) (keys (radius_attempts s))"
  unfolding retire_port_def
  by (subst keys_dropped [where d = radius_attempts], rule retire_apart) (auto simp: on_port_key_def intro!: filter_cong)

lemma retire_port_sessions: "radius_sessions (retire_port pid s) = radius_sessions s"
  unfolding retire_port_def by (rule foldl_keeps) (rule retire_apart)

lemma settled_port_delete:
  assumes ok: "subjects_ok s" and result: "port_delete pid s = Inr (t, tc, r)"
  shows "settling (cfg s) t"
proof -
  define u where "u = retire_port pid (end_port_sessions pid ''port-deleted'' 6 s)"
  have u: "subjects_ok u" "cfg u = cfg s"
    using ok by (simp_all add: u_def subjects.I_retire_port subjects.I_end_port_sessions retire_port_cfg end_port_sessions_cfg)
  have gone: "fst k \<noteq> pid" if "k \<in> present_subjects u" for k
    using that unfolding u_def present_subjects_def retire_port_keys retire_port_sessions end_port_sessions_keys
    by auto
  obtain es where t: "t = without_port pid (event ''port-delete'' [(''port_id'', JText pid)] (foldl (detach_from pid) u es))"
    using result by (auto simp: port_delete_def bind_Inr_iff Let_def u_def)
  have "settling (cfg u) t"
    unfolding t
    by (rule settling_configured [OF u(1)])
      (simp_all add: without_port_def detach_from_apart has_drop_key gone present_port [OF u(1)])
  then show ?thesis by (simp add: u(2))
qed

lemma draw_each_form: "\<exists>n. snd (draw_each ks s) = s\<lparr>drawn := n\<rparr>"
proof (induction ks arbitrary: s)
  case Nil
  show ?case by (rule exI [of _ "drawn s"]) simp
next
  case (Cons k ks)
  show ?case
    using Cons.IH [of "s\<lparr>drawn := drawn s + 1\<rparr>"] by (auto simp: draw_def Let_def case_prod_unfold)
qed

lemma draw_each_apart:
  "radius_attempts (snd (draw_each ks s)) = radius_attempts s"
  "radius_sessions (snd (draw_each ks s)) = radius_sessions s"
  using draw_each_form [of ks s] by auto

lemma forget_work_idle: "radius_attempts (forget_work s) = []" "radius_sessions (forget_work s) = []"
proof -
  have "keys (radius_attempts (foldl (\<lambda>s key. retire_authentication key s) u (keys (radius_attempts u)))) = []" for u
    by (subst keys_dropped [where d = radius_attempts], rule retire_apart) (auto simp: filter_empty_conv)
  from this [of "(snd (draw s))\<lparr>epoch := fst (draw s), sim_ms := 0, fdb := [], jobs := []\<rparr>"]
  show "radius_attempts (forget_work s) = []"
    by (simp add: forget_work_def Let_def case_prod_unfold)
qed (simp add: forget_work_def Let_def case_prod_unfold)

lemma schedule_apart:
  "radius_attempts (schedule delay s eid) = radius_attempts s" "radius_sessions (schedule delay s eid) = radius_sessions s"
  by (simp_all add: schedule_def Let_def split: option.split)

lemma reset_idle: "radius_attempts (reset_operational again announce s) = []"
    "radius_sessions (reset_operational again announce s) = []"
proof -
  have "radius_attempts (recount again (if again then rebooted u else u)) = radius_attempts u \<and>
      radius_sessions (recount again (if again then rebooted u else u)) = radius_sessions u" for u
    by (simp add: recount_def rebooted_def Let_def case_prod_unfold draw_each_apart draw_def)
  then show "radius_attempts (reset_operational again announce s) = []"
      "radius_sessions (reset_operational again announce s) = []"
    unfolding reset_operational_def Let_def
    by (simp_all add: foldl_keeps [where f = radius_attempts] foldl_keeps [where f = radius_sessions] schedule_apart
        forget_work_idle)
qed

lemma settling_idle: "radius_attempts t = [] \<Longrightarrow> radius_sessions t = [] \<Longrightarrow> settling c t"
  by (simp add: settling_def present_subjects_def filed_sessions_def filed_attempts_def)

lemma settled_reboot: "reboot refused s = Inr (t, tc, r) \<Longrightarrow> settling c t"
  by (auto simp: reboot_def bind_Inr_iff Let_def quiet_Inr reset_idle intro!: settling_idle)

lemma settled_snmp_set:
  assumes ok: "subjects_ok s" and ports: "keys (ports (pl_candidate plan)) = keys (ports (cfg s))"
    and result: "snmp_set plan s = Inr (t, tc, r)"
  shows "settling (cfg s) t"
proof -
  define u where "u = event ''snmp-set'' [(''assignments'', JInt (int (length (pl_assignments plan))))]
      (s\<lparr>cfg := pl_candidate plan, vlan_deletes := vlan_deletes s + int (length (pl_deletes plan))\<rparr>)"
  have "pae_steps (pl_actions plan) u = Inr t" using result by (auto simp: snmp_set_def Let_def u_def bind_Inr_iff)
  moreover have "settling (cfg s) u"
    by (rule settling_edit [OF ok]) (simp_all add: u_def has_keys ports del: set_map)
  ultimately show ?thesis using settles.I_pae_steps by blast
qed

lemma validated_Inr [simp]: "validated r = Inr x \<longleftrightarrow> r = Inr x"
  by (simp add: validated_def unvalidated_def split: sum.split)

lemma need_Inr [simp]: "need ok code message = Inr u \<longleftrightarrow> ok"
  by (simp add: need_def)

lemma resource_Inr [simp]: "resource d k = Inr v \<longleftrightarrow> map_of d k = Some v"
  by (simp add: resource_def split: option.split)

lemma required_Inr [simp]: "required patch old = Inr v \<longleftrightarrow> patch = Some v \<or> patch = None \<and> old = Some v"
  by (auto simp: required_def split: option.splits)

definition same_network :: "configuration \<Rightarrow> configuration \<Rightarrow> bool" where
  \<comment> \<open>what no record command touches\<close>
  "same_network d c \<longleftrightarrow> ports d = ports c \<and> vlans d = vlans c \<and> cfg_switch d = cfg_switch c \<and>
     endpoints d = endpoints c \<and> attachments d = attachments c"

lemma merge_credential_cfg:
  assumes "merge_credential q old fresh c = Inr (d, n, cr)"
  shows "d = c \<or> (\<exists>g. add_group g c = Inr d)"
  using assms by (auto simp: merge_credential_def bind_Inr_iff converted_access_def Let_def
      split: option.splits if_splits protocol.splits prod.splits)

fun radius_edit :: "record_edit \<Rightarrow> bool" where
  "radius_edit (Rec_snmp _) = False"
| "radius_edit (Rec_view _) = False"
| "radius_edit (Rec_view_delete _) = False"
| "radius_edit (Rec_group _) = False"
| "radius_edit (Rec_group_delete _) = False"
| "radius_edit (Rec_credential _) = False"
| "radius_edit (Rec_credential_delete _) = False"
| "radius_edit (Rec_target _) = False"
| "radius_edit (Rec_target_delete _) = False"
| "radius_edit _ = True"

lemma server_records_radius:
  "radius_server_save q fresh c = Inr m \<Longrightarrow> \<exists>r. mk_cfg m = c\<lparr>radius := r\<rparr>"
  "radius_server_delete i c = Inr m \<Longrightarrow> \<exists>r. mk_cfg m = c\<lparr>radius := r\<rparr>"
  "accounting_target_save q fresh c = Inr m \<Longrightarrow> \<exists>r. mk_cfg m = c\<lparr>radius := r\<rparr>"
  "accounting_target_delete i c = Inr m \<Longrightarrow> \<exists>r. mk_cfg m = c\<lparr>radius := r\<rparr>"
  by (auto simp: radius_server_save_def radius_server_delete_def accounting_target_save_def accounting_target_delete_def
      bind_Inr_iff noted_def with_radius_def with_targets_def)

lemma dynamic_records_radius:
  "dynamic_sender_save d fresh c = Inr m \<Longrightarrow> \<exists>r. mk_cfg m = c\<lparr>radius := r\<rparr>"
  "dynamic_sender_delete i c = Inr m \<Longrightarrow> \<exists>r. mk_cfg m = c\<lparr>radius := r\<rparr>"
  "dynamic_settings_edit y c = Inr m \<Longrightarrow> \<exists>r. mk_cfg m = c\<lparr>radius := r\<rparr>"
  by (auto simp: dynamic_sender_save_def dynamic_sender_delete_def dynamic_settings_edit_def bind_Inr_iff Let_def noted_def
      announced_def with_radius_def with_dynamic_def split: option.splits if_splits)

lemma option_records_radius:
  "radius_settings_edit q c = Inr m \<Longrightarrow> \<exists>r. mk_cfg m = c\<lparr>radius := r\<rparr>"
  "accounting_settings_edit a c = Inr m \<Longrightarrow> \<exists>r. mk_cfg m = c\<lparr>radius := r\<rparr>"
  by (auto simp: radius_settings_edit_def accounting_settings_edit_def bind_Inr_iff Let_def announced_def with_radius_def)

lemma material_records_radius:
  "radius_material_save q fresh c = Inr m \<Longrightarrow> \<exists>r. mk_cfg m = c\<lparr>radius := r\<rparr>"
  "radius_material_delete i c = Inr m \<Longrightarrow> \<exists>r. mk_cfg m = c\<lparr>radius := r\<rparr>"
  "radius_template_save t fresh c = Inr m \<Longrightarrow> \<exists>r. mk_cfg m = c\<lparr>radius := r\<rparr>"
  "radius_template_delete i c = Inr m \<Longrightarrow> \<exists>r. mk_cfg m = c\<lparr>radius := r\<rparr>"
  by (clarsimp simp: radius_material_save_def radius_material_delete_def radius_template_save_def radius_template_delete_def
      bind_Inr_iff Let_def noted_def with_radius_def simp del: required_Inr; blast)+

lemma radius_change_cfg:
  assumes "record_change e fresh label c = Inr m" and "radius_edit e"
  shows "\<exists>r. mk_cfg m = c\<lparr>radius := r\<rparr>"
  using assms server_records_radius dynamic_records_radius option_records_radius material_records_radius
  by (cases e) simp_all

lemma merge_credential_apart:
  "merge_credential q old fresh c = Inr (d, n, cr) \<Longrightarrow> same_network d c \<and> radius d = radius c"
  using merge_credential_cfg by (fastforce simp: add_group_def bind_Inr_iff Let_def same_network_def)

lemma add_credential_apart: "add_credential cr c = Inr d \<Longrightarrow> same_network d c \<and> radius d = radius c"
  by (auto simp: add_credential_def bind_Inr_iff Let_def same_network_def)

lemma inline_credential_apart: "inline_credential k fresh c = Inr (d, n, cr) \<Longrightarrow> same_network d c \<and> radius d = radius c"
  by (auto simp: inline_credential_def bind_Inr_iff same_network_def split: option.splits
      dest!: merge_credential_apart add_credential_apart)

lemma target_save_Inr:
  assumes "target_save q fresh label c = Inr m"
  obtains d n cr t where "inline_credential (hq_new q) fresh c = Inr (d, n, cr)"
    "mk_cfg m = d\<lparr>targets := put (tg_id t) t (targets d)\<rparr>" "snmp_limit (put (tg_id t) t (targets d)) = Inr ()"
    "check_target (mk_cfg m) t = Inr ()"
  using assms that by (force simp: target_save_def bind_Inr_iff Let_def)

lemma target_save_apart:
  assumes "target_save q fresh label c = Inr m"
  shows "same_network (mk_cfg m) c \<and> radius (mk_cfg m) = radius c"
  using assms by (elim target_save_Inr) (auto simp: same_network_def dest!: inline_credential_apart)

lemma group_records_apart:
  "group_save q fresh c = Inr m \<Longrightarrow> same_network (mk_cfg m) c \<and> radius (mk_cfg m) = radius c"
  "group_delete i c = Inr m \<Longrightarrow> same_network (mk_cfg m) c \<and> radius (mk_cfg m) = radius c"
  by (clarsimp simp: group_save_def group_delete_def add_group_def bind_Inr_iff Let_def noted_def same_network_def
      simp del: required_Inr)+

lemma view_records_apart:
  "snmp_settings_edit n c = Inr m \<Longrightarrow> same_network (mk_cfg m) c \<and> radius (mk_cfg m) = radius c"
  "view_save q fresh c = Inr m \<Longrightarrow> same_network (mk_cfg m) c \<and> radius (mk_cfg m) = radius c"
  "view_delete i c = Inr m \<Longrightarrow> same_network (mk_cfg m) c \<and> radius (mk_cfg m) = radius c"
  by (clarsimp simp: snmp_settings_edit_def view_save_def view_delete_def announced_def bind_Inr_iff Let_def noted_def
      same_network_def simp del: required_Inr)+

lemma credential_records_apart:
  "credential_save q fresh c = Inr m \<Longrightarrow> same_network (mk_cfg m) c \<and> radius (mk_cfg m) = radius c"
  "credential_delete i c = Inr m \<Longrightarrow> same_network (mk_cfg m) c \<and> radius (mk_cfg m) = radius c"
  "target_delete i label c = Inr m \<Longrightarrow> same_network (mk_cfg m) c \<and> radius (mk_cfg m) = radius c"
  by (auto simp: credential_save_def credential_delete_def target_delete_def bind_Inr_iff Let_def noted_def same_network_def
      dest!: merge_credential_apart add_credential_apart)

lemma snmp_change_apart:
  assumes "record_change e fresh label c = Inr m" and "\<not> radius_edit e"
  shows "same_network (mk_cfg m) c \<and> radius (mk_cfg m) = radius c"
  using assms target_save_apart group_records_apart view_records_apart credential_records_apart by (cases e) simp_all

lemma record_change_network: "record_change e fresh label c = Inr m \<Longrightarrow> same_network (mk_cfg m) c"
  using radius_change_cfg snmp_change_apart by (cases "radius_edit e") (fastforce simp: same_network_def)+

lemma noted_apart:
  "radius_attempts (foldl noted_event s ns) = radius_attempts s"
  "radius_sessions (foldl noted_event s ns) = radius_sessions s"
  "cfg (foldl noted_event s ns) = cfg s"
  by (induction ns arbitrary: s) (simp_all add: noted_event_def case_prod_unfold)

lemma settled_record_command:
  assumes ok: "subjects_ok s" and result: "record_command e s = Inr (t, tc, r)"
  shows "settling (cfg s) t"
proof -
  obtain m where m: "record_change e (\<lambda>i. fresh_ids s (drawn s + i)) (event_resource_label s) (cfg s) = Inr m"
    and t: "t = foldl noted_event (s\<lparr>cfg := mk_cfg m, drawn := drawn s + mk_new m\<rparr>) (mk_notes m)"
    using result by (auto simp: record_command_def bind_Inr_iff)
  show ?thesis by (rule settling_edit [OF ok]) (simp_all add: t noted_apart record_change_network [OF m, unfolded same_network_def])
qed

lemma settled_supplicant_save:
  assumes ok: "subjects_ok s" and result: "supplicant_save eid sid template q restart s = Inr (t, tc, r)"
  shows "settling (cfg s) t"
proof -
  have noted: "settling (cfg s) (event kind d (s\<lparr>cfg := (cfg s)\<lparr>endpoints := es\<rparr>\<rparr>))" for kind d es
    by (rule settling_edit [OF ok]) simp_all
  show ?thesis
    using result by (auto simp: supplicant_save_def bind_Inr_iff Let_def noted split: option.splits if_splits
        intro: settles.I_serve_source [OF noted])
qed

lemma ports_put_kept: "has d k \<Longrightarrow> has (put i v d) k"
  by (simp add: has_put)

lemma settled_edit:
  assumes ok: "subjects_ok s" and result: "edit_with e s = Inr (t, tc, r)"
    and planned: "\<And>plan. e = Ed_set plan \<Longrightarrow> keys (ports (pl_candidate plan)) = keys (ports (cfg s))"
  shows "settling (cfg s) t"
proof (cases e)
  case (Ed_endpoint_create e)
  then show ?thesis using result settled_endpoint_create [OF ok] by simp
next
  case (Ed_endpoint_clone eid name preserve)
  then show ?thesis using result settled_endpoint_clone [OF ok] by simp
next
  case (Ed_attach eid pid)
  then show ?thesis using result by (auto simp: attach_def bind_Inr_iff intro: settled_place_endpoint [OF ok])
next
  case (Ed_detach eid)
  then show ?thesis using result by (auto simp: detach_def bind_Inr_iff intro: settled_place_endpoint [OF ok])
next
  case (Ed_port_create f)
  then show ?thesis using result settled_port_create [OF ok] by simp
next
  case (Ed_port_delete pid)
  then show ?thesis using result settled_port_delete [OF ok] by simp
next
  case (Ed_switch q)
  then show ?thesis using result settled_switch_edit [OF ok] by simp
next
  case (Ed_reboot refused)
  then show ?thesis using result settled_reboot by simp
next
  case (Ed_set plan)
  then show ?thesis using result settled_snmp_set [OF ok planned] by simp
next
  case (Ed_record e)
  then show ?thesis using result settled_record_command [OF ok] by simp
next
  case (Ed_supplicant eid sid template q restart)
  then show ?thesis using result settled_supplicant_save [OF ok] by simp
next
  case (Ed_vlan_delete v)
  have "map fst (map (\<lambda>(k, p). (k, f k p)) d) = map fst d" for f :: "uid \<Rightarrow> port \<Rightarrow> port" and d
    by (simp add: case_prod_unfold)
  then show ?thesis
    using result Ed_vlan_delete
    by (auto simp: vlan_delete_def bind_Inr_iff Let_def has_keys configuration_without_vlan_def simp del: set_map map_map
        intro!: settling_edit [OF ok])
qed (use result in \<open>auto simp: endpoint_edit_def endpoint_delete_def endpoint_event_def port_edit_def vlan_create_def
    vlan_edit_def pause_clock_def save_startup_def quiet_Inr bind_Inr_iff Let_def has_put
    intro!: settling_edit [OF ok]\<close>)

subsection \<open>Reconciliation\<close>

definition captured_at :: "runtime \<Rightarrow> subject \<Rightarrow> bool" where
  "captured_at s k \<longleftrightarrow> (case map_of (radius_attempts s) k of None \<Rightarrow> True
     | Some a \<Rightarrow> cp_authentication (at_context a) = authentication (the_port s (fst k)))"

definition kept_policy :: "runtime \<Rightarrow> runtime \<Rightarrow> subject \<Rightarrow> bool" where
  \<comment> \<open>a session of the subject sits on a port whose policy did not change\<close>
  "kept_policy old s k \<longleftrightarrow> (k \<in> set (keys (radius_sessions s)) \<longrightarrow>
     authentication (the_port old (fst k)) = authentication (the_port s (fst k)))"

lemma captured_policy_iff:
  assumes "is_dict (radius_attempts s)"
  shows "captured_policy s \<longleftrightarrow> (\<forall>k. captured_at s k)"
proof -
  have "captured_policy s \<longleftrightarrow> (\<forall>k a. map_of (radius_attempts s) k = Some a \<longrightarrow>
      cp_authentication (at_context a) = authentication (the_port s (fst k)))"
    using is_dict_lookup [OF assms] lookup_in_set [of "radius_attempts s"]
    unfolding captured_policy_def list_all_iff by blast
  then show ?thesis by (simp add: captured_at_def split: option.split)
qed

lemma foldl_establishes:
  assumes new: "\<And>s x. P (g s x) x" and kept: "\<And>s x y. P s y \<Longrightarrow> P (g s x) y"
    and other: "\<forall>y. y \<notin> set xs \<longrightarrow> P s y"
  shows "P (foldl g s xs) y"
  using other
proof (induction xs arbitrary: s)
  case (Cons x xs)
  have "P (g s x) y" if "y \<notin> set xs" for y
    using that Cons.prems new kept by (cases "y = x") auto
  then show ?case using Cons.IH by simp
qed simp

lemma reconcile_attempt_apart:
  "cfg (reconcile_attempt old s key) = cfg s"
  "radius_attempts (reconcile_attempt old s key) \<in> {radius_attempts s, drop_key key (radius_attempts s)}"
  by (auto simp: reconcile_attempt_def Let_def put_status_def put_session_def retire_apart split: option.splits)

lemma reconcile_attempt_captures: "captured_at (reconcile_attempt old s key) key"
proof (cases "map_of (radius_attempts s) key")
  case None
  then show ?thesis by (simp add: reconcile_attempt_def captured_at_def)
next
  case (Some a)
  show ?thesis
  proof (cases "current_context s key a = Some (at_context a)")
    case True
    then have "cp_authentication (at_context a) = authentication (the_port s (fst key))"
      using context_port(2) by (simp add: current_context_def split: if_splits)
    then have "captured_at s key" by (simp add: captured_at_def Some)
    then show ?thesis
      by (auto simp: reconcile_attempt_def Let_def put_status_def put_session_def retire_apart captured_at_def
          lookup_drop_key split: option.splits)
  next
    case False
    then show ?thesis
      using Some by (auto simp: reconcile_attempt_def Let_def put_status_def put_session_def retire_apart captured_at_def
          lookup_drop_key split: option.splits)
  qed
qed

lemma captured_at_fewer:
  assumes "captured_at s k" "cfg t = cfg s" "radius_attempts t \<in> {radius_attempts s, drop_key key (radius_attempts s)}"
  shows "captured_at t k"
  using assms(1,3) the_port_cong [OF assms(2)]
  by (auto simp: captured_at_def lookup_drop_key split: option.splits if_splits)

lemma reconcile_session_apart:
  "cfg (reconcile_session old s key) = cfg s"
  "radius_sessions (reconcile_session old s key) \<in> {radius_sessions s, drop_key key (radius_sessions s)}"
  "radius_attempts (reconcile_session old s key) \<in> {radius_attempts s, drop_key key (radius_attempts s)}"
  using end_session_apart [of key _ None _ s]
  by (auto simp: reconcile_session_def Let_def split: option.split)

lemma reconcile_session_keeps: "kept_policy old (reconcile_session old s key) key"
proof (cases "map_of (radius_sessions s) key")
  case None
  then have "key \<notin> set (keys (radius_sessions s))" by (simp only: lookup_None_iff not_False_eq_True)
  with None show ?thesis by (simp add: reconcile_session_def kept_policy_def del: set_map)
next
  case (Some se)
  then show ?thesis
    using end_session_apart [of key _ None _ s] the_port_cong [OF reconcile_session_apart(1), of old s key]
    by (auto simp: reconcile_session_def Let_def kept_policy_def keys_drop_key reconcile_reason_def simp del: set_map
        split: option.splits if_splits)
qed

lemma kept_policy_fewer:
  assumes "kept_policy old s k" "cfg t = cfg s" "radius_sessions t \<in> {radius_sessions s, drop_key key (radius_sessions s)}"
  shows "kept_policy old t k"
  using assms(1,3) the_port_cong [OF assms(2)] by (auto simp: kept_policy_def keys_drop_key simp del: set_map)

lemma reconcile_status_apart:
  "cfg (reconcile_status s key) = cfg s" "radius_attempts (reconcile_status s key) = radius_attempts s"
  by (simp_all add: reconcile_status_def put_status_def)

lemma captured_at_status: "captured_at s k \<Longrightarrow> captured_at (reconcile_status s key) k"
  by (erule captured_at_fewer [of s]) (simp_all add: reconcile_status_apart)

lemma reconciled_subjects:
  assumes ok: "settling (cfg old) s"
  shows "subjects_ok (reconcile_authentication old s)"
proof -
  define u where "u = foldl (reconcile_attempt old) s (keys (radius_attempts s))"
  define v where "v = foldl reconcile_status u (keys (radius_status u))"
  define w where "w = foldl (reconcile_session old) v (keys (radius_sessions v))"
  have w: "reconcile_authentication old s = w" by (simp add: reconcile_authentication_def u_def v_def w_def Let_def)
  have settled: "settling (cfg old) w" using settles.I_reconcile_authentication [OF ok, of old] by (simp add: w)
  have cfg: "cfg w = cfg s"
    unfolding w_def v_def u_def by (simp add: foldl_keeps [where f = cfg] reconcile_session_apart reconcile_status_apart reconcile_attempt_apart)
  have "captured_at u k" for k
    unfolding u_def
  proof (rule foldl_establishes [where P = captured_at])
    show "\<forall>k. k \<notin> set (keys (radius_attempts s)) \<longrightarrow> captured_at s k"
      using lookup_None_iff [of "radius_attempts s"] by (metis captured_at_def option.case_eq_if)
  qed (rule reconcile_attempt_captures, rule captured_at_fewer [OF _ reconcile_attempt_apart])
  then have "captured_at v k" for k
    unfolding v_def by (rule foldl_invariant [rotated]) (rule captured_at_status)
  then have "captured_at w k" for k
    unfolding w_def by (rule foldl_invariant [rotated]) (rule captured_at_fewer [OF _ reconcile_session_apart(1,3)])
  then have captured: "captured_policy w"
    using settling_filed [OF settled] by (simp add: captured_policy_iff filed_attempts_def)
  have kept: "kept_policy old w k" for k
    unfolding w_def
  proof (rule foldl_establishes [where P = "kept_policy old"])
    show "\<forall>k. k \<notin> set (keys (radius_sessions v)) \<longrightarrow> kept_policy old v k" by (simp add: kept_policy_def)
  qed (rule reconcile_session_keeps, rule kept_policy_fewer [OF _ reconcile_session_apart(1,2)])
  have "\<not> crowded w k l" if k: "k \<in> present_subjects w" and l: "l \<in> present_subjects w" for k l
  proof
    assume "crowded w k l"
    then have old: "authentication (the_port old (fst k)) \<noteq> authentication (the_port w (fst k))" "stale_attempt w k"
      using settled k l by (auto simp: settling_def the_port_def)
    then have "map_of (radius_attempts w) k = None"
      using captured lookup_in_set [of "radius_attempts w" k]
      by (fastforce simp: stale_attempt_def captured_policy_def list_all_iff split: option.splits)
    then have "k \<in> set (keys (radius_sessions w))" using k by (simp add: present_subjects_def lookup_None_iff)
    then show False using old(1) kept [of k] by (simp add: kept_policy_def)
  qed
  then have "settling (cfg w) w" using settled by (simp add: settling_def)
  then show ?thesis by (simp add: w subjects_ok_iff captured)
qed

lemma settled_subjects:
  assumes "settling (cfg old) s"
  shows "subjects_ok (settle uuid e t old s)"
proof -
  define u where "u = reconcile_authentication old (if ef_history e then configuration_events (cfg old) s else s)"
  have "subjects_ok u"
    unfolding u_def using settles.I_configuration_events [OF assms] assms by (auto intro: reconciled_subjects)
  then have v: "subjects_ok (if ef_reboot e then queue_accounting 7 None None None False None (reconcile_accounting old u)
      else renew_credentials old (reconcile_accounting old u))"
    by (simp add: subjects.I_reconcile_accounting subjects.I_renew_credentials subjects.I_queue_accounting)
  have w: "subjects_ok (identity_effects uuid e old (if ef_history e then configuration_events (cfg old) s else s))"
    unfolding identity_effects_def u_def [symmetric] Let_def using v subjects.I_entity by simp
  let ?b = "identity_effects uuid e old (if ef_history e then configuration_events (cfg old) s else s)"
  have "subjects_ok (if ef_links e then traffic_effects old t ?b else ?b)" using w subjects.I_traffic_effects by simp
  then show ?thesis
    unfolding settle_def Let_def notification_effects_def by (simp add: subjects.I_cancel_outbox subjects.I_vlan_clock)
qed

end
