(* ===== verification/Engine_Reachable.thy ===== *)
theory Engine_Reachable
  imports Engine_Safety Set_Plan_Valid
begin

text \<open>
  The states an installation goes through: a process boots from an empty store or from what an earlier
  process committed, commands are executed, real time passes. The invariants of the runtime hold in
  every such state, across configuration changes, SNMP SETs, reboots and restarts.
\<close>

subsection \<open>What a restart finds\<close>

definition empty_store :: saved_state where
  "empty_store = \<lparr>sv_revision = 0, sv_configuration_revision = 0, sv_startup_revision = 0, sv_events = [],
     sv_outbox = [], sv_accounting = [], sv_accounting_sequence = 0, sv_accounting_drops = [],
     sv_queue_octets = 2, sv_memory = []\<rparr>"

definition committed :: "engine \<Rightarrow> saved_state \<Rightarrow> bool" where
  \<comment> \<open>what the store holds of a published state; its table of events may keep one more than the runtime\<close>
  "committed en sv \<longleftrightarrow>
     (let s = en_state en
      in (\<exists>older. sv_events sv = older @ events s \<and> int (length (older @ events s)) \<le> event_id s \<and>
            map ev_id (older @ events s) = [event_id s - int (length (older @ events s)) + 1 .. event_id s]) \<and>
         sv_revision sv = revision s \<and> sv_configuration_revision sv = configuration_revision s \<and>
         sv_startup_revision sv = startup_revision s \<and> sv_outbox sv = outbox s \<and>
         sv_accounting sv = accounting_outbox s \<and> sv_accounting_sequence sv = accounting_sequence s \<and>
         sv_accounting_drops sv = accounting_drops s \<and> sv_memory sv = en_memory en)"

definition later :: "int \<Rightarrow> int \<Rightarrow> int \<Rightarrow> int \<Rightarrow> engine \<Rightarrow> engine" where
  \<comment> \<open>the clocks a command reads\<close>
  "later un uw wn el en = en\<lparr>en_state := (en_state en)\<lparr>uptime_now := un, uptime_wraps := uw, wall_now := wn,
     elapsed_now := el\<rparr>\<rparr>"

definition planned :: "request \<Rightarrow> bool" where
  \<comment> \<open>a SET comes from the planner\<close>
  "planned q \<longleftrightarrow> (\<forall>plan. q = Edit (Ed_set plan) \<longrightarrow>
     (\<exists>bindings prefixes. plan_set (pl_before plan) bindings prefixes = Inr plan))"

inductive reachable :: "engine \<Rightarrow> bool" where
  Installed: "boot env c empty_store = Inr en \<Longrightarrow> reachable en"
| Restarted: "reachable en \<Longrightarrow> committed en sv \<Longrightarrow> boot env c sv = Inr en' \<Longrightarrow> reachable en'"
| Called: "reachable en \<Longrightarrow> planned (ca_request call) \<Longrightarrow> execute fuel uuid stored call en = Some (r, en') \<Longrightarrow>
    reachable en'"
| Passed: "reachable en \<Longrightarrow> reachable (later un uw wn el en)"

subsection \<open>One transaction\<close>

lemma plan_set_ports:
  assumes "plan_set c bindings prefixes = Inr plan"
  shows "pl_before plan = c \<and> keys (ports (pl_candidate plan)) = keys (ports c)"
proof -
  obtain seen where cand: "pl_candidate plan = candidate_of (pl_creates plan) (pl_deletes plan) seen c"
    and before: "pl_before plan = c"
    using plan_set_Inr [OF assms] by blast
  show ?thesis by (simp add: before cand [unfolded candidate_rows])
qed

lemma perform_edit:
  assumes "perform fuel (Edit e) s = Some (Inr (t, tc, r))" and "planned (Edit e)"
  shows "edit_with e s = Inr (t, tc, r)"
    and "e = Ed_set plan \<Longrightarrow> keys (ports (pl_candidate plan)) = keys (ports (cfg s))"
proof -
  show edit: "edit_with e s = Inr (t, tc, r)" using assms(1) by (auto split: edit.splits if_splits)
  assume e: "e = Ed_set plan"
  then have "pl_before plan = cfg s" using assms(1) by (auto split: if_splits)
  then show "keys (ports (pl_candidate plan)) = keys (ports (cfg s))"
    using assms(2) e plan_set_ports unfolding planned_def by metis
qed

lemma transact_Inr:
  assumes "transact fuel uuid q s = Some (Inr (t, reply))"
  obtains u tc where "perform fuel q s = Some (Inr (u, tc, reply))"
    "t = count_revision (ef_durable (request_effect q)) (request_saving q) (settle uuid (request_effect q) tc s u)"
  using assms by (auto simp: transact_def bind_Inr_iff)

context configured_invariant
begin

lemma I_transact:
  assumes s: "I s" and who: "subjects_ok s" and result: "transact fuel uuid q s = Some (Inr (t, reply))"
  shows "I t"
proof -
  obtain u tc where u: "perform fuel q s = Some (Inr (u, tc, reply))"
    and t: "t = count_revision (ef_durable (request_effect q)) (request_saving q) (settle uuid (request_effect q) tc s u)"
    using transact_Inr [OF result] .
  have "I u"
  proof (cases q)
    case (Operate op)
    then show ?thesis using u I_operate [OF s who, of fuel op u tc reply] by simp
  next
    case (Edit e)
    then have "edit_with e s = Inr (u, tc, reply)" using u by (auto split: edit.splits if_splits)
    then show ?thesis by (rule I_edit_with [OF s])
  qed
  then show ?thesis unfolding t by (rule I_commit)
qed

end

lemma subjects_transact:
  assumes ok: "subjects_ok s" and plan: "planned q" and result: "transact fuel uuid q s = Some (Inr (t, reply))"
  shows "subjects_ok t"
proof -
  obtain u tc where u: "perform fuel q s = Some (Inr (u, tc, reply))"
    and t: "t = count_revision (ef_durable (request_effect q)) (request_saving q) (settle uuid (request_effect q) tc s u)"
    using transact_Inr [OF result] .
  have "settling (cfg s) u"
  proof (cases q)
    case (Operate op)
    then have "operate fuel op s = Some (Inr (u, tc, reply))" using u by simp
    then show ?thesis by (rule settles.I_operate [OF settling_unchanged [OF ok] ok])
  next
    case (Edit e)
    then have e: "perform fuel (Edit e) s = Some (Inr (u, tc, reply))" "planned (Edit e)" using u plan by simp_all
    show ?thesis by (rule settled_edit [OF ok perform_edit(1) [OF e] perform_edit(2) [OF e]])
  qed
  then show ?thesis unfolding t by (intro subjects.I_count_revision settled_subjects)
qed

subsection \<open>A boot\<close>

lemma accounting_remove:
  assumes "accounting_ok s"
  shows "accounting_ok (s\<lparr>accounting_outbox := remove1 r (accounting_outbox s)\<rparr>)"
proof -
  have sorted: "sorted_wrt (<) (map ar_sequence (remove1 r q))" if "sorted_wrt (<) (map ar_sequence q)"
    for q :: "accounting_record list"
    using that set_remove1_subset by (induction q) fastforce+
  have "length (remove1 r q) \<le> length q" for q by (simp add: length_remove1)
  then show ?thesis
    using assms sorted set_remove1_subset [of r "accounting_outbox s"]
    unfolding accounting_ok_def list_all_iff by (fastforce intro: le_trans)
qed

lemma accounting_drop_foreign: "accounting_ok s \<Longrightarrow> accounting_ok (drop_foreign s r)"
  by (simp add: drop_foreign_def accounting.I_accounting_drop accounting_remove)

lemma numbered_drop_foreign: "numbered s \<Longrightarrow> numbered (drop_foreign s r)"
proof -
  assume "numbered s"
  then have "numbered (s\<lparr>accounting_outbox := q\<rparr>)" for q by (simp add: numbered_def)
  then show ?thesis using \<open>numbered s\<close> by (simp add: drop_foreign_def numbering.I_accounting_drop)
qed

definition booted :: "runtime \<Rightarrow> runtime" where
  "booted s = (let s = foldl drop_foreign s (accounting_outbox s);
       s = queue_accounting 7 None None None False None (event ''boot'' [] (reset_operational True False s))
     in s\<lparr>revision := revision s + 1\<rparr>)"

lemma boot_Inr:
  assumes "boot env c sv = Inr en"
  shows "en_state en = booted (restored_runtime env c sv)" "length (sv_accounting sv) \<le> 1024"
    "en_memory en = map (\<lambda>(k, m). (k, interrupt_memo m)) (sv_memory sv)"
  using assms by (auto simp: boot_def booted_def bind_Inr_iff Let_def split: if_splits)

lemma booted_subjects: "subjects_ok (booted s)"
proof -
  have "subjects_ok (event ''boot'' [] (reset_operational True False u))" for u
    by (simp add: subjects_ok_def reset_idle filed_sessions_def filed_attempts_def captured_policy_def)
  from subjects.I_queue_accounting [OF this] show ?thesis
    unfolding booted_def Let_def by (rule subjects_same) simp_all
qed

lemma booted_history:
  assumes "numbered s"
  shows "history_ok (booted s)"
proof -
  have "numbered (foldl drop_foreign s rs)" for rs
    using numbered_drop_foreign assms by (rule foldl_invariant [where P = numbered])
  then have "history_ok (event ''boot'' [] (reset_operational True False (foldl drop_foreign s rs)))" for rs
    by (intro history_event numbering.I_reset_operational)
  from history.I_queue_accounting [OF this] show ?thesis
    unfolding booted_def Let_def by (rule history_apart) simp_all
qed

lemma booted_accounting:
  assumes "accounting_ok s"
  shows "accounting_ok (booted s)"
proof -
  have "accounting_ok (foldl drop_foreign s rs)" for rs
    using accounting_drop_foreign assms by (rule foldl_invariant [where P = accounting_ok])
  then have "accounting_ok (queue_accounting 7 None None None False None (event ''boot'' []
      (reset_operational True False (foldl drop_foreign s rs))))" for rs
    by (intro accounting.I_queue_accounting accounting.I_event accounting.I_reset_operational)
  then show ?thesis by (simp add: booted_def Let_def accounting_ok_def)
qed

lemma last_number:
  assumes "map ev_id es = [n - int (length es) + 1 .. n]" and "int (length es) \<le> n"
  shows "fold max (map ev_id es) 0 = (if es = [] then 0 else n)"
proof (cases "es = []")
  case False
  then have "map ev_id es = [n - int (length es) + 1 .. n - 1] @ [n]"
    using assms(1) upto_rec2 [of "n - int (length es) + 1" n] by (cases es) auto
  moreover have "fold max xs m \<le> n" if "\<forall>x \<in> set xs. x \<le> n" "m \<le> n" for xs :: "int list" and m
    using that by (induction xs arbitrary: m) auto
  then have "fold max [n - int (length es) + 1 .. n - 1] 0 \<le> n" using assms(2) by auto
  ultimately show ?thesis using False by simp
qed simp

lemma restored_ok:
  assumes "accounting_ok (en_state en)" and "committed en sv"
  shows "numbered (restored_runtime env c sv)" "accounting_ok (restored_runtime env c sv)"
proof -
  obtain es where es: "sv_events sv = es" "int (length es) \<le> event_id (en_state en)"
      "map ev_id es = [event_id (en_state en) - int (length es) + 1 .. event_id (en_state en)]"
    using assms(2) unfolding committed_def Let_def by blast
  show "numbered (restored_runtime env c sv)"
    using es last_number [OF es(3,2)] by (simp add: restored_runtime_def numbered_def)
  show "accounting_ok (restored_runtime env c sv)"
    using assms by (simp add: restored_runtime_def accounting_ok_def committed_def Let_def)
qed

lemma empty_store_ok: "numbered (restored_runtime env c empty_store)" "accounting_ok (restored_runtime env c empty_store)"
  by (simp_all add: restored_runtime_def empty_store_def numbered_def accounting_ok_def new_runtime_def)

subsection \<open>Every reachable state\<close>

definition engine_ok :: "engine \<Rightarrow> bool" where
  "engine_ok en \<longleftrightarrow> history_ok (en_state en) \<and> accounting_ok (en_state en) \<and> subjects_ok (en_state en) \<and>
     length (en_memory en) \<le> 256"

lemma keep_last_bounded: "length (keep_last n xs) \<le> n"
  by (simp add: keep_last_def)

lemma remember_bounded: "length d \<le> 256 \<Longrightarrow> length (remember key q r old s d) \<le> 256"
  by (simp add: remember_def Let_def keep_last_bounded split: option.split)

lemma publish_cases:
  assumes "publish stored call en t reply = (r, en')"
  obtains (kept) e where "en_state en' = en_state en" "en_memory en' = en_memory en" "r = Inl e"
  | (saved) "stored t = Saved" "r = Inr (published reply t)" "en_state en' = t"
      "en_memory en' = remember (call_key call) (ca_request call) (published reply t) (en_state en) t (en_memory en)"
proof (cases "stored t")
  case Saved
  then show ?thesis using assms by (intro saved) (auto simp: publish_def)
next
  case Undone
  then show ?thesis using assms by (intro kept [of Not_saved]) (auto simp: publish_def)
next
  case (Lost reason)
  then show ?thesis using assms by (intro kept [of "Storage_fault reason"]) (auto simp: publish_def)
qed

lemma fresh_cases:
  assumes "fresh_transaction fuel uuid stored call en = Some (r, en')"
  obtains (same) e where "en' = en" "r = Inl e"
  | (ended) t reply where "transact fuel uuid (ca_request call) (en_state en) = Some (Inr (t, reply))"
      "publish stored call en t reply = (r, en')"
proof (cases "stale_revision (ca_expected call) (ca_expected_config call) (en_state en)")
  case (Some message)
  then show ?thesis using assms same by (auto simp: fresh_transaction_def rejected_def)
next
  case None
  then obtain x where x: "transact fuel uuid (ca_request call) (en_state en) = Some x"
    using assms by (auto simp: fresh_transaction_def)
  show ?thesis
  proof (cases x)
    case (Inl e)
    then show ?thesis using assms None x same by (auto simp: fresh_transaction_def)
  next
    case (Inr y)
    then show ?thesis using assms None x ended by (cases y) (auto simp: fresh_transaction_def)
  qed
qed

lemma execute_cases:
  assumes "execute fuel uuid stored call en = Some (r, en')"
  obtains (kept) "en_state en' = en_state en" "en_memory en' = en_memory en"
  | (saved) t reply where "transact fuel uuid (ca_request call) (en_state en) = Some (Inr (t, reply))"
      "r = Inr (published reply t)" "en_state en' = t"
      "en_memory en' = remember (call_key call) (ca_request call) (published reply t) (en_state en) t (en_memory en)"
proof -
  consider (idle) "en' = en" | (fresh) "fresh_transaction fuel uuid stored call en = Some (r, en')"
    using assms unfolding execute_def by (auto split: option.splits)
  then show ?thesis
  proof cases
    case idle
    then show ?thesis by (intro kept) simp_all
  next
    case fresh
    then show ?thesis
    proof (cases rule: fresh_cases)
      case (ended t reply)
      from ended(2) show ?thesis
        by (cases rule: publish_cases) (use that ended(1) in blast)+
    qed (intro kept, simp_all)
  qed
qed

lemma engine_ok_execute:
  assumes "engine_ok en" and "planned (ca_request call)" and "execute fuel uuid stored call en = Some (r, en')"
  shows "engine_ok en'"
  using assms(3)
proof (cases rule: execute_cases)
  case (saved t reply)
  have "history_ok t" "accounting_ok t" "subjects_ok t"
    using assms(1,2) saved(1) history.I_transact accounting.I_transact subjects_transact
    unfolding engine_ok_def by blast+
  then show ?thesis using assms(1) by (simp add: engine_ok_def saved remember_bounded)
qed (use assms(1) in \<open>simp add: engine_ok_def\<close>)

lemma engine_ok_later: "engine_ok en \<Longrightarrow> engine_ok (later un uw wn el en)"
  by (simp add: engine_ok_def later_def history.I_environment accounting.I_environment subjects.I_environment)

lemma engine_ok_boot:
  assumes "numbered (restored_runtime env c sv)" "accounting_ok (restored_runtime env c sv)"
    and "length (sv_memory sv) \<le> 256" and "boot env c sv = Inr en"
  shows "engine_ok en"
  using assms by (simp add: engine_ok_def boot_Inr booted_history booted_accounting booted_subjects)

lemma engine_ok_reachable: "reachable en \<Longrightarrow> engine_ok en"
proof (induction rule: reachable.induct)
  case (Installed env c en)
  then show ?case by (intro engine_ok_boot [OF empty_store_ok]) (simp_all add: empty_store_def)
next
  case (Restarted en sv env c en')
  then have ok: "accounting_ok (en_state en)" "length (sv_memory sv) \<le> 256"
    by (simp_all add: engine_ok_def committed_def Let_def)
  show ?case
    by (rule engine_ok_boot [OF restored_ok [OF ok(1) Restarted.hyps(2)] ok(2) Restarted.hyps(3)])
next
  case (Called en call fuel uuid stored r en')
  show ?case by (rule engine_ok_execute [OF Called.IH Called.hyps(2,3)])
next
  case (Passed en un uw wn el)
  show ?case by (rule engine_ok_later [OF Passed.IH])
qed

end
