(* ===== verification/Records_Valid.thy ===== *)
theory Records_Valid
  imports Engine_Safety Set_Plan_Valid
begin

text \<open>
  The record commands keep the references between the records: a handler checks the record it saves, or
  the records that depend on the one it deletes, and the lemmas here show that no other reference can
  have broken. The references split into those of supplicant profiles to certificate material and those
  among credentials, groups, views and targets.
\<close>

subsection \<open>What the checks ask\<close>

definition kind_of :: "configuration \<Rightarrow> uid \<Rightarrow> material_kind option" where
  "kind_of c i = map_option m_kind (map_of (materials (radius c)) i)"

lemma check_profile_iff:
  "check_profile c (Some p) = Inr () \<longleftrightarrow> kind_of c (trust_id p) = Some Ca \<and>
     (case client_identity_id p of None \<Rightarrow> sp_method p \<noteq> Tls | Some i \<Rightarrow> kind_of c i = Some Client)"
  by (auto simp: check_profile_def kind_of_def optional_lookup_def Let_def split: option.splits)

lemma check_policy_iff:
  "check_policy c pl wr = Inr () \<longleftrightarrow> (pl_enabled pl \<longrightarrow> has (views c) (pl_view_id pl)) \<and>
     (wr_enabled wr \<longrightarrow> (\<exists>v. wr_view_id wr = Some v \<and> has (views c) v))"
  by (auto simp: check_policy_def optional_lookup_def has_def split: option.splits)

lemma check_credential_iff:
  "check_credential c cr u = Inr () \<longleftrightarrow>
     (case c_access cr of V3 g \<Rightarrow> (\<forall>i. g = Some i \<longrightarrow> has (groups c) i) | V2c pl wr \<Rightarrow> check_policy c pl wr = Inr ()) \<and>
     (u \<and> c_enabled cr \<longrightarrow> check_credential_identities c = Inr ())"
  by (auto simp: check_credential_def bind_Inr_iff optional_lookup_def has_def split: access.splits option.splits)

lemma check_target_iff:
  "check_target c t = Inr () \<longleftrightarrow> has (credentials c) (tg_credential_id t) \<and>
     (case tg_source t of None \<Rightarrow> True | Some src \<Rightarrow> ip_version src = ip_version (tg_address t))"
  by (auto simp: check_target_def split: option.splits)

definition profiles_ok :: "configuration \<Rightarrow> bool" where
  "profiles_ok c \<longleftrightarrow> (\<forall>p \<in> set (supplicant_profiles c). check_profile c (Some p) = Inr ())"

definition access_refs :: "configuration \<Rightarrow> bool" where
  "access_refs c \<longleftrightarrow> (\<forall>cr \<in> set (vals (credentials c)). check_credential c cr False = Inr ()) \<and>
     (\<forall>(k, g) \<in> set (groups c). k = g_id g) \<and>
     (\<forall>g \<in> set (vals (groups c)). check_policy c (g_polling g) (g_writing g) = Inr ()) \<and>
     check_credential_identities c = Inr () \<and> (\<forall>t \<in> set (vals (targets c)). check_target c t = Inr ()) \<and>
     snmp_limit (credentials c) = Inr () \<and> snmp_limit (groups c) = Inr () \<and>
     snmp_limit (targets c) = Inr () \<and> snmp_limit (views c) = Inr ()"

lemma logical_split:
  "logical c \<longleftrightarrow> (\<forall>(k, e) \<in> set (endpoints c). k = e_id e) \<and> (\<forall>(e, k) \<in> set (attachments c). has (endpoints c) e) \<and>
     profiles_ok c \<and> access_refs c"
  unfolding logical_def profiles_ok_def access_refs_def by blast

subsection \<open>Access\<close>

lemma vals_put: "set (vals (put k v d)) \<subseteq> insert v (set (vals d))"
  by (induction d) (auto simp: vals_def)

lemma vals_drop_key: "set (vals (drop_key k d)) \<subseteq> set (vals d)"
  by (induction d) (auto simp: vals_def)

lemma identities_put:
  "\<not> P v \<Longrightarrow> distinct (map f (filter P (vals d))) \<Longrightarrow> distinct (map f (filter P (vals (put k v d))))"
  by (induction d) (force simp: vals_def dest!: put_values)+

lemma identities_drop:
  "distinct (map f (filter P (vals d))) \<Longrightarrow> distinct (map f (filter P (vals (drop_key k d))))"
  by (induction d) (force simp: vals_def drop_key_set)+

lemma snmp_limit_iff [simp]: "snmp_limit d = Inr () \<longleftrightarrow> length d \<le> 100"
  by (simp add: snmp_limit_def)

lemma length_drop_key_short: "length d \<le> n \<Longrightarrow> length (drop_key k d) \<le> n"
  by (rule le_trans [OF length_drop_key_le])

lemma more_views:
  "(\<And>v. has (views c) v \<Longrightarrow> has (views d) v) \<Longrightarrow> check_policy c pl wr = Inr () \<Longrightarrow> check_policy d pl wr = Inr ()"
  by (auto simp: check_policy_iff)

lemma access_refs_views:
  assumes ok: "access_refs c" and more: "\<And>v. has (views c) v \<Longrightarrow> has vs v" and "length vs \<le> 100"
  shows "access_refs (c\<lparr>views := vs\<rparr>)"
proof -
  let ?d = "c\<lparr>views := vs\<rparr>"
  have policy: "check_policy ?d pl wr = Inr ()" if "check_policy c pl wr = Inr ()" for pl wr
    using more_views [of c ?d] more that by simp
  have "check_credential ?d cr False = Inr ()" if "check_credential c cr False = Inr ()" for cr
    using that policy by (auto simp: check_credential_iff split: access.splits)
  then show ?thesis
    using ok policy assms(3) by (auto simp: access_refs_def check_credential_identities_def check_target_iff)
qed

lemma access_refs_view_delete:
  assumes ok: "access_refs c" and d: "d = c\<lparr>views := drop_key ident (views c)\<rparr>"
    and checked: "\<And>pl wr. (pl, wr) \<in> set (access_policies c) \<Longrightarrow> selects_view ident (pl, wr) \<Longrightarrow> check_policy d pl wr = Inr ()"
  shows "access_refs d"
proof -
  have policy: "check_policy d pl wr = Inr ()" if "check_policy c pl wr = Inr ()" "(pl, wr) \<in> set (access_policies c)" for pl wr
  proof (cases "selects_view ident (pl, wr)")
    case False
    then show ?thesis using that(1) by (auto simp: check_policy_iff d has_drop_key selects_view_def)
  qed (use checked that in simp)
  have "(pl, wr) \<in> set (access_policies c)" if "cr \<in> set (vals (credentials c))" "c_access cr = V2c pl wr" for cr pl wr
    using that by (force simp: access_policies_def List.map_filter_def)
  then have "check_credential d cr False = Inr ()"
    if "cr \<in> set (vals (credentials c))" "check_credential c cr False = Inr ()" for cr
    using that policy by (auto simp: check_credential_iff d split: access.splits)
  moreover have "(g_polling g, g_writing g) \<in> set (access_policies c)" if "g \<in> set (vals (groups c))" for g
    using that by (auto simp: access_policies_def)
  ultimately show ?thesis
    using ok policy length_drop_key_short [of "views c"]
    by (auto simp: access_refs_def check_credential_identities_def check_target_iff d)
qed

lemma add_group_Inr:
  "add_group g c = Inr d \<Longrightarrow> d = c\<lparr>groups := put (g_id g) g (groups c)\<rparr> \<and> group_ok g = Inr () \<and>
     length (groups d) \<le> 100 \<and> check_policy d (g_polling g) (g_writing g) = Inr ()"
  by (auto simp: add_group_def bind_Inr_iff Let_def)

lemma same_credential_checks:
  assumes "check_policy d = check_policy c" and "groups d = groups c"
  shows "check_credential d cr False = Inr () \<longleftrightarrow> check_credential c cr False = Inr ()"
  by (simp add: check_credential_iff assms split: access.split)

lemma access_refs_group:
  assumes ok: "access_refs c" and d: "add_group g c = Inr d"
  shows "access_refs d"
proof -
  have form: "d = c\<lparr>groups := put (g_id g) g (groups c)\<rparr>" and room: "length (groups d) \<le> 100"
    and checked: "check_policy d (g_polling g) (g_writing g) = Inr ()"
    using add_group_Inr [OF d] by blast+
  have policy: "check_policy d pl wr = check_policy c pl wr" for pl wr
    by (simp add: check_policy_def form)
  have "check_credential d cr False = Inr ()" if "check_credential c cr False = Inr ()" for cr
    using that unfolding check_credential_iff policy by (auto simp: form has_put split: access.splits)
  moreover have "check_policy d (g_polling h) (g_writing h) = Inr ()" if "h \<in> set (vals (groups d))" for h
    using that checked ok vals_put [of "g_id g" g "groups c"] by (auto simp: form access_refs_def policy [unfolded form])
  moreover have "k = g_id h" if "(k, h) \<in> set (groups d)" for k h
    using that ok put_values [of "(k, h)" "g_id g" g "groups c"] by (auto simp: form access_refs_def)
  ultimately show ?thesis
    using ok room by (auto simp: access_refs_def check_credential_identities_def check_target_iff form)
qed

lemma access_refs_group_delete:
  assumes ok: "access_refs c" and d: "d = c\<lparr>groups := drop_key ident (groups c)\<rparr>"
    and checked: "\<And>cr. cr \<in> set (vals (credentials c)) \<Longrightarrow> in_group ident cr \<Longrightarrow> check_credential d cr False = Inr ()"
  shows "access_refs d"
proof -
  have policy: "check_policy d = check_policy c" by (intro ext) (simp add: check_policy_def d)
  have "check_credential d cr False = Inr ()"
    if "cr \<in> set (vals (credentials c))" "check_credential c cr False = Inr ()" for cr
  proof (cases "in_group ident cr")
    case False
    then show ?thesis
      using that(2) unfolding check_credential_iff policy by (auto simp: d has_drop_key in_group_def split: access.splits)
  qed (use checked that in simp)
  moreover have "h \<in> set (vals (groups c))" if "h \<in> set (vals (groups d))" for h
    using that vals_drop_key [of ident "groups c"] by (auto simp: d)
  ultimately show ?thesis
    using ok length_drop_key_short [of "groups c"]
    by (auto simp: access_refs_def check_credential_identities_def check_target_iff d drop_key_set policy [unfolded d])
qed

lemma access_refs_credential:
  assumes ok: "access_refs c" and result: "add_credential cr c = Inr d"
  shows "access_refs d"
proof -
  have d: "d = c\<lparr>credentials := put (c_id cr) cr (credentials c)\<rparr>" and room: "length (credentials d) \<le> 100"
    and checked: "check_credential d cr True = Inr ()"
    using result by (auto simp: add_credential_def bind_Inr_iff Let_def)
  have policy: "check_policy d = check_policy c" by (intro ext) (simp add: check_policy_def d)
  have same: "check_credential d x False = Inr () \<longleftrightarrow> check_credential c x False = Inr ()" for x
    by (rule same_credential_checks [OF policy]) (simp add: d)
  have "check_credential_identities d = Inr ()"
  proof (cases "c_enabled cr")
    case True
    then show ?thesis using checked by (simp add: check_credential_iff)
  next
    case False
    then show ?thesis
      using ok identities_put [of c_enabled cr credential_identity "credentials c" "c_id cr"]
      by (simp add: access_refs_def check_credential_identities_def d)
  qed
  moreover have "check_credential d x False = Inr ()" if "x \<in> set (vals (credentials d))" for x
    using that checked ok vals_put [of "c_id cr" cr "credentials c"] unfolding same
    by (auto simp: d access_refs_def check_credential_iff policy [unfolded d] split: access.splits)
  ultimately show ?thesis
    using ok room by (auto simp: access_refs_def check_target_iff d has_put policy [unfolded d])
qed

lemma access_refs_credential_delete:
  assumes ok: "access_refs c" and d: "d = c\<lparr>credentials := drop_key ident (credentials c)\<rparr>"
    and checked: "\<And>t. t \<in> set (vals (targets c)) \<Longrightarrow> selects_credential ident t \<Longrightarrow> check_target d t = Inr ()"
  shows "access_refs d"
proof -
  have policy: "check_policy d = check_policy c" by (intro ext) (simp add: check_policy_def d)
  have same: "check_credential d x False = Inr () \<longleftrightarrow> check_credential c x False = Inr ()" for x
    by (rule same_credential_checks [OF policy]) (simp add: d)
  have "check_target d t = Inr ()" if "t \<in> set (vals (targets c))" "check_target c t = Inr ()" for t
    using that checked by (cases "selects_credential ident t")
      (auto simp: check_target_iff d has_drop_key selects_credential_def)
  then show ?thesis
    using ok identities_drop [of _ c_enabled "credentials c"] vals_drop_key [of ident "credentials c"]
      length_drop_key_short [of "credentials c"]
    unfolding access_refs_def same policy by (auto simp: check_credential_identities_def d)
qed

lemma access_refs_targets:
  assumes ok: "access_refs c" and d: "d = c\<lparr>targets := ts\<rparr>" and "length ts \<le> 100"
    and checked: "\<And>t. t \<in> set (vals ts) \<Longrightarrow> check_target c t = Inr ()"
  shows "access_refs d"
proof -
  have same: "check_policy d = check_policy c" "check_target d = check_target c"
    by (intro ext; simp add: check_policy_def check_target_def d)+
  have cred: "check_credential d x False = Inr () \<longleftrightarrow> check_credential c x False = Inr ()" for x
    by (rule same_credential_checks [OF same(1)]) (simp add: d)
  show ?thesis
    using ok assms(3) checked unfolding access_refs_def same cred by (auto simp: d check_credential_identities_def)
qed

lemma access_refs_same:
  assumes "access_refs c" and "views d = views c" "groups d = groups c" "credentials d = credentials c" "targets d = targets c"
  shows "access_refs d"
proof -
  have same: "check_policy d = check_policy c" "check_target d = check_target c"
    by (intro ext; simp only: check_policy_def check_target_def assms)+
  have cred: "check_credential d x False = Inr () \<longleftrightarrow> check_credential c x False = Inr ()" for x
    by (rule same_credential_checks [OF same(1)]) (simp add: assms)
  show ?thesis
    using assms(1) unfolding access_refs_def same cred by (simp add: assms check_credential_identities_def)
qed

subsection \<open>Profiles\<close>

lemma same_kinds:
  "kind_of d = kind_of c \<Longrightarrow> check_profile d (Some p) = Inr () \<longleftrightarrow> check_profile c (Some p) = Inr ()"
  by (simp add: check_profile_iff cong: option.case_cong)

lemma profiles_ok_same:
  assumes "profiles_ok c" and "materials (radius d) = materials (radius c)"
    and "set (supplicant_profiles d) \<subseteq> set (supplicant_profiles c)"
  shows "profiles_ok d"
proof -
  have "kind_of d = kind_of c" by (intro ext) (simp add: kind_of_def assms(2))
  from same_kinds [OF this] show ?thesis using assms(1,3) unfolding profiles_ok_def by blast
qed

lemma supplicant_profiles_same:
  "templates (radius d) = templates (radius c) \<Longrightarrow> endpoints d = endpoints c \<Longrightarrow> supplicant_profiles d = supplicant_profiles c"
  by (simp add: supplicant_profiles_def)

lemma profiles_ok_material:
  assumes ok: "profiles_ok c" and same: "templates (radius d) = templates (radius c)" "endpoints d = endpoints c"
    and others: "\<And>j. j \<noteq> i \<Longrightarrow> kind_of d j = kind_of c j"
    and checked: "kind_of c i = None \<or> kind_of d i = kind_of c i \<or> check_material_dependents d i = Inr ()"
  shows "profiles_ok d"
  unfolding profiles_ok_def
proof
  fix p assume p: "p \<in> set (supplicant_profiles d)"
  then have old: "check_profile c (Some p) = Inr ()"
    using ok supplicant_profiles_same [OF same] by (simp add: profiles_ok_def)
  show "check_profile d (Some p) = Inr ()"
  proof (cases "trust_id p = i \<or> client_identity_id p = Some i")
    case False
    then show ?thesis using old others by (auto simp: check_profile_iff split: option.splits)
  next
    case True
    consider "kind_of d i = kind_of c i" | "check_material_dependents d i = Inr ()"
      using checked old True by (auto simp: check_profile_iff)
    then show ?thesis
    proof cases
      case 1
      then have "kind_of d = kind_of c" using others by (intro ext) metis
      from same_kinds [OF this] show ?thesis using old by simp
    next
      case 2
      then show ?thesis using True p by (fastforce simp: check_material_dependents_def first_error_ok)
    qed
  qed
qed

lemma kind_of_saved: "kind_of (with_radius (r\<lparr>materials := put i m (materials r)\<rparr>) c) j =
    (if j = i then Some (m_kind m) else map_option m_kind (map_of (materials r) j))"
  by (simp add: kind_of_def with_radius_def lookup_put)

lemma profiles_material_save:
  assumes ok: "profiles_ok c" and fresh: "\<not> has (materials (radius c)) (fresh 0)"
    and result: "radius_material_save q fresh c = Inr m"
  shows "profiles_ok (mk_cfg m)"
proof -
  define old where "old = optional_lookup (materials (radius c)) (mq_id q)"
  obtain x where x: "merged_material (fresh 0) q old = Inr x"
    and d: "mk_cfg m = with_radius ((radius c)\<lparr>materials := put (m_id x) x (materials (radius c))\<rparr>) c"
    and checked: "\<And>y. old = Some y \<Longrightarrow> m_kind y \<noteq> m_kind x \<Longrightarrow> check_material_dependents (mk_cfg m) (m_id x) = Inr ()"
    using result that [of x] unfolding radius_material_save_def Let_def old_def [symmetric]
    by (fastforce simp: bind_Inr_iff noted_def)
  have id: "m_id x = given (mq_id q) (fresh 0)"
    using x by (auto simp: merged_material_def bind_Inr_iff Let_def)
  have old: "map_of (materials (radius c)) (m_id x) = old"
    using fresh by (cases "mq_id q") (auto simp: id old_def optional_lookup_def given_def has_def)
  show ?thesis
  proof (rule profiles_ok_material [OF ok])
    show "kind_of (mk_cfg m) j = kind_of c j" if "j \<noteq> m_id x" for j
      unfolding d kind_of_saved using that by (simp add: kind_of_def)
    show "kind_of c (m_id x) = None \<or> kind_of (mk_cfg m) (m_id x) = kind_of c (m_id x) \<or>
        check_material_dependents (mk_cfg m) (m_id x) = Inr ()"
    proof (cases old)
      case None
      then show ?thesis using old by (simp add: kind_of_def)
    next
      case (Some y)
      then have "kind_of c (m_id x) = Some (m_kind y)" using old by (simp add: kind_of_def)
      then show ?thesis
        using checked [OF Some] unfolding d kind_of_saved by (cases "m_kind y = m_kind x") simp_all
    qed
  qed (simp_all add: d with_radius_def)
qed

lemma profiles_material_delete:
  assumes ok: "profiles_ok c" and result: "radius_material_delete i c = Inr m"
  shows "profiles_ok (mk_cfg m)"
proof -
  have d: "mk_cfg m = with_radius ((radius c)\<lparr>materials := drop_key i (materials (radius c))\<rparr>) c"
    and checked: "check_material_dependents (mk_cfg m) i = Inr ()"
    using result by (auto simp: radius_material_delete_def bind_Inr_iff Let_def noted_def)
  show ?thesis
    by (rule profiles_ok_material [OF ok, of _ i]) (simp_all add: checked, simp_all add: d with_radius_def kind_of_def lookup_drop_key)
qed

lemma profiles_template_save:
  assumes ok: "profiles_ok c" and result: "radius_template_save q fresh c = Inr m"
  shows "profiles_ok (mk_cfg m)"
proof -
  obtain t where d: "mk_cfg m = with_radius ((radius c)\<lparr>templates := put (t_id t) t (templates (radius c))\<rparr>) c"
    and checked: "check_profile (mk_cfg m) (Some (t_profile t)) = Inr ()"
    using result unfolding radius_template_save_def Let_def
    by (clarsimp simp: bind_Inr_iff noted_def simp del: required_Inr) (metis supplicant_template.select_convs(1,4))
  have same: "check_profile (mk_cfg m) (Some p) = check_profile c (Some p)" for p
    by (simp add: check_profile_def d with_radius_def)
  have "p = t_profile t \<or> p \<in> set (supplicant_profiles c)" if "p \<in> set (supplicant_profiles (mk_cfg m))" for p
    using that vals_put [of "t_id t" t "templates (radius c)"] by (auto simp: supplicant_profiles_def d with_radius_def)
  then show ?thesis using ok checked unfolding profiles_ok_def same by blast
qed

lemma profiles_template_delete:
  assumes ok: "profiles_ok c" and result: "radius_template_delete i c = Inr m"
  shows "profiles_ok (mk_cfg m)"
proof -
  have d: "mk_cfg m = with_radius ((radius c)\<lparr>templates := drop_key i (templates (radius c))\<rparr>) c"
    using result by (auto simp: radius_template_delete_def bind_Inr_iff noted_def)
  show ?thesis
    by (rule profiles_ok_same [OF ok])
      (use vals_drop_key [of i "templates (radius c)"] in \<open>auto simp: d with_radius_def supplicant_profiles_def\<close>)
qed

subsection \<open>Every record command\<close>

lemma access_refs_merge: "access_refs c \<Longrightarrow> merge_credential q old fresh c = Inr (d, n, cr) \<Longrightarrow> access_refs d"
  using merge_credential_cfg access_refs_group by blast

lemma access_refs_inline: "access_refs c \<Longrightarrow> inline_credential k fresh c = Inr (d, n, cr) \<Longrightarrow> access_refs d"
  by (auto simp: inline_credential_def bind_Inr_iff split: option.splits
      elim!: access_refs_credential [rotated] access_refs_merge [rotated])

lemma access_refs_view_save:
  assumes "access_refs c" and "view_save q fresh c = Inr m"
  shows "access_refs (mk_cfg m)"
proof -
  obtain v where d: "mk_cfg m = c\<lparr>views := put (v_id v) v (views c)\<rparr>" and "length (put (v_id v) v (views c)) \<le> 100"
    using assms(2) unfolding view_save_def Let_def
    by (clarsimp simp: bind_Inr_iff noted_def simp del: required_Inr) (metis view.select_convs(1))
  then show ?thesis unfolding d by (intro access_refs_views assms(1)) (simp_all add: has_put)
qed

lemma access_refs_deleted_view:
  assumes ok: "access_refs c" and result: "view_delete ident c = Inr m"
  shows "access_refs (mk_cfg m)"
proof (rule access_refs_view_delete [OF ok])
  show d: "mk_cfg m = c\<lparr>views := drop_key ident (views c)\<rparr>"
    using result by (auto simp: view_delete_def bind_Inr_iff Let_def noted_def)
  have "access_policies (mk_cfg m) = access_policies c" by (simp add: d access_policies_def)
  then show "check_policy (mk_cfg m) pl wr = Inr ()" if "(pl, wr) \<in> set (access_policies c)" "selects_view ident (pl, wr)" for pl wr
    using that result by (auto simp: view_delete_def bind_Inr_iff Let_def noted_def first_error_ok)
qed

lemma access_refs_deleted_group:
  assumes ok: "access_refs c" and result: "group_delete ident c = Inr m"
  shows "access_refs (mk_cfg m)"
  by (rule access_refs_group_delete [OF ok, of _ ident])
    (use result in \<open>auto simp: group_delete_def bind_Inr_iff Let_def noted_def first_error_ok\<close>)

lemma access_refs_deleted_credential:
  assumes ok: "access_refs c" and result: "credential_delete ident c = Inr m"
  shows "access_refs (mk_cfg m)"
  by (rule access_refs_credential_delete [OF ok, of _ ident])
    (use result in \<open>auto simp: credential_delete_def bind_Inr_iff Let_def noted_def first_error_ok\<close>)

lemma access_refs_target_save:
  assumes ok: "access_refs c" and result: "target_save q fresh label c = Inr m"
  shows "access_refs (mk_cfg m)"
proof -
  obtain d n cr t where inline: "inline_credential (hq_new q) fresh c = Inr (d, n, cr)"
    and m: "mk_cfg m = d\<lparr>targets := put (tg_id t) t (targets d)\<rparr>"
    and "snmp_limit (put (tg_id t) t (targets d)) = Inr ()" and checked: "check_target (mk_cfg m) t = Inr ()"
    using result by (rule target_save_Inr)
  then have room: "length (put (tg_id t) t (targets d)) \<le> 100" by simp
  have d: "access_refs d" by (rule access_refs_inline [OF ok inline])
  have same: "check_target (mk_cfg m) = check_target d" by (intro ext) (simp add: check_target_def m)
  show ?thesis
  proof (rule access_refs_targets [OF d m room])
    fix x assume "x \<in> set (vals (put (tg_id t) t (targets d)))"
    then show "check_target d x = Inr ()"
      using vals_put [of "tg_id t" t "targets d"] checked d unfolding same by (auto simp: access_refs_def)
  qed
qed

lemma access_refs_target_delete:
  assumes ok: "access_refs c" and result: "target_delete ident label c = Inr m"
  shows "access_refs (mk_cfg m)"
proof -
  have d: "mk_cfg m = c\<lparr>targets := drop_key ident (targets c)\<rparr>"
    using result by (auto simp: target_delete_def bind_Inr_iff noted_def)
  show ?thesis
    by (rule access_refs_targets [OF ok d])
      (use ok vals_drop_key [of ident "targets c"] length_drop_key_short [of "targets c"] in \<open>auto simp: access_refs_def\<close>)
qed

lemma access_refs_record:
  assumes ok: "access_refs c" and result: "record_change e fresh label c = Inr m"
  shows "access_refs (mk_cfg m)"
proof (cases e)
  case (Rec_view q)
  then show ?thesis using access_refs_view_save [OF ok] result by simp
next
  case (Rec_view_delete i)
  then show ?thesis using access_refs_deleted_view [OF ok] result by simp
next
  case (Rec_group q)
  then show ?thesis
    using result by (auto simp: group_save_def bind_Inr_iff Let_def noted_def intro: access_refs_group [OF ok])
next
  case (Rec_group_delete i)
  then show ?thesis using access_refs_deleted_group [OF ok] result by simp
next
  case (Rec_credential q)
  then show ?thesis
    using result by (auto simp: credential_save_def bind_Inr_iff noted_def
        intro: access_refs_credential access_refs_merge [OF ok])
next
  case (Rec_credential_delete i)
  then show ?thesis using access_refs_deleted_credential [OF ok] result by simp
next
  case (Rec_target q)
  then show ?thesis using access_refs_target_save [OF ok] result by simp
next
  case (Rec_target_delete i)
  then show ?thesis using access_refs_target_delete [OF ok] result by simp
next
  case (Rec_snmp q)
  then show ?thesis
    using result by (auto simp: snmp_settings_edit_def bind_Inr_iff Let_def announced_def intro!: access_refs_same [OF ok])
qed (use radius_change_cfg [OF result] in \<open>auto intro!: access_refs_same [OF ok]\<close>)

definition same_profiles :: "configuration \<Rightarrow> configuration \<Rightarrow> bool" where
  "same_profiles d c \<longleftrightarrow> materials (radius d) = materials (radius c) \<and> templates (radius d) = templates (radius c)"

lemma server_records_profiles:
  "radius_server_save q fresh c = Inr m \<Longrightarrow> same_profiles (mk_cfg m) c"
  "radius_server_delete i c = Inr m \<Longrightarrow> same_profiles (mk_cfg m) c"
  "accounting_target_save q fresh c = Inr m \<Longrightarrow> same_profiles (mk_cfg m) c"
  "accounting_target_delete i c = Inr m \<Longrightarrow> same_profiles (mk_cfg m) c"
  by (auto simp: radius_server_save_def radius_server_delete_def accounting_target_save_def accounting_target_delete_def
      bind_Inr_iff noted_def with_radius_def with_targets_def same_profiles_def)

lemma option_records_profiles:
  "dynamic_sender_save d fresh c = Inr m \<Longrightarrow> same_profiles (mk_cfg m) c"
  "dynamic_sender_delete i c = Inr m \<Longrightarrow> same_profiles (mk_cfg m) c"
  "dynamic_settings_edit y c = Inr m \<Longrightarrow> same_profiles (mk_cfg m) c"
  "radius_settings_edit q c = Inr m \<Longrightarrow> same_profiles (mk_cfg m) c"
  "accounting_settings_edit a c = Inr m \<Longrightarrow> same_profiles (mk_cfg m) c"
  by (auto simp: dynamic_sender_save_def dynamic_sender_delete_def dynamic_settings_edit_def radius_settings_edit_def
      accounting_settings_edit_def patched_radius_def bind_Inr_iff Let_def noted_def announced_def with_radius_def
      with_dynamic_def same_profiles_def split: option.splits if_splits)

lemma profiles_record:
  assumes ok: "profiles_ok c" and fresh: "\<not> has (materials (radius c)) (fresh 0)"
    and result: "record_change e fresh label c = Inr m"
  shows "profiles_ok (mk_cfg m)"
proof -
  have network: "endpoints (mk_cfg m) = endpoints c"
    using record_change_network [OF result] by (simp add: same_network_def)
  have same: "profiles_ok (mk_cfg m)" if "same_profiles (mk_cfg m) c"
    by (rule profiles_ok_same [OF ok])
      (use that supplicant_profiles_same [of "mk_cfg m" c] network in \<open>simp_all add: same_profiles_def\<close>)
  show ?thesis
  proof (cases "radius_edit e")
    case False
    then show ?thesis using snmp_change_apart [OF result] same by (simp add: same_profiles_def)
  next
    case True
    then show ?thesis
      using result same server_records_profiles option_records_profiles profiles_material_save [of c fresh]
        profiles_material_delete [OF ok] profiles_template_save [OF ok] profiles_template_delete [OF ok] ok fresh
      by (cases e) simp_all
  qed
qed

lemma logical_record:
  assumes ok: "logical c" and fresh: "\<not> has (materials (radius c)) (fresh 0)"
    and result: "record_change e fresh label c = Inr m"
  shows "logical (mk_cfg m)"
  using ok profiles_record [OF _ fresh result] access_refs_record [OF _ result] record_change_network [OF result]
  by (simp add: logical_split same_network_def)

end
