(* ===== verification/Engine_Valid.thy ===== *)
theory Engine_Valid
  imports Records_Valid
begin

text \<open>
  \<open>Engine._apply\<close> does not validate the whole configuration after a command: it checks what the command
  changed and what depends on it. The lemmas here show, command by command, that this is enough: every
  cross reference of the configuration that \<open>Configuration.references\<close> demands holds again.
\<close>

subsection \<open>Tables\<close>

definition tables_unique :: "configuration \<Rightarrow> bool" where
  \<comment> \<open>a dictionary has each key once\<close>
  "tables_unique c \<longleftrightarrow> is_dict (ports c) \<and> is_dict (vlans c) \<and> is_dict (endpoints c) \<and> is_dict (attachments c)"

lemma put_new: "\<not> has d k \<Longrightarrow> put k v d = d @ [(k, v)]"
  by (rule put_fresh) (simp only: has_keys not_False_eq_True)

lemma vals_put_same: "map_of d k = Some w \<Longrightarrow> f v = f w \<Longrightarrow> map f (vals (put k v d)) = map f (vals d)"
  by (induction d) (auto simp: vals_def)

lemma has_put_old: "map_of d k = Some w \<Longrightarrow> has (put k v d) = has d"
  by (intro ext, unfold has_put) (auto simp: has_def)

lemma length_put_old: "map_of d k = Some w \<Longrightarrow> length (put k v d) = length d"
  by (induction d) auto

lemma vals_drop: "distinct (map f (vals d)) \<Longrightarrow> distinct (map f (vals (drop_key k d)))"
  by (induction d) (auto simp: vals_def drop_key_set)

lemma count_vals_put: "map_of d e = None \<or> is_dict d \<Longrightarrow>
    count_list (vals (put e k d)) i \<le> (if i = k then 1 + length (filter (\<lambda>(x, p). p = k \<and> x \<noteq> e) d) else count_list (vals d) i)"
proof (induction d)
  case (Cons row d)
  obtain a b where row: "row = (a, b)" by (cases row)
  show ?case
  proof (cases "a = e")
    case True
    have "count_list (vals d) i \<le> length (filter (\<lambda>(x, p). p = i \<and> x \<noteq> e) d)" if "e \<notin> set (keys d)" for i
      using that by (induction d) (auto simp: vals_def)
    moreover have "e \<notin> set (keys d)" using Cons.prems True by (auto simp: row is_dict_def)
    ultimately show ?thesis using True by (auto simp: row vals_def)
  next
    case False
    have "map_of d e = None \<or> is_dict d" using Cons.prems False by (auto simp: row is_dict_def)
    from Cons.IH [OF this] show ?thesis using False by (auto simp: row vals_def split: if_splits)
  qed
qed (simp add: vals_def)

lemma count_vals_filter: "count_list (vals (filter P d)) i \<le> count_list (vals d) i"
  by (induction d) (auto simp: vals_def)

lemma drop_key_filter: "drop_key k d = filter (\<lambda>(x, _). x \<noteq> k) d"
  by (induction d) auto

lemma count_attached: "count_list (vals (attachments (cfg s))) pid = length (attached s pid)"
proof -
  have "count_list (vals d) pid = length (filter (\<lambda>(_, p). p = pid) d)" for d :: "(uid, uid) dict"
    by (induction d) (auto simp: vals_def)
  then show ?thesis by (simp add: attached_def)
qed

lemma check_port_iff:
  "check_port c k p = Inr () \<longleftrightarrow> k = p_id p \<and> pvid p \<in> set (admitted p) \<and>
     (\<forall>vs \<in> {admitted p, untagged p, forbidden p}. distinct vs \<and> (\<forall>v \<in> set vs. has (vlans c) v)) \<and>
     set (untagged p) \<subseteq> set (admitted p) \<and> set (forbidden p) \<inter> set (admitted p) = {}"
  by (auto simp: check_port_def result_simps list_ex_iff)

lemma check_port_more:
  "check_port c k p = Inr () \<Longrightarrow> (\<And>v. has (vlans c) v \<Longrightarrow> has (vlans d) v) \<Longrightarrow> check_port d k p = Inr ()"
  unfolding check_port_iff by blast

lemma port_fine:
  assumes "physical c" and "map_of (ports c) k = Some p"
  shows "if_index p < next_if_index (cfg_switch c)" "bridge_port p < next_bridge_port (cfg_switch c)"
    "check_port c k p = Inr ()" "\<not> (mode p = Direct \<and> 1 < count_list (vals (attachments c)) k)"
  using assms lookup_in_set [OF assms(2)] unfolding physical_def by blast+

subsection \<open>Endpoints and attachments\<close>

lemma physical_attachments:
  assumes ok: "physical c" and d: "ports d = ports c" "vlans d = vlans c" "cfg_switch d = cfg_switch c"
    and ends: "\<And>e k. (e, k) \<in> set (attachments d) \<Longrightarrow> has (ports c) k"
    and counts: "\<And>k p. map_of (ports c) k = Some p \<Longrightarrow> mode p = Direct \<Longrightarrow> count_list (vals (attachments d)) k \<le> 1"
    and unique: "is_dict (ports c)"
  shows "physical d"
proof -
  have same: "check_port d = check_port c" by (intro ext) (simp add: check_port_def d)
  have "\<not> (mode p = Direct \<and> 1 < count_list (vals (attachments d)) k)" if "(k, p) \<in> set (ports c)" for k p
    using counts [OF is_dict_lookup [OF unique that]] by auto
  then have "\<forall>(k, p) \<in> set (ports c). \<not> (mode p = Direct \<and> 1 < count_list (vals (attachments d)) k)" by blast
  moreover have "\<forall>(e, k) \<in> set (attachments d). has (ports c) k" using ends by blast
  ultimately show ?thesis using ok unfolding physical_def d same by (auto simp del: not_less)
qed

lemma logical_endpoints:
  assumes ok: "logical c" and d: "radius d = radius c" "views d = views c" "credentials d = credentials c"
      "groups d = groups c" "targets d = targets c"
    and ids: "\<And>k e. (k, e) \<in> set (endpoints d) \<Longrightarrow> k = e_id e"
    and ends: "\<And>e k. (e, k) \<in> set (attachments d) \<Longrightarrow> has (endpoints d) e"
    and profiles: "\<And>k e src p. (k, e) \<in> set (endpoints d) \<Longrightarrow> src \<in> set (sources e) \<Longrightarrow> supplicant src = Some p \<Longrightarrow>
      check_profile c (Some p) = Inr ()"
  shows "logical d"
proof -
  have same: "check_profile d = check_profile c" "check_policy d = check_policy c" "check_target d = check_target c"
    by (intro ext; simp only: check_profile_def check_policy_def check_target_def d)+
  have ident: "check_credential_identities d = check_credential_identities c"
    by (simp only: check_credential_identities_def d)
  have cred: "check_credential d cr u = check_credential c cr u" for cr u
    by (simp only: check_credential_def same ident d)
  have "check_profile c (Some p) = Inr ()" if "p \<in> set (supplicant_profiles d)" for p
  proof -
    consider "p \<in> set (map t_profile (vals (templates (radius c))))"
      | e src where "e \<in> set (vals (endpoints d))" "src \<in> set (sources e)" "supplicant src = Some p"
      using \<open>p \<in> set (supplicant_profiles d)\<close>
      by (auto simp: supplicant_profiles_def d List.map_filter_def)
    then show ?thesis
    proof cases
      case 1
      then show ?thesis using ok unfolding logical_def supplicant_profiles_def by auto
    next
      case 2
      then show ?thesis using profiles by (auto simp: vals_def)
    qed
  qed
  then show ?thesis
    using ok ids ends unfolding logical_def same ident cred d by blast
qed

lemma logical_apart:
  assumes "logical c" and "radius d = radius c" "views d = views c" "credentials d = credentials c"
      "groups d = groups c" "targets d = targets c" "endpoints d = endpoints c"
    and "\<And>e k. (e, k) \<in> set (attachments d) \<Longrightarrow> has (endpoints c) e"
  shows "logical d"
proof (rule logical_endpoints [OF assms(1-6)])
  fix k e src p
  assume "(k, e) \<in> set (endpoints d)" "src \<in> set (sources e)" "supplicant src = Some p"
  then have "p \<in> set (supplicant_profiles c)"
    unfolding supplicant_profiles_def vals_def assms(7) by (force simp: List.map_filter_def)
  then show "check_profile c (Some p) = Inr ()" using assms(1) by (simp add: logical_def)
qed (use assms in \<open>auto simp: logical_def\<close>)

lemma profile_of_source:
  assumes "logical c" "map_of (endpoints c) k = Some e" "src \<in> set (sources e)"
  shows "check_profile c (supplicant src) = Inr ()"
proof (cases "supplicant src")
  case (Some p)
  then have "p \<in> set (supplicant_profiles c)"
    using assms(2,3) lookup_in_set [OF assms(2)]
    unfolding supplicant_profiles_def vals_def by (force simp: List.map_filter_def)
  then show ?thesis using assms(1) Some by (simp add: logical_def)
qed (simp add: check_profile_def)

lemma check_profile_same: "radius d = radius c \<Longrightarrow> check_profile d p = check_profile c p"
  by (simp only: check_profile_def)

lemma check_sources_ok: "check_sources c ss = Inr () \<Longrightarrow> src \<in> set ss \<Longrightarrow> check_profile c (supplicant src) = Inr ()"
  by (auto simp: check_sources_def first_error_ok)

lemma normal_sources_supplicants: "normal_sources ss = Inr ts \<Longrightarrow> map supplicant ts = map supplicant ss"
  by (induction ss arbitrary: ts) (auto simp: bind_Inr_iff split: sum.splits)

lemma validated_endpoint:
  assumes "validate_endpoint e = Inr f"
  shows "e_id f = e_id e" "map supplicant (sources f) = map supplicant (sources e)"
  using assms normal_sources_supplicants by (auto simp: validate_endpoint_def bind_Inr_iff Let_def split: if_splits)

definition valid_configuration :: "configuration \<Rightarrow> bool" where
  "valid_configuration c \<longleftrightarrow> references c = Inr () \<and> tables_unique c"

lemma valid_split: "valid_configuration c \<longleftrightarrow> physical c \<and> logical c \<and> tables_unique c"
  by (auto simp: valid_configuration_def references_split)

lemma valid_endpoint_put:
  assumes ok: "valid_configuration c" and id: "e_id e = k"
    and profiles: "\<And>src. src \<in> set (sources e) \<Longrightarrow> check_profile c (supplicant src) = Inr ()"
  shows "valid_configuration (c\<lparr>endpoints := put k e (endpoints c)\<rparr>)"
proof -
  let ?d = "c\<lparr>endpoints := put k e (endpoints c)\<rparr>"
  have c: "physical c" "logical c" "tables_unique c" using ok by (simp_all add: valid_split)
  have "physical ?d"
    by (rule physical_attachments [OF c(1)])
      (use c port_fine(4) in \<open>auto simp: physical_def tables_unique_def not_less\<close>)
  moreover have "logical ?d"
  proof (rule logical_endpoints [OF c(2)])
    fix i f assume "(i, f) \<in> set (endpoints ?d)"
    then show "i = e_id f" using put_values [of "(i, f)" k e "endpoints c"] c(2) id by (auto simp: logical_def)
  next
    fix x i assume "(x, i) \<in> set (attachments ?d)"
    then show "has (endpoints ?d) x" using c(2) by (auto simp: logical_def has_put)
  next
    fix i f src p assume f: "(i, f) \<in> set (endpoints ?d)" and src: "src \<in> set (sources f)" "supplicant src = Some p"
    have "is_dict (endpoints c)" using c(3) by (simp add: tables_unique_def)
    then show "check_profile c (Some p) = Inr ()"
      using put_values [of "(i, f)" k e "endpoints c"] f src profiles profile_of_source [OF c(2) is_dict_lookup]
      by fastforce
  qed simp_all
  moreover have "tables_unique ?d" using c(3) by (auto simp: tables_unique_def)
  ultimately show ?thesis by (simp add: valid_split)
qed

lemma valid_endpoint_create:
  assumes ok: "valid_configuration (cfg s)" and result: "endpoint_create e s = Inr (t, tc, r)"
  shows "valid_configuration (cfg t)"
proof -
  obtain f where f: "cfg t = (cfg s)\<lparr>endpoints := put (e_id f) f (endpoints (cfg s))\<rparr>"
    and checked: "check_sources ((cfg s)\<lparr>endpoints := put (e_id f) f (endpoints (cfg s))\<rparr>) (sources f) = Inr ()"
    using result unfolding endpoint_create_def bind_Inr_iff Let_def by fastforce
  have "check_profile (cfg s) (supplicant src) = Inr ()" if "src \<in> set (sources f)" for src
    using check_sources_ok [OF checked that] check_profile_same [of "(cfg s)\<lparr>endpoints := put (e_id f) f (endpoints (cfg s))\<rparr>" "cfg s"]
    by simp
  then show ?thesis unfolding f by (intro valid_endpoint_put ok) simp_all
qed

lemma valid_endpoint_edit:
  assumes ok: "valid_configuration (cfg s)" and result: "endpoint_edit eid p s = Inr (t, tc, r)"
  shows "valid_configuration (cfg t)"
proof -
  obtain old e where old: "map_of (endpoints (cfg s)) eid = Some old" and e: "validate_endpoint (patched_endpoint p old) = Inr e"
    and rest: "bind (if ep_sources p = None then Inr ()
          else bind (check_sources ((cfg s)\<lparr>endpoints := put eid e (endpoints (cfg s))\<rparr>) (sources e))
            (\<lambda>_. source_capacity ((cfg s)\<lparr>endpoints := put eid e (endpoints (cfg s))\<rparr>)))
        (\<lambda>_. Inr (endpoint_event ''endpoint-edit'' eid (e_name e) (s\<lparr>cfg := (cfg s)\<lparr>endpoints := put eid e (endpoints (cfg s))\<rparr>\<rparr>),
           touch_endpoints (if ep_sources p = None \<and> ep_active p = None then [] else [eid]), Reply_id eid)) = Inr (t, tc, r)"
    using result by (auto simp: endpoint_edit_def bind_Inr_iff [of "resource d k" for d k] bind_Inr_iff [of "validated x" for x] Let_def)
  have t: "cfg t = (cfg s)\<lparr>endpoints := put eid e (endpoints (cfg s))\<rparr>"
    and checked: "ep_sources p = None \<or> check_sources ((cfg s)\<lparr>endpoints := put eid e (endpoints (cfg s))\<rparr>) (sources e) = Inr ()"
    using rest by (auto simp: bind_Inr_iff endpoint_event_def split: if_splits)
  have c: "logical (cfg s)" using ok by (simp add: valid_split)
  then have "eid = e_id old" using lookup_in_set [OF old] by (auto simp: logical_def)
  then have id: "e_id e = eid" using validated_endpoint(1) [OF e] by (simp add: patched_endpoint_def)
  have "check_profile (cfg s) (supplicant src) = Inr ()" if src: "src \<in> set (sources e)" for src
  proof (cases "ep_sources p")
    case None
    then have "map supplicant (sources e) = map supplicant (sources old)"
      using validated_endpoint(2) [OF e] by (simp add: patched_endpoint_def given_def)
    then have "supplicant src \<in> supplicant ` set (sources old)" using src by (metis image_eqI set_map)
    then show ?thesis using profile_of_source [OF c old] by force
  next
    case (Some ss)
    then have profiles: "check_sources ((cfg s)\<lparr>endpoints := put eid e (endpoints (cfg s))\<rparr>) (sources e) = Inr ()"
      using checked by simp
    then show ?thesis
      using check_sources_ok [OF profiles src]
        check_profile_same [of "(cfg s)\<lparr>endpoints := put eid e (endpoints (cfg s))\<rparr>" "cfg s"] by simp
  qed
  then show ?thesis unfolding t by (intro valid_endpoint_put ok id) simp_all
qed

lemma valid_endpoint_delete:
  assumes ok: "valid_configuration (cfg s)" and result: "endpoint_delete eid s = Inr (t, tc, r)"
  shows "valid_configuration (cfg t)"
proof -
  let ?d = "(cfg s)\<lparr>endpoints := drop_key eid (endpoints (cfg s))\<rparr>"
  have t: "cfg t = ?d" and free: "\<not> has (attachments (cfg s)) eid"
    using result by (auto simp: endpoint_delete_def bind_Inr_iff endpoint_event_def)
  have c: "physical (cfg s)" "logical (cfg s)" "tables_unique (cfg s)" using ok by (simp_all add: valid_split)
  have "physical ?d"
    by (rule physical_attachments [OF c(1)])
      (use c port_fine(4) in \<open>auto simp: physical_def tables_unique_def not_less\<close>)
  moreover have "logical ?d"
  proof (rule logical_endpoints [OF c(2)])
    fix x i assume x: "(x, i) \<in> set (attachments ?d)"
    then have "x \<noteq> eid" using free by (force simp: has_keys)
    then show "has (endpoints ?d) x" using x c(2) by (auto simp: logical_def has_drop_key)
  next
    fix i f src p assume f: "(i, f) \<in> set (endpoints ?d)" and src: "src \<in> set (sources f)" "supplicant src = Some p"
    have "is_dict (endpoints (cfg s))" using c(3) by (simp add: tables_unique_def)
    then show "check_profile (cfg s) (Some p) = Inr ()"
      using f src profile_of_source [OF c(2) is_dict_lookup] by (fastforce simp: drop_key_set)
  qed (use c(2) in \<open>auto simp: logical_def drop_key_set\<close>)
  moreover have "tables_unique ?d" using c(3) by (auto simp: tables_unique_def)
  ultimately show ?thesis unfolding t by (simp add: valid_split)
qed

lemma valid_attachments:
  assumes ok: "valid_configuration c" and d: "is_dict a"
    and ends: "\<And>e k. (e, k) \<in> set a \<Longrightarrow> has (endpoints c) e \<and> has (ports c) k"
    and counts: "\<And>k p. map_of (ports c) k = Some p \<Longrightarrow> mode p = Direct \<Longrightarrow> count_list (vals a) k \<le> 1"
  shows "valid_configuration (c\<lparr>attachments := a\<rparr>)"
proof -
  have c: "physical c" "logical c" "tables_unique c" using ok by (simp_all add: valid_split)
  have "physical (c\<lparr>attachments := a\<rparr>)"
    by (rule physical_attachments [OF c(1)]) (use ends counts c(3) in \<open>auto simp: tables_unique_def\<close>)
  moreover have "logical (c\<lparr>attachments := a\<rparr>)"
    by (rule logical_apart [OF c(2)]) (use ends in auto)
  ultimately show ?thesis using c(3) d by (simp add: valid_split tables_unique_def)
qed

lemma valid_attach:
  assumes ok: "valid_configuration (cfg s)" and result: "attach eid pid s = Inr (t, tc, r)"
  shows "valid_configuration (cfg t)"
proof -
  obtain e p where e: "map_of (endpoints (cfg s)) eid = Some e" "map_of (ports (cfg s)) pid = Some p"
    and free: "mode p = Shared \<or> filter (\<lambda>e. e \<noteq> eid) (attached s pid) = []"
    and t: "cfg t = (cfg s)\<lparr>attachments := put eid pid (attachments (cfg s))\<rparr>"
    using result by (auto simp: attach_def bind_Inr_iff place_endpoint_def Let_def split: if_splits)
  have c: "physical (cfg s)" "logical (cfg s)" "tables_unique (cfg s)" using ok by (simp_all add: valid_split)
  have unique: "is_dict (attachments (cfg s))" using c(3) by (simp add: tables_unique_def)
  have none: "length (filter (\<lambda>(x, q). q = pid \<and> x \<noteq> eid) (attachments (cfg s))) = 0" if "mode p = Direct"
    using free that by (auto simp: attached_def filter_empty_conv)
  show ?thesis
    unfolding t
  proof (rule valid_attachments [OF ok is_dict_put [OF unique]])
    fix x k assume "(x, k) \<in> set (put eid pid (attachments (cfg s)))"
    then show "has (endpoints (cfg s)) x \<and> has (ports (cfg s)) k"
      using put_values c(1,2) e by (fastforce simp: physical_def logical_def has_def)
  next
    fix k q assume q: "map_of (ports (cfg s)) k = Some q" "mode q = Direct"
    have "count_list (vals (put eid pid (attachments (cfg s)))) k \<le> (if k = pid
        then 1 + length (filter (\<lambda>(x, p). p = pid \<and> x \<noteq> eid) (attachments (cfg s))) else count_list (vals (attachments (cfg s))) k)"
      by (rule count_vals_put) (rule disjI2 [OF unique])
    then show "count_list (vals (put eid pid (attachments (cfg s)))) k \<le> 1"
      using q e(2) none port_fine(4) [OF c(1) q(1)] by (cases "k = pid") auto
  qed
qed

lemma valid_detach:
  assumes ok: "valid_configuration (cfg s)" and result: "detach eid s = Inr (t, tc, r)"
  shows "valid_configuration (cfg t)"
proof -
  have t: "cfg t = (cfg s)\<lparr>attachments := drop_key eid (attachments (cfg s))\<rparr>"
    using result by (auto simp: detach_def bind_Inr_iff place_endpoint_def Let_def split: if_splits)
  have c: "physical (cfg s)" "logical (cfg s)" "tables_unique (cfg s)" using ok by (simp_all add: valid_split)
  show ?thesis
    unfolding t
  proof (rule valid_attachments [OF ok])
    show "is_dict (drop_key eid (attachments (cfg s)))" using c(3) by (auto simp: tables_unique_def)
    fix x k assume "(x, k) \<in> set (drop_key eid (attachments (cfg s)))"
    then show "has (endpoints (cfg s)) x \<and> has (ports (cfg s)) k"
      using c(1,2) by (auto simp: physical_def logical_def drop_key_set)
  next
    fix k q assume "map_of (ports (cfg s)) k = Some q" "mode q = Direct"
    then show "count_list (vals (drop_key eid (attachments (cfg s)))) k \<le> 1"
      using port_fine(4) [OF c(1)] count_vals_filter [of "\<lambda>(x, _). x \<noteq> eid" "attachments (cfg s)" k]
      unfolding drop_key_filter by fastforce
  qed
qed

subsection \<open>Ports\<close>

lemma valid_ports:
  assumes ok: "valid_configuration c"
    and same: "vlans d = vlans c" "endpoints d = endpoints c" "radius d = radius c" "views d = views c"
      "credentials d = credentials c" "groups d = groups c" "targets d = targets c"
      "legacy_vlan (cfg_switch d) = legacy_vlan (cfg_switch c)"
    and unique: "is_dict (ports d)" "is_dict (attachments d)"
    and inventory: "int (length (ports d)) = port_count (cfg_switch d)" "distinct (map if_index (vals (ports d)))"
      "distinct (map bridge_port (vals (ports d)))"
    and rows: "\<And>k p. (k, p) \<in> set (ports d) \<Longrightarrow> if_index p < next_if_index (cfg_switch d) \<and>
        bridge_port p < next_bridge_port (cfg_switch d) \<and> check_port c k p = Inr () \<and>
        (mode p = Direct \<longrightarrow> count_list (vals (attachments d)) k \<le> 1)"
    and ends: "\<And>e k. (e, k) \<in> set (attachments d) \<Longrightarrow> (\<exists>l. (e, l) \<in> set (attachments c)) \<and> has (ports d) k"
  shows "valid_configuration d"
proof -
  have c: "physical c" "logical c" "tables_unique c" using ok by (simp_all add: valid_split)
  have port: "check_port d = check_port c" by (intro ext) (simp add: check_port_def same)
  have "\<forall>(k, p) \<in> set (ports d). if_index p < next_if_index (cfg_switch d) \<and>
      bridge_port p < next_bridge_port (cfg_switch d) \<and> check_port c k p = Inr () \<and>
      \<not> (mode p = Direct \<and> 1 < count_list (vals (attachments d)) k)"
    using rows by (auto simp del: not_less simp: not_less [symmetric])
  moreover have "\<forall>(e, k) \<in> set (attachments d). has (ports d) k" using ends by blast
  ultimately have "physical d"
    using c(1) inventory unfolding physical_def port same by blast
  moreover have "logical d"
  proof (rule logical_apart [OF c(2)])
    fix e k assume "(e, k) \<in> set (attachments d)"
    then obtain l where "(e, l) \<in> set (attachments c)" using ends by blast
    then show "has (endpoints c) e" using c(2) by (auto simp: logical_def)
  qed (simp_all add: same)
  ultimately show ?thesis using c(3) unique same by (simp add: valid_split tables_unique_def)
qed

lemma valid_port_create:
  assumes ok: "valid_configuration (cfg s)" and fresh: "\<not> has (ports (cfg s)) (fresh_ids s (drawn s))"
    and result: "port_create f s = Inr (t, tc, r)"
  shows "valid_configuration (cfg t)"
proof -
  let ?i = "fresh_ids s (drawn s)"
  define p where "p = fresh_port f ?i (cfg_switch (cfg s))"
  have id: "p_id p = ?i" "if_index p = next_if_index (cfg_switch (cfg s))"
    "bridge_port p = next_bridge_port (cfg_switch (cfg s))" "pvid p = 1" "admitted p = [1]" "untagged p = [1]" "forbidden p = []"
    by (simp_all add: p_def fresh_port_def Let_def default_port_def)
  have t: "cfg t = with_port p (cfg s)"
    using result by (auto simp: port_create_def bind_Inr_iff Let_def draw_def p_def)
  have ports: "ports (cfg t) = ports (cfg s) @ [(?i, p)]"
    using put_new [OF fresh] by (simp add: t with_port_def Let_def id)
  have c: "physical (cfg s)" "logical (cfg s)" "tables_unique (cfg s)" using ok by (simp_all add: valid_split)
  have check: "check_port (cfg s) ?i p = Inr ()" using c(1) by (simp add: check_port_iff id physical_def)
  have "?i \<notin> set (vals (attachments (cfg s)))"
    using c(1) fresh by (auto simp: physical_def vals_def)
  then have alone: "count_list (vals (attachments (cfg s))) ?i = 0" by (simp add: count_list_0_iff)
  show ?thesis
  proof (rule valid_ports [OF ok])
    show "is_dict (ports (cfg t))"
      using c(3) fresh by (simp add: ports tables_unique_def is_dict_def has_keys)
    show "distinct (map if_index (vals (ports (cfg t))))" "distinct (map bridge_port (vals (ports (cfg t))))"
      using c(1) by (force simp: ports physical_def vals_def id)+
    fix k q assume "(k, q) \<in> set (ports (cfg t))"
    then consider "(k, q) \<in> set (ports (cfg s))" | "k = ?i" "q = p" by (auto simp: ports)
    then show "if_index q < next_if_index (cfg_switch (cfg t)) \<and> bridge_port q < next_bridge_port (cfg_switch (cfg t)) \<and>
        check_port (cfg s) k q = Inr () \<and> (mode q = Direct \<longrightarrow> count_list (vals (attachments (cfg t))) k \<le> 1)"
    proof cases
      case 1
      then show ?thesis using c(1) unfolding physical_def by (fastforce simp: t with_port_def Let_def)
    next
      case 2
      then show ?thesis using check alone by (simp add: id t with_port_def Let_def)
    qed
  next
    fix e k assume "(e, k) \<in> set (attachments (cfg t))"
    then show "(\<exists>l. (e, l) \<in> set (attachments (cfg s))) \<and> has (ports (cfg t)) k"
      using c(1) by (auto simp: t with_port_def Let_def physical_def has_put)
  qed (use c(1,3) in \<open>simp_all add: t with_port_def Let_def physical_def tables_unique_def ports [unfolded t with_port_def Let_def]\<close>)
qed

lemma detached:
  "cfg (foldl (detach_from pid) u es) =
     (cfg u)\<lparr>attachments := filter (\<lambda>(e, _). e \<notin> set es) (attachments (cfg u))\<rparr>"
proof (induction es arbitrary: u)
  case (Cons e es)
  have "filter (\<lambda>(x, _). x \<notin> set es) (filter (\<lambda>(x, _). x \<noteq> e) d) = filter (\<lambda>(x, _). x \<notin> set (e # es)) d"
    for d :: "(uid, uid) dict"
    by (auto simp: filter_filter intro!: filter_cong)
  then show ?case by (simp add: Cons.IH) (simp add: detach_from_def drop_key_filter)
qed simp

lemma valid_port_delete:
  assumes ok: "valid_configuration (cfg s)" and result: "port_delete pid s = Inr (t, tc, r)"
  shows "valid_configuration (cfg t)"
proof -
  define u where "u = retire_port pid (end_port_sessions pid ''port-deleted'' 6 s)"
  have u: "cfg u = cfg s" by (simp add: u_def retire_port_cfg end_port_sessions_cfg)
  define c where "c = (cfg s)\<lparr>ports := drop_key pid (ports (cfg s)),
    cfg_switch := (cfg_switch (cfg s))\<lparr>port_count := port_count (cfg_switch (cfg s)) - 1\<rparr>,
    attachments := filter (\<lambda>(e, _). e \<notin> set (attached s pid)) (attachments (cfg s))\<rparr>"
  have known: "has (ports (cfg s)) pid" and t: "cfg t = c"
    using result by (auto simp: port_delete_def bind_Inr_iff Let_def u_def [symmetric] without_port_def detached u c_def has_def)
  have ok': "physical (cfg s)" "logical (cfg s)" "tables_unique (cfg s)" using ok by (simp_all add: valid_split)
  have unique: "is_dict (ports (cfg s))" "is_dict (attachments (cfg s))" using ok'(3) by (simp_all add: tables_unique_def)
  have fewer: "distinct (map f (vals (drop_key pid (ports (cfg s)))))" if "distinct (map f (vals (ports (cfg s))))"
    for f :: "port \<Rightarrow> int" using that by (rule vals_drop)
  have len: "length (ports (cfg s)) \<ge> 1" using known by (cases "ports (cfg s)") (auto simp: has_def)
  show ?thesis
    unfolding t
  proof (rule valid_ports [OF ok])
    show "int (length (ports c)) = port_count (cfg_switch c)"
      using ok'(1) known len by (simp add: c_def physical_def length_drop_key [OF unique(1)] has_keys)
    show "distinct (map if_index (vals (ports c)))" "distinct (map bridge_port (vals (ports c)))"
      using ok'(1) fewer by (simp_all add: c_def physical_def)
    fix k p assume "(k, p) \<in> set (ports c)"
    then have p: "map_of (ports (cfg s)) k = Some p"
      using is_dict_lookup [OF unique(1)] by (simp add: c_def drop_key_set)
    have "count_list (vals (attachments c)) k \<le> count_list (vals (attachments (cfg s))) k"
      unfolding c_def by (simp add: count_vals_filter)
    then show "if_index p < next_if_index (cfg_switch c) \<and> bridge_port p < next_bridge_port (cfg_switch c) \<and>
        check_port (cfg s) k p = Inr () \<and> (mode p = Direct \<longrightarrow> count_list (vals (attachments c)) k \<le> 1)"
      using port_fine [OF ok'(1) p] by (auto simp: c_def)
  next
    fix e k assume "(e, k) \<in> set (attachments c)"
    then have e: "(e, k) \<in> set (attachments (cfg s))" "e \<notin> set (attached s pid)" by (auto simp: c_def)
    then have "k \<noteq> pid" by (force simp: attached_def)
    then show "(\<exists>l. (e, l) \<in> set (attachments (cfg s))) \<and> has (ports c) k"
      using e ok'(1) by (auto simp: c_def physical_def has_drop_key)
  qed (use unique in \<open>auto simp: c_def\<close>)
qed

lemma valid_port_put:
  assumes ok: "valid_configuration c" and old: "map_of (ports c) k = Some old"
    and same: "if_index p = if_index old" "bridge_port p = bridge_port old" and check: "check_port c k p = Inr ()"
    and direct: "mode p = Direct \<Longrightarrow> count_list (vals (attachments c)) k \<le> 1"
  shows "valid_configuration (c\<lparr>ports := put k p (ports c)\<rparr>)"
proof -
  have ok': "physical c" "logical c" "tables_unique c" using ok by (simp_all add: valid_split)
  have unique: "is_dict (ports c)" "is_dict (attachments c)" using ok'(3) by (simp_all add: tables_unique_def)
  show ?thesis
  proof (rule valid_ports [OF ok])
    fix i q assume "(i, q) \<in> set (ports (c\<lparr>ports := put k p (ports c)\<rparr>))"
    then consider "i = k" "q = p" | "map_of (ports c) i = Some q"
      using put_values [of "(i, q)" k p "ports c"] is_dict_lookup [OF unique(1)] by auto
    then show "if_index q < next_if_index (cfg_switch (c\<lparr>ports := put k p (ports c)\<rparr>)) \<and>
        bridge_port q < next_bridge_port (cfg_switch (c\<lparr>ports := put k p (ports c)\<rparr>)) \<and> check_port c i q = Inr () \<and>
        (mode q = Direct \<longrightarrow> count_list (vals (attachments (c\<lparr>ports := put k p (ports c)\<rparr>))) i \<le> 1)"
    proof cases
      case 1
      then show ?thesis using port_fine [OF ok'(1) old] same check direct by auto
    next
      case 2
      then show ?thesis using port_fine [OF ok'(1) 2] by auto
    qed
  qed (use ok' unique old in \<open>auto simp: physical_def length_put_old vals_put_same [OF old] same has_put_old\<close>)
qed

lemma valid_port_edit:
  assumes ok: "valid_configuration (cfg s)" and result: "port_edit pid q s = Inr (t, tc, r)"
  shows "valid_configuration (cfg t)"
proof -
  define w where "w = completed_patch (the_port s pid) q"
  obtain old where old: "map_of (ports (cfg s)) pid = Some old"
    and few: "po_mode q = Some Direct \<longrightarrow> length (attached s pid) \<le> 1"
    and checked: "edits_vlans w \<longrightarrow> check_port (cfg s) pid (patched_port w old) = Inr ()"
    and t: "cfg t = (cfg s)\<lparr>ports := put pid (patched_port w old) (ports (cfg s))\<rparr>"
    using result by (auto simp: port_edit_def bind_Inr_iff Let_def w_def the_port_def split: if_splits)
  have fine: "check_port (cfg s) pid old = Inr ()" "\<not> (mode old = Direct \<and> 1 < count_list (vals (attachments (cfg s))) pid)"
    using port_fine [OF _ old] ok by (simp_all add: valid_split)
  have mode: "po_mode w = po_mode q" by (simp add: w_def completed_patch_def Let_def split: option.split)
  show ?thesis
    unfolding t
  proof (rule valid_port_put [OF ok old])
    show "check_port (cfg s) pid (patched_port w old) = Inr ()"
    proof (cases "edits_vlans w")
      case False
      then show ?thesis using fine(1) by (simp add: check_port_iff edits_vlans_def patched_port_def given_def)
    qed (use checked in simp)
    assume "mode (patched_port w old) = Direct"
    then show "count_list (vals (attachments (cfg s))) pid \<le> 1"
      using few fine(2) by (auto simp: patched_port_def mode given_def count_attached split: option.splits)
  qed (simp_all add: patched_port_def)
qed

subsection \<open>VLANs and the switch\<close>

lemma valid_vlans:
  assumes ok: "valid_configuration c" and same: "same_elsewhere d c" and unique: "is_dict (ports d)" "is_dict (vlans d)"
    and base: "has (vlans d) 1" "has (vlans d) (legacy_vlan (cfg_switch d))" "distinct (map fdb_id (vals (vlans d)))"
      "\<And>k v. (k, v) \<in> set (vlans d) \<Longrightarrow> k = vid v"
    and keys: "keys (ports d) = keys (ports c)"
    and indexes: "map if_index (vals (ports d)) = map if_index (vals (ports c))"
      "map bridge_port (vals (ports d)) = map bridge_port (vals (ports c))"
    and rows: "\<And>k p. (k, p) \<in> set (ports d) \<Longrightarrow> check_port d k p = Inr () \<and>
      (\<exists>q. (k, q) \<in> set (ports c) \<and> if_index p = if_index q \<and> bridge_port p = bridge_port q \<and> mode p = mode q)"
  shows "valid_configuration d"
proof -
  have c: "physical c" "logical c" "tables_unique c" using ok by (simp_all add: valid_split)
  have elsewhere: "attachments d = attachments c" "endpoints d = endpoints c"
      "port_count (cfg_switch d) = port_count (cfg_switch c)" "next_if_index (cfg_switch d) = next_if_index (cfg_switch c)"
      "next_bridge_port (cfg_switch d) = next_bridge_port (cfg_switch c)"
    using same by (simp_all add: same_elsewhere_def)
  have "length (ports d) = length (ports c)" using arg_cong [OF keys, of length] by simp
  moreover have "\<forall>(k, p) \<in> set (ports d). if_index p < next_if_index (cfg_switch d) \<and>
      bridge_port p < next_bridge_port (cfg_switch d) \<and> check_port d k p = Inr () \<and>
      \<not> (mode p = Direct \<and> 1 < count_list (vals (attachments d)) k)"
  proof clarify
    fix k p assume p: "(k, p) \<in> set (ports d)"
    then obtain q where q: "(k, q) \<in> set (ports c)" "if_index p = if_index q" "bridge_port p = bridge_port q" "mode p = mode q"
      using rows by blast
    then show "if_index p < next_if_index (cfg_switch d) \<and> bridge_port p < next_bridge_port (cfg_switch d) \<and>
        check_port d k p = Inr () \<and> \<not> (mode p = Direct \<and> 1 < count_list (vals (attachments d)) k)"
      using rows [OF p] c(1) unfolding physical_def elsewhere by auto
  qed
  moreover have "\<forall>(e, k) \<in> set (attachments c). has (ports d) k"
    using c(1) unfolding physical_def has_keys keys by blast
  ultimately have "physical d"
    using c(1) base unfolding physical_def elsewhere indexes by auto
  then show ?thesis
    using c logical_same [OF same] unique by (simp add: valid_split tables_unique_def elsewhere)
qed

lemma valid_vlan_put:
  assumes ok: "valid_configuration c" and x: "vid x = v" "distinct (map fdb_id (vals (put v x (vlans c))))"
  shows "valid_configuration (c\<lparr>vlans := put v x (vlans c)\<rparr>)"
proof -
  have c: "physical c" "tables_unique c" using ok by (simp_all add: valid_split)
  show ?thesis
  proof (rule valid_vlans [OF ok])
    fix k p assume p: "(k, p) \<in> set (ports (c\<lparr>vlans := put v x (vlans c)\<rparr>))"
    then have "check_port c k p = Inr ()" using c(1) by (auto simp: physical_def)
    then have "check_port (c\<lparr>vlans := put v x (vlans c)\<rparr>) k p = Inr ()"
      by (rule check_port_more) (simp add: has_put)
    then show "check_port (c\<lparr>vlans := put v x (vlans c)\<rparr>) k p = Inr () \<and> (\<exists>q. (k, q) \<in> set (ports c) \<and>
        if_index p = if_index q \<and> bridge_port p = bridge_port q \<and> mode p = mode q)"
      using p by auto
  next
    fix k y assume "(k, y) \<in> set (vlans (c\<lparr>vlans := put v x (vlans c)\<rparr>))"
    then show "k = vid y" using put_values [of "(k, y)" v x "vlans c"] c(1) x(1) by (auto simp: physical_def)
  qed (use c x in \<open>auto simp: same_elsewhere_def physical_def tables_unique_def has_put\<close>)
qed

lemma valid_vlan_create:
  assumes ok: "valid_configuration (cfg s)" and result: "vlan_create v name fid s = Inr (t, tc, r)"
  shows "valid_configuration (cfg t)"
proof -
  define x where "x = \<lparr>vid = v, vl_name = given name [], fdb_id = given fid (1000 + v)\<rparr>"
  have new: "\<not> has (vlans (cfg s)) v" and fid: "list_all (\<lambda>y. fdb_id y \<noteq> fdb_id x) (vals (vlans (cfg s)))"
    and t: "cfg t = (cfg s)\<lparr>vlans := put v x (vlans (cfg s))\<rparr>"
    using result by (auto simp: vlan_create_def bind_Inr_iff Let_def x_def)
  have "distinct (map fdb_id (vals (vlans (cfg s))))" using ok by (simp add: valid_split physical_def)
  then have "distinct (map fdb_id (vals (put v x (vlans (cfg s)))))"
    using fid by (auto simp: put_new [OF new] vals_def list_all_iff)
  then show ?thesis unfolding t by (intro valid_vlan_put ok) (simp_all add: x_def)
qed

lemma valid_vlan_edit:
  assumes ok: "valid_configuration (cfg s)" and result: "vlan_edit v name s = Inr (t, tc, r)"
  shows "valid_configuration (cfg t)"
proof -
  obtain old where old: "map_of (vlans (cfg s)) v = Some old"
    and t: "cfg t = (cfg s)\<lparr>vlans := put v (old\<lparr>vl_name := name\<rparr>) (vlans (cfg s))\<rparr>"
    using result by (auto simp: vlan_edit_def bind_Inr_iff Let_def)
  have c: "physical (cfg s)" using ok by (simp add: valid_split)
  have "vid old = v" using c lookup_in_set [OF old] by (auto simp: physical_def)
  moreover have "distinct (map fdb_id (vals (put v (old\<lparr>vl_name := name\<rparr>) (vlans (cfg s)))))"
    using c by (simp add: physical_def vals_put_same [OF old])
  ultimately show ?thesis unfolding t by (intro valid_vlan_put ok) simp_all
qed

lemma ports_without_vlan:
  "keys (ports (configuration_without_vlan v c)) = keys (ports c)"
  "map if_index (vals (ports (configuration_without_vlan v c))) = map if_index (vals (ports c))"
  "map bridge_port (vals (ports (configuration_without_vlan v c))) = map bridge_port (vals (ports c))"
  by (auto simp: configuration_without_vlan_def vals_def port_without_vlan_def Let_def)

lemma row_without_vlan:
  assumes "(k, p) \<in> set (ports (configuration_without_vlan v c))"
  obtains q where "(k, q) \<in> set (ports c)" "p = (if uses_vlan v q then port_without_vlan v q else q)"
    "if_index p = if_index q" "bridge_port p = bridge_port q" "mode p = mode q"
  using assms by (auto simp: configuration_without_vlan_def port_without_vlan_def Let_def split: if_splits)

lemma valid_vlan_delete:
  assumes ok: "valid_configuration (cfg s)" and result: "vlan_delete v s = Inr (t, tc, r)"
  shows "valid_configuration (cfg t)"
proof -
  define d where "d = configuration_without_vlan v (cfg s)"
  define used where "used = map fst (filter (\<lambda>(_, p). uses_vlan v p) (ports (cfg s)))"
  have t: "cfg t = d" and v: "v \<noteq> 1"
    and checked: "first_error (map (\<lambda>pid. check_port d pid (the (map_of (ports d) pid))) used) = Inr ()"
    using result by (auto simp: vlan_delete_def bind_Inr_iff Let_def d_def used_def)
  have c: "physical (cfg s)" "tables_unique (cfg s)" using ok by (simp_all add: valid_split)
  have unique: "is_dict (ports d)" "is_dict (vlans (cfg s))"
    using c(2) by (simp_all add: d_def is_dict_def ports_without_vlan tables_unique_def)
  have vlans: "vlans d = drop_key v (vlans (cfg s))" by (simp add: d_def configuration_without_vlan_def)
  show ?thesis
    unfolding t
  proof (rule valid_vlans [OF ok])
    fix k p assume p: "(k, p) \<in> set (ports d)"
    then obtain q where q: "(k, q) \<in> set (ports (cfg s))" "p = (if uses_vlan v q then port_without_vlan v q else q)"
        "if_index p = if_index q" "bridge_port p = bridge_port q" "mode p = mode q"
      unfolding d_def by (rule row_without_vlan)
    have "check_port d k p = Inr ()"
    proof (cases "uses_vlan v q")
      case True
      then have "k \<in> set used" using q(1) by (force simp: used_def)
      then have "check_port d k (the (map_of (ports d) k)) = Inr ()" using checked by (simp add: first_error_ok)
      then show ?thesis using is_dict_lookup [OF unique(1) p] by (metis option.sel)
    next
      case False
      have "check_port (cfg s) k q = Inr ()" using c(1) q(1) by (auto simp: physical_def)
      then show ?thesis
        using False q(2) by (auto simp: check_port_iff vlans has_drop_key uses_vlan_def)
    qed
    then show "check_port d k p = Inr () \<and> (\<exists>q. (k, q) \<in> set (ports (cfg s)) \<and>
        if_index p = if_index q \<and> bridge_port p = bridge_port q \<and> mode p = mode q)" using q by blast
  next
    show "has (vlans d) 1" "has (vlans d) (legacy_vlan (cfg_switch d))"
      using c(1) v by (auto simp: vlans has_drop_key d_def configuration_without_vlan_def physical_def)
    show "distinct (map fdb_id (vals (vlans d)))" unfolding vlans by (rule vals_drop) (use c(1) in \<open>simp add: physical_def\<close>)
    show "is_dict (vlans d)" using unique(2) by (auto simp: vlans)
    show "same_elsewhere d (cfg s)" by (simp add: d_def configuration_without_vlan_def same_elsewhere_def)
    fix k x assume "(k, x) \<in> set (vlans d)"
    then show "k = vid x" using c(1) by (auto simp: vlans drop_key_set physical_def)
  qed (rule unique(1), simp_all add: d_def ports_without_vlan)
qed

lemma same_ports_valid:
  assumes ok: "valid_configuration c" and same: "same_elsewhere d c" "ports d = ports c" "vlans d = vlans c"
    and legacy: "has (vlans c) (legacy_vlan (cfg_switch d))"
  shows "valid_configuration d"
proof -
  have c: "physical c" "tables_unique c" using ok by (simp_all add: valid_split)
  have "check_port d = check_port c" by (intro ext) (simp add: check_port_def same(3))
  then show ?thesis
    by (intro valid_vlans [OF ok same(1)]) (use c legacy in \<open>auto simp: physical_def tables_unique_def same(2,3)\<close>)
qed

interpretation fixed: runtime_invariant "\<lambda>s. cfg s = c" for c
  by unfold_locales (simp_all add: event_def sequenced_def without_session_def)

lemma valid_switch_edit:
  assumes ok: "valid_configuration (cfg s)" and result: "switch_edit q s = Inr (t, tc, r)"
  shows "valid_configuration (cfg t)"
proof -
  obtain w where w: "patched_switch q (cfg_switch (cfg s)) = Inr w"
    and legacy: "sx_legacy_vlan q \<noteq> None \<longrightarrow> has (vlans (cfg s)) (legacy_vlan w)"
    and t: "t = (if aging_seconds w \<noteq> aging_seconds (cfg_switch (cfg s))
      then rows_aged (aging_seconds w) (s\<lparr>cfg := (cfg s)\<lparr>cfg_switch := w\<rparr>\<rparr>) else s\<lparr>cfg := (cfg s)\<lparr>cfg_switch := w\<rparr>\<rparr>)"
    using result by (auto simp: switch_edit_def bind_Inr_iff Let_def quiet_Inr split: if_splits)
  have cfg: "cfg t = (cfg s)\<lparr>cfg_switch := w\<rparr>"
    unfolding t rows_aged_def by (simp add: fixed.I_expire)
  have kept: "port_count w = port_count (cfg_switch (cfg s))" "next_if_index w = next_if_index (cfg_switch (cfg s))"
    "next_bridge_port w = next_bridge_port (cfg_switch (cfg s))"
    "sx_legacy_vlan q = None \<Longrightarrow> legacy_vlan w = legacy_vlan (cfg_switch (cfg s))"
    using w by (auto simp: patched_switch_def Let_def given_def split: sum.splits if_splits)
  have "has (vlans (cfg s)) (legacy_vlan w)"
    using ok legacy kept(4) by (cases "sx_legacy_vlan q") (auto simp: valid_split physical_def)
  then show ?thesis
    unfolding cfg by (intro same_ports_valid [OF ok]) (simp_all add: same_elsewhere_def kept)
qed

subsection \<open>Reboot and SET\<close>

lemma draw_each_cfg: "cfg (snd (draw_each ks s)) = cfg s"
  using draw_each_form [of ks s] by auto

lemma reset_cfg: "cfg (reset_operational again announce s) = cfg s"
proof -
  have "cfg (quiesced again announce s) = cfg s"
    unfolding quiesced_def Let_def
    by (intro fixed.I_interrupt fixed.I_cancel_outbox) (simp add: fixed.I_queue_accounting fixed.I_foldl fixed.I_end_session)
  moreover have "cfg (forget_work u) = cfg u" for u
    by (simp add: forget_work_def Let_def case_prod_unfold foldl_keeps [where f = cfg] retire_apart draw_def)
  moreover have "cfg (recount again u) = cfg u \<and> cfg (rebooted u) = cfg u" for u
    by (simp add: recount_def rebooted_def Let_def case_prod_unfold draw_def draw_each_cfg)
  ultimately show ?thesis
    unfolding reset_operational_def Let_def by (cases again) (simp_all add: fixed.I_foldl [OF fixed.I_schedule])
qed

lemma composed_tables:
  assumes "compose_configuration accepts (fst (split_configuration c)) startup = Inr d" and "tables_unique c" and "is_dict (su_vlans startup)"
  shows "tables_unique d"
proof -
  have "d = joined (fst (split_configuration c)) startup"
    using assms(1) by (auto simp: compose_configuration_def Let_def bind_Inr_iff)
  then show ?thesis
    using assms(2,3) by (simp add: joined_def reconciled_startup_def split_configuration_def Let_def tables_unique_def
        is_dict_def map_values_def comp_def case_prod_beta)
qed

lemma valid_reboot:
  assumes ok: "valid_configuration (cfg s)" and startup: "is_dict (su_vlans (startup_policy s))"
    and result: "reboot refused s = Inr (t, tc, r)"
  shows "valid_configuration (cfg t)"
proof -
  obtain c where c: "compose_configuration (\<lambda>m. m_id m \<notin> set refused) (fst (split_configuration (cfg s))) (startup_policy s) = Inr c"
    and t: "cfg t = c"
    using result by (auto simp: reboot_def bind_Inr_iff Let_def quiet_Inr reset_cfg)
  have "references c = Inr ()" using c by (auto simp: compose_configuration_def model_validate_def Let_def bind_Inr_iff)
  moreover have "tables_unique c" using composed_tables [OF c _ startup] ok by (simp add: valid_split)
  ultimately show ?thesis by (simp add: t valid_configuration_def)
qed

lemma snmp_set_cfg:
  assumes "snmp_set plan s = Inr (t, tc, r)"
  shows "cfg t = pl_candidate plan"
proof -
  define u where "u = event ''snmp-set'' [(''assignments'', JInt (int (length (pl_assignments plan))))]
      (s\<lparr>cfg := pl_candidate plan, vlan_deletes := vlan_deletes s + int (length (pl_deletes plan))\<rparr>)"
  have "pae_steps (pl_actions plan) u = Inr t" using assms by (auto simp: snmp_set_def Let_def u_def bind_Inr_iff)
  moreover have "cfg u = pl_candidate plan" by (simp add: u_def)
  ultimately show ?thesis using fixed.I_pae_steps by blast
qed

lemma valid_snmp_set:
  assumes ok: "valid_configuration (cfg s)" and plan: "plan_set (cfg s) bindings prefixes = Inr plan"
    and result: "snmp_set plan s = Inr (t, tc, r)"
  shows "valid_configuration (cfg t)"
proof -
  have "cfg t = pl_candidate plan" using result by (rule snmp_set_cfg)
  moreover have "references (pl_candidate plan) = Inr ()"
    using ok plan_set_keeps_references [OF plan] by (simp add: valid_configuration_def tables_unique_def)
  moreover have "tables_unique (pl_candidate plan)"
    using ok plan_set_hardware [OF plan] by (simp add: valid_configuration_def tables_unique_def)
  ultimately show ?thesis by (simp add: valid_configuration_def)
qed

lemma valid_endpoint_clone:
  assumes ok: "valid_configuration (cfg s)" and result: "endpoint_clone eid name preserve s = Inr (t, tc, r)"
  shows "valid_configuration (cfg t)"
proof -
  obtain e where t: "endpoint_create (e\<lparr>e_id := fresh_ids s (drawn s), e_revision := 0,
      sources := fst (clone_sources preserve (sources e) (s\<lparr>drawn := drawn s + 1\<rparr>)),
      e_name := (if truthy name then the name else e_name e @ str '' copy'')\<rparr>)
    (snd (clone_sources preserve (sources e) (s\<lparr>drawn := drawn s + 1\<rparr>))) = Inr (t, tc, r)"
    using result by (auto simp: endpoint_clone_def bind_Inr_iff Let_def draw_def case_prod_unfold)
  have "cfg (snd (clone_sources preserve (sources e) (s\<lparr>drawn := drawn s + 1\<rparr>))) = cfg s"
    using clone_sources_form [of preserve "sources e" "s\<lparr>drawn := drawn s + 1\<rparr>"] by auto
  then show ?thesis using valid_endpoint_create [OF _ t] ok by simp
qed

lemma valid_paused: "valid_configuration c \<Longrightarrow> valid_configuration (c\<lparr>paused := b\<rparr>)"
  by (rule same_ports_valid) (auto simp: same_elsewhere_def valid_split physical_def)

subsection \<open>Records\<close>

lemma valid_record_command:
  assumes ok: "valid_configuration (cfg s)" and fresh: "\<not> has (materials (radius (cfg s))) (fresh_ids s (drawn s))"
    and result: "record_command e s = Inr (t, tc, r)"
  shows "valid_configuration (cfg t)"
proof -
  obtain m where m: "record_change e (\<lambda>i. fresh_ids s (drawn s + i)) (event_resource_label s) (cfg s) = Inr m"
    and t: "cfg t = mk_cfg m"
    using result by (auto simp: record_command_def bind_Inr_iff noted_apart)
  have network: "same_network (mk_cfg m) (cfg s)" by (rule record_change_network [OF m])
  have "check_port (mk_cfg m) = check_port (cfg s)"
    using network by (intro ext) (simp add: check_port_def same_network_def)
  then have "physical (mk_cfg m)" using ok network by (simp add: valid_split physical_def same_network_def)
  moreover have "logical (mk_cfg m)" using ok fresh by (intro logical_record [OF _ _ m]) (simp_all add: valid_split)
  ultimately show ?thesis using ok network by (simp add: t valid_split tables_unique_def same_network_def)
qed

lemma update_first_set: "x \<in> set (update_first P f xs) \<Longrightarrow> x \<in> set xs \<or> (\<exists>y \<in> set xs. x = f y)"
  by (induction xs) (auto split: if_splits)

lemma nominated_Inr:
  "nominated eid sid s = Inr (e, src) \<Longrightarrow> map_of (endpoints (cfg s)) eid = Some e"
  by (auto simp: nominated_def split: option.splits)

lemma served_cfg:
  "(case at of None \<Rightarrow> Inr u | Some pid \<Rightarrow> if restart then serve_source True (pid, address) u else Inr u) = Inr t \<Longrightarrow>
    cfg t = cfg u"
  using fixed.I_serve_source [of u "cfg u"] by (auto split: option.splits if_splits)

lemma valid_supplicant_save:
  assumes ok: "valid_configuration (cfg s)" and result: "supplicant_save eid sid template q restart s = Inr (t, tc, r)"
  shows "valid_configuration (cfg t)"
proof -
  obtain e src p where e: "map_of (endpoints (cfg s)) eid = Some e" and p: "check_profile (cfg s) p = Inr ()"
    and t: "cfg t = (cfg s)\<lparr>endpoints := put eid (with_profile sid p e) (endpoints (cfg s))\<rparr>"
    using result by (auto simp: supplicant_save_def bind_Inr_iff Let_def dest!: nominated_Inr served_cfg)
  have c: "logical (cfg s)" using ok by (simp add: valid_split)
  show ?thesis
    unfolding t
  proof (rule valid_endpoint_put [OF ok])
    show "e_id (with_profile sid p e) = eid"
      using c lookup_in_set [OF e] by (auto simp: logical_def with_profile_def)
    fix x assume "x \<in> set (sources (with_profile sid p e))"
    then have "x \<in> set (sources e) \<or> supplicant x = p"
      using update_first_set [of x] by (force simp: with_profile_def)
    then show "check_profile (cfg s) (supplicant x) = Inr ()" using profile_of_source [OF c e] p by auto
  qed
qed

text \<open>C3: every configuration command keeps the configuration valid, although it checks only what it
  changes: where all cross references hold before the command, they hold after it, and so does the
  uniqueness of the tables' keys. For a SET the plan must be one the planner made, a new port or
  certificate must not draw the identifier of another, and the saved startup policy must list each VLAN
  once.\<close>

theorem edits_keep_configuration_valid:
  assumes "references (cfg s) = Inr () \<and> tables_unique (cfg s)"
    and "edit_with e s = Inr (t, tc, r)"
    and "\<forall>plan. e = Ed_set plan \<longrightarrow> (\<exists>bindings prefixes. plan_set (cfg s) bindings prefixes = Inr plan)"
    and "\<not> has (ports (cfg s)) (fresh_ids s (drawn s)) \<and> \<not> has (materials (radius (cfg s))) (fresh_ids s (drawn s))"
    and "is_dict (su_vlans (startup_policy s))"
  shows "references (cfg t) = Inr () \<and> tables_unique (cfg t)"
proof -
  have ok: "valid_configuration (cfg s)" using assms(1) by (simp add: valid_configuration_def)
  have "valid_configuration (cfg t)"
  proof (cases e)
    case (Ed_pause stop)
    then show ?thesis using assms(2) valid_paused [OF ok] by (auto simp: pause_clock_def bind_Inr_iff quiet_Inr)
  next
    case Ed_save
    then show ?thesis using assms(2) ok by (auto simp: save_startup_def quiet_Inr)
  next
    case (Ed_set plan)
    then show ?thesis using assms(2,3) valid_snmp_set [OF ok] by auto
  qed (use assms(2,4,5) in \<open>simp_all add: valid_endpoint_create [OF ok] valid_endpoint_edit [OF ok] valid_endpoint_delete [OF ok]
      valid_endpoint_clone [OF ok] valid_attach [OF ok] valid_detach [OF ok] valid_port_create [OF ok] valid_port_edit [OF ok]
      valid_port_delete [OF ok] valid_vlan_create [OF ok] valid_vlan_edit [OF ok] valid_vlan_delete [OF ok]
      valid_switch_edit [OF ok] valid_reboot [OF ok] valid_record_command [OF ok] valid_supplicant_save [OF ok]\<close>)
  then show ?thesis by (simp add: valid_configuration_def)
qed

lemma example_vlan:
  "case edit_with (Ed_vlan_create 20 None None) example_runtime of Inl _ \<Rightarrow> False | Inr (_, _, r) \<Rightarrow> r = Reply_vid 20"
  by (simp add: vlan_create_def  example_runtime_def new_runtime_def initial_configuration_def need_def
   resource_def validated_def check_def valid_vlan_def given_def vals_def default_vlan_def has_def between_def fits_def)

lemma edits_keep_configuration_valid_witness:
  "\<exists>t tc. edit_with (Ed_vlan_create 20 None None) example_runtime = Inr (t, tc, Reply_vid 20) \<and> references (cfg t) = Inr ()"
proof -
  obtain t tc where t: "edit_with (Ed_vlan_create 20 None None) example_runtime = Inr (t, tc, Reply_vid 20)"
    using example_vlan by (auto split: sum.splits)
  have ok: "references (cfg example_runtime) = Inr () \<and> tables_unique (cfg example_runtime)"
    using initial_configuration_valid [of "[[112]]" "[115]"]
    by (simp add: example_runtime_def new_runtime_def initial_configuration_def tables_unique_def is_dict_def)
  have fresh: "\<not> has (ports (cfg example_runtime)) (fresh_ids example_runtime (drawn example_runtime)) \<and>
      \<not> has (materials (radius (cfg example_runtime))) (fresh_ids example_runtime (drawn example_runtime))"
    by (simp add: example_runtime_def new_runtime_def initial_configuration_def has_def default_port_def default_radius_def
        example_environment_def) code_simp
  have "is_dict (su_vlans (startup_policy example_runtime))"
    by (simp add: example_runtime_def new_runtime_def initial_configuration_def split_configuration_def is_dict_def)
  from edits_keep_configuration_valid [OF ok t _ fresh this] show ?thesis using t by simp
qed

end
