(* ===== verification/Engine_Properties.thy ===== *)
theory Engine_Properties
  imports Engine_Reachable Engine_Valid
begin

text \<open>
  What the commands of the engine promise, over whole transactions: the invariants of every reachable
  state, what failed, repeated and stale commands do, and what a committed command leaves of learned
  addresses and access sessions.
\<close>

subsection \<open>Invariants\<close>

text \<open>C1: in every state an installation reaches - through boots, restarts, commands, SETs, reboots and the
  passage of time - the history holds at most 2000 events numbered without a gap, the accounting queue
  holds at most 1024 records in the order of their sequence numbers, every attempt and session is filed
  under its subject on an existing port within the port's host mode, every attempt was captured under the
  present policy of its port, and at most 256 results are remembered.\<close>

theorem reachable_states_ok:
  assumes "reachable en"
  shows "history_ok (en_state en) \<and> accounting_ok (en_state en) \<and> subjects_ok (en_state en) \<and>
    length (en_memory en) \<le> 256"
  using engine_ok_reachable [OF assms] by (simp add: engine_ok_def)

text \<open>C7: a command that leaves the configuration alone keeps the access rules and the table limits: every
  learned address is one its port lets in, on a forced port or under a session that covers it, and the
  learned addresses, sessions, notifications and renewals stay within the limits of the configuration.\<close>

theorem operations_keep_access:
  assumes "access_ok s \<and> tables_ok s" and "transact fuel uuid (Operate op) s = Some (Inr (t, reply))"
  shows "access_ok t \<and> tables_ok t"
  using assms access_subjects access.I_transact_operation tables.I_transact_operation by blast

subsection \<open>Failed and repeated commands\<close>

text \<open>C23: a command that is refused, fails, or cannot be stored leaves the published state and the
  remembered results as they were.\<close>

theorem failed_command_changes_nothing:
  assumes "execute fuel uuid stored call en = Some (Inl problem, en')"
  shows "en_state en' = en_state en \<and> en_memory en' = en_memory en"
  using assms by (cases rule: execute_cases) simp_all







lemma followed_fields [simp]: "me_request (follow_advance s m) = me_request m"
    "me_incarnation (follow_advance s m) = me_incarnation m"
  by (simp_all add: follow_advance_def split: option.splits reply.splits)







subsection \<open>Learned addresses\<close>

lemma expire_rows_fdb:
  "fdb (foldl expire_row s rows) = filter (\<lambda>(k, _). \<forall>(l, row) \<in> set rows. l = k \<longrightarrow> sim_ms s < expires_at_ms row) (fdb s)"
proof (induction rows arbitrary: s)
  case (Cons r rows)
  obtain k row where r: "r = (k, row)" by (cases r)
  have step: "fdb (expire_row s r) = filter (\<lambda>(l, _). l = k \<longrightarrow> sim_ms s < expires_at_ms row) (fdb s)" "sim_ms (expire_row s r) = sim_ms s"
    by (auto simp: expire_row_def r event_def drop_key_filter intro: filter_cong)
  show ?case
    unfolding foldl_Cons Cons.IH step filter_filter by (rule filter_cong) (auto simp: r)
qed simp

text \<open>Aging removes exactly the addresses whose time has come, and keeps the others and their order.\<close>

theorem aging_exact:
  assumes "is_dict (fdb s)"
  shows "fdb (expire s) = filter (\<lambda>(_, row). sim_ms s < expires_at_ms row) (fdb s)"
  unfolding expire_def expire_rows_fdb
proof (rule filter_cong [OF refl], clarify)
  fix i m row assume row: "((i, m), row) \<in> set (fdb s)"
  have "row' = row" if "((i, m), row') \<in> set (fdb s)" for row'
    using is_dict_lookup [OF assms that] is_dict_lookup [OF assms row] by simp
  then show "(\<forall>(l, row') \<in> set (fdb s). l = (i, m) \<longrightarrow> sim_ms s < expires_at_ms row') \<longleftrightarrow> sim_ms s < expires_at_ms row"
    using row by blast
qed

definition same_tables :: "runtime \<Rightarrow> runtime \<Rightarrow> bool" where
  \<comment> \<open>what \<open>row_stands\<close> reads, and the rows\<close>
  "same_tables t s \<longleftrightarrow> cfg t = cfg s \<and> radius_sessions t = radius_sessions s \<and> fdb t = fdb s"

lemma same_tables_fold: "(\<And>s x. same_tables (f s x) s) \<Longrightarrow> same_tables (foldl f s xs) s"
  by (induction xs arbitrary: s) (auto simp: same_tables_def)

lemma same_tables_trans: "same_tables u t \<Longrightarrow> same_tables t s \<Longrightarrow> same_tables u s"
  by (simp add: same_tables_def)

lemma schedule_same: "same_tables (schedule delay s eid) s"
  by (simp add: schedule_def same_tables_def Let_def split: option.split)

lemma reroute_same: "same_tables (reroute old t s) s"
proof -
  have a: "same_tables (foldl renew_port s xs) s" for s xs
    by (rule same_tables_fold) (simp add: renew_port_def draw_def same_tables_def)
  have b: "same_tables (foldl renew_endpoint s xs) s" for s xs
    by (rule same_tables_fold) (simp add: renew_endpoint_def draw_def same_tables_def)
  have c: "same_tables (foldl (schedule True) s xs) s" for s xs
    by (rule same_tables_fold) (rule schedule_same)
  show ?thesis
    unfolding reroute_def Let_def by (rule same_tables_trans [OF c same_tables_trans [OF b a]])
qed

lemma stamp_same: "same_tables (foldl (stamp_vlan old) s vs) s" "same_tables (foldl (stamp_members old) s vs) s"
  by (rule same_tables_fold, simp add: stamp_vlan_def stamp_members_def vlan_changed_at_def same_tables_def)+

lemma vlan_clock_same: "same_tables (vlan_clock old s) s"
  using stamp_same(2) [of old s "keys (vlans (cfg s))"] by (simp add: vlan_clock_def Let_def same_tables_def)

lemma cancel_same: "same_tables (cancel_outbox reason s) s"
proof -
  have "same_tables (foldl (cancel_item reason) s xs) s" for xs
    by (rule same_tables_fold) (simp add: cancel_item_def same_tables_def event_def)
  then show ?thesis by (simp add: cancel_outbox_def same_tables_def)
qed

lemma count_revision_same: "same_tables (count_revision durable saving s) s"
  by (cases saving) (simp_all add: count_revision_def Let_def case_prod_unfold same_tables_def)

lemma row_stands_same:
  assumes "cfg t = cfg s" "radius_sessions t = radius_sessions s"
  shows "row_stands t = row_stands s"
proof -
  have "up t = up s" by (intro ext) (simp add: up_def carrier_def attached_def the_port_def assms(1))
  moreover have "session_vid t = session_vid s"
    by (intro ext) (simp add: session_vid_def the_port_def assms(1) split: vlan_source.split)
  ultimately show ?thesis unfolding row_stands_def [abs_def] the_port_def assms by simp
qed

lemma report_links_same: "same_tables (report_links old s) s"
proof -
  have told: "same_tables (notify_target kind e u x) u" for kind e u x
    by (simp add: notify_target_def event_def same_tables_def Let_def)
  have "same_tables (foldl (notify_target kind e) u xs) u" for kind e u xs
    by (rule same_tables_fold) (rule told)
  then have "same_tables (notify kind on d u) u" for kind on d u
    by (auto simp: notify_def event_def same_tables_def Let_def)
  then have "same_tables (report_link old u pid) u" for u pid
    by (auto simp: report_link_def stamp_link_def on_counters_def same_tables_def Let_def)
  then show ?thesis unfolding report_links_def by (rule same_tables_fold)
qed

lemma purged_same: "same_tables t s \<Longrightarrow> same_tables (purge_rows t) (purge_rows s)"
  using row_stands_same [of t s] by (simp add: same_tables_def purge_rows_def)

lemma traffic_effects_same: "same_tables (traffic_effects old tc s) (purge_rows s)"
  unfolding traffic_effects_def Let_def
  by (rule same_tables_trans [OF stamp_same(1) same_tables_trans [OF reroute_same purged_same [OF report_links_same]]])

definition reconciled :: "(uid \<Rightarrow> bytes option) \<Rightarrow> request \<Rightarrow> runtime \<Rightarrow> runtime \<Rightarrow> runtime" where
  \<comment> \<open>the runtime a command's handler leaves, after authentication and accounting were reconciled with it\<close>
  "reconciled uuid q old s = identity_effects uuid (request_effect q) old
     (if ef_history (request_effect q) then configuration_events (cfg old) s else s)"

lemma settled_tables:
  assumes "ef_links (request_effect q)"
  shows "same_tables (count_revision durable saving (settle uuid (request_effect q) tc old s)) (purge_rows (reconciled uuid q old s))"
proof -
  have "same_tables (notification_effects old x) x" for x
    by (simp add: notification_effects_def cancel_same) (simp add: same_tables_def)
  then have "same_tables (settle uuid (request_effect q) tc old s) (traffic_effects old tc (reconciled uuid q old s))"
    unfolding settle_def Let_def reconciled_def [symmetric] using assms vlan_clock_same same_tables_trans by (metis (full_types))
  then show ?thesis
    by (rule same_tables_trans [OF count_revision_same same_tables_trans [OF _ traffic_effects_same]])
qed

lemma committed_rows:
  assumes "ef_links (request_effect q)" and "transact fuel uuid q s = Some (Inr (t, reply))"
  obtains u tc where "perform fuel q s = Some (Inr (u, tc, reply))" and "fdb t = filter (row_stands t) (fdb (reconciled uuid q s u))"
  using assms(2)
proof (rule transact_Inr)
  fix u tc
  assume "perform fuel q s = Some (Inr (u, tc, reply))"
    and t: "t = count_revision (ef_durable (request_effect q)) (request_saving q) (settle uuid (request_effect q) tc s u)"
  moreover have "same_tables t (purge_rows (reconciled uuid q s u))" unfolding t by (rule settled_tables [OF assms(1)])
  then have "fdb t = filter (row_stands t) (fdb (reconciled uuid q s u))"
    using row_stands_same [of t "reconciled uuid q s u"] by (simp add: same_tables_def purge_rows_def)
  ultimately show thesis using that by blast
qed

lemma committed_addresses_rows:
  assumes "ef_links (request_effect q)" and "transact fuel uuid q s = Some (Inr (t, reply))" and "r \<in> set (fdb t)"
  shows "row_stands t r"
  by (rule committed_rows [OF assms(1,2)]) (use assms(3) in simp)

lemma row_stands_iff:
  "row_stands s (k, row) \<longleftrightarrow> has (vlans (cfg s)) (f_vid row) \<and>
     (\<exists>p. map_of (ports (cfg s)) (f_port row) = Some p \<and> admin_up p \<and> \<not> forced_down p \<and>
        (if mode p = Shared then shared_partner p else f_port row \<in> snd ` set (attachments (cfg s))) \<and>
        (f_vid row \<in> set (admitted p) \<or>
         (\<exists>se \<in> snd ` set (radius_sessions s). se_port se = f_port row \<and>
            f_vid row = (case au_source (se_policy se) of Port_default \<Rightarrow> pvid p | From_radius \<Rightarrow> au_vid (se_policy se)))))"
proof (cases "map_of (ports (cfg s)) (f_port row)")
  case None
  then show ?thesis by (simp add: row_stands_def has_def)
next
  case (Some p)
  have p: "the_port s (f_port row) = p" by (simp add: the_port_def Some)
  have "attached s (f_port row) \<noteq> [] \<longleftrightarrow> f_port row \<in> snd ` set (attachments (cfg s))"
    by (force simp: attached_def filter_empty_conv)
  moreover have "(se_port se = f_port row \<and> session_vid s se = f_vid row) = (se_port se = f_port row \<and>
      f_vid row = (case au_source (se_policy se) of Port_default \<Rightarrow> pvid p | From_radius \<Rightarrow> au_vid (se_policy se)))" for se
    by (auto simp: session_vid_def p split: vlan_source.splits)
  then have "list_ex (\<lambda>se. se_port se = f_port row \<and> session_vid s se = f_vid row) (vals (radius_sessions s)) \<longleftrightarrow>
      (\<exists>se \<in> snd ` set (radius_sessions s). se_port se = f_port row \<and>
         f_vid row = (case au_source (se_policy se) of Port_default \<Rightarrow> pvid p | From_radius \<Rightarrow> au_vid (se_policy se)))"
    unfolding list_ex_iff vals_def set_map by simp
  ultimately show ?thesis
    by (simp add: row_stands_def Some has_def up_def carrier_def p)
qed

text \<open>C11: the commit of a command that may change links leaves exactly the learned addresses that stand
  afterwards, of those that the command and the reconciliation of its sessions left: an address is kept
  if and only if its VLAN exists, its port exists, is enabled, not forced down and has carrier (a partner
  on a shared port, an attached endpoint on a direct one), and the VLAN is admitted on the port or is the
  VLAN of a session there.\<close>

theorem committed_addresses_stand:
  assumes "ef_links (request_effect q)" and "transact fuel uuid q s = Some (Inr (t, reply))"
  shows "\<exists>u tc. perform fuel q s = Some (Inr (u, tc, reply)) \<and>
    (\<forall>k row. (k, row) \<in> set (fdb t) \<longleftrightarrow> (k, row) \<in> set (fdb (reconciled uuid q s u)) \<and>
      has (vlans (cfg t)) (f_vid row) \<and>
      (\<exists>p. map_of (ports (cfg t)) (f_port row) = Some p \<and> admin_up p \<and> \<not> forced_down p \<and>
        (if mode p = Shared then shared_partner p else f_port row \<in> snd ` set (attachments (cfg t))) \<and>
        (f_vid row \<in> set (admitted p) \<or>
         (\<exists>se \<in> snd ` set (radius_sessions t). se_port se = f_port row \<and>
            f_vid row = (case au_source (se_policy se) of Port_default \<Rightarrow> pvid p | From_radius \<Rightarrow> au_vid (se_policy se))))))"
proof -
  obtain u tc where u: "perform fuel q s = Some (Inr (u, tc, reply))"
    and rows: "fdb t = filter (row_stands t) (fdb (reconciled uuid q s u))"
    using committed_rows [OF assms] .
  have "(k, row) \<in> set (fdb t) \<longleftrightarrow> (k, row) \<in> set (fdb (reconciled uuid q s u)) \<and> row_stands t (k, row)" for k row
    unfolding rows by auto
  with u show ?thesis unfolding row_stands_iff by blast
qed

lemma vlan_free_ports:
  assumes "(k, p) \<in> set (ports (configuration_without_vlan v c))" and "v \<noteq> 1"
  shows "\<not> uses_vlan v p"
proof -
  obtain q where "p = (if uses_vlan v q then port_without_vlan v q else q)" using assms(1) by (rule row_without_vlan)
  then show ?thesis using assms(2) by (auto simp: uses_vlan_def port_without_vlan_def include_vlan_1_def Let_def)
qed

text \<open>C17: the deletion of a VLAN is complete: once committed, no port admits it, sends it untagged, forbids it
  or has it as PVID, the legacy VLAN is another, and no learned address is left on it.\<close>

theorem vlan_deletion_complete:
  assumes "transact fuel uuid (Edit (Ed_vlan_delete v)) s = Some (Inr (t, reply))"
  shows "\<not> has (vlans (cfg t)) v \<and> legacy_vlan (cfg_switch (cfg t)) \<noteq> v \<and>
    list_all (\<lambda>(_, p). \<not> uses_vlan v p) (ports (cfg t)) \<and> list_all (\<lambda>(_, row). f_vid row \<noteq> v) (fdb t)"
proof -
  let ?q = "Edit (Ed_vlan_delete v)"
  obtain u tc where u: "vlan_delete v s = Inr (u, tc, reply)"
    and t: "t = count_revision (ef_durable (request_effect ?q)) (request_saving ?q) (settle uuid (request_effect ?q) tc s u)"
    using transact_Inr [OF assms] by auto
  have v: "v \<noteq> 1" and "cfg u = configuration_without_vlan v (cfg s)"
    using u by (auto simp: vlan_delete_def bind_Inr_iff Let_def)
  moreover have "cfg t = cfg u" unfolding t by (rule fixed.I_commit) simp
  ultimately have c: "cfg t = configuration_without_vlan v (cfg s)" by simp
  have gone: "\<not> has (vlans (cfg t)) v" by (simp add: c configuration_without_vlan_def has_drop_key)
  have "f_vid row \<noteq> v" if "(k, row) \<in> set (fdb t)" for k row
    using committed_addresses_rows [OF _ assms that] gone by (auto simp: row_stands_def)
  then have rows: "list_all (\<lambda>(_, row). f_vid row \<noteq> v) (fdb t)" by (auto simp: list_all_iff)
  have "list_all (\<lambda>(_, p). \<not> uses_vlan v p) (ports (cfg t))"
    using vlan_free_ports [OF _ v] by (auto simp: c list_all_iff)
  moreover have "legacy_vlan (cfg_switch (cfg t)) \<noteq> v" using v by (simp add: c configuration_without_vlan_def)
  ultimately show ?thesis using gone rows by blast
qed

subsection \<open>Access\<close>

text \<open>C9: access is granted only for the attempt that is current under its present context, on an
  Access-Accept whose authorization the port and the VLANs admit.\<close>

theorem access_needs_accept:
  assumes "radius_result key o' s = Inr (t, Accepted sid live)"
  shows "\<exists>a r policy. current_attempt s key (oc_attempt o') = Some a \<and> oc_result o' = Some r \<and> ar_code r = 2 \<and>
    authorization r (the_port s (fst key)) (vlans (cfg s)) = Inr policy"
proof -
  obtain a where a: "current_attempt s key (oc_attempt o') = Some a"
    using assms by (auto simp: radius_result_def split: option.splits)
  let ?s = "s\<lparr>radius_attempts := drop_key key (radius_attempts s)\<rparr>"
  obtain decision where d: "decided_policy o' ?s (fst key) = Inr decision" "decide key a o' decision ?s = Inr (t, Accepted sid live)"
    using assms by (auto simp: radius_result_def a bind_Inr_iff Let_def)
  obtain policy where "decision = Inr policy"
    using d(2) by (auto simp: decide_def Let_def bind_Inr_iff split: sum.splits if_splits)
  then show ?thesis
    using d(1) a by (auto simp: decided_policy_def the_port_def split: option.splits if_splits sum.splits py_error.splits)
qed

lemma example_boot: "\<exists>en. boot example_environment (initial_configuration [115] [[112]]) empty_store = Inr en"
  by (simp add: boot_def endpoint_capacity_def source_capacity_def source_count_def need_def empty_store_def vals_def
      initial_configuration_def default_switch_def Let_def)

lemma reachable_states_ok_witness:
  "\<exists>en. boot example_environment (initial_configuration [115] [[112]]) empty_store = Inr en \<and> subjects_ok (en_state en)"
proof -
  obtain en where en: "boot example_environment (initial_configuration [115] [[112]]) empty_store = Inr en"
    using example_boot by blast
  then have "reachable en" by (rule Installed)
  from reachable_states_ok [OF this] show ?thesis using en by blast
qed

lemma example_cold_start: "\<exists>t. transact 1 (\<lambda>_. None) (Operate Op_cold_start) example_runtime = Some (Inr (t, No_reply))"
  by (simp add: transact_def cold_start_def quiet_def)

lemma example_access: "access_ok example_runtime" "tables_ok example_runtime"
  by (simp_all add: access_ok_def tables_ok_def subjects_ok_def default_switch_def is_dict_def filed_sessions_def filed_attempts_def captured_policy_def example_runtime_def new_runtime_def initial_configuration_def)

lemma operations_keep_access_witness:
  "\<exists>t. transact 1 (\<lambda>_. None) (Operate Op_cold_start) example_runtime = Some (Inr (t, No_reply)) \<and> access_ok t \<and> tables_ok t"
  using example_cold_start operations_keep_access [OF conjI [OF example_access]] by blast

definition example_engine :: engine where
  "example_engine = \<lparr>en_state = example_runtime, en_memory = [], en_fault = None\<rparr>"

definition example_call :: "int option \<Rightarrow> call" where
  "example_call expected = \<lparr>ca_request = Operate Op_cold_start, ca_expected = expected, ca_key = Some [107], ca_expected_config = None\<rparr>"

lemma example_call_fields:
  "call_key (example_call expected) = Some [107]" "ca_request (example_call expected) = Operate Op_cold_start"
  "ca_expected (example_call expected) = expected" "ca_expected_config (example_call expected) = None"
  by (simp_all add: call_key_def example_call_def truthy_def)

lemma example_engine_fields:
  "en_state example_engine = example_runtime" "en_memory example_engine = []" "en_fault example_engine = None"
  by (simp_all add: example_engine_def)

lemma example_fresh: "execute n uuid stored (example_call expected) example_engine =
    fresh_transaction n uuid stored (example_call expected) example_engine"
  by (simp add: execute_def example_engine_fields example_call_fields optional_lookup_def)

lemma failed_command_changes_nothing_witness:
  "\<exists>problem en'. execute 1 (\<lambda>_. None) (\<lambda>_. Saved) (example_call (Some 7)) example_engine = Some (Inl problem, en') \<and>
     en_state en' = example_runtime"
proof -
  have "\<exists>problem en'. execute 1 (\<lambda>_. None) (\<lambda>_. Saved) (example_call (Some 7)) example_engine = Some (Inl problem, en')"
    by (simp add: example_fresh fresh_transaction_def stale_revision_def example_call_fields rejected_def)
      (simp add: example_engine_fields example_runtime_def new_runtime_def)
  then show ?thesis using failed_command_changes_nothing [of 1 "\<lambda>_. None"] by (fastforce simp: example_engine_def)
qed



definition example_row :: "int \<Rightarrow> pystr \<Rightarrow> fdb_row" where
  "example_row expiry m = \<lparr>f_fdb_id = 1001, f_mac = m, f_vid = 1, f_port = [112], f_bridge_port = 1, f_if_index = 101,
     last_seen_ms = 0, expires_at_ms = expiry\<rparr>"

lemma aging_exact_witness:
  "fdb (expire (example_runtime\<lparr>sim_ms := 5, fdb := [((1001, [97]), example_row 5 [97]), ((1001, [98]), example_row 6 [98])]\<rparr>)) =
     [((1001, [98]), example_row 6 [98])]"
  by (subst aging_exact) (simp_all add: is_dict_def example_row_def)

lemma example_edit:
  assumes "case edit_with e example_runtime of Inl _ \<Rightarrow> False | Inr (_, _, r) \<Rightarrow> r = reply" and "\<And>plan. e \<noteq> Ed_set plan"
  shows "\<exists>t. transact 1 (\<lambda>_. None) (Edit e) example_runtime = Some (Inr (t, reply))"
  using assms by (cases e) (auto simp: transact_def split: sum.splits)

definition example_switched :: runtime where
  "example_switched = example_runtime\<lparr>cfg := (cfg example_runtime)\<lparr>vlans := vlans (cfg example_runtime) @
     [(20, \<lparr>vid = 20, vl_name = [], fdb_id = 1020\<rparr>)]\<rparr>\<rparr>"

lemma example_deletion:
  "case edit_with (Ed_vlan_delete 20) example_switched of Inl _ \<Rightarrow> False | Inr (_, _, r) \<Rightarrow> r = No_reply"
  by (simp add: vlan_delete_def example_switched_def example_runtime_def new_runtime_def initial_configuration_def need_def
   resource_def validated_def uses_vlan_def default_port_def)

lemma vlan_deletion_complete_witness:
  "\<exists>t. transact 1 (\<lambda>_. None) (Edit (Ed_vlan_delete 20)) example_switched = Some (Inr (t, No_reply)) \<and> \<not> has (vlans (cfg t)) 20"
proof -
  obtain t where t: "transact 1 (\<lambda>_. None) (Edit (Ed_vlan_delete 20)) example_switched = Some (Inr (t, No_reply))"
    using example_deletion by (auto simp: transact_def split: sum.splits)
  then show ?thesis using vlan_deletion_complete [OF t] by blast
qed

definition example_learned :: runtime where
  \<comment> \<open>a port in two VLANs, an address learned in each, and one in VLAN 1 on a port that is down\<close>
  "example_learned = example_switched\<lparr>
     cfg := (cfg example_switched)\<lparr>ports :=
       [([112], (default_port [112] 1 101 [])\<lparr>mode := Shared, shared_partner := True, admitted := [1, 20]\<rparr>),
        ([113], default_port [113] 2 102 [])]\<rparr>,
     fdb := [((1001, [97]), example_row 9000 [97]), ((1020, [98]), (example_row 9000 [98])\<lparr>f_fdb_id := 1020, f_vid := 20\<rparr>),
             ((1001, [99]), (example_row 9000 [99])\<lparr>f_port := [113]\<rparr>)]\<rparr>"

lemma idle_reconciled:
  assumes "radius_attempts u = []" "radius_sessions u = []" "radius_status u = []" and "\<not> ef_history (request_effect q)" "\<not> ef_reboot (request_effect q)"
  shows "fdb (reconciled uuid q old u) = fdb u"
proof -
  have "fdb (snd (foldl (renew_generation old) (d, v) xs)) = fdb v" for d v xs
    by (induction xs arbitrary: d v) (auto simp: renew_generation_def draw_def split: prod.split)
  then have renewed: "fdb (renew_credentials old v) = fdb v" for v
    by (simp add: renew_credentials_def draw_def Let_def case_prod_unfold)
  have dropped: "fdb (foldl (\<lambda>s _. accounting_drop r d s) v xs) = fdb v \<and> radius_sessions (foldl (\<lambda>s _. accounting_drop r d s) v xs) = radius_sessions v"
    for r d v and xs :: "nat list"
    by (induction xs arbitrary: v) (auto simp: accounting_drop_def event_def Let_def)
  show ?thesis
    using assms by (simp add: reconciled_def identity_effects_def renewed reconcile_authentication_def reconcile_accounting_def dropped Let_def)
qed

lemma committed_addresses_stand_witness:
  "\<exists>t. transact 1 (\<lambda>_. None) (Edit (Ed_pause True)) example_learned = Some (Inr (t, No_reply)) \<and>
     fst ` set (fdb t) = {(1001, [97]), (1020, [98])}"
proof -
  let ?q = "Edit (Ed_pause True)"
  obtain u where u: "perform 1 ?q example_learned = Some (Inr (u, untouched, No_reply))"
    and apart: "fdb u = fdb example_learned" "radius_attempts u = []" "radius_sessions u = []" "radius_status u = []"
      "cfg u = (cfg example_learned)\<lparr>paused := True\<rparr>"
    by (auto simp: pause_clock_def need_def quiet_def event_def example_learned_def example_switched_def example_runtime_def
      new_runtime_def Let_def)
  obtain t where t: "transact 1 (\<lambda>_. None) ?q example_learned = Some (Inr (t, No_reply))"
    using u by (auto simp: transact_def)
  have "cfg t = cfg u"
    using t u by (auto simp: transact_def intro!: fixed.I_commit)
  then have c: "ports (cfg t) = [([112], (default_port [112] 1 101 [])\<lparr>mode := Shared, shared_partner := True, admitted := [1, 20]\<rparr>),
      ([113], default_port [113] 2 102 [])]" "has (vlans (cfg t)) 1" "has (vlans (cfg t)) 20" "attachments (cfg t) = []"
    by (simp_all add: apart(5) example_learned_def example_switched_def example_runtime_def new_runtime_def
      initial_configuration_def has_def)
  have rows: "fdb (reconciled (\<lambda>_. None) ?q example_learned u) = fdb example_learned"
    using idle_reconciled [OF apart(2-4)] apart(1) by simp
  have f: "fdb example_learned = [((1001, [97]), example_row 9000 [97]),
      ((1020, [98]), (example_row 9000 [98])\<lparr>f_fdb_id := 1020, f_vid := 20\<rparr>), ((1001, [99]), (example_row 9000 [99])\<lparr>f_port := [113]\<rparr>)]"
    by (simp add: example_learned_def)
  have links: "ef_links (request_effect ?q)" by simp
  have p: "map_of (ports (cfg t)) [112] = Some ((default_port [112] 1 101 [])\<lparr>mode := Shared, shared_partner := True, admitted := [1, 20]\<rparr>)"
    "map_of (ports (cfg t)) [113] = Some (default_port [113] 2 102 [])"
    by (simp_all add: c)
  obtain u' tc' where u': "perform 1 ?q example_learned = Some (Inr (u', tc', No_reply))"
    and keep: "\<And>k row. (k, row) \<in> set (fdb t) \<longleftrightarrow> (k, row) \<in> set (fdb (reconciled (\<lambda>_. None) ?q example_learned u')) \<and>
      has (vlans (cfg t)) (f_vid row) \<and>
      (\<exists>p. map_of (ports (cfg t)) (f_port row) = Some p \<and> admin_up p \<and> \<not> forced_down p \<and>
        (if mode p = Shared then shared_partner p else f_port row \<in> snd ` set (attachments (cfg t))) \<and>
        (f_vid row \<in> set (admitted p) \<or>
         (\<exists>se \<in> snd ` set (radius_sessions t). se_port se = f_port row \<and>
            f_vid row = (case au_source (se_policy se) of Port_default \<Rightarrow> pvid p | From_radius \<Rightarrow> au_vid (se_policy se)))))"
    using committed_addresses_stand [OF links t] by blast
  have "u' = u" using u u' by simp
  note keep = keep [unfolded this rows]
  let ?a = "((1001, [97]), example_row 9000 [97]) :: (int \<times> pystr) \<times> fdb_row"
  let ?b = "((1020, [98]), (example_row 9000 [98])\<lparr>f_fdb_id := 1020, f_vid := 20\<rparr>) :: (int \<times> pystr) \<times> fdb_row"
  let ?c = "((1001, [99]), (example_row 9000 [99])\<lparr>f_port := [113]\<rparr>) :: (int \<times> pystr) \<times> fdb_row"
  let ?p = "(default_port [112] 1 101 [])\<lparr>mode := Shared, shared_partner := True, admitted := [1, 20]\<rparr>"
  have "?a \<in> set (fdb t)" "?b \<in> set (fdb t)" unfolding keep
    by (intro conjI exI [of _ ?p]; simp add: f p(1) c(2,3) example_row_def default_port_def)+
  moreover have "?c \<notin> set (fdb t)" unfolding keep
    by (simp add: p c(4)) (simp add: p example_row_def default_port_def c(4))
  moreover have "set (fdb t) \<subseteq> {?a, ?b, ?c}" using keep f by auto
  ultimately have "set (fdb t) = {?a, ?b}" by blast
  then show ?thesis using t by force
qed

definition example_source :: source where
  "example_source = \<lparr>src_id = [115], src_mac = str ''02:00:00:00:00:05'', tag = Untagged, initial_delay_ms = 0,
     interval_ms = 1000, octets = 64, supplicant = None\<rparr>"

definition example_guarded :: runtime where
  \<comment> \<open>one endpoint on a port under MAB\<close>
  "example_guarded = example_runtime\<lparr>cfg := (cfg example_runtime)\<lparr>
     ports := [([112], (default_port [112] 1 101 [])\<lparr>authentication := default_port_authentication\<lparr>pa_control := Auto,
       pa_method := Mab\<rparr>\<rparr>)],
     vlans := vlans (cfg example_runtime) @ [(20, \<lparr>vid = 20, vl_name = [], fdb_id = 1020\<rparr>)],
     endpoints := [([101], \<lparr>e_id = [101], e_name = [101], metadata = [], active = True, sources = [example_source],
       e_revision = 0\<rparr>)],
     attachments := [([101], [112])]\<rparr>\<rparr>"

definition example_nas :: nas_identity where
  "example_nas = \<lparr>nas_id = [110], nas_ipv4 = None\<rparr>"

definition example_attempt :: attempt where
  "example_attempt = \<lparr>at_id = [97], at_session = [98], at_port = [112], at_mac = str ''02:00:00:00:00:05'',
     at_epoch = epoch example_guarded, at_context = the (authentication_context example_guarded ([112], str ''02:00:00:00:00:05'')),
     at_method = By_mab, at_state = None, prior_session = None, at_nas = Some example_nas, session_owned = False,
     automatic_renewal = False, prior_grant = None, at_username = None, state_server = None, state_signature = None,
     pae_state = None, pae_backend = None\<rparr>"

definition example_trying :: runtime where
  "example_trying = example_guarded\<lparr>radius_attempts := [(([112], str ''02:00:00:00:00:05''), example_attempt)]\<rparr>"

definition example_outcome :: outcome where
  "example_outcome = \<lparr>oc_attempt = [97], oc_result = Some example_accept, oc_failure = None, oc_server = None, oc_signature = None\<rparr>"

abbreviation (input) example_port :: port where
  "example_port \<equiv> default_port [112] 1 101 []\<lparr>authentication := default_port_authentication\<lparr>pa_control := Auto, pa_method := Mab\<rparr>\<rparr>"

lemma trying_fields:
  "ports (cfg example_trying) = [([112], example_port)]"
  "vlans (cfg example_trying) = [(1, default_vlan), (20, \<lparr>vid = 20, vl_name = [], fdb_id = 1020\<rparr>)]"
  "radius (cfg example_trying) = default_radius" "attachments (cfg example_trying) = [([101], [112])]"
  "radius_attempts example_trying = [(([112], str ''02:00:00:00:00:05''), example_attempt)]"
  "radius_sessions example_trying = []" "epoch example_trying = epoch example_guarded"
  "1 \<le> source_limit (cfg_switch (cfg example_trying))" "endpoint_sources example_trying [101] = [example_source]"
  by (simp_all add: example_trying_def example_guarded_def example_runtime_def new_runtime_def initial_configuration_def
     default_switch_def endpoint_sources_def Let_def)

lemma trying_port: "the_port example_trying [112] = example_port"
  by (simp add: the_port_def trying_fields)

lemma example_context: "authentication_context example_trying ([112], str ''02:00:00:00:00:05'') \<noteq> None"
  by (simp add: authentication_context_def trying_fields trying_port up_def carrier_def attached_def sources_at_def
     default_port_def default_port_authentication_def example_source_def)

lemma context_without_attempts: "authentication_context (s\<lparr>radius_attempts := d\<rparr>) = authentication_context s"
proof -
  have "up (s\<lparr>radius_attempts := d\<rparr>) = up s" "sources_at (s\<lparr>radius_attempts := d\<rparr>) = sources_at s"
      "port_capture (s\<lparr>radius_attempts := d\<rparr>) = port_capture s"
      "cfg (s\<lparr>radius_attempts := d\<rparr>) = cfg s"
    by ((intro ext)?, simp add: up_def carrier_def attached_def sources_at_def the_port_def
      endpoint_sources_def port_capture_def captured_settings_def Let_def split: option.split)+
  then show ?thesis
    by (simp only: authentication_context_def [abs_def])
qed

lemma example_current: "current_attempt example_trying ([112], str ''02:00:00:00:00:05'') [97] \<noteq> None"
  using example_context
  by (simp add: current_attempt_def trying_fields current_context_def)
    (simp add: example_trying_def context_without_attempts example_attempt_def)

lemma example_policy: "case decided_policy example_outcome example_trying [112] of Inr (Inr _) \<Rightarrow> True | _ \<Rightarrow> False"
  by (simp add: decided_policy_def trying_fields trying_port example_outcome_def) code_simp

lemma example_identity: "succeeds (access_attributes (radius (cfg example_trying)) (the_port example_trying [112])
    (str ''02:00:00:00:00:05'') [98] None example_nas)"
  unfolding trying_fields trying_port by code_simp

lemma example_room: "length (radius_sessions example_trying) = 0" "1 \<le> source_limit (cfg_switch (cfg example_trying))"
  by (simp_all add: trying_fields)

lemma grant_fresh:
  assumes "radius_sessions s = []" and "1 \<le> source_limit (cfg_switch (cfg s))" and "at_nas a = Some nas"
    and "access_attributes (radius (cfg s)) (the_port s (fst key)) (snd key) (at_session a) None nas = Inr attrs"
  shows "\<exists>se u. grant key a policy o' s = Inr (file_grant key a policy o' (Some attrs) se u)"
proof -
  obtain se u where fresh: "fresh_session key (at_session a) a policy None s = (se, u)" by (cases "fresh_session key (at_session a) a policy None s")
  then have "se_id se = at_session a" "cfg u = cfg s" by (auto simp: fresh_session_def draw_def)
  then have "grant_identity key a se u = Inr attrs" using assms(3,4) by (simp add: grant_identity_def the_port_def)
  then show ?thesis using assms(1,2) fresh by (simp add: grant_def session_to_grant_def) blast
qed

lemma access_needs_accept_witness:
  "\<exists>t sid live. radius_result ([112], str ''02:00:00:00:00:05'') example_outcome example_trying = Inr (t, Accepted sid live) \<and>
     (\<exists>policy. authorization example_accept (the_port example_trying [112]) (vlans (cfg example_trying)) = Inr policy)"
proof -
  let ?key = "([112], str ''02:00:00:00:00:05'') :: subject"
  let ?s = "example_trying\<lparr>radius_attempts := drop_key ?key (radius_attempts example_trying)\<rparr>"
  have outcome: "oc_attempt example_outcome = [97]" "oc_result example_outcome = Some example_accept" "ar_code example_accept = 2"
    by (simp_all add: example_outcome_def example_accept_def)
  have a: "current_attempt example_trying ?key [97] = Some example_attempt"
    using example_current current_attempt_filed [of example_trying ?key "[97]"] by (auto simp: example_trying_def)
  have c: "cfg ?s = cfg example_trying" by simp
  obtain policy where "decided_policy example_outcome example_trying [112] = Inr (Inr policy)"
    using example_policy by (auto split: sum.splits)
  then have d: "decided_policy example_outcome ?s [112] = Inr (Inr policy)"
    unfolding decided_policy_def the_port_def c .
  have "radius_result ?key example_outcome example_trying = decide ?key example_attempt example_outcome (Inr policy) ?s"
    using a d by (simp add: radius_result_def outcome)
  also have "\<dots> = grant ?key example_attempt policy example_outcome ?s"
    by (simp add: decide_def base_reason_def outcome begins_with_def fails_over_def received_code_def pae_finish_def
        example_attempt_def)
  finally have result: "radius_result ?key example_outcome example_trying = grant ?key example_attempt policy example_outcome ?s" .
  obtain attrs where "access_attributes (radius (cfg example_trying)) (the_port example_trying [112])
      (str ''02:00:00:00:00:05'') [98] None example_nas = Inr attrs"
    using example_identity by (auto simp: succeeds_iff)
  then have "\<exists>se u. grant ?key example_attempt policy example_outcome ?s = Inr (file_grant ?key example_attempt policy example_outcome (Some attrs) se u)"
    using example_room by (intro grant_fresh) (simp_all add: example_attempt_def the_port_def)
  then obtain t sid live where "radius_result ?key example_outcome example_trying = Inr (t, Accepted sid live)"
    unfolding result by (auto simp: file_grant_def Let_def)
  from this access_needs_accept [OF this] show ?thesis using outcome by auto
qed

end
