(* ===== verification/Mib_Rows.thy ===== *)
theory Mib_Rows
  imports Mib_Views
begin

text \<open>
  The objects that \<open>Projection.build\<close> of \<open>switchlab/mib.py\<close> derives from a published runtime: the scalars
  and the tables, each table a prefix, its columns and its conceptual rows. A value is the pair of the
  source, the ASN.1 syntax and the Python value its constructor is applied to when the object is sent;
  \<open>pysnmp\<close> holds the constructors. Reading the clock is an argument: \<open>ticks\<close>, hundredths of a second since
  the boot modulo 2^32.
\<close>

datatype asn1 = Integer32 | Gauge32 | Counter32 | Counter64 | Time_ticks | Object_identifier | Octet_string

datatype content = Number int | Name oid | Text pystr | Octets bytes

type_synonym entry = "asn1 \<times> content"

type_synonym row = "oid \<times> (nat, entry) dict" \<comment> \<open>an index, and a value per column\<close>

type_synonym table = "oid \<times> nat list \<times> row list" \<comment> \<open>a prefix, its columns, its rows\<close>

definition octets :: "content \<Rightarrow> bytes option" where
  \<comment> \<open>texts are sent as UTF-8, octets as they are\<close>
  "octets c = (case c of Text t \<Rightarrow> utf8_encode t | Octets b \<Rightarrow> Some b | _ \<Rightarrow> None)"

definition integer :: "int \<Rightarrow> entry" where "integer n = (Integer32, Number n)"

definition gauge :: "int \<Rightarrow> entry" where "gauge n = (Gauge32, Number n)"

definition counter :: "int \<Rightarrow> entry" where "counter n = (Counter32, Number (n mod 2 ^ 32))"

definition counter64 :: "int \<Rightarrow> entry" where "counter64 n = (Counter64, Number (n mod 2 ^ 64))"

definition timeticks :: "int \<Rightarrow> entry" where "timeticks n = (Time_ticks, Number n)"

definition object_id :: "oid \<Rightarrow> entry" where "object_id n = (Object_identifier, Name n)"

definition text_value :: "pystr \<Rightarrow> entry" where "text_value t = (Octet_string, Text t)"

definition octet_value :: "bytes \<Rightarrow> entry" where "octet_value b = (Octet_string, Octets b)"

definition flag :: "bool \<Rightarrow> entry" where
  \<comment> \<open>\<open>I(1 if b else 2)\<close>\<close>
  "flag b = integer (if b then 1 else 2)"

definition index_of :: "int \<Rightarrow> oid" where "index_of n = [nat n]"

definition mib2 :: "oid \<Rightarrow> oid" where "mib2 p = [1, 3, 6, 1, 2, 1] @ p"

definition current_oid :: oid where "current_oid = mib2 [17, 7, 1, 4, 2, 1]"

definition entity_oid :: oid where "entity_oid = mib2 [47]"

definition address_octets :: "pystr \<Rightarrow> bytes" where
  \<comment> \<open>\<open>bytes.fromhex(address.replace(":", ""))\<close>\<close>
  "address_octets a = from_hex (filter (\<lambda>c. c \<noteq> 58) a)"

definition address_index :: "pystr \<Rightarrow> oid" where
  "address_index a = map unat (address_octets a)"

subsection \<open>Interfaces\<close>

definition counters_of :: "runtime \<Rightarrow> uid \<Rightarrow> port_counters" where
  "counters_of s pid = the (map_of (port_stats s) pid)"

definition physical_address :: "switch \<Rightarrow> port \<Rightarrow> bytes" where
  \<comment> \<open>the base address plus the bridge port, made a locally administered unicast address\<close>
  "physical_address sw p =
     (case be_bytes 6 ((be_int (address_octets (base_mac sw)) + bridge_port p) mod 2 ^ 48) of
        b # bs \<Rightarrow> ((b OR 2) AND 254) # bs | [] \<Rightarrow> [])"

definition interface_row :: "runtime \<Rightarrow> uid \<times> port \<Rightarrow> row" where
  "interface_row s row = (case row of (pid, p) \<Rightarrow>
     let c = counters_of s pid; live = up s pid
     in (index_of (if_index p),
         [(1, integer (if_index p)), (2, text_value (p_name p)), (3, integer 6), (4, integer (mtu p)),
          (5, gauge (if live then min (speed p) (2 ^ 32 - 1) else 0)),
          (6, octet_value (physical_address (cfg_switch (cfg s)) p)), (7, flag (admin_up p)), (8, flag live),
          (9, timeticks (c_last_change c)), (10, counter (c_in_octets c)), (11, counter (c_in_ucast c)), (13, counter (c_in_discards c)),
          (14, counter 0), (16, counter 0), (17, counter 0), (19, counter 0), (20, counter 0)]))"

definition extended_row :: "runtime \<Rightarrow> uid \<times> port \<Rightarrow> row" where
  "extended_row s row = (case row of (pid, p) \<Rightarrow>
     let c = counters_of s pid
     in (index_of (if_index p),
         [(1, text_value (p_name p)), (6, counter64 (c_in_octets c)), (7, counter64 (c_in_ucast c)), (10, counter64 0), (11, counter64 0),
          (14, flag (link_notifications p)), (15, gauge (if up s pid then speed p div 1000000 else 0)), (17, integer 1),
          (18, text_value (p_alias p)), (19, timeticks (c_discontinuity c))]))"

definition bridge_row :: "port \<Rightarrow> row" where
  "bridge_row p = (index_of (bridge_port p), [(1, integer (bridge_port p)), (2, integer (if_index p))])"

definition pvid_row :: "port \<Rightarrow> row" where
  "pvid_row p = (index_of (bridge_port p), [(1, gauge (pvid p)), (2, integer 1), (3, integer 1), (4, integer 2)])"

subsection \<open>Forwarding and VLANs\<close>

definition legacy_fdb_rows :: "runtime \<Rightarrow> row list" where
  "legacy_fdb_rows s =
     map (\<lambda>((_, address), r). (address_index address,
           [(1, octet_value (address_octets address)), (2, integer (f_bridge_port r)), (3, integer 3)]))
       (filter (\<lambda>(_, r). f_vid r = legacy_vlan (cfg_switch (cfg s))) (fdb s))"

definition fdb_mib_row :: "(int \<times> pystr) \<times> fdb_row \<Rightarrow> row" where
  "fdb_mib_row row = (case row of ((fid, address), r) \<Rightarrow>
     (index_of fid @ address_index address, [(2, integer (f_bridge_port r)), (3, integer 3)]))"

definition fdb_count_row :: "runtime \<Rightarrow> vlan \<Rightarrow> row" where
  "fdb_count_row s v = (index_of (fdb_id v),
     [(2, counter (int (length (filter (\<lambda>r. f_fdb_id r = fdb_id v) (vals (fdb s))))))])"

definition static_vlan_row :: "runtime \<Rightarrow> int \<times> vlan \<Rightarrow> row" where
  "static_vlan_row s row = (case row of (v, x) \<Rightarrow>
     (index_of v,
      [(1, text_value (vl_name x)), (2, octet_value (port_list s (\<lambda>p. v \<in> set (admitted p)))),
       (3, octet_value (port_list s (\<lambda>p. v \<in> set (forbidden p)))),
       (4, octet_value (port_list s (\<lambda>p. v \<in> set (untagged p)))), (5, integer 1)]))"

definition current_entry :: "runtime \<Rightarrow> int \<Rightarrow> int \<Rightarrow> vlan \<Rightarrow> (nat, entry) dict" where
  "current_entry s created v x =
     (let members = current_vlan_ports s v
      in [(3, gauge (fdb_id x)), (4, octet_value (port_list s (\<lambda>p. p_id p \<in> members))),
          (5, octet_value (port_list s (\<lambda>p. v \<in> set (untagged p)))), (6, integer 2), (7, timeticks created)])"

subsection \<open>Entities\<close>

definition uuid_urn :: "bytes \<Rightarrow> pystr" where
  "uuid_urn b = str ''urn:uuid:'' @ join [45] (map (\<lambda>(i, j). concat (map hex_pair (slice i j b)))
     [(0, 4), (4, 6), (6, 8), (8, 10), (10, 16)])"

definition inventory_columns :: "inventory_row \<Rightarrow> (nat, entry) dict" where
  "inventory_columns r =
     [(2, text_value (iv_description r)), (3, object_id [0, 0]), (4, integer (iv_parent r)), (5, integer (iv_class r)),
      (6, integer (iv_position r)), (7, text_value (iv_name r))] @ map (\<lambda>c. (c, text_value [])) [8..<16] @
     [(16, integer 2), (17, octet_value (replicate 8 0)),
      (18, text_value (case iv_identity r of None \<Rightarrow> [] | Some b \<Rightarrow> uuid_urn b)),
      (19, octet_value (case iv_identity r of None \<Rightarrow> [] | Some b \<Rightarrow> b))]"

definition inventory_mib_row :: "inventory_row \<Rightarrow> row" where
  "inventory_mib_row r = (index_of (iv_index r), inventory_columns r)"

definition port_entities :: "inventory_row list \<Rightarrow> (int \<times> int) list" where
  \<comment> \<open>the entities with an interface, and its index\<close>
  "port_entities rs = concat (map (\<lambda>r. case iv_if_index r of None \<Rightarrow> [] | Some i \<Rightarrow> [(iv_index r, i)]) rs)"

definition alias_row :: "int \<times> int \<Rightarrow> row" where
  "alias_row e = (index_of (fst e) @ [0], [(2, object_id (mib2 [2, 2, 1, 1] @ index_of (snd e)))])"

definition contains_row :: "int \<times> int \<Rightarrow> row" where
  "contains_row e = ([1] @ index_of (fst e), [(1, integer (fst e))])"

subsection \<open>Port access entities\<close>

definition pae_port_row :: "runtime \<Rightarrow> uid \<times> port \<Rightarrow> row" where
  "pae_port_row s row = (case row of (pid, p) \<Rightarrow>
     (index_of (if_index p), [(3, octet_value [0x80]), (4, integer 2), (5, integer 2)] @
        (case map_of (pae s) pid of
           Some f \<Rightarrow> (case pae_version f of Some v \<Rightarrow> [(2, gauge v)] | None \<Rightarrow> []) | None \<Rightarrow> [])))"

definition active_session :: "runtime \<Rightarrow> uid \<Rightarrow> access_session option" where
  "active_session s pid = List.find (\<lambda>se. se_port se = pid) (vals (radius_sessions s))"

definition several_subjects :: "port \<Rightarrow> bool" where
  \<comment> \<open>a port with several subjects has no single state to show\<close>
  "several_subjects p \<longleftrightarrow> pa_control (authentication p) = Auto \<and> pa_host_mode (authentication p) = Multi_auth"

definition control_value :: "port \<Rightarrow> int" where
  "control_value p = (case pa_control (authentication p) of
     Force_unauthorized \<Rightarrow> 1 | Auto \<Rightarrow> 2 | Force_authorized \<Rightarrow> 3)"

definition machine_columns :: "runtime \<Rightarrow> uid \<times> port \<Rightarrow> (nat, entry) dict" where
  \<comment> \<open>the authenticator's state, its backend's, and whether the port is authorized\<close>
  "machine_columns s row = (case row of (pid, p) \<Rightarrow>
     (if pa_control (authentication p) \<noteq> Auto then
        let forced = (pa_control (authentication p) = Force_authorized)
        in [(1, integer (if forced then 8 else 9)), (2, integer 6), (5, flag forced)]
      else (5, flag (active_session s pid \<noteq> None)) #
        (if \<not> up s pid then [(1, integer 2), (2, integer 6)]
         else (case map_of (pae s) pid of
             Some f \<Rightarrow>
               (case pae_port_state f of Some v \<Rightarrow> [(1, integer v)] | None \<Rightarrow> []) @
               (case pae_port_backend f of Some v \<Rightarrow> [(2, integer v)] | None \<Rightarrow> [])
           | None \<Rightarrow> if pa_method (authentication p) = Mab then [(1, integer 2), (2, integer 6)] else []))))"

definition reauthentication_columns :: "runtime \<Rightarrow> uid \<Rightarrow> (nat, entry) dict" where
  "reauthentication_columns s pid =
     (let (period, enabled) =
        (case active_session s pid of
           Some se \<Rightarrow> (case session_timeout (se_policy se) of
               Some t \<Rightarrow> let renew = (termination_action (se_policy se) = 1) in (if renew then t else 0, renew)
             | None \<Rightarrow> let t = reauthentication_seconds (radius (cfg s)) in (t, t > 0))
         | None \<Rightarrow> let t = reauthentication_seconds (radius (cfg s)) in (t, t > 0))
      in [(12, gauge period), (13, flag enabled)])"

definition pae_configuration_row :: "runtime \<Rightarrow> uid \<times> port \<Rightarrow> row" where
  "pae_configuration_row s row = (case row of (pid, p) \<Rightarrow>
     (index_of (if_index p),
      [(3, integer 1), (4, integer 1), (6, integer (control_value p)), (14, integer 2)] @
        (if several_subjects p then [] else machine_columns s (pid, p) @ reauthentication_columns s pid)))"

definition pae_facts :: "runtime \<Rightarrow> uid \<Rightarrow> int list \<times> int list \<times> bool" where
  "pae_facts s pid = (case map_of (pae s) pid of
     None \<Rightarrow> (replicate 8 0, replicate 4 0, True)
   | Some f \<Rightarrow> (pae_counters f, pae_diagnostics f, precise f))"

definition last_source_columns :: "runtime \<Rightarrow> uid \<Rightarrow> (nat, entry) dict" where
  "last_source_columns s pid = (case map_of (pae s) pid of
     None \<Rightarrow> []
   | Some f \<Rightarrow> (case pae_last_version f of
       Some v \<Rightarrow> if precise f then [(11, gauge v), (12, octet_value (the (pae_last_source f)))] else []
     | None \<Rightarrow> []))"

definition pae_statistics_row :: "runtime \<Rightarrow> uid \<times> port \<Rightarrow> row" where
  "pae_statistics_row s row = (case row of (pid, p) \<Rightarrow>
     (case pae_facts s pid of (counted, _, exact) \<Rightarrow>
        (index_of (if_index p),
         (if exact then enumerate 1 (map counter counted) else []) @ last_source_columns s pid)))"

definition pae_diagnostics_rows :: "runtime \<Rightarrow> uid \<times> port \<Rightarrow> row list" where
  "pae_diagnostics_rows s row = (case row of (pid, p) \<Rightarrow>
     (case pae_facts s pid of (_, counted, exact) \<Rightarrow>
        if exact then [(index_of (if_index p), enumerate 3 (map counter counted))] else []))"

definition shown_session :: "runtime \<Rightarrow> uid \<Rightarrow> last_session option" where
  \<comment> \<open>the running session with no cause of its end yet, or the last that ended\<close>
  "shown_session s pid = (case active_session s pid of
     Some se \<Rightarrow> Some \<lparr>la_id = se_id se, la_octets = in_octets se, la_packets = in_packets se,
       la_started = started_ms se, la_ended = sim_ms s, la_cause = Some 999\<rparr>
   | None \<Rightarrow> map_of (last_auth_sessions s) pid)"

definition pae_session_rows :: "runtime \<Rightarrow> uid \<times> port \<Rightarrow> row list" where
  "pae_session_rows s row = (case row of (pid, p) \<Rightarrow>
     (if several_subjects p then []
      else (case shown_session s pid of
          None \<Rightarrow> []
        | Some la \<Rightarrow> [(index_of (if_index p),
            [(1, counter64 (la_octets la)), (3, counter (la_packets la)), (5, text_value (la_id la)), (6, integer 1),
             (7, timeticks (((la_ended la - la_started la) div 10) mod 2 ^ 32))] @
            (case la_cause la of Some n \<Rightarrow> [(8, integer n)] | None \<Rightarrow> []))])))"

subsection \<open>The whole projection\<close>

definition system_objects :: "switch \<Rightarrow> int \<Rightarrow> (oid \<times> entry) list" where
  "system_objects sw ticks =
     [(mib2 [1, 1], text_value (sys_descr (sw_identity sw)))] @
     (case sys_object_id (sw_identity sw) of
        Some name \<Rightarrow> if name \<noteq> [] then [(mib2 [1, 2], object_id name)] else [] | None \<Rightarrow> []) @
     [(mib2 [1, 3], timeticks ticks), (mib2 [1, 4], text_value (sw_contact sw)), (mib2 [1, 5], text_value (sw_name sw)),
      (mib2 [1, 6], text_value (sw_location sw)), (mib2 [1, 7], integer 2)]"

definition scalar_objects :: "runtime \<Rightarrow> int \<Rightarrow> (oid \<times> entry) list" where
  \<comment> \<open>the bases that \<open>put\<close> registers, with their values\<close>
  "scalar_objects s ticks =
     (let c = cfg s; sw = cfg_switch c
      in system_objects sw ticks @
         [(mib2 [2, 1], integer (int (length (ports c)))),
          (mib2 [17, 1, 1], octet_value (address_octets (base_mac sw))),
          (mib2 [17, 1, 2], integer (int (length (ports c)))), (mib2 [17, 1, 3], integer 2),
          (mib2 [17, 4, 1], counter (learned_discards s)), (mib2 [17, 4, 2], integer (aging_seconds sw)),
          (mib2 [17, 7, 1, 1, 1], integer 1), (mib2 [17, 7, 1, 1, 2], integer 4094), (mib2 [17, 7, 1, 1, 3], gauge 4094),
          (mib2 [17, 7, 1, 1, 4], gauge (int (length (vlans c)))), (mib2 [17, 7, 1, 1, 5], integer 2),
          (mib2 [17, 7, 1, 4, 1], counter (vlan_deletes s)),
          (entity_oid @ [1, 4, 1], timeticks (entity_last_change s)), (pae_oid @ [1, 1], integer 1)])"

definition table_objects :: "(uid \<Rightarrow> bytes option) \<Rightarrow> runtime \<Rightarrow> table list" where
  "table_objects uuid s =
     (let c = cfg s; inventory = entity_inventory uuid c; entities = port_entities inventory
      in [(mib2 [2, 2, 1], [1, 2, 3, 4, 5, 6, 7, 8, 9, 10, 11, 13, 14, 16, 17, 19, 20], map (interface_row s) (ports c)),
          (mib2 [31, 1, 1, 1], [1, 6, 7, 10, 11, 14, 15, 17, 18, 19], map (extended_row s) (ports c)),
          (mib2 [17, 1, 4, 1], [1, 2], map bridge_row (vals (ports c))),
          (mib2 [17, 7, 1, 4, 5, 1], [1, 2, 3, 4], map pvid_row (vals (ports c))),
          (mib2 [17, 4, 3, 1], [1, 2, 3], legacy_fdb_rows s),
          (mib2 [17, 7, 1, 2, 2, 1], [2, 3], map fdb_mib_row (fdb s)),
          (mib2 [17, 7, 1, 2, 1, 1], [2], map (fdb_count_row s) (vals (vlans c))),
          (mib2 [17, 7, 1, 4, 3, 1], [1, 2, 3, 4, 5], map (static_vlan_row s) (vlans c)),
          (entity_oid @ [1, 1, 1, 1], [2..<20], map inventory_mib_row inventory),
          (entity_oid @ [1, 3, 2, 1], [2], map alias_row entities),
          (entity_oid @ [1, 3, 3, 1], [1], map contains_row entities),
          (pae_oid @ [1, 2, 1], [2, 3, 4, 5], map (pae_port_row s) (ports c)),
          (pae_oid @ [2, 1, 1], [1, 2, 3, 4, 5, 6, 12, 13, 14], map (pae_configuration_row s) (ports c)),
          (pae_oid @ [2, 2, 1], [1, 2, 3, 4, 5, 6, 7, 8, 11, 12], map (pae_statistics_row s) (ports c)),
          (pae_oid @ [2, 3, 1], [3, 4, 5, 6], concat (map (pae_diagnostics_rows s) (ports c))),
          (pae_oid @ [2, 4, 1], [1, 3, 5, 6, 7, 8], concat (map (pae_session_rows s) (ports c)))])"

end
