(* ===== verification/Mib_Projection.thy ===== *)
theory Mib_Projection
  imports Mib_Rows
begin

text \<open>
  The class \<open>Projection\<close> of \<open>switchlab/mib.py\<close>, the answers to GET and GETNEXT over one published runtime:
  scalars are filed at once, the rows of a table when a request first needs them, the current VLANs per
  value of their TimeFilter index. The lemmas show that what was read before never changes an answer, and
  that GETNEXT is the successor in the order of the names.
\<close>

datatype answer = Value entry | No_such_object | No_such_instance | End_of_mib_view

record projection =
  pj_state :: runtime
  pj_includes :: "oid list"
  pj_ticks :: int
  wrapped :: bool
  pj_tables :: "table list"
  pj_bases :: "oid list"
  pj_values :: "(oid, entry) dict"
  pj_table_keys :: "(oid, oid list) dict"
  pj_filtered :: "(nat, (oid, entry) dict) dict"
  pj_scalar_keys :: "oid list"
  pj_families :: "oid list"

subsection \<open>Views\<close>

definition allowed :: "oid list \<Rightarrow> oid \<Rightarrow> bool" where
  "allowed includes name \<longleftrightarrow> list_ex (\<lambda>p. starts p name) includes"

definition overlaps :: "oid list \<Rightarrow> oid \<Rightarrow> bool" where
  "overlaps includes prefix \<longleftrightarrow> list_ex (\<lambda>p. starts p prefix \<or> starts prefix p) includes"

subsection \<open>Building\<close>

definition put_all :: "('k \<times> 'v) list \<Rightarrow> ('k, 'v) dict \<Rightarrow> ('k, 'v) dict" where
  "put_all rows d = foldl (\<lambda>d (k, v). put k v d) d rows"

definition scalar_rows :: "oid list \<Rightarrow> (oid \<times> entry) list \<Rightarrow> (oid \<times> entry) list" where
  "scalar_rows includes objects =
     filter (\<lambda>(name, _). allowed includes name) (map (\<lambda>(base, v). (base @ [0], v)) objects)"

definition table_rows :: "oid list \<Rightarrow> table \<Rightarrow> (oid \<times> entry) list" where
  \<comment> \<open>the visible objects of a table, row by row\<close>
  "table_rows includes t = (case t of (prefix, _, rows) \<Rightarrow>
     if overlaps includes prefix
     then filter (\<lambda>(name, _). allowed includes name)
            (concat (map (\<lambda>(index, columns). map (\<lambda>(column, v). (prefix @ [column] @ index, v)) columns) rows))
     else [])"

definition table_bases :: "table \<Rightarrow> oid list" where
  "table_bases t = (case t of (prefix, columns, _) \<Rightarrow> map (\<lambda>column. prefix @ [column]) columns)"

definition current_bases :: "oid list" where
  "current_bases = map (\<lambda>i. current_oid @ [i]) [3..<8]"

definition project :: "(uid \<Rightarrow> bytes option) \<Rightarrow> oid list \<Rightarrow> int \<Rightarrow> runtime \<Rightarrow> projection" where
  \<comment> \<open>\<open>elapsed\<close>: hundredths of a second since the boot\<close>
  "project uuid includes elapsed s =
     (let ticks = elapsed mod 2 ^ 32; scalars = scalar_objects s ticks; tables = table_objects uuid s;
          values = put_all (scalar_rows includes scalars) []
      in \<lparr>pj_state = s, pj_includes = includes, pj_ticks = ticks, wrapped = (elapsed div 2 ^ 32 \<noteq> uptime_epoch s),
          pj_tables = tables, pj_bases = map fst scalars @ concat (map table_bases tables) @ current_bases,
          pj_values = values, pj_table_keys = [], pj_filtered = [],
          pj_scalar_keys = sort (keys values), pj_families = sort (keys tables @ [current_oid])\<rparr>)"

subsection \<open>Loading\<close>

definition load_table :: "oid \<Rightarrow> projection \<Rightarrow> projection \<times> oid list" where
  "load_table prefix pj = (case map_of (pj_table_keys pj) prefix of
     Some ks \<Rightarrow> (pj, ks)
   | None \<Rightarrow>
       let rows = table_rows (pj_includes pj) (prefix, the (map_of (pj_tables pj) prefix));
           ks = sort (map fst rows)
       in (pj\<lparr>pj_values := put_all rows (pj_values pj), pj_table_keys := put prefix ks (pj_table_keys pj)\<rparr>, ks))"

definition row_times :: "projection \<Rightarrow> int \<Rightarrow> int \<times> int" where
  \<comment> \<open>when a VLAN was created and changed; a wrap of the clock forgets both\<close>
  "row_times pj v = (if wrapped pj then (0, 0) else the (map_of (vlan_times (pj_state pj)) v))"

definition current_rows :: "projection \<Rightarrow> nat \<Rightarrow> (oid \<times> entry) list" where
  "current_rows pj filter_time =
     (if \<not> overlaps (pj_includes pj) current_oid then []
      else filter (\<lambda>(name, _). allowed (pj_includes pj) name) (concat (map (\<lambda>(v, x).
        let (created, changed) = row_times pj v
        in if filter_time \<noteq> 0 \<and> (int filter_time > pj_ticks pj \<or> changed < int filter_time) then []
           else map (\<lambda>(column, e). (current_oid @ [column, filter_time, nat v], e))
                  (current_entry (pj_state pj) created v x)) (vlans (cfg (pj_state pj))))))"

definition current_values :: "nat \<Rightarrow> projection \<Rightarrow> projection \<times> (oid, entry) dict" where
  "current_values filter_time pj = (case map_of (pj_filtered pj) filter_time of
     Some vs \<Rightarrow> (pj, vs)
   | None \<Rightarrow> let vs = put_all (current_rows pj filter_time) []
       in (pj\<lparr>pj_filtered := put filter_time vs (pj_filtered pj)\<rparr>, vs))"

definition cutoff :: "oid \<Rightarrow> nat" where
  "cutoff name = (if starts current_oid name \<and> length current_oid + 2 \<le> length name
     then name ! (length current_oid + 1) else 0)"

subsection \<open>Requests\<close>

definition found :: "entry option \<Rightarrow> answer" where
  "found v = (case v of Some e \<Rightarrow> Value e | None \<Rightarrow> No_such_instance)"

definition mib_get :: "oid \<Rightarrow> projection \<Rightarrow> projection \<times> answer" where
  "mib_get name pj =
     (if \<not> allowed (pj_includes pj) name then (pj, No_such_object)
      else if \<not> list_ex (\<lambda>base. starts base name) (pj_bases pj) then (pj, No_such_object)
      else if starts current_oid name then
        let (pj, vs) = current_values (cutoff name) pj in (pj, found (map_of vs name))
      else
        let pj = (case List.find (\<lambda>(prefix, _). starts prefix name) (pj_tables pj) of
                Some (prefix, _) \<Rightarrow> fst (load_table prefix pj) | None \<Rightarrow> pj)
        in (pj, found (map_of (pj_values pj) name)))"

definition bisect_right :: "'a :: linorder list \<Rightarrow> 'a \<Rightarrow> nat" where
  \<comment> \<open>the library's binary search in a sorted list\<close>
  "bisect_right xs x = length (takeWhile (\<lambda>y. y \<le> x) xs)"

definition following :: "oid list \<Rightarrow> oid \<Rightarrow> oid option" where
  "following ks name = (let i = bisect_right ks name in if i < length ks then Some (ks ! i) else None)"

definition past :: "oid \<Rightarrow> oid" where
  \<comment> \<open>the first name after a subtree\<close>
  "past prefix = butlast prefix @ [last prefix + 1]"

definition scalar_answer :: "oid \<Rightarrow> projection \<Rightarrow> projection \<times> oid \<times> answer" where
  "scalar_answer n pj = (pj, n, Value (the (map_of (pj_values pj) n)))"

definition family_rows :: "oid \<Rightarrow> oid \<Rightarrow> projection \<Rightarrow> projection \<times> (oid, entry) dict \<times> oid list" where
  \<comment> \<open>the values and the sorted names of a family\<close>
  "family_rows name prefix pj =
     (if prefix = current_oid
      then let (pj, vs) = current_values (cutoff name) pj in (pj, vs, sort (keys vs))
      else let (pj, ks) = load_table prefix pj in (pj, pj_values pj, ks))"

fun seek :: "oid \<Rightarrow> oid option \<Rightarrow> oid list \<Rightarrow> projection \<Rightarrow> projection \<times> oid \<times> answer" where
  "seek name scalar [] pj = (case scalar of
     Some n \<Rightarrow> scalar_answer n pj | None \<Rightarrow> (pj, name, End_of_mib_view))"
| "seek name scalar (prefix # families) pj =
     (if past prefix \<le> name \<or> \<not> overlaps (pj_includes pj) prefix then seek name scalar families pj
      else if (case scalar of Some n \<Rightarrow> n < prefix | None \<Rightarrow> False) then scalar_answer (the scalar) pj
      else
        let (pj, vs, ks) = family_rows name prefix pj
        in (case following ks name of
              None \<Rightarrow> seek name scalar families pj
            | Some candidate \<Rightarrow>
                if (case scalar of Some n \<Rightarrow> n < candidate | None \<Rightarrow> False) then scalar_answer (the scalar) pj
                else (pj, candidate, Value (the (map_of vs candidate)))))"

definition mib_next :: "oid \<Rightarrow> projection \<Rightarrow> projection \<times> oid \<times> answer" where
  "mib_next name pj = seek name (following (pj_scalar_keys pj) name) (pj_families pj) pj"

subsection \<open>Names and subtrees\<close>

lemma starts_Nil [simp]: "starts [] n"
  by (simp add: starts_def)

lemma starts_Cons: "starts (a # p) n \<longleftrightarrow> (\<exists>m. n = a # m \<and> starts p m)"
  by (cases n) (auto simp: starts_def)

lemma starts_Cons_Cons: "starts (a # p) (b # n) \<longleftrightarrow> a = b \<and> starts p n" "\<not> starts (a # p) []"
  by (auto simp: starts_def)

lemma starts_append [simp]: "starts p (p @ n)"
  by (simp add: starts_def)

lemma starts_trans: "starts p q \<Longrightarrow> starts q n \<Longrightarrow> starts p n"
  by (induction p arbitrary: q n) (auto simp: starts_Cons)

lemma starts_linear: "starts p n \<Longrightarrow> starts q n \<Longrightarrow> starts p q \<or> starts q p"
  by (induction p arbitrary: q n; case_tac q) (auto simp: starts_Cons)

lemma starts_le: "starts p n \<Longrightarrow> p \<le> n"
  by (induction p arbitrary: n) (auto simp: starts_Cons)

lemma past_Cons: "p \<noteq> [] \<Longrightarrow> past (a # p) = a # past p"
  by (simp add: past_def)

lemma starts_past: "starts p n \<Longrightarrow> p \<noteq> [] \<Longrightarrow> n < past p"
proof (induction p arbitrary: n)
  case (Cons a p)
  then show ?case by (cases "p = []") (auto simp: starts_Cons past_Cons, simp add: past_def)
qed simp

lemma past_le: "p < q \<Longrightarrow> \<not> starts p q \<Longrightarrow> p \<noteq> [] \<Longrightarrow> past p \<le> q"
proof (induction p arbitrary: q)
  case (Cons a p)
  obtain b q' where q: "q = b # q'" using Cons.prems(1) by (cases q) auto
  show ?case
  proof (cases "p = []")
    case True
    then show ?thesis using Cons.prems by (cases "b = a") (auto simp: q past_def starts_Cons)
  next
    case False
    then show ?thesis using Cons q by (auto simp: past_Cons starts_Cons)
  qed
qed simp

lemma list_ex_starts: "list_ex (\<lambda>p. starts p n) ps \<longleftrightarrow> (\<exists>p \<in> set ps. starts p n)"
  by (simp add: list_ex_iff)

lemma allowed_overlaps: "allowed includes n \<Longrightarrow> starts p n \<Longrightarrow> overlaps includes p"
  unfolding allowed_def overlaps_def list_ex_iff by (metis starts_linear)

subsection \<open>Search in sorted lists\<close>

lemma dropWhile_above: "sorted xs \<Longrightarrow> y \<in> set (dropWhile (\<lambda>y. y \<le> x) xs) \<Longrightarrow> x < y"
  for x :: "'a :: linorder"
  by (induction xs) (auto split: if_splits)

lemma bisect_right_split:
  assumes "sorted xs"
  shows "(\<forall>y \<in> set (take (bisect_right xs x) xs). y \<le> x) \<and> (\<forall>y \<in> set (drop (bisect_right xs x) xs). x < y)"
proof -
  have "take (bisect_right xs x) xs = takeWhile (\<lambda>y. y \<le> x) xs" "drop (bisect_right xs x) xs = dropWhile (\<lambda>y. y \<le> x) xs"
    unfolding bisect_right_def by (simp_all only: takeWhile_eq_take [symmetric] dropWhile_eq_drop [symmetric])
  then show ?thesis using dropWhile_above [OF assms] by (auto dest: set_takeWhileD)
qed

lemma following_None: "sorted ks \<Longrightarrow> following ks name = None \<Longrightarrow> k \<in> set ks \<Longrightarrow> k \<le> name"
  using bisect_right_split [of ks name] by (simp add: following_def Let_def split: if_splits)

lemma following_Some:
  assumes "sorted ks" and "following ks name = Some n"
  shows "n \<in> set ks \<and> name < n \<and> (\<forall>k \<in> set ks. name < k \<longrightarrow> n \<le> k)"
proof -
  let ?i = "bisect_right ks name"
  have i: "?i < length ks" "n = ks ! ?i" using assms(2) by (auto simp: following_def Let_def split: if_splits)
  then have d: "drop ?i ks = n # drop (Suc ?i) ks" by (simp add: Cons_nth_drop_Suc)
  have "sorted (n # drop (Suc ?i) ks)" unfolding d [symmetric] using assms(1) by (rule sorted_wrt_drop)
  moreover have "set ks = set (take ?i ks) \<union> set (n # drop (Suc ?i) ks)"
    unfolding d [symmetric] set_append [symmetric] by simp
  ultimately show ?thesis using bisect_right_split [OF assms(1), of name] unfolding d by (auto simp: not_le [symmetric])
qed

subsection \<open>Filing rows\<close>

lemma put_all_Cons: "put_all ((k, v) # rows) d = put_all rows (put k v d)"
  by (simp add: put_all_def)

lemma lookup_put_all: "map_of (put_all rows d) k = (case map_of (rev rows) k of Some v \<Rightarrow> Some v | None \<Rightarrow> map_of d k)"
proof (induction rows arbitrary: d)
  case (Cons r rows)
  then show ?case
    by (cases r) (auto simp: put_all_Cons lookup_put map_of_append map_add_def split: option.splits)
qed (simp add: put_all_def)

lemma map_of_None: "map_of rows k = None \<longleftrightarrow> k \<notin> fst ` set rows"
  by (simp add: map_of_eq_None_iff)

lemma keys_put_all: "set (keys (put_all rows d)) = set (keys d) \<union> fst ` set rows"
proof -
  have "k \<in> set (keys (put_all rows d)) \<longleftrightarrow> k \<in> set (keys d) \<union> fst ` set rows" for k
    using lookup_None_iff [of "put_all rows d" k] lookup_None_iff [of d k] map_of_None [of "rev rows" k]
    by (auto simp: lookup_put_all split: option.splits)
  then show ?thesis by blast
qed

subsection \<open>What a projection shows\<close>

definition family_prefixes :: "projection \<Rightarrow> oid list" where
  "family_prefixes pj = keys (pj_tables pj) @ [current_oid]"

definition disjoint_families :: "oid list \<Rightarrow> bool" where
  "disjoint_families ps \<longleftrightarrow> distinct ps \<and> list_all (\<lambda>p. p \<noteq> [] \<and> list_all (\<lambda>q. starts p q \<longrightarrow> p = q) ps) ps"

definition laid_out :: "projection \<Rightarrow> bool" where
  \<comment> \<open>a projection as it is built: disjoint families, and scalars outside all of them\<close>
  "laid_out pj \<longleftrightarrow> disjoint_families (family_prefixes pj) \<and> pj_families pj = sort (family_prefixes pj) \<and>
     pj_scalar_keys pj = sort (keys (pj_values pj)) \<and> pj_table_keys pj = [] \<and> pj_filtered pj = [] \<and>
     list_all (\<lambda>n. list_all (\<lambda>p. \<not> starts p n) (family_prefixes pj)) (keys (pj_values pj))"

definition owner :: "projection \<Rightarrow> oid \<Rightarrow> table option" where
  "owner pj n = List.find (\<lambda>(prefix, _). starts prefix n) (pj_tables pj)"

definition shown :: "projection \<Rightarrow> nat \<Rightarrow> oid \<Rightarrow> entry option" where
  \<comment> \<open>the object of a name in a freshly built projection, the current VLANs under a time filter\<close>
  "shown pj c n =
     (if starts current_oid n then map_of (rev (current_rows pj c)) n
      else case owner pj n of
          Some t \<Rightarrow> map_of (rev (table_rows (pj_includes pj) t)) n
        | None \<Rightarrow> map_of (pj_values pj) n)"

definition family_names :: "projection \<Rightarrow> nat \<Rightarrow> oid \<Rightarrow> (oid \<times> entry) list" where
  "family_names pj c prefix = (if prefix = current_oid then current_rows pj c
     else table_rows (pj_includes pj) (prefix, the (map_of (pj_tables pj) prefix)))"

definition same_view :: "projection \<Rightarrow> projection \<Rightarrow> bool" where
  \<comment> \<open>all but what reading files\<close>
  "same_view p0 pj \<longleftrightarrow> pj_state pj = pj_state p0 \<and> pj_includes pj = pj_includes p0 \<and> pj_ticks pj = pj_ticks p0 \<and>
     wrapped pj = wrapped p0 \<and> pj_tables pj = pj_tables p0 \<and> pj_bases pj = pj_bases p0 \<and>
     pj_scalar_keys pj = pj_scalar_keys p0 \<and> pj_families pj = pj_families p0"

definition filed_value :: "projection \<Rightarrow> (oid, oid list) dict \<Rightarrow> oid \<Rightarrow> entry option" where
  \<comment> \<open>what the dictionary of values holds of a name once some tables are loaded\<close>
  "filed_value p0 loaded n = (case owner p0 n of
        Some (p, t) \<Rightarrow> if has loaded p then map_of (rev (table_rows (pj_includes p0) (p, t))) n else None
      | None \<Rightarrow> map_of (pj_values p0) n)"

definition filed :: "projection \<Rightarrow> projection \<Rightarrow> bool" where
  "filed p0 pj \<longleftrightarrow> (\<forall>n. map_of (pj_values pj) n = filed_value p0 (pj_table_keys pj) n) \<and>
     (\<forall>p ks. map_of (pj_table_keys pj) p = Some ks \<longrightarrow>
        p \<in> set (keys (pj_tables p0)) \<and> ks = sort (map fst (family_names p0 0 p)))"

definition filtered_rows :: "projection \<Rightarrow> projection \<Rightarrow> bool" where
  "filtered_rows p0 pj \<longleftrightarrow> (\<forall>c vs. map_of (pj_filtered pj) c = Some vs \<longrightarrow> vs = put_all (current_rows p0 c) [])"

definition reading :: "projection \<Rightarrow> projection \<Rightarrow> bool" where
  \<comment> \<open>the second projection is the first after some reads\<close>
  "reading p0 pj \<longleftrightarrow> same_view p0 pj \<and> filed p0 pj \<and> filtered_rows p0 pj"

lemma families_disjoint:
  assumes "laid_out pj" and "p \<in> set (family_prefixes pj)" and "q \<in> set (family_prefixes pj)"
  shows "p \<noteq> [] \<and> (starts p q \<longrightarrow> p = q)"
  using assms by (auto simp: laid_out_def disjoint_families_def list_all_iff)

lemma families_apart:
  assumes "laid_out pj" and "p \<in> set (family_prefixes pj)" and "q \<in> set (family_prefixes pj)"
    and "starts p n" and "starts q n"
  shows "p = q"
  using families_disjoint [OF assms(1-3)] families_disjoint [OF assms(1,3,2)] starts_linear [OF assms(4,5)] by auto

lemma tables_dict: "laid_out pj \<Longrightarrow> is_dict (pj_tables pj) \<and> current_oid \<notin> set (keys (pj_tables pj))"
  by (simp add: laid_out_def disjoint_families_def family_prefixes_def is_dict_def)

lemma owner_Some: "owner pj n = Some (p, t) \<Longrightarrow> (p, t) \<in> set (pj_tables pj) \<and> starts p n"
  unfolding owner_def find_Some_iff by (metis (no_types, lifting) case_prod_conv nth_mem)

lemma table_prefix: "(p, t) \<in> set (pj_tables pj) \<Longrightarrow> p \<in> set (family_prefixes pj)"
  unfolding family_prefixes_def set_append set_map by (metis UnI1 fst_conv imageI)

lemma owner_table:
  assumes "laid_out pj" and "(p, t) \<in> set (pj_tables pj)" and "starts p n"
  shows "owner pj n = Some (p, t)"
proof -
  have "owner pj n \<noteq> None"
    using assms(2,3) unfolding owner_def find_None_iff by (metis (no_types, lifting) case_prod_conv)
  then obtain q u where o: "owner pj n = Some (q, u)" by auto
  have "p = q"
    using families_apart [OF assms(1) table_prefix [OF assms(2)] _ assms(3)] owner_Some [OF o] table_prefix by blast
  note lookup = is_dict_lookup [OF conjunct1 [OF tables_dict [OF assms(1)]]]
  have "map_of (pj_tables pj) p = Some u" "map_of (pj_tables pj) p = Some t"
    using lookup owner_Some [OF o] assms(2) \<open>p = q\<close> by blast+
  then have "u = t" by simp
  then show ?thesis using o \<open>p = q\<close> by simp
qed

lemma owner_current: "laid_out pj \<Longrightarrow> starts current_oid n \<Longrightarrow> owner pj n = None"
proof (rule ccontr)
  assume l: "laid_out pj" and c: "starts current_oid n" and "owner pj n \<noteq> None"
  then obtain p t where "owner pj n = Some (p, t)" by auto
  then have p: "(p, t) \<in> set (pj_tables pj)" "starts p n" using owner_Some by auto
  then have "p = current_oid"
    by (intro families_apart [OF l table_prefix [OF p(1)] _ p(2) c]) (simp add: family_prefixes_def)
  then show False using tables_dict [OF l] p(1) by (metis fst_conv imageI set_map)
qed

lemma table_rows_prefix: "r \<in> set (table_rows includes (p, t)) \<Longrightarrow> starts p (fst r)"
  by (auto simp: table_rows_def split: if_splits prod.splits)

lemma table_rows_hidden: "\<not> overlaps includes p \<Longrightarrow> table_rows includes (p, t) = []"
  by (simp add: table_rows_def split: prod.splits)

lemma current_rows_prefix:
  assumes "r \<in> set (current_rows pj c)"
  shows "starts current_oid (fst r) \<and> (\<exists>column v. fst r = current_oid @ [column, c, v])"
proof -
  have "\<exists>column v. fst r = current_oid @ [column, c, v]"
    using assms by (auto simp: current_rows_def Let_def split: if_splits prod.splits)
  then show ?thesis by (metis starts_append)
qed

lemma family_names_prefix: "r \<in> set (family_names pj c p) \<Longrightarrow> starts p (fst r)"
  using table_rows_prefix current_rows_prefix by (auto simp: family_names_def split: if_splits)

lemma family_names_hidden: "\<not> overlaps (pj_includes pj) p \<Longrightarrow> family_names pj c p = []"
  by (auto simp: family_names_def table_rows_hidden current_rows_def)

lemma shown_family:
  assumes "laid_out pj" and "p \<in> set (family_prefixes pj)" and "starts p n"
  shows "shown pj c n = map_of (rev (family_names pj c p)) n"
proof (cases "p = current_oid")
  case True
  then show ?thesis using assms(3) by (simp add: shown_def family_names_def)
next
  case False
  then obtain t where t: "(p, t) \<in> set (pj_tables pj)" using assms(2) by (auto simp: family_prefixes_def)
  have "\<not> starts current_oid n"
    using families_apart [OF assms(1,2) _ assms(3), of current_oid] False by (auto simp: family_prefixes_def)
  moreover have "the (map_of (pj_tables pj) p) = t"
    using is_dict_lookup [OF conjunct1 [OF tables_dict [OF assms(1)]] t] by simp
  ultimately show ?thesis
    using False by (simp add: shown_def owner_table [OF assms(1) t assms(3)] family_names_def)
qed

lemma shown_in_family:
  assumes "laid_out pj" and "p \<in> set (family_prefixes pj)" and "starts p n"
  shows "shown pj c n \<noteq> None \<longleftrightarrow> n \<in> fst ` set (family_names pj c p)"
  unfolding shown_family [OF assms] map_of_None by simp

lemma scalar_outside:
  assumes "laid_out pj" and "n \<in> set (pj_scalar_keys pj)"
  shows "shown pj c n = map_of (pj_values pj) n \<and> shown pj c n \<noteq> None \<and> owner pj n = None"
proof -
  have out: "\<not> starts p n" if "p \<in> set (family_prefixes pj)" for p
    using assms that by (auto simp: laid_out_def list_all_iff)
  have "owner pj n = None"
  proof (rule ccontr)
    assume "owner pj n \<noteq> None"
    then obtain p t where "owner pj n = Some (p, t)" by auto
    then show False using owner_Some [of pj n p t] out [OF table_prefix] by blast
  qed
  moreover have "\<not> starts current_oid n" using out by (simp add: family_prefixes_def)
  moreover have "map_of (pj_values pj) n \<noteq> None"
    using assms by (simp add: laid_out_def lookup_None_iff)
  ultimately show ?thesis by (simp add: shown_def)
qed

lemma shown_cases:
  assumes "laid_out pj" and "shown pj c n \<noteq> None"
  shows "n \<in> set (pj_scalar_keys pj) \<or> (\<exists>p \<in> set (family_prefixes pj). starts p n \<and> n \<in> fst ` set (family_names pj c p))"
proof (cases "\<exists>p \<in> set (family_prefixes pj). starts p n")
  case True
  then show ?thesis using shown_in_family [OF assms(1)] assms(2) by blast
next
  case False
  then have "\<not> starts current_oid n" by (simp add: family_prefixes_def)
  moreover have "owner pj n = None"
    using False owner_Some [of pj n] table_prefix [of _ _ pj] by (cases "owner pj n") auto
  ultimately have "map_of (pj_values pj) n \<noteq> None" using assms(2) by (simp add: shown_def)
  then show ?thesis using assms(1) by (simp add: laid_out_def lookup_None_iff)
qed

subsection \<open>Reads leave answers alone\<close>

lemma reading_static:
  assumes "reading p0 pj"
  shows "pj_includes pj = pj_includes p0" "pj_tables pj = pj_tables p0" "pj_bases pj = pj_bases p0"
    "pj_scalar_keys pj = pj_scalar_keys p0" "pj_families pj = pj_families p0"
    "current_rows pj c = current_rows p0 c" "owner pj n = owner p0 n"
proof -
  have same: "same_view p0 pj" using assms by (simp add: reading_def)
  then show "pj_includes pj = pj_includes p0" "pj_tables pj = pj_tables p0" "pj_bases pj = pj_bases p0"
    "pj_scalar_keys pj = pj_scalar_keys p0" "pj_families pj = pj_families p0" "owner pj n = owner p0 n"
    by (simp_all add: same_view_def owner_def)
  have "row_times pj = row_times p0" using same by (intro ext) (simp add: same_view_def row_times_def)
  moreover have "pj_state pj = pj_state p0" "pj_includes pj = pj_includes p0" "pj_ticks pj = pj_ticks p0"
    using same by (simp_all add: same_view_def)
  ultimately show "current_rows pj c = current_rows p0 c" unfolding current_rows_def by (simp only:)
qed

lemma owned_values:
  assumes "laid_out pj" and "owner pj n = Some t"
  shows "map_of (pj_values pj) n = None"
  using scalar_outside [OF assms(1), of n] assms lookup_None_iff [of "pj_values pj" n] by (auto simp: laid_out_def)

lemma reading_refl: "laid_out pj \<Longrightarrow> reading pj pj"
  using owned_values [of pj]
  by (auto simp: reading_def same_view_def filed_def filtered_rows_def filed_value_def has_def laid_out_def split: option.split)

lemma reading_current:
  assumes "reading p0 pj" and "current_values c pj = (pj', vs)"
  shows "reading p0 pj' \<and> vs = put_all (current_rows p0 c) []"
proof (cases "map_of (pj_filtered pj) c")
  case None
  then have "pj' = pj\<lparr>pj_filtered := put c vs (pj_filtered pj)\<rparr>" "vs = put_all (current_rows p0 c) []"
    using assms by (auto simp: current_values_def Let_def reading_static [OF assms(1)])
  then show ?thesis using assms(1) by (simp add: reading_def same_view_def filed_def filtered_rows_def lookup_put)
next
  case (Some v)
  then show ?thesis using assms by (auto simp: current_values_def reading_def filtered_rows_def)
qed

lemma reading_load:
  assumes l: "laid_out p0" and r: "reading p0 pj" and t: "(p, t) \<in> set (pj_tables p0)" and load: "load_table p pj = (pj', ks)"
  shows "reading p0 pj' \<and> ks = sort (map fst (family_names p0 0 p)) \<and> has (pj_table_keys pj') p"
proof (cases "map_of (pj_table_keys pj) p")
  case None
  have lookup: "map_of (pj_tables p0) p = Some t"
    using is_dict_lookup [OF conjunct1 [OF tables_dict [OF l]] t] .
  have "p \<noteq> current_oid" using t tables_dict [OF l] by (metis fst_conv imageI set_map)
  then have names: "family_names p0 0 p = table_rows (pj_includes p0) (p, t)"
    by (simp add: family_names_def lookup)
  let ?rows = "table_rows (pj_includes p0) (p, t)"
  have pj': "pj' = pj\<lparr>pj_values := put_all ?rows (pj_values pj), pj_table_keys := put p ks (pj_table_keys pj)\<rparr>"
      and ks: "ks = sort (map fst ?rows)"
    using load None by (auto simp: load_table_def Let_def reading_static [OF r] lookup)
  have has': "has (pj_table_keys pj') q \<longleftrightarrow> q = p \<or> has (pj_table_keys pj) q" for q
    by (auto simp: pj' has_def lookup_put)
  have "map_of (pj_values pj') n = filed_value p0 (pj_table_keys pj') n" for n
  proof (cases "starts p n")
    case True
    then have o: "owner p0 n = Some (p, t)" by (rule owner_table [OF l t])
    have "map_of (pj_values pj) n = None" using r None by (auto simp: reading_def filed_def filed_value_def o has_def)
    then show ?thesis by (simp add: filed_value_def o has') (auto simp: lookup_put_all pj' split: option.split)
  next
    case False
    then have "map_of (rev ?rows) n = None"
      unfolding map_of_None set_rev using table_rows_prefix [of _ "pj_includes p0" p t] by blast
    then have "map_of (pj_values pj') n = map_of (pj_values pj) n" by (simp add: lookup_put_all pj')
    moreover have "q \<noteq> p" if "owner p0 n = Some (q, u)" for q u using owner_Some [OF that] False by blast
    ultimately show ?thesis using r by (auto simp: reading_def filed_def filed_value_def has' split: option.splits)
  qed
  moreover have "p \<in> set (keys (pj_tables p0))" using t by (metis fst_conv imageI set_map)
  ultimately have "filed p0 pj'"
    using r by (simp add: filed_def reading_def) (simp add: pj' lookup_put ks names)
  then show ?thesis
    using r by (simp add: reading_def has' ks names) (simp add: pj' same_view_def filtered_rows_def)
next
  case (Some v)
  then show ?thesis using r load by (auto simp: load_table_def reading_def filed_def has_def)
qed

subsection \<open>GET\<close>

lemma found_shown:
  assumes l: "laid_out p0" and r: "reading p0 pj" and o: "owner p0 n = None \<or> (\<exists>p t. owner p0 n = Some (p, t) \<and> has (pj_table_keys pj) p)"
    and "\<not> starts current_oid n"
  shows "map_of (pj_values pj) n = shown p0 c n"
  using r o assms(4) by (auto simp: reading_def filed_def filed_value_def shown_def)

lemma get_shown:
  assumes "laid_out p0 \<and> reading p0 pj" and "mib_get n pj = (pj', a)"
  shows "reading p0 pj' \<and> a =
    (if allowed (pj_includes p0) n \<and> (\<exists>base \<in> set (pj_bases p0). starts base n) then found (shown p0 (cutoff n) n)
     else No_such_object)"
proof (cases "allowed (pj_includes p0) n \<and> (\<exists>base \<in> set (pj_bases p0). starts base n)")
  case known: True
  note l = conjunct1 [OF assms(1)] and r = conjunct2 [OF assms(1)]
  have k: "allowed (pj_includes pj) n" "list_ex (\<lambda>base. starts base n) (pj_bases pj)"
    using known by (simp_all add: reading_static [OF r] list_ex_iff)
  show ?thesis
  proof (cases "starts current_oid n")
    case True
    obtain q vs where q: "current_values (cutoff n) pj = (q, vs)" by (cases "current_values (cutoff n) pj")
    then have "reading p0 q" "vs = put_all (current_rows p0 (cutoff n)) []" using reading_current [OF r] by blast+
    moreover from this have "map_of vs n = shown p0 (cutoff n) n"
      using True by (simp add: shown_def lookup_put_all split: option.split)
    ultimately show ?thesis using assms(2) known k True q by (simp add: mib_get_def)
  next
    case False
    show ?thesis
    proof (cases "owner p0 n")
      case None
      then have "mib_get n pj = (pj, found (map_of (pj_values pj) n))"
        using k False reading_static(7) [OF r, of n] by (simp add: mib_get_def owner_def)
      then show ?thesis using assms(2) known r found_shown [OF l r _ False] None by simp
    next
      case (Some t')
      then obtain p t where o: "owner p0 n = Some (p, t)" by (cases t') auto
      obtain q ks where load: "load_table p pj = (q, ks)" by (cases "load_table p pj")
      have q: "reading p0 q" "has (pj_table_keys q) p"
        using reading_load [OF l r conjunct1 [OF owner_Some [OF o]] load] by blast+
      have "mib_get n pj = (q, found (map_of (pj_values q) n))"
        using k False reading_static(7) [OF r, of n] o load by (simp add: mib_get_def owner_def)
      then show ?thesis using assms(2) known q(1) found_shown [OF l q(1) _ False] o q(2) by simp
    qed
  qed
next
  case False
  note r = conjunct2 [OF assms(1)]
  have "\<not> (allowed (pj_includes pj) n \<and> list_ex (\<lambda>base. starts base n) (pj_bases pj))"
    using False by (simp add: reading_static [OF r] list_ex_iff)
  then have "mib_get n pj = (pj, No_such_object)" unfolding mib_get_def by (meson)
  then show ?thesis using assms(2) False r by auto
qed

subsection \<open>GETNEXT\<close>

definition least_after :: "projection \<Rightarrow> nat \<Rightarrow> oid \<Rightarrow> oid \<times> answer \<Rightarrow> bool" where
  \<comment> \<open>the first object after a name, or the end of the view\<close>
  "least_after p0 c name r \<longleftrightarrow>
     (case r of (n, Value e) \<Rightarrow> shown p0 c n = Some e \<and> name < n \<and> (\<forall>m. shown p0 c m \<noteq> None \<longrightarrow> name < m \<longrightarrow> n \<le> m)
      | (n, End_of_mib_view) \<Rightarrow> n = name \<and> (\<forall>m. shown p0 c m \<noteq> None \<longrightarrow> m \<le> name)
      | _ \<Rightarrow> False)"

definition first_scalar :: "projection \<Rightarrow> oid \<Rightarrow> oid option \<Rightarrow> bool" where
  "first_scalar p0 name scalar \<longleftrightarrow> (case scalar of
     None \<Rightarrow> \<forall>k \<in> set (pj_scalar_keys p0). k \<le> name
   | Some n \<Rightarrow> n \<in> set (pj_scalar_keys p0) \<and> name < n \<and> (\<forall>k \<in> set (pj_scalar_keys p0). name < k \<longrightarrow> n \<le> k))"

lemma scalar_answer_value:
  assumes "laid_out p0" and "reading p0 pj" and "n \<in> set (pj_scalar_keys p0)"
  shows "\<exists>e. scalar_answer n pj = (pj, n, Value e) \<and> shown p0 c n = Some e"
proof -
  have "map_of (pj_values pj) n = map_of (pj_values p0) n"
    using assms(2) scalar_outside [OF assms(1,3)] by (simp add: reading_def filed_def filed_value_def)
  moreover obtain e where "map_of (pj_values p0) n = Some e" "shown p0 c n = Some e"
    using scalar_outside [OF assms(1,3), of c] by (metis not_None_eq)
  ultimately show ?thesis by (simp add: scalar_answer_def)
qed

lemma family_rows_names:
  assumes l: "laid_out p0" and r: "reading p0 pj" and p: "p \<in> set (family_prefixes p0)"
    and rows: "family_rows name p pj = (pj', vs, ks)"
  shows "reading p0 pj' \<and> sorted ks \<and> set ks = fst ` set (family_names p0 (cutoff name) p) \<and>
    (\<forall>k \<in> set ks. map_of vs k = shown p0 (cutoff name) k)"
proof (cases "p = current_oid")
  case True
  then obtain q where q: "current_values (cutoff name) pj = (pj', vs)" "ks = sort (keys vs)"
    using rows by (auto simp: family_rows_def split: prod.splits)
  have vs: "reading p0 pj'" "vs = put_all (current_rows p0 (cutoff name)) []" using reading_current [OF r q(1)] by blast+
  have names: "set ks = fst ` set (current_rows p0 (cutoff name))" 
    unfolding q(2) vs(2) set_sort keys_put_all by simp
  have "map_of vs k = shown p0 (cutoff name) k" if "k \<in> set ks" for k
  proof -
    have "starts current_oid k" using that current_rows_prefix by (auto simp: names)
    then show ?thesis by (simp add: shown_def vs(2) lookup_put_all split: option.split)
  qed
  then show ?thesis using vs(1) names by (simp add: True family_names_def q(2))
next
  case False
  then obtain t where t: "(p, t) \<in> set (pj_tables p0)" using p by (auto simp: family_prefixes_def)
  have load: "load_table p pj = (pj', ks)" "vs = pj_values pj'"
    using rows False by (auto simp: family_rows_def split: prod.splits)
  have q: "reading p0 pj'" "ks = sort (map fst (family_names p0 0 p))" "has (pj_table_keys pj') p"
    using reading_load [OF l r t load(1)] by blast+
  have same: "family_names p0 (cutoff name) p = family_names p0 0 p" using False by (simp add: family_names_def)
  have "map_of vs k = shown p0 (cutoff name) k" if "k \<in> set ks" for k
  proof -
    have k: "starts p k" using that family_names_prefix by (auto simp: q(2))
    then have "\<not> starts current_oid k"
      using families_apart [OF l p _ k, of current_oid] False by (auto simp: family_prefixes_def)
    then show ?thesis
      using found_shown [OF l q(1)] owner_table [OF l t k] q(3) by (simp add: load(2))
  qed
  then show ?thesis using q(1) by (simp add: q(2) same)
qed

lemma scalar_least:
  assumes "laid_out p0" and "first_scalar p0 name (Some n)" and "shown p0 c n = Some e"
    and "\<And>p m. p \<in> set (family_prefixes p0) \<Longrightarrow> m \<in> fst ` set (family_names p0 c p) \<Longrightarrow> name < m \<Longrightarrow> n \<le> m"
  shows "least_after p0 c name (n, Value e)"
proof -
  have "n \<le> m" if m: "shown p0 c m \<noteq> None" "name < m" for m
    using shown_cases [OF assms(1) m(1)] assms(2,4) m(2) by (auto simp: first_scalar_def)
  then show ?thesis using assms(2,3) by (simp add: least_after_def first_scalar_def)
qed

lemma seek_least:
  assumes l: "laid_out p0" and r: "reading p0 pj" and scalar: "first_scalar p0 name scalar"
    and ps: "sorted ps" "distinct ps" "set ps \<subseteq> set (family_prefixes p0)"
    and before: "\<And>p m. p \<in> set (family_prefixes p0) - set ps \<Longrightarrow> m \<in> fst ` set (family_names p0 (cutoff name) p) \<Longrightarrow> m \<le> name"
    and seek: "seek name scalar ps pj = (pj', n, a)"
  shows "reading p0 pj' \<and> least_after p0 (cutoff name) name (n, a)"
  using r ps before seek
proof (induction ps arbitrary: pj)
  case Nil
  show ?case
  proof (cases scalar)
    case None
    have "m \<le> name" if "shown p0 (cutoff name) m \<noteq> None" for m
      using shown_cases [OF l that] Nil.prems(5) scalar by (auto simp: None first_scalar_def)
    then show ?thesis using Nil.prems(1,6) by (simp add: None least_after_def)
  next
    case (Some k)
    obtain e where e: "scalar_answer k pj = (pj, k, Value e)" "shown p0 (cutoff name) k = Some e"
      using scalar_answer_value [OF l Nil.prems(1)] scalar by (fastforce simp: first_scalar_def Some)
    have "least_after p0 (cutoff name) name (k, Value e)"
      by (rule scalar_least [OF l scalar [unfolded Some] e(2)]) (use Nil.prems(5) in \<open>auto simp: not_le [symmetric]\<close>)
    then show ?thesis using Nil.prems(1,6) e(1) by (simp add: Some)
  qed
next
  case (Cons p ps)
  note r = Cons.prems(1)
  have p: "p \<in> set (family_prefixes p0)" using Cons.prems(4) by simp
  have later: "p \<le> q" if "q \<in> set ps" for q using Cons.prems(2) that by simp
  have rest: "sorted ps" "distinct ps" "set ps \<subseteq> set (family_prefixes p0)" using Cons.prems(2-4) by simp_all
  have step: "reading p0 pj' \<and> least_after p0 (cutoff name) name (n, a)"
    if "reading p0 q" "seek name scalar ps q = (pj', n, a)" and "\<And>m. m \<in> fst ` set (family_names p0 (cutoff name) p) \<Longrightarrow> m \<le> name" for q
  proof (rule Cons.IH [OF that(1) rest _ that(2)])
    fix p' m
    assume "p' \<in> set (family_prefixes p0) - set ps" "m \<in> fst ` set (family_names p0 (cutoff name) p')"
    then show "m \<le> name" using that(3) [of m] Cons.prems(5) [of p' m] by (cases "p' = p") simp_all
  qed
  have ahead: "k \<le> m"
    if "scalar = Some k" "k < x" "\<And>m. m \<in> fst ` set (family_names p0 (cutoff name) p) \<Longrightarrow> name < m \<Longrightarrow> x \<le> m" "x \<le> p \<or> (\<forall>q \<in> set ps. x \<le> q)"
      "q \<in> set (family_prefixes p0)" "m \<in> fst ` set (family_names p0 (cutoff name) q)" "name < m" for k x q m
  proof (cases "q \<in> set (p # ps)")
    case True
    have "starts q m" using that(6) family_names_prefix by auto
    then have "q \<le> m" by (rule starts_le)
    moreover have "p \<le> q" if "q \<noteq> p" using True later that by simp
    ultimately have "x \<le> m" using True that(3) [OF _ that(7)] that(4,6) by (cases "q = p") (auto intro: order_trans)
    then show ?thesis using that(2) by simp
  next
    case False
    then show ?thesis using Cons.prems(5) [of q m] that(5-7) by auto
  qed
  show ?case
  proof (cases "past p \<le> name \<or> \<not> overlaps (pj_includes p0) p")
    case True
    have "m \<le> name" if "m \<in> fst ` set (family_names p0 (cutoff name) p)" for m
    proof -
      have "starts p m" using that family_names_prefix by auto
      then have "m < past p" using starts_past families_disjoint [OF l p p] by blast
      then show ?thesis using True that family_names_hidden by fastforce
    qed
    moreover have "seek name scalar ps pj = (pj', n, a)"
      using Cons.prems(6) True by (simp add: reading_static [OF r])
    ultimately show ?thesis using step [OF r] by blast
  next
    case visible: False
    show ?thesis
    proof (cases "\<exists>k. scalar = Some k \<and> k < p")
      case True
      then obtain k where k: "scalar = Some k" "k < p" by blast
      obtain e where e: "scalar_answer k pj = (pj, k, Value e)" "shown p0 (cutoff name) k = Some e"
        using scalar_answer_value [OF l r] scalar by (fastforce simp: first_scalar_def k(1))
      have "least_after p0 (cutoff name) name (k, Value e)"
        by (rule scalar_least [OF l scalar [unfolded k(1)] e(2) ahead [OF k]])
          (use family_names_prefix starts_le in auto)
      moreover have "seek name scalar (p # ps) pj = scalar_answer k pj"
        using visible k by (simp add: reading_static [OF r])
      ultimately show ?thesis using Cons.prems(6) e(1) r by simp
    next
      case False
      obtain q vs ks where rows: "family_rows name p pj = (q, vs, ks)" by (cases "family_rows name p pj") auto
      have q: "reading p0 q" "sorted ks" "set ks = fst ` set (family_names p0 (cutoff name) p)"
          "\<And>k. k \<in> set ks \<Longrightarrow> map_of vs k = shown p0 (cutoff name) k"
        using family_rows_names [OF l r p rows] by blast+
      have go: "seek name scalar (p # ps) pj = (case following ks name of
              None \<Rightarrow> seek name scalar ps q
            | Some candidate \<Rightarrow>
                if (case scalar of Some n \<Rightarrow> n < candidate | None \<Rightarrow> False) then scalar_answer (the scalar) q
                else (q, candidate, Value (the (map_of vs candidate))))"
        using visible False rows by (auto simp: reading_static [OF r] split: option.split)
      note found = Cons.prems(6) [unfolded go]
      show ?thesis
      proof (cases "following ks name")
        case None
        have "m \<le> name" if "m \<in> fst ` set (family_names p0 (cutoff name) p)" for m
          using following_None [OF q(2) None] that by (simp add: q(3))
        then show ?thesis using step [OF q(1)] found by (simp add: None)
      next
        case (Some x)
        then have x: "x \<in> set ks" "name < x" "\<And>k. k \<in> set ks \<Longrightarrow> name < k \<Longrightarrow> x \<le> k"
          using following_Some [OF q(2)] by blast+
        have xp: "starts p x" using x(1) family_names_prefix by (auto simp: q(3))
        have after: "\<forall>q \<in> set ps. x \<le> q"
        proof
          fix q assume q: "q \<in> set ps"
          then have "\<not> starts p q" using families_disjoint [OF l p, of q] rest(3) Cons.prems(3) by auto
          moreover have "p < q" using later [OF q] Cons.prems(3) q by (auto simp: order.order_iff_strict)
          ultimately have "past p \<le> q" using past_le families_disjoint [OF l p p] by blast
          then show "x \<le> q" using starts_past [OF xp] families_disjoint [OF l p p] by (auto intro: order.strict_implies_order order.strict_trans2)
        qed
        show ?thesis
        proof (cases "\<exists>k. scalar = Some k \<and> k < x")
          case True
          then obtain k where k: "scalar = Some k" "k < x" by blast
          obtain e where e: "scalar_answer k q = (q, k, Value e)" "shown p0 (cutoff name) k = Some e"
            using scalar_answer_value [OF l q(1)] scalar by (fastforce simp: first_scalar_def k(1))
          have "least_after p0 (cutoff name) name (k, Value e)"
            by (rule scalar_least [OF l scalar [unfolded k(1)] e(2) ahead [OF k]]) (use x(3) q(3) after in auto)
          then show ?thesis using found e(1) q(1) k by (simp add: Some)
        next
          case no: False
          have "x \<le> m" if m: "shown p0 (cutoff name) m \<noteq> None" "name < m" for m
            using shown_cases [OF l m(1)]
          proof
            assume "m \<in> set (pj_scalar_keys p0)"
            then show ?thesis using scalar no m(2) by (cases scalar) (force simp: first_scalar_def)+
          next
            assume "\<exists>q \<in> set (family_prefixes p0). starts q m \<and> m \<in> fst ` set (family_names p0 (cutoff name) q)"
            then obtain q' where q': "q' \<in> set (family_prefixes p0)" "starts q' m" "m \<in> fst ` set (family_names p0 (cutoff name) q')" by blast
            then show ?thesis
              using Cons.prems(5) [of q' m] m(2) x(3) [of m] after starts_le [OF q'(2)] q(3)
              by (cases "q' = p"; cases "q' \<in> set ps") (auto intro: order_trans)
          qed
          moreover obtain e where "shown p0 (cutoff name) x = Some e"
            using x(1) shown_in_family [OF l p xp] q(3) by blast
          ultimately have "least_after p0 (cutoff name) name (x, Value (the (map_of vs x)))"
            using x(1,2) q(4) by (simp add: least_after_def)
          then show ?thesis using found q(1) no by (auto simp: Some split: option.splits)
        qed
      qed
    qed
  qed
qed

lemma next_shown:
  assumes "laid_out p0 \<and> reading p0 pj" and "mib_next name pj = (pj', n, a)"
  shows "reading p0 pj' \<and> least_after p0 (cutoff name) name (n, a)"
proof -
  note l = conjunct1 [OF assms(1)] and r = conjunct2 [OF assms(1)]
  have scalar: "first_scalar p0 name (following (pj_scalar_keys pj) name)"
    using following_None [of "pj_scalar_keys pj" name] following_Some [of "pj_scalar_keys pj" name] l
    by (auto simp: first_scalar_def laid_out_def reading_static [OF r] split: option.split)
  have families: "pj_families pj = sort (family_prefixes p0)" "distinct (family_prefixes p0)"
    using l by (simp_all add: laid_out_def disjoint_families_def reading_static [OF r])
  show ?thesis
    by (rule seek_least [OF l r scalar _ _ _ _ assms(2) [unfolded mib_next_def]]) (simp_all add: families)
qed

subsection \<open>The projection of a runtime\<close>

definition table_prefixes :: "oid list" where
  "table_prefixes =
     [mib2 [2, 2, 1], mib2 [31, 1, 1, 1], mib2 [17, 1, 4, 1], mib2 [17, 7, 1, 4, 5, 1], mib2 [17, 4, 3, 1],
      mib2 [17, 7, 1, 2, 2, 1], mib2 [17, 7, 1, 2, 1, 1], mib2 [17, 7, 1, 4, 3, 1], entity_oid @ [1, 1, 1, 1],
      entity_oid @ [1, 3, 2, 1], entity_oid @ [1, 3, 3, 1], pae_oid @ [1, 2, 1], pae_oid @ [2, 1, 1],
      pae_oid @ [2, 2, 1], pae_oid @ [2, 3, 1], pae_oid @ [2, 4, 1]]"

definition scalar_bases :: "oid list" where
  "scalar_bases =
     [mib2 [1, 1], mib2 [1, 2], mib2 [1, 3], mib2 [1, 4], mib2 [1, 5], mib2 [1, 6], mib2 [1, 7], mib2 [2, 1],
      mib2 [17, 1, 1], mib2 [17, 1, 2], mib2 [17, 1, 3], mib2 [17, 4, 1], mib2 [17, 4, 2], mib2 [17, 7, 1, 1, 1],
      mib2 [17, 7, 1, 1, 2], mib2 [17, 7, 1, 1, 3], mib2 [17, 7, 1, 1, 4], mib2 [17, 7, 1, 1, 5],
      mib2 [17, 7, 1, 4, 1], entity_oid @ [1, 4, 1], pae_oid @ [1, 1]]"

lemmas prefix_simps = table_prefixes_def scalar_bases_def mib2_def entity_oid_def pae_oid_def current_oid_def
  starts_Cons_Cons

lemma keys_tables: "keys (table_objects uuid s) = table_prefixes"
  by (simp add: table_objects_def table_prefixes_def Let_def)

lemma keys_scalars: "set (keys (scalar_objects s ticks)) \<subseteq> set scalar_bases"
  by (auto simp: scalar_objects_def system_objects_def scalar_bases_def Let_def split: option.split)

lemma prefixes_disjoint: "disjoint_families (table_prefixes @ [current_oid])"
  by (simp add: disjoint_families_def prefix_simps)

lemma scalars_outside:
  "list_all (\<lambda>b. list_all (\<lambda>p. \<not> starts p (b @ [0])) (table_prefixes @ [current_oid])) scalar_bases"
  by (simp add: prefix_simps)

lemma laid_out_project: "laid_out (project uuid includes elapsed s)"
proof -
  let ?held = "put_all (scalar_rows includes (scalar_objects s (elapsed mod 2 ^ 32))) []"
  have "\<exists>b \<in> set scalar_bases. n = b @ [0]" if "n \<in> set (keys ?held)" for n
    using that keys_scalars [of s "elapsed mod 2 ^ 32"] unfolding keys_put_all by (force simp: scalar_rows_def)
  then have "list_all (\<lambda>n. list_all (\<lambda>p. \<not> starts p n) (table_prefixes @ [current_oid])) (keys ?held)"
    using scalars_outside unfolding list_all_iff by blast
  then show ?thesis
    using prefixes_disjoint
    by (simp add: laid_out_def family_prefixes_def project_def Let_def keys_tables)
qed

text \<open>C21: whatever was read of a projection before, a GET returns the object the freshly built
  projection shows under that name, \<open>noSuchInstance\<close> under a known column without such a row, and
  \<open>noSuchObject\<close> outside the view or the columns of the switch: what is filed on demand never shows.\<close>

theorem get_reference:
  assumes "reading (project uuid includes elapsed s) pj" and "mib_get n pj = (pj', a)"
  shows "reading (project uuid includes elapsed s) pj' \<and> a =
    (if allowed includes n \<and> (\<exists>base \<in> set (pj_bases pj). starts base n)
     then found (shown (project uuid includes elapsed s) (cutoff n) n) else No_such_object)"
  using get_shown [OF conjI [OF laid_out_project assms(1)] assms(2)] reading_static(3) [OF assms(1)]
  by (simp add: project_def Let_def)

text \<open>C6: whatever was read of a projection before, a GETNEXT returns the first visible object after
  the name in the order of object identifiers - across the scalars, the tables and the current VLANs
  under the time filter of the name - with the value a fresh projection shows, or reports the end of
  the view exactly if none follows.\<close>

theorem next_least:
  assumes "reading (project uuid includes elapsed s) pj" and "mib_next name pj = (pj', n, a)"
  shows "reading (project uuid includes elapsed s) pj' \<and>
    least_after (project uuid includes elapsed s) (cutoff name) name (n, a)"
  by (rule next_shown [OF conjI [OF laid_out_project assms(1)] assms(2)])

abbreviation (input) example_projection :: projection where
  "example_projection \<equiv> project (\<lambda>_. None) [[1, 3]] 0 example_runtime"

lemma example_name:
  "shown example_projection 0 (mib2 [1, 5, 0]) = Some (Octet_string, Text (str ''Switch Lab''))"
  by (simp add: shown_def owner_def project_def Let_def table_objects_def prefix_simps put_all_def scalar_rows_def
     scalar_objects_def system_objects_def allowed_def example_runtime_def new_runtime_def initial_configuration_def default_switch_def lookup_put text_value_def)

lemma get_reference_witness:
  "snd (mib_get (mib2 [1, 5, 0]) example_projection) = Value (Octet_string, Text (str ''Switch Lab''))"
proof -
  obtain pj a where get: "mib_get (mib2 [1, 5, 0]) example_projection = (pj, a)" by (cases "mib_get (mib2 [1, 5, 0]) example_projection")
  have c: "cutoff (mib2 [1, 5, 0]) = 0" by (simp add: cutoff_def prefix_simps)
  have base: "mib2 [1, 5] \<in> set (pj_bases example_projection)"
    by (simp add: project_def Let_def scalar_objects_def system_objects_def)
  have view: "allowed [[1, 3]] (mib2 [1, 5, 0])" by (simp add: allowed_def prefix_simps)
  have "\<exists>base \<in> set (pj_bases example_projection). starts base (mib2 [1, 5, 0])"
    by (rule bexI [OF _ base]) (simp add: prefix_simps)
  then have "a = Value (Octet_string, Text (str ''Switch Lab''))"
    using get_reference [OF reading_refl [OF laid_out_project] get] view
    by (simp only: c example_name found_def option.case simp_thms if_True)
  then show ?thesis unfolding get by simp
qed

lemma next_least_witness:
  "\<exists>pj n a. mib_next (mib2 [1, 5]) example_projection = (pj, n, a) \<and> least_after example_projection 0 (mib2 [1, 5]) (n, a)"
proof -
  obtain pj n a where step: "mib_next (mib2 [1, 5]) example_projection = (pj, n, a)"
    by (cases "mib_next (mib2 [1, 5]) example_projection") auto
  have "cutoff (mib2 [1, 5]) = 0" by (simp add: cutoff_def prefix_simps)
  then show ?thesis using next_least [OF reading_refl [OF laid_out_project] step] step by auto
qed

end
