(* ===== verification/Snmp_Read.thy ===== *)
theory Snmp_Read
  imports Mib_Projection
begin

text \<open>
  The reading side of \<open>switchlab/snmp.py\<close>: which request the responder answers at all, under which view,
  and what GET, GETNEXT and GETBULK answer. \<open>pysnmp\<close> has decoded and, for version 3, authenticated the
  message; what it hands over is the argument \<open>read_request\<close>. \<open>wire_name\<close>, a digest of an identifier, is an
  argument as well.
\<close>

definition admits :: "network list \<Rightarrow> ip \<Rightarrow> bool" where
  "admits networks peer \<longleftrightarrow> networks = [] \<or> list_ex (in_network peer) networks"

subsection \<open>Requests\<close>

datatype read_pdu = Get_pdu | Next_pdu | Bulk_pdu int int \<comment> \<open>non-repeaters, repetitions\<close> | Set_pdu

record read_request =
  rq_model :: int
  rq_security_model :: int
  rq_name :: pystr
  rq_level :: int
  rq_peer :: ip
  rq_context :: bytes
  rq_pdu :: read_pdu
  rq_names :: "oid list"

datatype read_response =
    Read_error string nat bool \<comment> \<open>status, index, and whether the bindings are echoed\<close>
  | Read_values "(oid \<times> answer) list"

subsection \<open>Authorization\<close>

fun level_value :: "security_level \<Rightarrow> int" where
  "level_value NoAuthNoPriv = 1"
| "level_value AuthNoPriv = 2"
| "level_value AuthPriv = 3"

definition names_credential :: "(uid \<Rightarrow> pystr) \<Rightarrow> int \<Rightarrow> pystr \<Rightarrow> credential \<Rightarrow> bool" where
  "names_credential wire_name security_model name c \<longleftrightarrow>
     (security_model = 2 \<and> \<not> is_v3 (c_access c) \<and> wire_name (c_id c) = name) \<or>
     (security_model = 3 \<and> is_v3 (c_access c) \<and> c_username c = name)"

definition below_level :: "int \<Rightarrow> credential \<Rightarrow> security_level option \<Rightarrow> bool" where
  \<comment> \<open>a version 3 message below the minimum of the group\<close>
  "below_level level c lowest \<longleftrightarrow> is_v3 (c_access c) \<and>
     level < level_value (the lowest)"

definition polling_policy :: "(uid \<Rightarrow> pystr) \<Rightarrow> bool \<Rightarrow> read_request \<Rightarrow> runtime \<Rightarrow> polling_access option" where
  \<comment> \<open>\<open>None\<close>: the request is dropped without an answer\<close>
  "polling_policy wire_name listening rq s =
     (if \<not> listening \<or> \<not> gate s \<or> rq_model rq \<notin> {1, 3} then None
      else case List.find (\<lambda>c. c_enabled c \<and> names_credential wire_name (rq_security_model rq) (rq_name rq) c)
                 (vals (credentials (cfg s))) of
          None \<Rightarrow> None
        | Some c \<Rightarrow> (case incoming_policy (cfg s) c of
              None \<Rightarrow> None
            | Some (polling, _, lowest) \<Rightarrow>
                if \<not> pl_enabled polling then None
                else if \<not> admits (pl_networks polling) (rq_peer rq) then None
                else if below_level (rq_level rq) c lowest then None
                else Some polling))"

subsection \<open>Answers\<close>

fun mib_gets :: "oid list \<Rightarrow> projection \<Rightarrow> projection \<times> (oid \<times> answer) list" where
  "mib_gets [] pj = (pj, [])"
| "mib_gets (n # ns) pj =
     (let (pj, a) = mib_get n pj; (pj, rest) = mib_gets ns pj in (pj, (n, a) # rest))"

fun mib_nexts :: "oid list \<Rightarrow> projection \<Rightarrow> projection \<times> (oid \<times> answer) list" where
  "mib_nexts [] pj = (pj, [])"
| "mib_nexts (n # ns) pj =
     (let (pj, m, a) = mib_next n pj; (pj, rest) = mib_nexts ns pj in (pj, (m, a) # rest))"

fun bulk_loop :: "nat \<Rightarrow> nat \<Rightarrow> (oid \<times> answer) list \<Rightarrow> oid list \<Rightarrow> projection \<Rightarrow> projection \<times> (oid \<times> answer) list" where
  "bulk_loop 0 room result pending pj = (pj, result)"
| "bulk_loop (Suc repeats) room result pending pj =
     (if pending = [] \<or> room < length result + length pending then (pj, result)
      else
        let (pj, more) = mib_nexts pending pj;
            result = result @ more
        in if list_all (\<lambda>(_, a). a = End_of_mib_view) more then (pj, result)
           else bulk_loop repeats room result (map fst more) pj)"

definition bulk_answer :: "int \<Rightarrow> int \<Rightarrow> nat \<Rightarrow> oid list \<Rightarrow> projection \<Rightarrow> projection \<times> (oid \<times> answer) list" where
  "bulk_answer non_repeaters repetitions room names pj =
     (let nonrepeat = min (nat non_repeaters) (length names);
          (pj, result) = mib_nexts (take nonrepeat names) pj
      in bulk_loop (min (nat repetitions) room) room result (drop nonrepeat names) pj)"

definition read_answer :: "read_request \<Rightarrow> nat \<Rightarrow> projection \<Rightarrow> projection \<times> read_response" where
  \<comment> \<open>\<open>handle_management_operation\<close>\<close>
  "read_answer rq room pj =
     (if rq_context rq \<noteq> [] then (pj, Read_error ''authorizationError'' 1 True)
      else if room < length (rq_names rq) then (pj, Read_error ''tooBig'' 0 False)
      else case rq_pdu rq of
          Set_pdu \<Rightarrow> (pj, Read_error ''notWritable'' (if rq_names rq = [] then 0 else 1) True)
        | Get_pdu \<Rightarrow> let (pj, vs) = mib_gets (rq_names rq) pj in (pj, Read_values vs)
        | Next_pdu \<Rightarrow> let (pj, vs) = mib_nexts (rq_names rq) pj in (pj, Read_values vs)
        | Bulk_pdu n m \<Rightarrow> let (pj, vs) = bulk_answer n m room (rq_names rq) pj in (pj, Read_values vs))"

definition view_includes :: "runtime \<Rightarrow> uid \<Rightarrow> oid list" where
  "view_includes s ident = includes_oids (the (map_of (views (cfg s)) ident))"

definition read_request_answer ::
  "(uid \<Rightarrow> pystr) \<Rightarrow> (uid \<Rightarrow> bytes option) \<Rightarrow> bool \<Rightarrow> int \<Rightarrow> read_request \<Rightarrow> runtime \<Rightarrow> read_response option" where
  \<comment> \<open>\<open>process_pdu\<close> of a request that is not a SET with an owner\<close>
  "read_request_answer wire_name uuid listening elapsed rq s =
     (case polling_policy wire_name listening rq s of
        None \<Rightarrow> None
      | Some polling \<Rightarrow> Some (snd (read_answer rq (nat (max_varbinds (snmp (cfg s))))
          (project uuid (view_includes s (pl_view_id polling)) elapsed s))))"

subsection \<open>Lemmas\<close>

lemma put_all_in: "map_of (put_all rows []) n = Some e \<Longrightarrow> (n, e) \<in> set rows"
  by (auto simp: lookup_put_all dest!: map_of_SomeD split: option.splits)

lemma shown_allowed:
  assumes "shown (project uuid includes elapsed s) c n = Some e"
  shows "allowed includes n"
proof -
  let ?p = "project uuid includes elapsed s"
  have inc: "pj_includes ?p = includes" by (simp add: project_def Let_def)
  show ?thesis
  proof (cases "starts current_oid n")
    case True
    then have "(n, e) \<in> set (current_rows ?p c)" using assms by (auto simp: shown_def dest!: map_of_SomeD)
    then show ?thesis by (auto simp: current_rows_def inc split: if_splits)
  next
    case False
    show ?thesis
    proof (cases "owner ?p n")
      case None
      then have "map_of (put_all (scalar_rows includes (scalar_objects s (elapsed mod 2 ^ 32))) []) n = Some e"
        using assms False by (simp add: shown_def project_def Let_def)
      then show ?thesis using put_all_in by (fastforce simp: scalar_rows_def)
    next
      case (Some t)
      then have "(n, e) \<in> set (table_rows includes t)"
        using assms False by (auto simp: shown_def inc dest!: map_of_SomeD)
      then show ?thesis by (auto simp: table_rows_def split: prod.splits if_splits)
    qed
  qed
qed

definition confined :: "oid list \<Rightarrow> (oid \<times> answer) list \<Rightarrow> bool" where
  "confined includes vs \<longleftrightarrow> list_all (\<lambda>(n, a). (case a of Value _ \<Rightarrow> allowed includes n | _ \<Rightarrow> True)) vs"

lemma confined_append [simp]: "confined includes (xs @ ys) \<longleftrightarrow> confined includes xs \<and> confined includes ys"
  by (simp add: confined_def)

lemma confined_get:
  assumes "reading (project uuid includes elapsed s) pj" and "mib_get n pj = (pj', a)"
  shows "reading (project uuid includes elapsed s) pj' \<and> confined includes [(n, a)]"
  using get_shown [OF conjI [OF laid_out_project assms(1)] assms(2)]
  by (auto simp: confined_def project_def Let_def split: answer.split)

lemma confined_next:
  assumes "reading (project uuid includes elapsed s) pj" and "mib_next n pj = (pj', m, a)"
  shows "reading (project uuid includes elapsed s) pj' \<and> confined includes [(m, a)]"
  using next_shown [OF conjI [OF laid_out_project assms(1)] assms(2)] shown_allowed
  by (auto simp: confined_def least_after_def split: answer.splits)

lemma confined_gets:
  "reading (project uuid includes elapsed s) pj \<Longrightarrow> mib_gets ns pj = (pj', vs) \<Longrightarrow>
    reading (project uuid includes elapsed s) pj' \<and> confined includes vs \<and> length vs = length ns"
proof (induction ns arbitrary: pj pj' vs)
  case (Cons n ns)
  obtain p1 a where step: "mib_get n pj = (p1, a)" by (cases "mib_get n pj")
  obtain p2 rest where tail: "mib_gets ns p1 = (p2, rest)" by (cases "mib_gets ns p1")
  show ?case
    using Cons.prems confined_get [OF Cons.prems(1) step] Cons.IH [OF _ tail] confined_append [of "includes" "[(n, a)]" rest]
    by (auto simp: step tail)
qed (simp add: confined_def)

lemma confined_nexts:
  "reading (project uuid includes elapsed s) pj \<Longrightarrow> mib_nexts ns pj = (pj', vs) \<Longrightarrow>
    reading (project uuid includes elapsed s) pj' \<and> confined includes vs \<and> length vs = length ns"
proof (induction ns arbitrary: pj pj' vs)
  case (Cons n ns)
  obtain p1 m a where step: "mib_next n pj = (p1, m, a)" by (cases "mib_next n pj") auto
  obtain p2 rest where tail: "mib_nexts ns p1 = (p2, rest)" by (cases "mib_nexts ns p1")
  show ?case
    using Cons.prems confined_next [OF Cons.prems(1) step] Cons.IH [OF _ tail] confined_append [of "includes" "[(m, a)]" rest]
    by (auto simp: step tail)
qed (simp add: confined_def)

lemma confined_bulk:
  "reading (project uuid includes elapsed s) pj \<Longrightarrow> confined includes result \<Longrightarrow> length result \<le> room \<Longrightarrow>
    bulk_loop k room result pending pj = (pj', vs) \<Longrightarrow> confined includes vs \<and> length vs \<le> room"
proof (induction k arbitrary: result pending pj)
  case (Suc k)
  obtain p1 more where step: "mib_nexts pending pj = (p1, more)" by (cases "mib_nexts pending pj")
  show ?case
    using Suc.prems confined_nexts [OF Suc.prems(1) step] Suc.IH [of p1 "result @ more" "map fst more"]
    by (auto simp: step Let_def split: if_splits)
qed simp

lemma read_answer_confined:
  assumes "read_answer rq room (project uuid includes elapsed s) = (pj, Read_values vs)"
  shows "confined includes vs \<and> length vs \<le> room"
proof -
  let ?p = "project uuid includes elapsed s"
  note r = reading_refl [OF laid_out_project [of uuid "includes" elapsed s]]
  have few: "length (rq_names rq) \<le> room" using assms by (auto simp: read_answer_def split: if_splits)
  show ?thesis
  proof (cases "rq_pdu rq")
    case Get_pdu
    then have "mib_gets (rq_names rq) ?p = (pj, vs)" using assms by (auto simp: read_answer_def split: if_splits prod.splits)
    then show ?thesis using confined_gets [OF r] few by simp
  next
    case Next_pdu
    then have "mib_nexts (rq_names rq) ?p = (pj, vs)" using assms by (auto simp: read_answer_def split: if_splits prod.splits)
    then show ?thesis using confined_nexts [OF r] few by simp
  next
    case (Bulk_pdu n m)
    then have bulk: "bulk_answer n m room (rq_names rq) ?p = (pj, vs)"
      using assms by (auto simp: read_answer_def split: if_splits prod.splits)
    let ?k = "min (nat n) (length (rq_names rq))"
    obtain p1 first where step: "mib_nexts (take ?k (rq_names rq)) ?p = (p1, first)" by (cases "mib_nexts (take ?k (rq_names rq)) ?p")
    have "reading ?p p1" "confined includes first" "length first \<le> room"
      using confined_nexts [OF r step] few by auto
    then show ?thesis
      by (rule confined_bulk [of _ _ _ _ _ _ _ "min (nat m) room" "drop ?k (rq_names rq)" pj])
        (use bulk in \<open>simp add: bulk_answer_def Let_def step\<close>)
  next
    case Set_pdu
    then show ?thesis using assms by (auto simp: read_answer_def split: if_splits)
  qed
qed

text \<open>C10: a read is answered with values only to an enabled credential whose polling is enabled, from
  one of its networks, at the security level of its group at least; every value lies in the view of
  that policy, and there are at most as many as the configuration admits.\<close>

theorem reads_confined:
  assumes "read_request_answer wire_name uuid listening elapsed rq s = Some (Read_values vs)"
  shows "\<exists>c polling writing lowest. c \<in> set (vals (credentials (cfg s))) \<and> c_enabled c \<and>
    names_credential wire_name (rq_security_model rq) (rq_name rq) c \<and>
    incoming_policy (cfg s) c = Some (polling, writing, lowest) \<and> pl_enabled polling \<and>
    admits (pl_networks polling) (rq_peer rq) \<and> \<not> below_level (rq_level rq) c lowest \<and>
    confined (view_includes s (pl_view_id polling)) vs \<and> int (length vs) \<le> max 0 (max_varbinds (snmp (cfg s)))"
proof -
  obtain polling where p: "polling_policy wire_name listening rq s = Some polling"
    using assms by (auto simp: read_request_answer_def split: option.splits)
  let ?c = "List.find (\<lambda>c. c_enabled c \<and> names_credential wire_name (rq_security_model rq) (rq_name rq) c)
    (vals (credentials (cfg s)))"
  obtain c where c: "?c = Some c" using p by (auto simp: polling_policy_def split: if_splits option.splits)
  then have c': "c \<in> set (vals (credentials (cfg s))) \<and> c_enabled c \<and>
      names_credential wire_name (rq_security_model rq) (rq_name rq) c"
    unfolding find_Some_iff by (metis nth_mem)
  obtain writing lowest where policy: "incoming_policy (cfg s) c = Some (polling, writing, lowest)" "pl_enabled polling"
      "admits (pl_networks polling) (rq_peer rq)" "\<not> below_level (rq_level rq) c lowest"
    using p c by (auto simp: polling_policy_def split: if_splits option.splits)
  let ?p = "project uuid (view_includes s (pl_view_id polling)) elapsed s"
  obtain pj where "read_answer rq (nat (max_varbinds (snmp (cfg s)))) ?p = (pj, Read_values vs)"
    using assms p by (cases "read_answer rq (nat (max_varbinds (snmp (cfg s)))) ?p") (auto simp: read_request_answer_def)
  from read_answer_confined [OF this] show ?thesis using c' policy by fastforce
qed

subsection \<open>Walks\<close>

definition successors :: "projection \<Rightarrow> oid \<Rightarrow> oid list" where
  \<comment> \<open>the names that follow, without a time filter\<close>
  "successors p0 name = sorted_list_of_set {m. shown p0 0 m \<noteq> None \<and> name < m}"

lemma shown_somewhere:
  assumes "shown p0 c m = Some e"
  shows "(m, e) \<in> set (current_rows p0 c) \<union> (\<Union>t \<in> set (pj_tables p0). set (table_rows (pj_includes p0) t)) \<union> set (pj_values p0)"
proof (cases "starts current_oid m")
  case True
  then show ?thesis using assms by (simp add: shown_def map_of_SomeD [of "rev (current_rows p0 c)", simplified])
next
  case out: False
  show ?thesis
  proof (cases "owner p0 m")
    case None
    then have "map_of (pj_values p0) m = Some e" using assms out by (simp add: shown_def)
    then show ?thesis using map_of_SomeD [of "pj_values p0" m e] by blast
  next
    case (Some t)
    then have "map_of (rev (table_rows (pj_includes p0) t)) m = Some e" using assms out by (simp add: shown_def)
    then have "(m, e) \<in> set (table_rows (pj_includes p0) t)"
      using map_of_SomeD [of "rev (table_rows (pj_includes p0) t)" m e] by (simp only: set_rev)
    moreover have "t \<in> set (pj_tables p0)" using owner_Some [of p0 m "fst t" "snd t"] Some by (simp only: prod.collapse)
    ultimately show ?thesis by blast
  qed
qed

lemma finite_shown: "finite {m. shown p0 c m \<noteq> None}"
proof (rule finite_subset)
  show "{m. shown p0 c m \<noteq> None} \<subseteq> fst ` (set (current_rows p0 c) \<union>
      (\<Union>t \<in> set (pj_tables p0). set (table_rows (pj_includes p0) t)) \<union> set (pj_values p0))"
  proof
    fix m assume "m \<in> {m. shown p0 c m \<noteq> None}"
    then obtain e where "shown p0 c m = Some e" by (metis (mono_tags) mem_Collect_eq not_None_eq)
    from imageI [OF shown_somewhere [OF this], of fst]
    show "m \<in> fst ` (set (current_rows p0 c) \<union>
      (\<Union>t \<in> set (pj_tables p0). set (table_rows (pj_includes p0) t)) \<union> set (pj_values p0))" by (simp only: fst_conv)
  qed
qed (intro finite_imageI finite_UnI finite_UN_I finite_set)

lemma cutoff_shown:
  assumes "shown p0 0 m \<noteq> None"
  shows "cutoff m = 0"
proof (cases "starts current_oid m")
  case True
  then obtain e where "(m, e) \<in> set (current_rows p0 0)"
    using assms by (auto simp: shown_def dest!: map_of_SomeD)
  then obtain column v where "m = current_oid @ [column, 0, v]" using current_rows_prefix by fastforce
  then show ?thesis by (simp add: cutoff_def nth_append)
qed (simp add: cutoff_def)

lemma successors_step:
  assumes "shown p0 0 n \<noteq> None" and "name < n" and "\<And>m. shown p0 0 m \<noteq> None \<Longrightarrow> name < m \<Longrightarrow> n \<le> m"
  shows "successors p0 name = n # successors p0 n"
proof -
  let ?S = "{m. shown p0 0 m \<noteq> None \<and> name < m}"
  have "finite ?S" using finite_shown [of p0 0] by (rule rev_finite_subset) auto
  moreover have "Min ?S = n" using assms \<open>finite ?S\<close> by (intro Min_eqI) auto
  moreover have "?S - {n} = {m. shown p0 0 m \<noteq> None \<and> n < m}"
    using assms by (auto simp: order.order_iff_strict dest: order.strict_trans)
  moreover have "?S \<noteq> {}" using assms by auto
  ultimately show ?thesis unfolding successors_def using sorted_list_of_set_nonempty [of ?S] by simp
qed

definition walked :: "projection \<Rightarrow> oid \<Rightarrow> nat \<Rightarrow> (oid \<times> answer) list" where
  \<comment> \<open>the next objects in order, and the end of the view after the last\<close>
  "walked p0 name k =
     map (\<lambda>n. (n, Value (the (shown p0 0 n)))) (take k (successors p0 name)) @
     (if length (successors p0 name) < k then [(last (name # successors p0 name), End_of_mib_view)] else [])"

lemma walk_step:
  assumes "laid_out p0" and "reading p0 pj" and "cutoff name = 0" and "mib_next name pj = (pj', n, a)"
  shows "reading p0 pj' \<and>
    (successors p0 name = [] \<and> n = name \<and> a = End_of_mib_view \<or>
     successors p0 name = n # successors p0 n \<and> a = Value (the (shown p0 0 n)) \<and> cutoff n = 0)"
proof -
  have r: "reading p0 pj'" and least: "least_after p0 0 name (n, a)"
    using next_shown [OF conjI [OF assms(1,2)] assms(4)] assms(3) by simp_all
  show ?thesis
  proof (cases a)
    case (Value e)
    then have n: "shown p0 0 n = Some e" "name < n" "\<And>m. shown p0 0 m \<noteq> None \<Longrightarrow> name < m \<Longrightarrow> n \<le> m"
      using least by (auto simp: least_after_def)
    have "successors p0 name = n # successors p0 n"
      by (rule successors_step) (use n in \<open>auto\<close>)
    then show ?thesis using r n(1) cutoff_shown [of p0 n] by (simp add: Value)
  next
    case End_of_mib_view
    then have "n = name" and none: "{m. shown p0 0 m \<noteq> None \<and> name < m} = {}"
      using least by (fastforce simp: least_after_def)+
    then show ?thesis using r unfolding successors_def none by (simp add: End_of_mib_view)
  qed (use least in \<open>simp_all add: least_after_def\<close>)
qed

lemma bulk_walk:
  "laid_out p0 \<Longrightarrow> reading p0 pj \<Longrightarrow> cutoff name = 0 \<Longrightarrow> length result + k \<le> room \<Longrightarrow>
    bulk_loop k room result [name] pj = (pj', vs) \<Longrightarrow> vs = result @ walked p0 name k"
proof (induction k arbitrary: result name pj)
  case 0
  then show ?case by (simp add: walked_def)
next
  case (Suc k)
  obtain p1 n a where step: "mib_next name pj = (p1, n, a)" by (cases "mib_next name pj") auto
  note w = walk_step [OF Suc.prems(1-3) step]
  show ?case
  proof (cases "a = End_of_mib_view")
    case True
    then show ?thesis using w Suc.prems(4,5) by (auto simp: step walked_def)
  next
    case False
    have r: "reading p0 p1" and succ: "successors p0 name = n # successors p0 n" and a: "a = Value (the (shown p0 0 n))" "cutoff n = 0"
      using w False by auto
    have room: "length (result @ [(n, a)]) + k \<le> room" using Suc.prems(4) by simp
    have "bulk_loop k room (result @ [(n, a)]) [n] p1 = (pj', vs)"
      using Suc.prems(4,5) False by (simp add: step)
    from Suc.IH [OF Suc.prems(1) r a(2) room this] have "vs = (result @ [(n, a)]) @ walked p0 n k" .
    then show ?thesis by (simp add: walked_def succ a(1))
  qed
qed

lemma bulk_answer_walked:
  assumes "cutoff name = 0"
  shows "snd (bulk_answer 0 repetitions room [name] (project uuid includes elapsed s)) =
    walked (project uuid includes elapsed s) name (min (nat repetitions) room)"
proof -
  let ?p = "project uuid includes elapsed s"
  obtain pj vs where bulk: "bulk_answer 0 repetitions room [name] ?p = (pj, vs)" by (cases "bulk_answer 0 repetitions room [name] ?p")
  then have "bulk_loop (min (nat repetitions) room) room [] [name] ?p = (pj, vs)" by (simp add: bulk_answer_def)
  from bulk_walk [OF laid_out_project reading_refl [OF laid_out_project] assms _ this] show ?thesis by (simp add: bulk)
qed

lemma successors_member:
  assumes "m \<in> set (successors p0 name)"
  shows "shown p0 0 m \<noteq> None \<and> name < m"
proof -
  have "finite {m. shown p0 0 m \<noteq> None \<and> name < m}" using finite_shown [of p0 0] by (rule rev_finite_subset) auto
  then show ?thesis using assms by (simp add: successors_def)
qed

lemma successors_head:
  assumes "successors p0 name = n # ns"
  shows "successors p0 n = ns"
proof -
  have finite: "finite {m. shown p0 0 m \<noteq> None \<and> name < m}" using finite_shown [of p0 0] by (rule rev_finite_subset) auto
  then have "sorted (n # ns)" and elements: "set (n # ns) = {m. shown p0 0 m \<noteq> None \<and> name < m}"
    unfolding assms [symmetric] successors_def by simp_all
  have least: "n \<le> m" if "shown p0 0 m \<noteq> None" "name < m" for m
  proof -
    have "m \<in> set (n # ns)" unfolding elements using that by simp
    with \<open>sorted (n # ns)\<close> show ?thesis by auto
  qed
  then have "successors p0 name = n # successors p0 n"
    using successors_member [of n p0 name] assms least by (intro successors_step) simp_all
  then show ?thesis using assms by simp
qed

lemma successors_drop:
  "k < length (successors p0 name) \<Longrightarrow> successors p0 (successors p0 name ! k) = drop (Suc k) (successors p0 name)"
proof (induction k)
  case 0
  then show ?case using successors_head [of p0 name] by (cases "successors p0 name") simp_all
next
  case (Suc k)
  then have "successors p0 (successors p0 name ! k) = successors p0 name ! Suc k # drop (Suc (Suc k)) (successors p0 name)"
    by (simp add: Cons_nth_drop_Suc)
  then show ?case by (rule successors_head)
qed

fun client_walk :: "int \<Rightarrow> nat \<Rightarrow> projection \<Rightarrow> nat \<Rightarrow> oid \<Rightarrow> (oid \<times> answer) list" where
  \<comment> \<open>a management station repeats GETBULK from the last name it received, at most \<open>n\<close> times\<close>
  "client_walk repetitions room p0 0 name = []"
| "client_walk repetitions room p0 (Suc n) name =
     (let vs = snd (bulk_answer 0 repetitions room [name] p0)
      in if vs = [] \<or> snd (List.last vs) = End_of_mib_view then vs
         else vs @ client_walk repetitions room p0 n (fst (List.last vs)))"

definition listing :: "projection \<Rightarrow> oid \<Rightarrow> (oid \<times> answer) list" where
  \<comment> \<open>everything that follows, in order, and the end of the view\<close>
  "listing p0 name = map (\<lambda>m. (m, Value (the (shown p0 0 m)))) (successors p0 name) @
     [(List.last (name # successors p0 name), End_of_mib_view)]"

lemma walked_listing:
  assumes "0 < k"
  shows "walked p0 name k =
    (if length (successors p0 name) < k then listing p0 name
     else map (\<lambda>m. (m, Value (the (shown p0 0 m)))) (take k (successors p0 name)))"
  by (simp add: walked_def listing_def)

lemma listing_rest:
  assumes "0 < k" and "k \<le> length (successors p0 name)"
  shows "listing p0 name = map (\<lambda>m. (m, Value (the (shown p0 0 m)))) (take k (successors p0 name)) @
    listing p0 (successors p0 name ! (k - 1))"
proof -
  let ?f = "\<lambda>m. (m, Value (the (shown p0 0 m)))"
  have rest: "successors p0 (successors p0 name ! (k - 1)) = drop k (successors p0 name)"
    using successors_drop [of "k - 1" p0 name] assms by simp
  have "drop (k - 1) (successors p0 name) = successors p0 name ! (k - 1) # drop k (successors p0 name)"
    using Cons_nth_drop_Suc [of "k - 1" "successors p0 name"] assms by simp
  then have "List.last (successors p0 name ! (k - 1) # drop k (successors p0 name)) = List.last (successors p0 name)"
    using assms by (metis One_nat_def diff_less last_drop less_le_trans zero_less_one)
  moreover have "successors p0 name \<noteq> []" using assms by auto
  moreover have "map ?f (successors p0 name) = map ?f (take k (successors p0 name)) @ map ?f (drop k (successors p0 name))"
    by (metis append_take_drop_id map_append)
  ultimately show ?thesis unfolding listing_def rest by simp
qed

lemma last_take:
  assumes "0 < k" and "k \<le> length xs"
  shows "List.last (take k xs) = xs ! (k - 1)"
  using assms by (subst last_conv_nth) (auto simp: min_absorb2)

lemma client_walk_listing:
  assumes "0 < min (nat repetitions) room"
  shows "cutoff name = 0 \<Longrightarrow> length (successors (project uuid includes elapsed s) name) < n \<Longrightarrow>
    client_walk repetitions room (project uuid includes elapsed s) n name = listing (project uuid includes elapsed s) name"
proof (induction n arbitrary: name)
  case (Suc n)
  let ?p = "project uuid includes elapsed s" and ?k = "min (nat repetitions) room"
  let ?vs = "snd (bulk_answer 0 repetitions room [name] ?p)"
  note vs = bulk_answer_walked [OF Suc.prems(1), of repetitions room uuid "includes" elapsed s] walked_listing [OF assms, of ?p name]
  show ?case
  proof (cases "length (successors ?p name) < ?k")
    case True
    then have "?vs = listing ?p name" using vs by simp
    then show ?thesis by (simp add: listing_def)
  next
    case False
    then have k: "0 < ?k" "?k \<le> length (successors ?p name)" using assms by linarith+
    let ?m = "successors ?p name ! (?k - 1)"
    have all: "?vs = map (\<lambda>m. (m, Value (the (shown ?p 0 m)))) (take ?k (successors ?p name))"
      using vs by (simp only: False if_False)
    have "List.last (take ?k (successors ?p name)) = ?m" by (rule last_take [OF k])
    moreover have "take ?k (successors ?p name) \<noteq> []" using k by (cases "successors ?p name") auto
    ultimately have final: "?vs \<noteq> [] \<and> List.last ?vs = (?m, Value (the (shown ?p 0 ?m)))" unfolding all by (simp add: last_map)
    have "?m \<in> set (successors ?p name)" using k by (intro nth_mem) linarith
    then have "cutoff ?m = 0" using successors_member cutoff_shown by blast
    moreover have "length (successors ?p ?m) < n"
    proof -
      have "?k - 1 < length (successors ?p name)" using k by linarith
      from arg_cong [OF successors_drop [OF this], of length]
      have "length (successors ?p ?m) = length (successors ?p name) - Suc (?k - 1)" by (simp only: length_drop)
      then show ?thesis using k Suc.prems(2) by linarith
    qed
    ultimately have "client_walk repetitions room ?p n ?m = listing ?p ?m" by (rule Suc.IH)
    moreover have "client_walk repetitions room ?p (Suc n) name = ?vs @ client_walk repetitions room ?p n ?m"
      using final by (simp add: Let_def)
    ultimately show ?thesis unfolding listing_rest [OF k] all by simp
  qed
qed simp

text \<open>C24: a GETBULK of one column, from a name whose time filter is zero (only names within the
  current VLAN table carry another), returns the next objects of the view in order, each
  once, as many as the repetitions asked for and the response limit allow, and after the last the end of the view. A station that
  repeats such a request from the last name it received, asking for at least one repetition with a response limit of at
  least one, on a switch that does not change between the requests, receives exactly every object that follows the first name,
  each once and with its value, and then the end of the view; it ends after at most one request more than there are objects.\<close>

theorem bulk_lists_view:
  assumes "cutoff name = 0"
  shows "snd (bulk_answer 0 repetitions room [name] (project uuid includes elapsed s)) =
      walked (project uuid includes elapsed s) name (min (nat repetitions) room) \<and>
    (0 < min (nat repetitions) room \<and> length (successors (project uuid includes elapsed s) name) < n \<longrightarrow>
     client_walk repetitions room (project uuid includes elapsed s) n name =
       map (\<lambda>m. (m, Value (the (shown (project uuid includes elapsed s) 0 m)))) (successors (project uuid includes elapsed s) name) @
       [(List.last (name # successors (project uuid includes elapsed s) name), End_of_mib_view)])"
  using bulk_answer_walked [OF assms] client_walk_listing [OF _ assms] by (auto simp: listing_def)

lemma bulk_lists_view_witness:
  "\<exists>n. snd (bulk_answer 0 2 10 [mib2 [1, 5]] example_projection) = walked example_projection (mib2 [1, 5]) 2 \<and>
    client_walk 2 10 example_projection n (mib2 [1, 5]) =
      map (\<lambda>m. (m, Value (the (shown example_projection 0 m)))) (successors example_projection (mib2 [1, 5])) @
      [(List.last (mib2 [1, 5] # successors example_projection (mib2 [1, 5])), End_of_mib_view)] \<and>
    mib2 [1, 5, 0] \<in> set (successors example_projection (mib2 [1, 5]))"
proof -
  have start: "cutoff (mib2 [1, 5]) = 0" by (simp add: cutoff_def prefix_simps)
  have "shown example_projection 0 (mib2 [1, 5, 0]) \<noteq> None" by (simp only: example_name option.distinct simp_thms)
  moreover have "mib2 [1, 5] < mib2 [1, 5, 0]" by (simp add: prefix_simps)
  moreover have "finite {m. shown example_projection 0 m \<noteq> None \<and> mib2 [1, 5] < m}"
    using finite_shown [of example_projection 0] by (rule rev_finite_subset) auto
  ultimately have "mib2 [1, 5, 0] \<in> set (successors example_projection (mib2 [1, 5]))" by (simp add: successors_def)
  moreover note bulk_lists_view [OF start, of 2 10 "\<lambda>_. None" "[[1, 3]]" 0 example_runtime
      "Suc (length (successors example_projection (mib2 [1, 5])))"]
  moreover have "0 < min (nat (2 :: int)) 10" "min (nat (2 :: int)) 10 = 2" by simp_all
  ultimately show ?thesis by (metis lessI)
qed

definition example_community :: credential where
  "example_community = \<lparr>c_id = [99], c_enabled = True, c_label = [], c_username = [], c_security_level = NoAuthNoPriv,
     c_auth_protocol = Sha256, c_priv_protocol = Aes128, c_community = Some [112], c_auth_key = None, c_priv_key = None,
     c_access = V2c \<lparr>pl_enabled = True, pl_view_id = [118], pl_networks = []\<rparr>
       \<lparr>wr_enabled = False, wr_view_id = None, wr_networks = []\<rparr>\<rparr>"

definition example_managed :: runtime where
  "example_managed = example_runtime\<lparr>cfg := (cfg example_runtime)\<lparr>
     cfg_switch := (cfg_switch (cfg example_runtime))\<lparr>sw_identity := \<lparr>sys_descr = [], sys_object_id = Some [1, 3]\<rparr>\<rparr>,
     snmp := (snmp (cfg example_runtime))\<lparr>sn_enabled := True\<rparr>,
     views := [([118], \<lparr>v_id = [118], v_name = [], includes_oids = [[1, 3]]\<rparr>)], credentials := [([99], example_community)]\<rparr>\<rparr>"

definition example_read :: read_request where
  "example_read = \<lparr>rq_model = 1, rq_security_model = 2, rq_name = [99], rq_level = 1, rq_peer = IPv4 [10, 0, 0, 1],
     rq_context = [], rq_pdu = Next_pdu, rq_names = [[1]]\<rparr>"

lemma reads_confined_witness:
  "\<exists>vs. read_request_answer id (\<lambda>_. None) True 0 example_read example_managed = Some (Read_values vs) \<and>
     confined [[1, 3]] vs \<and> length vs = 1"
proof -
  have p: "polling_policy id True example_read example_managed = Some \<lparr>pl_enabled = True, pl_view_id = [118], pl_networks = []\<rparr>"
    by (simp add: polling_policy_def example_read_def example_managed_def gate_def names_credential_def vals_def
      example_community_def incoming_policy_def admits_def below_level_def)
  have v: "view_includes example_managed [118] = [[1, 3]]" by (simp add: view_includes_def example_managed_def)
  have room: "max_varbinds (snmp (cfg example_managed)) = 256"
    by (simp add: example_managed_def example_runtime_def new_runtime_def initial_configuration_def default_snmp_def)
  obtain pj vs where "mib_nexts [[1]] (project (\<lambda>_. None) [[1, 3]] 0 example_managed) = (pj, vs)"
    by (cases "mib_nexts [[1]] (project (\<lambda>_. None) [[1, 3]] 0 example_managed)")
  moreover from this have "length vs = 1"
    using confined_nexts [OF reading_refl [OF laid_out_project]] by fastforce
  ultimately have a: "read_request_answer id (\<lambda>_. None) True 0 example_read example_managed = Some (Read_values vs)"
    by (simp add: read_request_answer_def p v room read_answer_def) (simp add: example_read_def)
  obtain c polling writing lowest where "incoming_policy (cfg example_managed) c = Some (polling, writing, lowest)"
      "confined (view_includes example_managed (pl_view_id polling)) vs" "c \<in> set (vals (credentials (cfg example_managed)))"
    using reads_confined [OF a] by blast
  then have "confined [[1, 3]] vs"
    by (auto simp: example_managed_def vals_def example_community_def incoming_policy_def view_includes_def)
  then show ?thesis using a \<open>length vs = 1\<close> by blast
qed

end
