(* ===== verification/Snmp_Lifetime.thy ===== *)
theory Snmp_Lifetime
  imports Prelude
begin

text \<open>
  \<open>switchlab/snmp_lifetime.py\<close>: who may still answer a received SET. A ticket holds the record of the
  message and the record of its security state in the caches of \<open>pysnmp\<close>; it is queued, then claimed by
  the one operation that answers, and terminal. What the caches hold when a method looks is an argument
  (\<open>sight\<close>): other traffic and the expiry clock change them between two looks. The calls a method makes
  of \<open>pysnmp\<close>, and the operation itself, are its output. The layout check of the library is not modelled.
\<close>

datatype phase = Queued | Claimed | Terminal

record ticket =
  tk_owned :: bool \<comment> \<open>\<open>owner\<close> is the lifetime; cleared for good when the ticket ends\<close>
  tk_known :: bool \<comment> \<open>the security record was known when the message arrived\<close>
  tk_phase :: phase
  tk_reason :: "string option"

record lifetime =
  lf_active :: bool
  lf_error :: bool

record sight =
  sees_mp :: bool       \<comment> \<open>the message's record is still the ticket's\<close>
  sees_security :: bool \<comment> \<open>so is its security state\<close>

datatype act = Pop_message | Release_security | Operation

type_synonym ended = "lifetime \<times> ticket \<times> act list"

definition fault_lifetime :: "lifetime \<Rightarrow> lifetime" where
  "fault_lifetime lf = lf\<lparr>lf_error := True\<rparr>"

datatype arrival = No_record | Arrived bool \<comment> \<open>whether the witness of its security state is intact\<close> bool \<comment> \<open>and had a record\<close>

definition capture_ticket :: "arrival \<Rightarrow> lifetime \<Rightarrow> lifetime \<times> ticket option" where
  \<comment> \<open>\<open>_capture\<close>; \<open>None\<close> is the exception \<open>OwnershipError\<close>\<close>
  "capture_ticket a lf = (case a of
     No_record \<Rightarrow> (fault_lifetime lf, None)
   | Arrived intact stored \<Rightarrow>
       (if intact then lf else fault_lifetime lf,
        Some \<lparr>tk_owned = True, tk_known = intact \<and> stored, tk_phase = Queued, tk_reason = None\<rparr>))"

definition owns_security :: "ticket \<Rightarrow> sight \<Rightarrow> bool" where
  "owns_security t v \<longleftrightarrow> tk_known t \<and> sees_security v"

definition finish_ticket :: "string \<Rightarrow> sight \<Rightarrow> lifetime \<Rightarrow> ticket \<Rightarrow> ended" where
  "finish_ticket reason v lf t =
     (if tk_phase t = Queued \<and> sees_mp v \<and> \<not> owns_security t v then fault_lifetime lf else lf,
      t\<lparr>tk_owned := False, tk_known := False, tk_phase := Terminal, tk_reason := Some reason\<rparr>,
      (if sees_mp v then [Pop_message] else []) @ (if owns_security t v then [Release_security] else []))"

definition discard_ticket :: "string \<Rightarrow> sight \<Rightarrow> lifetime \<Rightarrow> ticket \<Rightarrow> ended" where
  "discard_ticket reason v lf t =
     (if \<not> tk_owned t \<or> tk_phase t = Terminal then (lf, t, []) else finish_ticket reason v lf t)"

definition ready_ticket :: "sight \<Rightarrow> lifetime \<Rightarrow> ticket \<Rightarrow> ended \<times> bool" where
  "ready_ticket v lf t =
     (if \<not> tk_owned t \<or> tk_phase t \<noteq> Queued then ((lf, t, []), False)
      else if \<not> lf_active lf then (discard_ticket ''closed'' v lf t, False)
      else if \<not> sees_mp v \<or> \<not> owns_security t v then (discard_ticket ''ownership_error'' v (fault_lifetime lf) t, False)
      else ((lf, t, []), True))"

definition complete_ticket :: "sight \<Rightarrow> sight \<Rightarrow> bool \<Rightarrow> lifetime \<Rightarrow> ticket \<Rightarrow> ended \<times> bool" where
  \<comment> \<open>\<open>fails\<close>: the operation raises; the flag tells whether it ran\<close>
  "complete_ticket v v' fails lf t =
     (case ready_ticket v lf t of
        (e, False) \<Rightarrow> (e, False)
      | ((lf, t, calls), True) \<Rightarrow>
          (case finish_ticket (if fails then ''response_failed'' else ''completed'') v' lf (t\<lparr>tk_phase := Claimed\<rparr>) of
             (lf, t, later) \<Rightarrow> ((lf, t, calls @ [Operation] @ later), True)))"

definition close_lifetime :: "lifetime \<Rightarrow> lifetime" where
  "close_lifetime lf = lf\<lparr>lf_active := False\<rparr>"

fun discard_all :: "string \<Rightarrow> (sight \<times> ticket) list \<Rightarrow> lifetime \<Rightarrow> lifetime \<times> (ticket \<times> act list) list" where
  "discard_all reason [] lf = (lf, [])"
| "discard_all reason ((v, t) # rest) lf =
     (case discard_ticket reason v lf t of (lf, t, calls) \<Rightarrow>
        (case discard_all reason rest lf of (lf, ended) \<Rightarrow> (lf, (t, calls) # ended)))"

definition close_all :: "(sight \<times> ticket) list \<Rightarrow> lifetime \<Rightarrow> lifetime \<times> (ticket \<times> act list) list" where
  \<comment> \<open>\<open>close\<close> over the pending tickets, then over a ticket captured for each remaining record\<close>
  "close_all pending lf = discard_all ''close'' pending (close_lifetime lf)"

subsection \<open>A ticket among the events of its message\<close>

datatype event_on =
    Looked sight                    \<comment> \<open>\<open>ready\<close>\<close>
  | Discarded string sight          \<comment> \<open>\<open>discard\<close>, by expiry, cancellation or the end of its task\<close>
  | Completed sight sight bool      \<comment> \<open>\<open>complete\<close>\<close>
  | Closed_lifetime                 \<comment> \<open>\<open>close\<close> has begun\<close>

fun on_ticket :: "event_on \<Rightarrow> lifetime \<Rightarrow> ticket \<Rightarrow> ended" where
  "on_ticket (Looked v) lf t = fst (ready_ticket v lf t)"
| "on_ticket (Discarded reason v) lf t = discard_ticket reason v lf t"
| "on_ticket (Completed v v' fails) lf t = fst (complete_ticket v v' fails lf t)"
| "on_ticket Closed_lifetime lf t = (close_lifetime lf, t, [])"

fun ticket_run :: "event_on list \<Rightarrow> lifetime \<Rightarrow> ticket \<Rightarrow> ended" where
  "ticket_run [] lf t = (lf, t, [])"
| "ticket_run (e # es) lf t =
     (case on_ticket e lf t of (lf, t, calls) \<Rightarrow>
        (case ticket_run es lf t of (lf, t, later) \<Rightarrow> (lf, t, calls @ later)))"

definition settled_ticket :: "ticket \<Rightarrow> bool" where
  "settled_ticket t \<longleftrightarrow> tk_phase t = Terminal \<and> \<not> tk_owned t"

definition tidy_calls :: "act list \<Rightarrow> bool" where
  \<comment> \<open>the answer first, then each record at most once\<close>
  "tidy_calls calls \<longleftrightarrow> calls = filter (\<lambda>c. c \<in> set calls) [Operation, Pop_message, Release_security]"

lemma settled_on_ticket: "settled_ticket t \<Longrightarrow> on_ticket e lf t = (lf', t', calls) \<Longrightarrow> t' = t \<and> calls = []"
  by (cases e) (auto simp: settled_ticket_def ready_ticket_def discard_ticket_def complete_ticket_def)

lemma settled_run: "settled_ticket t \<Longrightarrow> ticket_run es lf t = (lf', t', calls) \<Longrightarrow> t' = t \<and> calls = []"
proof (induction es arbitrary: lf lf' t' calls)
  case (Cons e es)
  obtain l1 t1 c1 where step: "on_ticket e lf t = (l1, t1, c1)" by (cases "on_ticket e lf t")
  obtain l2 t2 c2 where rest: "ticket_run es l1 t = (l2, t2, c2)" by (cases "ticket_run es l1 t")
  show ?case
    using Cons.prems settled_on_ticket [OF Cons.prems(1) step] Cons.IH [OF Cons.prems(1) rest] step rest by simp
qed simp

lemma finish_calls: "finish_ticket reason v lf t = (lf', t', calls) \<Longrightarrow>
    settled_ticket t' \<and> tidy_calls calls \<and> tidy_calls ([Operation] @ calls) \<and> Operation \<notin> set calls"
  by (cases "sees_mp v"; cases "owns_security t v")
    (auto simp: finish_ticket_def settled_ticket_def tidy_calls_def owns_security_def)

lemma on_ticket_cases:
  assumes "tk_phase t = Queued" and "tk_owned t" and "on_ticket e lf t = (lf', t', calls)"
  shows "(t' = t \<and> calls = []) \<or>
    (settled_ticket t' \<and> tidy_calls calls \<and> (Operation \<in> set calls \<longrightarrow>
       lf_active lf \<and> (\<exists>v v' fails. e = Completed v v' fails \<and> sees_mp v \<and> owns_security t v)))"
proof (cases e)
  case (Looked v)
  then show ?thesis using assms finish_calls [of _ v _ t]
    by (auto simp: ready_ticket_def discard_ticket_def split: if_splits)
next
  case (Discarded reason v)
  then show ?thesis using assms finish_calls [of reason v lf t lf' t' calls]
    by (auto simp: discard_ticket_def)
next
  case (Completed v v' fails)
  show ?thesis
  proof (cases "lf_active lf \<and> sees_mp v \<and> owns_security t v")
    case True
    obtain l1 t1 c1 where f: "finish_ticket (if fails then ''response_failed'' else ''completed'') v' lf (t\<lparr>tk_phase := Claimed\<rparr>) = (l1, t1, c1)"
      by (cases "finish_ticket (if fails then ''response_failed'' else ''completed'') v' lf (t\<lparr>tk_phase := Claimed\<rparr>)")
    then have "on_ticket e lf t = (l1, t1, [Operation] @ c1)"
      using True assms(1,2) by (simp add: Completed complete_ticket_def ready_ticket_def)
    then show ?thesis using assms(3) finish_calls [OF f] True Completed by auto
  next
    case False
    then show ?thesis using assms Completed finish_calls [of _ v _ t]
      by (auto simp: complete_ticket_def ready_ticket_def discard_ticket_def split: if_splits)
  qed
next
  case Closed_lifetime
  then show ?thesis using assms(3) by simp
qed

lemma lifetime_stays_closed: "on_ticket e lf t = (lf', t', calls) \<Longrightarrow> lf_active lf' \<longleftrightarrow> lf_active lf \<and> e \<noteq> Closed_lifetime"
  by (cases e) (auto simp: ready_ticket_def discard_ticket_def complete_ticket_def finish_ticket_def
      fault_lifetime_def close_lifetime_def split: if_splits)

text \<open>C12: whatever happens around a received SET - looks, discards by expiry or cancellation, the end of
  its task, the closing of the adapter, in any order and however often - the operation that commits and
  answers runs at most once, before the records of the message are released and each of them at most
  once; it runs only while the adapter is open and both records are still those the message brought.\<close>

theorem operation_at_most_once:
  assumes "tk_phase t = Queued \<and> tk_owned t" and "ticket_run es lf t = (lf', t', calls)"
  shows "tidy_calls calls \<and> (Operation \<in> set calls \<longrightarrow> settled_ticket t' \<and> tk_known t \<and> lf_active lf \<and>
    (\<exists>before v v' fails after. es = before @ Completed v v' fails # after \<and> Closed_lifetime \<notin> set before \<and>
       sees_mp v \<and> sees_security v))"
  using assms
proof (induction es arbitrary: lf lf' t' calls)
  case Nil
  then show ?case by (simp add: tidy_calls_def)
next
  case (Cons e es)
  obtain l1 t1 c1 where step: "on_ticket e lf t = (l1, t1, c1)" by (cases "on_ticket e lf t")
  obtain l2 t2 c2 where rest: "ticket_run es l1 t1 = (l2, t2, c2)" by (cases "ticket_run es l1 t1")
  have run: "lf' = l2" "t' = t2" "calls = c1 @ c2" using Cons.prems(2) step rest by simp_all
  from on_ticket_cases [OF _ _ step] Cons.prems(1)
  consider "t1 = t" "c1 = []"
    | "settled_ticket t1" "tidy_calls c1" "Operation \<in> set c1 \<longrightarrow>
         lf_active lf \<and> (\<exists>v v' fails. e = Completed v v' fails \<and> sees_mp v \<and> owns_security t v)" by blast
  then show ?case
  proof cases
    case 1
    have ih: "tidy_calls c2 \<and> (Operation \<in> set c2 \<longrightarrow> settled_ticket t2 \<and> tk_known t \<and> lf_active l1 \<and>
        (\<exists>before v v' fails after. es = before @ Completed v v' fails # after \<and> Closed_lifetime \<notin> set before \<and>
           sees_mp v \<and> sees_security v))"
      using Cons.IH [OF Cons.prems(1)] rest 1(1) by simp
    show ?thesis
    proof (intro conjI impI)
      show "tidy_calls calls" using ih run 1 by simp
      assume op: "Operation \<in> set calls"
      then obtain before v v' fails after where split: "es = before @ Completed v v' fails # after"
          "Closed_lifetime \<notin> set before" "sees_mp v" "sees_security v" using ih run 1 by auto
      have "lf_active l1" using ih op run 1 by simp
      then have open': "lf_active lf" "e \<noteq> Closed_lifetime" using lifetime_stays_closed [OF step] by simp_all
      show "settled_ticket t'" "tk_known t" "lf_active lf" using ih op run 1 open' by simp_all
      show "\<exists>before v v' fails after. e # es = before @ Completed v v' fails # after \<and> Closed_lifetime \<notin> set before \<and>
           sees_mp v \<and> sees_security v"
        by (intro exI [of _ "e # before"]) (use split open' in auto)
    qed
  next
    case 2
    have c2: "t2 = t1" "c2 = []" using settled_run [OF 2(1) rest] by simp_all
    show ?thesis
    proof (intro conjI impI)
      show "tidy_calls calls" using 2(2) run c2 by simp
      assume "Operation \<in> set calls"
      then have op: "Operation \<in> set c1" using run c2 by simp
      then obtain v v' fails where e: "e = Completed v v' fails" "sees_mp v" "owns_security t v" "lf_active lf" using 2(3) by blast
      then show "settled_ticket t'" "tk_known t" "lf_active lf" using 2(1) run c2 by (simp_all add: owns_security_def)
      show "\<exists>before v v' fails after. e # es = before @ Completed v v' fails # after \<and> Closed_lifetime \<notin> set before \<and>
           sees_mp v \<and> sees_security v"
        by (intro exI [of _ "[]"]) (use e in \<open>auto simp: owns_security_def\<close>)
    qed
  qed
qed

definition example_ticket :: ticket where
  "example_ticket = \<lparr>tk_owned = True, tk_known = True, tk_phase = Queued, tk_reason = None\<rparr>"

lemma operation_at_most_once_witness:
  "case ticket_run [Looked \<lparr>sees_mp = True, sees_security = True\<rparr>,
      Completed \<lparr>sees_mp = True, sees_security = True\<rparr> \<lparr>sees_mp = True, sees_security = True\<rparr> False,
      Discarded ''canceled_or_rejected'' \<lparr>sees_mp = False, sees_security = False\<rparr>]
      \<lparr>lf_active = True, lf_error = False\<rparr> example_ticket of
    (_, t, calls) \<Rightarrow> calls = [Operation, Pop_message, Release_security] \<and> tidy_calls calls \<and> settled_ticket t"
proof -
  let ?es = "[Looked \<lparr>sees_mp = True, sees_security = True\<rparr>,
      Completed \<lparr>sees_mp = True, sees_security = True\<rparr> \<lparr>sees_mp = True, sees_security = True\<rparr> False,
      Discarded ''canceled_or_rejected'' \<lparr>sees_mp = False, sees_security = False\<rparr>]"
  let ?lf = "\<lparr>lf_active = True, lf_error = False\<rparr>"
  obtain lf t calls where run: "ticket_run ?es ?lf example_ticket = (lf, t, calls)" by (cases "ticket_run ?es ?lf example_ticket")
  have q: "tk_phase example_ticket = Queued \<and> tk_owned example_ticket" by (simp add: example_ticket_def)
  have "calls = [Operation, Pop_message, Release_security]"
    using run by (auto simp: example_ticket_def ready_ticket_def complete_ticket_def discard_ticket_def finish_ticket_def
        owns_security_def)
  then show ?thesis using operation_at_most_once [OF q run] run by simp
qed

end
