(* ===== verification/Snmp_Write.thy ===== *)
theory Snmp_Write
  imports Snmp_Read Snmp_Lifetime Engine_Reachable Engine_Valid
begin

text \<open>
  The writing side of \<open>switchlab/snmp.py\<close>: admission of a SET, the run of its task, the retirement of
  requests whose authorization has gone, and the public status. A run is one step here: from the moment it
  holds both locks it never awaits. The size of the worst response (\<open>response_budget\<close>, BER), the fate of
  the store's commit and whether the response leaves are arguments.
\<close>

record set_request =
  sr_instance :: nat \<comment> \<open>the dispatcher it arrived on\<close>
  sr_model :: int
  sr_security_model :: int
  sr_name :: pystr
  sr_level :: int
  sr_context :: bytes
  sr_bindings :: "(oid \<times> wire) list"
  sr_peer :: "ip option" \<comment> \<open>\<open>None\<close>: not an address\<close>

record pending_set =
  ps_request :: set_request
  ps_ticket :: ticket
  ps_peer :: ip
  ps_credential :: uid
  ps_generation :: uid
  ps_activation :: uid

record adapter =
  sa_instance :: "nat option" \<comment> \<open>its dispatcher, while there is one\<close>
  sa_listening :: bool
  sa_configured :: "(uid, credential) dict" \<comment> \<open>the registrations \<open>pysnmp\<close> authenticates with\<close>
  sa_inbound :: "lifetime option"
  sa_pending :: "(nat, pending_set) dict"
  sa_set_error :: "string option"
  sa_error :: "string option"

subsection \<open>Authorization\<close>

definition set_credential ::
  "(uid \<Rightarrow> pystr) \<Rightarrow> adapter \<Rightarrow> engine \<Rightarrow> set_request \<Rightarrow> ip \<Rightarrow> uid option \<Rightarrow> credential option" where
  "set_credential wire_name ad en rq peer wanted =
     (let s = en_state en
      in if en_fault en \<noteq> None \<or> Some (sr_instance rq) \<noteq> sa_instance ad \<or> \<not> sa_listening ad \<or> \<not> gate s \<or>
            (sr_model rq, sr_security_model rq) \<notin> {(1, 2), (3, 3)}
         then None
         else (case List.find (\<lambda>c. (wanted = None \<or> wanted = Some (c_id c)) \<and> c_enabled c \<and>
                      names_credential wire_name (sr_security_model rq) (sr_name rq) c) (vals (credentials (cfg s))) of
             None \<Rightarrow> None
           | Some c \<Rightarrow>
               if map_of (sa_configured ad) (c_id c) \<noteq> Some c then None
               else (case incoming_policy (cfg s) c of
                   None \<Rightarrow> Some c
                 | Some (_, writing, lowest) \<Rightarrow>
                     if below_level (sr_level rq) c lowest \<or> \<not> admits (wr_networks writing) peer
                     then None else Some c)))"

definition current_set :: "(uid \<Rightarrow> pystr) \<Rightarrow> adapter \<Rightarrow> engine \<Rightarrow> pending_set \<Rightarrow> credential option" where
  "current_set wire_name ad en p =
     (if ps_activation p \<noteq> activation (en_state en) \<or>
         map_of (credential_generations (en_state en)) (ps_credential p) \<noteq> Some (ps_generation p)
      then None
      else set_credential wire_name ad en (ps_request p) (ps_peer p) (Some (ps_credential p)))"

subsection \<open>Admission\<close>

definition max_pending :: nat where "max_pending = 128"

definition refuse_set :: "string \<Rightarrow> sight \<Rightarrow> lifetime \<Rightarrow> ticket \<Rightarrow> adapter \<Rightarrow> adapter \<times> act list" where
  "refuse_set reason v lf t ad =
     (case discard_ticket reason v lf t of (lf, _, acts) \<Rightarrow> (ad\<lparr>sa_inbound := Some lf\<rparr>, acts))"

definition admit_set ::
  "(uid \<Rightarrow> pystr) \<Rightarrow> nat \<Rightarrow> set_request \<Rightarrow> arrival \<Rightarrow> sight \<Rightarrow> engine \<Rightarrow> adapter \<Rightarrow> adapter \<times> act list" where
  "admit_set wire_name ident rq a v en ad =
     (case sa_inbound ad of
        None \<Rightarrow> (ad, [])
      | Some lf \<Rightarrow>
          (case capture_ticket a lf of
             (lf, None) \<Rightarrow>
               (ad\<lparr>sa_inbound := Some lf, sa_set_error := Some ''inbound_response_ownership_lost''\<rparr>, [])
           | (lf, Some t) \<Rightarrow>
               (case ready_ticket v lf t of ((lf, t, acts), _) \<Rightarrow>
               (case ready_ticket v lf t of ((lf, t, again), ok) \<Rightarrow>
                  if \<not> ok then (ad\<lparr>sa_inbound := Some lf\<rparr>, acts @ again)
                  else if lf_error lf then refuse_set ''ownership_error'' v lf t ad
                  else (case sr_peer rq of
                      None \<Rightarrow> refuse_set ''invalid_peer'' v lf t ad
                    | Some peer \<Rightarrow>
                        (case set_credential wire_name ad en rq peer None of
                           None \<Rightarrow> refuse_set ''unauthorized_identity'' v lf t ad
                         | Some c \<Rightarrow>
                             if max_pending \<le> length (sa_pending ad) then refuse_set ''overload'' v lf t ad
                             else (ad\<lparr>sa_inbound := Some lf, sa_pending := put ident
                                 \<lparr>ps_request = rq, ps_ticket = t, ps_peer = peer, ps_credential = c_id c,
                                  ps_generation = the (map_of (credential_generations (en_state en)) (c_id c)),
                                  ps_activation = activation (en_state en)\<rparr> (sa_pending ad)\<rparr>, [])))))))"

subsection \<open>Running a request\<close>

datatype verdict = Answer_with string nat bool \<comment> \<open>no bindings\<close> bool \<comment> \<open>a report\<close> | Apply set_plan

definition set_verdict :: "bool \<Rightarrow> set_request \<Rightarrow> runtime \<Rightarrow> credential \<Rightarrow> verdict" where
  "set_verdict fits_response rq s c =
     (if sr_context rq \<noteq> [] then Answer_with ''genErr'' 0 False True
      else if max_varbinds (snmp (cfg s)) < int (length (sr_bindings rq)) \<or> \<not> fits_response
      then Answer_with ''tooBig'' 0 True False
      else (case incoming_policy (cfg s) c of
          None \<Rightarrow> Answer_with ''authorizationError'' 0 False False
        | Some (_, writing, _) \<Rightarrow>
            (case wr_view_id writing of
               Some v \<Rightarrow>
                 if \<not> wr_enabled writing \<or> \<not> has (views (cfg s)) v
                 then Answer_with ''authorizationError'' 0 False False
                 else (case plan_set (cfg s) (sr_bindings rq) (view_includes s v) of
                     Inl (status, position) \<Rightarrow> Answer_with status position False False
                   | Inr plan \<Rightarrow> Apply plan)
             | None \<Rightarrow> Answer_with ''authorizationError'' 0 False False)))"

datatype committing = Applied | Unchanged | Undo_failed | Commit_unknown | Rolled_back | Raised_other

definition commit_set :: "(uid \<Rightarrow> bytes option) \<Rightarrow> (runtime \<Rightarrow> fate) \<Rightarrow> set_plan \<Rightarrow> engine \<Rightarrow> committing \<times> engine" where
  \<comment> \<open>\<open>engine.commit_set_locked(plan)\<close>, by the exception it ends with\<close>
  "commit_set uuid stored plan en =
     (if \<not> plan_changed plan then (Unchanged, en)
      else if en_fault en \<noteq> None then (Raised_other, en)
      else (case execute 0 uuid stored \<lparr>ca_request = Edit (Ed_set plan), ca_expected = None, ca_key = None,
              ca_expected_config = None\<rparr> en of
          Some (Inr _, en) \<Rightarrow> (Applied, en)
        | Some (Inl Not_saved, en) \<Rightarrow> (Rolled_back, en)
        | Some (Inl (Storage_fault r), en) \<Rightarrow> (if r = ''storage_rollback_failed'' then Undo_failed else Commit_unknown, en)
        | Some (Inl (Failed _), en) \<Rightarrow> (Raised_other, en)
        | None \<Rightarrow> (Raised_other, en)))"

record set_response =
  st_status :: string
  st_index :: nat
  st_empty :: bool
  st_report :: bool

definition plain_response :: "string \<Rightarrow> nat \<Rightarrow> set_response" where
  "plain_response status i = \<lparr>st_status = status, st_index = i, st_empty = False, st_report = False\<rparr>"

definition commit_and_respond ::
  "(uid \<Rightarrow> bytes option) \<Rightarrow> (runtime \<Rightarrow> fate) \<Rightarrow> verdict \<Rightarrow> engine \<Rightarrow> committing \<times> engine \<times> set_response option" where
  \<comment> \<open>\<open>None\<close>: the exception leaves before a response is sent\<close>
  "commit_and_respond uuid stored d en =
     (case d of
        Answer_with status i bare report \<Rightarrow>
          (Unchanged, en, Some \<lparr>st_status = status, st_index = i, st_empty = bare, st_report = report\<rparr>)
      | Apply plan \<Rightarrow>
          (case commit_set uuid stored plan en of (outcome, en) \<Rightarrow>
             (outcome, en,
              (case outcome of
                 Applied \<Rightarrow> Some (plain_response ''noError'' 0)
               | Unchanged \<Rightarrow> Some (plain_response ''noError'' 0)
               | Undo_failed \<Rightarrow> Some (plain_response ''undoFailed'' 0)
               | Rolled_back \<Rightarrow> Some (plain_response ''commitFailed'' (pl_first_effective plan))
               | _ \<Rightarrow> None))))"

definition set_error_after :: "committing \<Rightarrow> bool \<Rightarrow> string option \<Rightarrow> string option" where
  \<comment> \<open>the diagnostic: \<open>raised\<close> tells that the operation ended with an exception\<close>
  "set_error_after outcome raised old =
     (if outcome = Commit_unknown then Some ''storage_commit_unknown''
      else if raised then Some (if outcome = Applied then ''set_delivery_failed'' else ''set_processing_failed'')
      else if outcome = Undo_failed then Some ''storage_rollback_failed'' else old)"

record run_inputs =
  ri_fits :: bool      \<comment> \<open>the worst response fits\<close>
  ri_delivered :: bool \<comment> \<open>sending does not raise\<close>
  ri_before :: sight
  ri_after :: sight

definition run_set ::
  "(uid \<Rightarrow> pystr) \<Rightarrow> (uid \<Rightarrow> bytes option) \<Rightarrow> (runtime \<Rightarrow> fate) \<Rightarrow> run_inputs \<Rightarrow> pending_set \<Rightarrow> lifetime \<Rightarrow>
     adapter \<Rightarrow> engine \<Rightarrow> (adapter \<times> engine \<times> act list) \<times> set_response option" where
  "run_set wire_name uuid stored inputs p lf ad en =
     (let t = ps_ticket p; v = ri_before inputs
      in if \<not> tk_owned t then ((ad, en, []), None)
         else (case current_set wire_name ad en p of
           None \<Rightarrow> (case discard_ticket ''canceled_or_rejected'' v lf t of (lf, _, acts) \<Rightarrow>
             ((ad\<lparr>sa_inbound := Some lf\<rparr>, en, acts), None))
         | Some c \<Rightarrow>
             (case ready_ticket v lf t of
                ((lf, _, acts), False) \<Rightarrow> ((ad\<lparr>sa_inbound := Some lf\<rparr>, en, acts), None)
              | ((lf, t, _), True) \<Rightarrow>
                  (let d = set_verdict (ri_fits inputs) (ps_request p) (en_state en) c;
                       (outcome, en, response) = commit_and_respond uuid stored d en;
                       raised = (response = None \<or> \<not> ri_delivered inputs);
                       ((lf, t, acts), _) = complete_ticket v (ri_after inputs) raised lf t
                   in ((ad\<lparr>sa_inbound := Some lf, sa_set_error := set_error_after outcome raised (sa_set_error ad)\<rparr>,
                        en, acts), if ri_delivered inputs then response else None)))))"

definition set_task ::
  "(uid \<Rightarrow> pystr) \<Rightarrow> (uid \<Rightarrow> bytes option) \<Rightarrow> (runtime \<Rightarrow> fate) \<Rightarrow> run_inputs \<Rightarrow> nat \<Rightarrow> adapter \<Rightarrow> engine \<Rightarrow>
     (adapter \<times> engine \<times> act list) \<times> set_response option" where
  \<comment> \<open>the task of a pending request, and its done callback\<close>
  "set_task wire_name uuid stored inputs ident ad en =
     (case (map_of (sa_pending ad) ident, sa_inbound ad) of
        (Some p, Some lf) \<Rightarrow>
          (case run_set wire_name uuid stored inputs p lf ad en of
             ((ad, en, acts), response) \<Rightarrow> ((ad\<lparr>sa_pending := drop_key ident (sa_pending ad)\<rparr>, en, acts), response))
      | _ \<Rightarrow> ((ad, en, []), None))"

subsection \<open>Retirement\<close>

definition cancel_request :: "string \<Rightarrow> (nat \<Rightarrow> sight) \<Rightarrow> adapter \<Rightarrow> nat \<times> pending_set \<Rightarrow> adapter" where
  \<comment> \<open>the ticket ends; the request stays pending until its cancelled task is done\<close>
  "cancel_request reason v ad row = (case (row, sa_inbound ad) of
     ((ident, p), Some lf) \<Rightarrow>
       (case discard_ticket reason (v ident) lf (ps_ticket p) of (lf, t, _) \<Rightarrow>
          ad\<lparr>sa_inbound := Some lf, sa_pending := put ident (p\<lparr>ps_ticket := t\<rparr>) (sa_pending ad)\<rparr>)
   | _ \<Rightarrow> ad)"

definition cancel_sets :: "string \<Rightarrow> (nat \<Rightarrow> sight) \<Rightarrow> adapter \<Rightarrow> adapter" where
  "cancel_sets reason v ad = foldl (cancel_request reason v) ad (sa_pending ad)"

definition retire_stale_sets :: "(uid \<Rightarrow> pystr) \<Rightarrow> (nat \<Rightarrow> sight) \<Rightarrow> engine \<Rightarrow> adapter \<Rightarrow> adapter" where
  "retire_stale_sets wire_name v en ad =
     foldl (cancel_request ''revoked'' v) ad
       (filter (\<lambda>(_, p). current_set wire_name ad en p = None) (sa_pending ad))"

subsection \<open>The public status\<close>

definition first_reason :: "(bool \<times> string) list \<Rightarrow> string \<Rightarrow> string" where
  \<comment> \<open>an \<open>elif\<close> chain\<close>
  "first_reason rows otherwise = (case List.find fst rows of Some (_, r) \<Rightarrow> r | None \<Rightarrow> otherwise)"

record adapter_status =
  as_ready :: bool
  as_reason :: string
  as_writing :: bool
  as_writing_reason :: string

definition live_policies :: "configuration \<Rightarrow> (polling_access \<times> writing_access \<times> security_level option) list" where
  "live_policies c = concat (map (\<lambda>x. case incoming_policy c x of Some p \<Rightarrow> [p] | None \<Rightarrow> [])
     (filter c_enabled (vals (credentials c))))"

definition identity_missing :: "configuration \<Rightarrow> bool" where
  "identity_missing c \<longleftrightarrow> (case sys_object_id (sw_identity (cfg_switch c)) of None \<Rightarrow> True | Some name \<Rightarrow> name = [])"

definition given_reason :: "string option \<Rightarrow> string \<Rightarrow> string" where
  "given_reason r otherwise = (case r of Some r \<Rightarrow> r | None \<Rightarrow> otherwise)"

definition adapter_status :: "adapter \<Rightarrow> engine \<Rightarrow> adapter_status" where
  "adapter_status ad en =
     (let s = en_state en; c = cfg s; policies = live_policies c;
          reading = list_ex (\<lambda>(polling, _, _). pl_enabled polling) policies;
          writing = list_ex (\<lambda>(_, w, _). wr_enabled w) policies;
          sound = (case sa_inbound ad of Some lf \<Rightarrow> \<not> lf_error lf | None \<Rightarrow> False);
          lost = (case sa_inbound ad of Some lf \<Rightarrow> lf_error lf | None \<Rightarrow> False);
          able = (sa_listening ad \<and> writing \<and> sound \<and> en_fault en = None)
      in \<lparr>as_ready = (sa_listening ad \<and> reading),
          as_reason = first_reason
            [(identity_missing c, ''identity_required''), (\<not> sn_enabled (snmp c), ''disabled''),
             (sa_error ad \<noteq> None, the (sa_error ad)), (\<not> reading, ''credentials_required''),
             (sa_listening ad, ''ready'')] ''initializing'',
          as_writing = able,
          as_writing_reason = first_reason
            [(\<not> gate s, if identity_missing c then ''identity_required'' else ''disabled''),
             (en_fault en \<noteq> None, the (en_fault en)),
             (sa_set_error ad \<noteq> None \<or> lost, given_reason (sa_set_error ad) ''inbound_response_ownership_lost''),
             (\<not> writing, ''set_access_required''), (able, ''ready'')] (given_reason (sa_error ad) ''initializing'')\<rparr>)"

subsection \<open>Notifications\<close>

definition detail_int :: "details \<Rightarrow> string \<Rightarrow> int" where
  "detail_int d k = (case map_of d k of Some (JInt i) \<Rightarrow> i | _ \<Rightarrow> 0)"

definition trap_number :: "string \<Rightarrow> nat" where
  "trap_number kind = (if kind = ''coldStart'' then 1 else if kind = ''linkDown'' then 3 else 4)"

definition notification_fields :: "event_record \<Rightarrow> (oid \<times> entry) list" where
  \<comment> \<open>the bindings of a trap\<close>
  "notification_fields e =
     (let d = ev_details e; i = index_of (detail_int d ''if_index'')
      in [(mib2 [1, 3, 0], timeticks (ev_uptime e)),
          ([1, 3, 6, 1, 6, 3, 1, 1, 4, 1, 0], object_id ([1, 3, 6, 1, 6, 3, 1, 1, 5] @ [trap_number (ev_kind e)]))] @
         (if ev_kind e = ''coldStart'' then []
          else [(mib2 [2, 2, 1, 1] @ i, integer (detail_int d ''if_index'')),
                (mib2 [2, 2, 1, 7] @ i, integer (detail_int d ''admin'')),
                (mib2 [2, 2, 1, 8] @ i,
                 integer (detail_int d (if ev_kind e = ''linkDown'' then ''before'' else ''after'')))]))"

definition drain_one :: "adapter \<Rightarrow> uid list \<Rightarrow> (outbox_item \<Rightarrow> bool) \<Rightarrow> engine \<Rightarrow> operation option" where
  \<comment> \<open>the command that reports the first queued notification; \<open>senders\<close>: the targets with a transport\<close>
  "drain_one ad senders sent en =
     (let s = en_state en
      in if en_fault en \<noteq> None \<or> \<not> gate s \<or> sa_instance ad = None then None
         else (case outbox s of
             [] \<Rightarrow> None
           | item # _ \<Rightarrow> Some (Op_notification_result (ev_id (ob_event item)) (ob_target item)
               [(''status'', JName (if ob_target item \<in> set senders \<and> sent item then ''sent'' else ''locally-failed'')),
                (''attempted'', JBool True)])))"

subsection \<open>What a run commits\<close>

lemma committed_plan:
  assumes "commit_set uuid stored plan en = (outcome, en')"
  shows "(outcome \<noteq> Applied \<longrightarrow> en_state en' = en_state en) \<and>
    (outcome = Applied \<longrightarrow> cfg (en_state en') = pl_candidate plan \<and>
       (\<exists>reply. transact 0 uuid (Edit (Ed_set plan)) (en_state en) = Some (Inr (en_state en', reply)))) \<and>
    (outcome = Unchanged \<longrightarrow> \<not> plan_changed plan)"
proof (cases "\<not> plan_changed plan \<or> en_fault en \<noteq> None")
  case True
  then show ?thesis using assms by (auto simp: commit_set_def split: if_splits)
next
  case False
  define call where "call = \<lparr>ca_request = Edit (Ed_set plan), ca_expected = None, ca_key = None, ca_expected_config = None\<rparr>"
  have fields: "ca_request call = Edit (Ed_set plan)" by (simp add: call_def)
  obtain r where r: "execute 0 uuid stored call en = Some r"
    using False
    by (auto simp: execute_def call_def optional_lookup_def call_key_def truthy_def fresh_transaction_def
        stale_revision_def transact_def)
  obtain answer en1 where answer: "r = (answer, en1)" by (cases r)
  have keep: "en_state en1 = en_state en" if "answer = Inl e" for e
    using r unfolding answer that by (cases rule: execute_cases) simp_all
  show ?thesis
  proof (cases answer)
    case (Inl e)
    then show ?thesis
      using assms False r keep [OF Inl] unfolding answer commit_set_def call_def [symmetric]
      by (cases e) (auto split: if_splits)
  next
    case (Inr result)
    have en': "outcome = Applied" "en' = en1"
      using assms False r Inr unfolding answer commit_set_def call_def [symmetric] by auto
    have "fresh_transaction 0 uuid stored call en = Some (Inr result, en1)"
      using r False unfolding answer Inr
      by (simp add: execute_def fields optional_lookup_def) (simp add: call_def call_key_def truthy_def)
    then obtain t reply where t: "transact 0 uuid (ca_request call) (en_state en) = Some (Inr (t, reply))"
        "publish stored call en t reply = (Inr result, en1)"
      by (cases rule: fresh_cases) auto
    have state: "en_state en1 = t" using t(2) by (cases rule: publish_cases) simp_all
    obtain u tc where u: "perform 0 (ca_request call) (en_state en) = Some (Inr (u, tc, reply))"
        "t = count_revision (ef_durable (request_effect (ca_request call))) (request_saving (ca_request call))
               (settle uuid (request_effect (ca_request call)) tc (en_state en) u)"
      using transact_Inr [OF t(1)] .
    have "snmp_set plan (en_state en) = Inr (u, tc, reply)"
      using u(1) by (simp add: fields refuse_def split: if_splits)
    then have "cfg u = pl_candidate plan" by (rule snmp_set_cfg)
    then have "cfg t = pl_candidate plan" unfolding u(2) by (intro fixed.I_count_revision fixed.I_settle)
    then show ?thesis using en' state t(1) fields by simp
  qed
qed

definition may_write :: "(uid \<Rightarrow> pystr) \<Rightarrow> adapter \<Rightarrow> runtime \<Rightarrow> pending_set \<Rightarrow> credential \<Rightarrow> uid \<Rightarrow> bool" where
  \<comment> \<open>what a SET needs when it commits; the last argument is the view it writes through\<close>
  "may_write wire_name ad s p c v \<longleftrightarrow>
     c \<in> set (vals (credentials (cfg s))) \<and> c_enabled c \<and> c_id c = ps_credential p \<and>
     names_credential wire_name (sr_security_model (ps_request p)) (sr_name (ps_request p)) c \<and>
     map_of (sa_configured ad) (c_id c) = Some c \<and> gate s \<and> sa_listening ad \<and>
     ps_activation p = activation s \<and> map_of (credential_generations s) (c_id c) = Some (ps_generation p) \<and>
     (\<exists>polling writing lowest. incoming_policy (cfg s) c = Some (polling, writing, lowest) \<and> wr_enabled writing \<and>
        wr_view_id writing = Some v \<and> has (views (cfg s)) v \<and> admits (wr_networks writing) (ps_peer p) \<and>
        \<not> below_level (sr_level (ps_request p)) c lowest)"

lemma current_set_credential:
  assumes "current_set wire_name ad en p = Some c"
  shows "c \<in> set (vals (credentials (cfg (en_state en)))) \<and> c_enabled c \<and> c_id c = ps_credential p \<and>
     names_credential wire_name (sr_security_model (ps_request p)) (sr_name (ps_request p)) c \<and>
     map_of (sa_configured ad) (c_id c) = Some c \<and> gate (en_state en) \<and> sa_listening ad \<and>
     ps_activation p = activation (en_state en) \<and>
     map_of (credential_generations (en_state en)) (c_id c) = Some (ps_generation p) \<and>
     en_fault en = None \<and> sa_instance ad = Some (sr_instance (ps_request p)) \<and>
     (\<forall>polling writing lowest. incoming_policy (cfg (en_state en)) c = Some (polling, writing, lowest) \<longrightarrow>
        admits (wr_networks writing) (ps_peer p) \<and> \<not> below_level (sr_level (ps_request p)) c lowest)"
proof -
  let ?find = "List.find (\<lambda>c. (Some (ps_credential p) = None \<or> Some (ps_credential p) = Some (c_id c)) \<and> c_enabled c \<and>
      names_credential wire_name (sr_security_model (ps_request p)) (sr_name (ps_request p)) c)
      (vals (credentials (cfg (en_state en))))"
  have set: "set_credential wire_name ad en (ps_request p) (ps_peer p) (Some (ps_credential p)) = Some c"
    and life: "ps_activation p = activation (en_state en)"
      "map_of (credential_generations (en_state en)) (ps_credential p) = Some (ps_generation p)"
    using assms by (simp_all add: current_set_def split: if_splits)
  have gates: "gate (en_state en)" "sa_listening ad" "en_fault en = None" "sa_instance ad = Some (sr_instance (ps_request p))"
    using set by (auto simp: set_credential_def Let_def split: if_splits)
  obtain c' where c': "?find = Some c'"
    using set by (cases ?find) (simp_all add: set_credential_def Let_def split: if_splits)
  have picked: "c' = c \<and> map_of (sa_configured ad) (c_id c) = Some c \<and>
      (\<forall>polling writing lowest. incoming_policy (cfg (en_state en)) c = Some (polling, writing, lowest) \<longrightarrow>
        admits (wr_networks writing) (ps_peer p) \<and> \<not> below_level (sr_level (ps_request p)) c lowest)"
    using set c' by (auto simp: set_credential_def Let_def split: if_splits option.splits)
  have "c' \<in> set (vals (credentials (cfg (en_state en)))) \<and> c_id c' = ps_credential p \<and> c_enabled c' \<and>
      names_credential wire_name (sr_security_model (ps_request p)) (sr_name (ps_request p)) c'"
    using c' unfolding find_Some_iff by (metis nth_mem option.discI option.inject)
  then show ?thesis using picked gates life by simp
qed

lemma verdict_applies:
  assumes "set_verdict fits_response rq s c = Apply plan"
  shows "\<exists>polling writing lowest v. incoming_policy (cfg s) c = Some (polling, writing, lowest) \<and> wr_enabled writing \<and>
    wr_view_id writing = Some v \<and> has (views (cfg s)) v \<and> plan_set (cfg s) (sr_bindings rq) (view_includes s v) = Inr plan \<and>
    sr_context rq = [] \<and> int (length (sr_bindings rq)) \<le> max_varbinds (snmp (cfg s))"
  using assms by (auto simp: set_verdict_def split: if_splits option.splits sum.splits prod.splits)

lemma verdict_status:
  assumes "set_verdict fits_response rq s c = Answer_with status i bare report"
  shows "\<not> (status = ''noError'' \<and> i = 0)"
  using assms plan_set_error_position
  by (fastforce simp: set_verdict_def split: if_splits option.splits sum.splits prod.splits)

lemma discard_no_operation: "discard_ticket reason v lf t = (lf', t', acts) \<Longrightarrow> Operation \<notin> set acts"
  by (auto simp: discard_ticket_def finish_ticket_def split: if_splits)

lemma ready_no: "ready_ticket v lf t = ((lf', t', acts), False) \<Longrightarrow> Operation \<notin> set acts"
  using discard_no_operation by (auto simp: ready_ticket_def split: if_splits)

lemma ready_yes: "ready_ticket v lf t = ((lf', t', acts), True) \<Longrightarrow>
    tk_owned t \<and> tk_phase t = Queued \<and> lf_active lf \<and> lf' = lf \<and> t' = t \<and> sees_mp v \<and> owns_security t v"
  by (auto simp: ready_ticket_def split: if_splits)

definition held_message :: "lifetime \<Rightarrow> pending_set \<Rightarrow> sight \<Rightarrow> bool" where
  \<comment> \<open>the request is still the one to answer, and both of its records are in the caches\<close>
  "held_message lf p v \<longleftrightarrow> lf_active lf \<and> tk_owned (ps_ticket p) \<and> tk_phase (ps_ticket p) = Queued \<and>
     sees_mp v \<and> tk_known (ps_ticket p) \<and> sees_security v"

lemma run_set_cases:
  assumes "run_set wire_name uuid stored inputs p lf ad en = ((ad', en', acts), response)"
  obtains (idle) "en' = en" "response = None" "Operation \<notin> set acts" "sa_pending ad' = sa_pending ad"
  | (ran) c outcome answer where "current_set wire_name ad en p = Some c" "held_message lf p (ri_before inputs)" "Operation \<in> set acts"
      "commit_and_respond uuid stored (set_verdict (ri_fits inputs) (ps_request p) (en_state en) c) en = (outcome, en', answer)"
      "response = (if ri_delivered inputs then answer else None)" "sa_pending ad' = sa_pending ad"
proof (cases "tk_owned (ps_ticket p)")
  case False
  then show ?thesis using assms by (intro idle) (auto simp: run_set_def Let_def)
next
  case True
  show ?thesis
  proof (cases "current_set wire_name ad en p")
    case None
    then show ?thesis using assms True discard_no_operation
      by (intro idle) (auto simp: run_set_def Let_def split: prod.splits)
  next
    case (Some c)
    obtain l t a ok where r: "ready_ticket (ri_before inputs) lf (ps_ticket p) = ((l, t, a), ok)"
      by (cases "ready_ticket (ri_before inputs) lf (ps_ticket p)") auto
    show ?thesis
    proof (cases ok)
      case False
      then show ?thesis using assms True Some r ready_no
        by (intro idle) (auto simp: run_set_def Let_def)
    next
      case ok: True
      have "ready_ticket (ri_before inputs) lf (ps_ticket p) = ((l, t, a), True)" using r ok by simp
      from ready_yes [OF this] have y: "held_message lf p (ri_before inputs)" "l = lf" "t = ps_ticket p"
        by (simp_all add: held_message_def owns_security_def)
      obtain outcome en1 answer where c: "commit_and_respond uuid stored
          (set_verdict (ri_fits inputs) (ps_request p) (en_state en) c) en = (outcome, en1, answer)"
        by (cases "commit_and_respond uuid stored (set_verdict (ri_fits inputs) (ps_request p) (en_state en) c) en") auto
      obtain l1 t1 a1 ran where d: "complete_ticket (ri_before inputs) (ri_after inputs)
          (answer = None \<or> \<not> ri_delivered inputs) lf (ps_ticket p) = ((l1, t1, a1), ran)"
        by (cases "complete_ticket (ri_before inputs) (ri_after inputs)
          (answer = None \<or> \<not> ri_delivered inputs) lf (ps_ticket p)") auto
      have "Operation \<in> set a1" using d r ok by (auto simp: complete_ticket_def finish_ticket_def y)
      moreover have "en' = en1" "acts = a1" "response = (if ri_delivered inputs then answer else None)" "sa_pending ad' = sa_pending ad"
        using assms True Some r ok c d by (auto simp: run_set_def Let_def y)
      ultimately show ?thesis using Some y c by (intro ran) auto
    qed
  qed
qed

text \<open>C5: a SET changes the switch only while its authorization stands: the credential is enabled, still
  the one \<open>pysnmp\<close> authenticated with and of the generation the request was admitted under, its policy
  lets the sender write, from one of its networks and at the level of its group; no fault is recorded;
  the dispatcher is the one the request came in by; the message's record and its security record are
  still held by a request that nobody has answered or cancelled - and what is committed is the plan of the
  request's bindings on the published configuration, through the view of that policy.\<close>

theorem sets_commit_authorized:
  assumes "set_task wire_name uuid stored inputs ident ad en = ((ad', en', acts), response)"
    and "en_state en' \<noteq> en_state en"
  shows "\<exists>p c v plan reply. map_of (sa_pending ad) ident = Some p \<and> may_write wire_name ad (en_state en) p c v \<and>
    en_fault en = None \<and> sa_instance ad = Some (sr_instance (ps_request p)) \<and>
    (\<exists>lf. sa_inbound ad = Some lf \<and> held_message lf p (ri_before inputs)) \<and>
    Operation \<in> set acts \<and> sr_context (ps_request p) = [] \<and>
    plan_set (cfg (en_state en)) (sr_bindings (ps_request p)) (view_includes (en_state en) v) = Inr plan \<and>
    transact 0 uuid (Edit (Ed_set plan)) (en_state en) = Some (Inr (en_state en', reply))"
proof -
  obtain p lf where p: "map_of (sa_pending ad) ident = Some p" "sa_inbound ad = Some lf"
    using assms by (auto simp: set_task_def split: option.splits)
  obtain ad1 en1 a1 r1 where run: "run_set wire_name uuid stored inputs p lf ad en = ((ad1, en1, a1), r1)"
    by (cases "run_set wire_name uuid stored inputs p lf ad en") auto
  have e: "en1 = en'" "a1 = acts" using assms(1) by (simp_all add: set_task_def p run)
  from run show ?thesis
  proof (cases rule: run_set_cases)
    case idle
    then show ?thesis using assms(2) e by simp
  next
    case (ran c outcome answer)
    let ?d = "set_verdict (ri_fits inputs) (ps_request p) (en_state en) c"
    show ?thesis
    proof (cases ?d)
      case (Answer_with status i bare report)
      then show ?thesis using ran(4) assms(2) e by (simp add: commit_and_respond_def)
    next
      case (Apply plan)
      then have commit: "commit_set uuid stored plan en = (outcome, en')"
        using ran(4) e by (auto simp: commit_and_respond_def split: prod.splits)
      then obtain reply where t: "transact 0 uuid (Edit (Ed_set plan)) (en_state en) = Some (Inr (en_state en', reply))"
        using committed_plan [OF commit] assms(2) by blast
      obtain v where v: "plan_set (cfg (en_state en)) (sr_bindings (ps_request p)) (view_includes (en_state en) v) = Inr plan"
          "sr_context (ps_request p) = []" "may_write wire_name ad (en_state en) p c v"
        using verdict_applies [OF Apply] current_set_credential [OF ran(1)] by (auto simp: may_write_def)
      have "en_fault en = None \<and> sa_instance ad = Some (sr_instance (ps_request p))"
        using current_set_credential [OF ran(1)] by simp
      then show ?thesis using p v t ran(2,3) e by blast
    qed
  qed
qed

text \<open>C22: the response to a SET tells what became of it: \<open>noError\<close> means the configuration is now exactly
  the candidate of the plan, any other status that nothing changed.\<close>

theorem set_response_truthful:
  assumes "set_task wire_name uuid stored inputs ident ad en = ((ad', en', acts), Some r)"
  shows "if st_status r = ''noError'' \<and> st_index r = 0
    then \<exists>p v plan. map_of (sa_pending ad) ident = Some p \<and>
      plan_set (cfg (en_state en)) (sr_bindings (ps_request p)) (view_includes (en_state en) v) = Inr plan \<and>
      cfg (en_state en') = pl_candidate plan
    else en_state en' = en_state en"
proof -
  obtain p lf where p: "map_of (sa_pending ad) ident = Some p" "sa_inbound ad = Some lf"
    using assms by (auto simp: set_task_def split: option.splits)
  obtain ad1 en1 a1 r1 where run: "run_set wire_name uuid stored inputs p lf ad en = ((ad1, en1, a1), r1)"
    by (cases "run_set wire_name uuid stored inputs p lf ad en") auto
  have e: "en1 = en'" "r1 = Some r" using assms(1) by (simp_all add: set_task_def p run)
  from run show ?thesis
  proof (cases rule: run_set_cases)
    case idle
    then show ?thesis using e by simp
  next
    case (ran c outcome answer)
    have answer: "answer = Some r" using ran(5) e by (simp split: if_splits)
    show ?thesis
    proof (cases "set_verdict (ri_fits inputs) (ps_request p) (en_state en) c")
      case (Answer_with status i bare report)
      then show ?thesis using ran(4) e answer verdict_status [OF Answer_with] by (auto simp: commit_and_respond_def)
    next
      case (Apply plan)
      then have commit: "commit_set uuid stored plan en = (outcome, en')" and r: "Some r = (case outcome of
          Applied \<Rightarrow> Some (plain_response ''noError'' 0) | Unchanged \<Rightarrow> Some (plain_response ''noError'' 0)
        | Undo_failed \<Rightarrow> Some (plain_response ''undoFailed'' 0)
        | Rolled_back \<Rightarrow> Some (plain_response ''commitFailed'' (pl_first_effective plan)) | _ \<Rightarrow> None)"
        using ran(4) e answer by (auto simp: commit_and_respond_def split: prod.splits)
      obtain v where v: "plan_set (cfg (en_state en)) (sr_bindings (ps_request p)) (view_includes (en_state en) v) = Inr plan"
        using verdict_applies [OF Apply] by blast
      have before: "pl_before plan = cfg (en_state en)"
        using v by (auto simp: plan_set_def Let_def bind_Inr_iff split: if_splits option.splits prod.splits)
      show ?thesis
        using committed_plan [OF commit] r v p(1) before
        by (cases outcome) (fastforce simp: plain_response_def plan_changed_def)+
    qed
  qed
qed

subsection \<open>Pending requests\<close>

lemma refuse_pending [simp]: "sa_pending (fst (refuse_set reason v lf t ad)) = sa_pending ad"
  by (simp add: refuse_set_def split: prod.split)

lemma admit_pending:
  assumes "length (sa_pending ad) \<le> max_pending"
  shows "length (sa_pending (fst (admit_set wire_name ident rq a v en ad))) \<le> max_pending"
proof (cases "sa_inbound ad")
  case (Some lf)
  obtain lf1 t' where c: "capture_ticket a lf = (lf1, t')" by (cases "capture_ticket a lf")
  show ?thesis
  proof (cases t')
    case t: (Some t)
    obtain l1 t1 a1 ok1 where r: "ready_ticket v lf1 t = ((l1, t1, a1), ok1)" by (cases "ready_ticket v lf1 t") auto
    obtain l2 t2 a2 ok where q: "ready_ticket v l1 t1 = ((l2, t2, a2), ok)" by (cases "ready_ticket v l1 t1") auto
    show ?thesis
      using assms by (simp add: admit_set_def Some c t r q length_put split: option.split)
  qed (use assms in \<open>simp add: admit_set_def Some c\<close>)
qed (use assms in \<open>simp add: admit_set_def\<close>)

lemma task_pending:
  assumes "length (sa_pending ad) \<le> max_pending"
  shows "length (sa_pending (fst (fst (set_task wire_name uuid stored inputs ident ad en)))) \<le> max_pending"
proof (cases "map_of (sa_pending ad) ident = None \<or> sa_inbound ad = None")
  case False
  then obtain p lf where p: "map_of (sa_pending ad) ident = Some p" "sa_inbound ad = Some lf" by auto
  obtain ad1 en1 a1 r1 where run: "run_set wire_name uuid stored inputs p lf ad en = ((ad1, en1, a1), r1)"
    by (cases "run_set wire_name uuid stored inputs p lf ad en") auto
  have "sa_pending ad1 = sa_pending ad" using run by (cases rule: run_set_cases) simp_all
  then show ?thesis using assms length_drop_key_le [of ident "sa_pending ad"] by (simp add: set_task_def p run)
qed (use assms in \<open>auto simp: set_task_def split: option.split\<close>)

text \<open>At most 128 SETs wait at a time: admission refuses more, and no other operation adds one.\<close>

theorem pending_sets_bounded:
  assumes "length (sa_pending ad) \<le> max_pending"
  shows "length (sa_pending (fst (admit_set wire_name ident rq a v en ad))) \<le> max_pending \<and>
    length (sa_pending (fst (fst (set_task wire_name uuid stored inputs ident ad en)))) \<le> max_pending"
  using admit_pending [OF assms] task_pending [OF assms] by blast

definition example_writer :: credential where
  "example_writer = example_community\<lparr>c_access := V2c \<lparr>pl_enabled = False, pl_view_id = [118], pl_networks = []\<rparr>
     \<lparr>wr_enabled = True, wr_view_id = Some [118], wr_networks = []\<rparr>\<rparr>"

definition example_writable :: runtime where
  "example_writable = example_managed\<lparr>cfg := (cfg example_managed)\<lparr>credentials := [([99], example_writer)]\<rparr>,
     credential_generations := [([99], [103])]\<rparr>"

definition example_set :: set_request where
  "example_set = \<lparr>sr_instance = 0, sr_model = 1, sr_security_model = 2, sr_name = [99], sr_level = 1, sr_context = [],
     sr_bindings = [([1, 3, 6, 1, 2, 1, 2, 2, 1, 7, 101], Wire_integer 2)], sr_peer = Some (IPv4 [10, 0, 0, 1])\<rparr>"

definition example_pending :: pending_set where
  "example_pending = \<lparr>ps_request = example_set, ps_ticket = example_ticket, ps_peer = IPv4 [10, 0, 0, 1],
     ps_credential = [99], ps_generation = [103], ps_activation = activation example_writable\<rparr>"

definition example_adapter :: adapter where
  "example_adapter = \<lparr>sa_instance = Some 0, sa_listening = True, sa_configured = [([99], example_writer)],
     sa_inbound = Some \<lparr>lf_active = True, lf_error = False\<rparr>, sa_pending = [(0, example_pending)], sa_set_error = None,
     sa_error = None\<rparr>"

definition example_confirmed :: engine where
  "example_confirmed = \<lparr>en_state = example_writable, en_memory = [], en_fault = None\<rparr>"

definition example_inputs :: run_inputs where
  "example_inputs = \<lparr>ri_fits = True, ri_delivered = True, ri_before = \<lparr>sees_mp = True, sees_security = True\<rparr>,
     ri_after = \<lparr>sees_mp = True, sees_security = True\<rparr>\<rparr>"

lemma writable_fields:
  "ports (cfg example_writable) = [([112], default_port [112] 1 101 (str ''Ethernet1''))]"
  "vlans (cfg example_writable) = [(1, default_vlan)]"
  "credentials (cfg example_writable) = [([99], example_writer)]"
  "views (cfg example_writable) = [([118], \<lparr>v_id = [118], v_name = [], includes_oids = [[1, 3]]\<rparr>)]"
  "max_varbinds (snmp (cfg example_writable)) = 256" "gate example_writable"
  "credential_generations example_writable = [([99], [103])]"
  by (simp_all add: example_writable_def example_managed_def example_runtime_def new_runtime_def initial_configuration_def
      default_snmp_def gate_def default_port_def) code_simp+


lemma example_bound:
  "bind_check (cfg example_writable) [[1, 3]] cs ds ([1, 3, 6, 1, 2, 1, 2, 2, 1, 7, 101], Wire_integer 2) =
     Inr (Admin_object, Port_key [112], Number_value 2)"
  by (simp add: bind_check_def starts_def write_object_def write_objects_def binding_value_def binding_key_def
    single_port_kinds_def key_error_def port_by_def writable_fields vals_def default_port_def)

lemma example_intent: "intended n [([1, 3, 6, 1, 2, 1, 2, 2, 1, 7, 101], Wire_integer 2)] = []"
  by (simp add: intended_def write_object_def write_objects_def starts_def)
  
abbreviation (input) example_assignment :: assignment where
  "example_assignment \<equiv> \<lparr>as_index = 1, as_kind = Admin_object, as_key = Port_key [112], as_value = Number_value 2\<rparr>"

lemma example_plan:
  "\<exists>plan. plan_set (cfg example_writable) [([1, 3, 6, 1, 2, 1, 2, 2, 1, 7, 101], Wire_integer 2)] [[1, 3]] = Inr plan \<and>
     pl_actions plan = [] \<and> pl_candidate plan \<noteq> cfg example_writable"
proof -
  let ?seen = "[((Admin_object, Port_key [112]), example_assignment)]"
  let ?c = "candidate_of [] [] ?seen (cfg example_writable)"
  have loop: "assign_loop (cfg example_writable) [[1, 3]] [] [] 1 [([1, 3, 6, 1, 2, 1, 2, 2, 1, 7, 101], Wire_integer 2)] [] [] =
      Inr ([example_assignment], ?seen)"
    by (simp only: assign_loop.simps example_bound) (simp add: Let_def)
  have "ports ?c = [([112], default_port [112] 1 101 (str ''Ethernet1'')\<lparr>admin_up := False\<rparr>)]"
    by (simp add: candidate_of_def vals_def apply_assignment_def prepared_def on_port_def writable_fields port_fallback_def
        without_def default_port_def)
  then have "?c \<noteq> cfg example_writable" using writable_fields(1) by (auto simp: default_port_def)
  moreover have "conflicts (cfg example_writable) ?c [] ?seen [example_assignment] = []"
    by (auto simp: conflicts_def blames_def Let_def)
  ultimately show ?thesis
    unfolding plan_set_def example_intent Let_def loop
    by (simp add: unavailable_def vals_def del: One_nat_def assign_loop.simps)
qed

lemma example_settable: "current_set id example_adapter example_confirmed example_pending = Some example_writer"
  by (simp add: current_set_def set_credential_def example_pending_def example_confirmed_def writable_fields
    example_adapter_def example_set_def names_credential_def vals_def below_level_def incoming_policy_def admits_def
    example_writer_def example_community_def)

lemma example_fields:
  "ps_request example_pending = example_set" "ps_ticket example_pending = example_ticket"
  "ri_fits example_inputs" "ri_delivered example_inputs" "en_state example_confirmed = example_writable"
  "en_fault example_confirmed = None" "en_memory example_confirmed = []"
  "sr_context example_set = []" "length (sr_bindings example_set) = 1"
  by (simp_all add: example_pending_def example_inputs_def example_confirmed_def example_set_def)

lemma example_ready: "ready_ticket (ri_before example_inputs) \<lparr>lf_active = True, lf_error = False\<rparr> example_ticket =
    ((\<lparr>lf_active = True, lf_error = False\<rparr>, example_ticket, []), True)"
  by (simp add: ready_ticket_def example_ticket_def example_inputs_def owns_security_def)

lemma example_run:
  "\<exists>ad' en' acts r. set_task id (\<lambda>_. None) (\<lambda>_. Saved) example_inputs 0 example_adapter example_confirmed =
     ((ad', en', acts), Some r) \<and> cfg (en_state en') \<noteq> cfg example_writable"
proof -
  have view: "view_includes example_writable [118] = [[1, 3]]" by (simp add: view_includes_def writable_fields)
  obtain plan where plan: "plan_set (cfg example_writable) (sr_bindings example_set) (view_includes example_writable [118]) = Inr plan"
      "pl_actions plan = []" "pl_candidate plan \<noteq> cfg example_writable"
    using example_plan unfolding view by (auto simp: example_set_def)
  have before: "pl_before plan = cfg example_writable"
    using plan(1) by (auto simp: plan_set_def Let_def bind_Inr_iff split: if_splits option.splits prod.splits)
  have verdict: "set_verdict True example_set example_writable example_writer = Apply plan"
    by (simp add: set_verdict_def writable_fields(4,5) incoming_policy_def example_writer_def example_community_def has_def
        plan(1) example_fields)
  obtain en' where commit: "commit_set (\<lambda>_. None) (\<lambda>_. Saved) plan example_confirmed = (Applied, en')"
    using plan(2,3) before
    by (auto simp: commit_set_def plan_changed_def execute_def optional_lookup_def call_key_def truthy_def
        fresh_transaction_def stale_revision_def transact_def snmp_set_def publish_def Let_def example_fields)
  have respond: "commit_and_respond (\<lambda>_. None) (\<lambda>_. Saved) (set_verdict True example_set example_writable example_writer) example_confirmed =
      (Applied, en', Some (plain_response ''noError'' 0))"
    by (simp add: verdict commit_and_respond_def commit)
  have "\<exists>ad' acts. run_set id (\<lambda>_. None) (\<lambda>_. Saved) example_inputs example_pending \<lparr>lf_active = True, lf_error = False\<rparr>
      example_adapter example_confirmed = ((ad', en', acts), Some (plain_response ''noError'' 0))"
    by (simp add: run_set_def Let_def example_fields(1-6) example_settable example_ready respond split: prod.split)
      (simp add: example_ticket_def)
  then have "\<exists>ad' acts. set_task id (\<lambda>_. None) (\<lambda>_. Saved) example_inputs 0 example_adapter example_confirmed =
      ((ad', en', acts), Some (plain_response ''noError'' 0))"
    by (auto simp: set_task_def) (simp add: example_adapter_def)
  moreover have "cfg (en_state en') \<noteq> cfg example_writable"
    using committed_plan [OF commit] plan(3) by simp
  ultimately show ?thesis by blast
qed

lemma sets_commit_authorized_witness:
  "\<exists>ad' en' acts r. set_task id (\<lambda>_. None) (\<lambda>_. Saved) example_inputs 0 example_adapter example_confirmed =
     ((ad', en', acts), r) \<and> Operation \<in> set acts \<and>
     held_message \<lparr>lf_active = True, lf_error = False\<rparr> example_pending (ri_before example_inputs) \<and>
     (\<exists>c v. may_write id example_adapter example_writable example_pending c v)"
proof -
  obtain ad' en' acts r where run: "set_task id (\<lambda>_. None) (\<lambda>_. Saved) example_inputs 0 example_adapter example_confirmed =
     ((ad', en', acts), Some r)" "cfg (en_state en') \<noteq> cfg example_writable" using example_run by blast
  then have "en_state en' \<noteq> en_state example_confirmed" by (auto simp: example_confirmed_def)
  from sets_commit_authorized [OF run(1) this] run(1) show ?thesis
    by (auto simp: example_adapter_def example_confirmed_def)
qed

lemma set_response_truthful_witness:
  "\<exists>ad' en' acts r. set_task id (\<lambda>_. None) (\<lambda>_. Saved) example_inputs 0 example_adapter example_confirmed =
     ((ad', en', acts), Some r) \<and> st_status r = ''noError'' \<and> st_index r = 0"
proof -
  obtain ad' en' acts r where run: "set_task id (\<lambda>_. None) (\<lambda>_. Saved) example_inputs 0 example_adapter example_confirmed =
     ((ad', en', acts), Some r)" "cfg (en_state en') \<noteq> cfg example_writable" using example_run by blast
  then have "en_state en' \<noteq> en_state example_confirmed" by (auto simp: example_confirmed_def)
  then show ?thesis using set_response_truthful [OF run(1)] run(1) by (auto split: if_splits)
qed

lemma pending_sets_bounded_witness:
  "length (sa_pending (fst (admit_set id 1 example_set (Arrived True True) \<lparr>sees_mp = True, sees_security = True\<rparr>
     example_confirmed example_adapter))) \<le> 128"
  using pending_sets_bounded [of example_adapter] by (simp add: max_pending_def example_adapter_def)

end
