(* ===== verification/Records_Properties.thy ===== *)
theory Records_Properties
  imports Engine_Valid
begin

text \<open>
  What the record commands promise beyond valid references: the RADIUS settings stay within the bounds
  and validators of their model class, a record can be deleted exactly when nothing relies on it, and
  the conversion of a credential between the two protocol versions gives nobody other access.
\<close>

subsection \<open>RADIUS settings\<close>

definition servers_ok :: "radius_server list \<Rightarrow> bool" where
  "servers_ok vs \<longleftrightarrow> length vs \<le> 16 \<and> distinct (map rs_id vs) \<and> (\<forall>v \<in> set vs. server_ok v = Inr ())"

definition senders_ok :: "dynamic_settings \<Rightarrow> bool" where
  "senders_ok d \<longleftrightarrow> length (dy_senders d) \<le> 64 \<and> sender_ids d = Inr () \<and> (\<forall>x \<in> set (dy_senders d). sender_ok x = Inr ())"

definition radius_ok :: "radius_settings \<Rightarrow> bool" where
  \<comment> \<open>the constraints and validators of \<open>RadiusSettings\<close> and of the classes it is made of\<close>
  "radius_ok r \<longleftrightarrow> radius_options r = Inr () \<and> accounting_options (accounting r) = Inr () \<and>
     between 1 65535 (dy_port (dynamic_authorization r)) \<and>
     servers_ok (servers r) \<and> servers_ok (ac_targets (accounting r)) \<and> senders_ok (dynamic_authorization r) \<and>
     length (materials r) \<le> 128 \<and> length (templates r) \<le> 256 \<and> radius_ids r = Inr ()"

lemma radius_ids_iff:
  "radius_ids r = Inr () \<longleftrightarrow> distinct (map rs_id (servers r)) \<and>
     (\<forall>(k, m) \<in> set (materials r). k = m_id m) \<and> (\<forall>(k, t) \<in> set (templates r). k = t_id t)"
  by (auto simp: radius_ids_def list_ex_iff)

lemma sender_ids_iff:
  "sender_ids d = Inr () \<longleftrightarrow> distinct (map ds_id (dy_senders d)) \<and>
     distinct (map ds_address (filter ds_enabled (dy_senders d)))"
  by (auto simp: sender_ids_def check_sender_addresses_def)

lemma insert_at_form: "\<exists>k. insert_at i x xs = take k xs @ x # drop k xs"
  by (auto simp: insert_at_def Let_def)

lemma insert_at_set: "set (insert_at i x xs) = insert x (set xs)"
proof -
  obtain k where "insert_at i x xs = take k xs @ x # drop k xs" using insert_at_form [of i x xs] by blast
  moreover have "set (take k xs) \<union> set (drop k xs) = set xs" by (metis append_take_drop_id set_append)
  ultimately show ?thesis by auto
qed

lemma insert_at_distinct:
  assumes "distinct (map f xs)" and "f x \<notin> f ` set xs"
  shows "distinct (map f (insert_at i x xs))"
proof -
  obtain k where k: "insert_at i x xs = take k xs @ x # drop k xs" using insert_at_form [of i x xs] by blast
  have "distinct (map f (take k xs @ drop k xs))" using assms(1) by simp
  then have "distinct (map f (take k xs)) \<and> distinct (map f (drop k xs)) \<and> f ` set (take k xs) \<inter> f ` set (drop k xs) = {}"
    unfolding map_append distinct_append by simp
  moreover have "f x \<notin> f ` set (take k xs)" "f x \<notin> f ` set (drop k xs)"
    using assms(2) set_take_subset [of k xs] set_drop_subset [of k xs] by blast+
  ultimately show ?thesis unfolding k by auto
qed

lemma saved_servers_ok:
  assumes ok: "servers_ok vs" and result: "save_server port q fresh vs = Inr (v, ws)"
  shows "servers_ok ws"
proof -
  have v: "server_ok v = Inr ()" and ws: "ws = placed_server (vq_position q) v vs" and room: "length ws \<le> 16"
    using result by (auto simp: save_server_def bind_Inr_iff Let_def merged_server_def within_limit_def)
  have "distinct (map rs_id (filter (\<lambda>x. rs_id x \<noteq> rs_id v) vs))"
    using ok distinct_map_filter by (auto simp: servers_ok_def)
  then have "distinct (map rs_id ws)" unfolding ws placed_server_def Let_def by (rule insert_at_distinct) auto
  moreover have "set ws \<subseteq> insert v (set vs)" by (auto simp: ws placed_server_def Let_def insert_at_set)
  ultimately show ?thesis using ok v room unfolding servers_ok_def by blast
qed

lemma removed_servers_ok: "servers_ok vs \<Longrightarrow> remove_server message i vs = Inr (v, ws) \<Longrightarrow> servers_ok ws"
  by (auto simp: remove_server_def refuse_def servers_ok_def distinct_map_filter split: option.splits
      intro: le_trans [OF length_filter_le])

lemma distinct_filter_more: "distinct (map f (filter Q xs)) \<Longrightarrow> distinct (map f (filter (\<lambda>x. Q x \<and> P x) xs))"
  by (induction xs) (auto split: if_splits)

lemma saved_sender_ok:
  assumes ok: "senders_ok dy" and d: "merged_sender fresh q old = Inr d"
    and e: "e = dy\<lparr>dy_senders := filter (\<lambda>x. ds_id x \<noteq> ds_id d) (dy_senders dy) @ [d]\<rparr>"
    and room: "length (dy_senders e) \<le> 64" and checked: "ds_enabled d \<Longrightarrow> check_sender_addresses e = Inr ()"
  shows "senders_ok e"
proof -
  have sound: "sender_ok d = Inr ()" using d by (auto simp: merged_sender_def bind_Inr_iff Let_def)
  have "distinct (map ds_id (dy_senders e))" using ok by (auto simp: e senders_ok_def sender_ids_iff distinct_map_filter)
  moreover have "distinct (map ds_address (filter ds_enabled (dy_senders e)))"
  proof (cases "ds_enabled d")
    case True
    then show ?thesis using checked by (auto simp: check_sender_addresses_def split: if_splits)
  next
    case False
    then have "filter ds_enabled (dy_senders e) = filter (\<lambda>x. ds_enabled x \<and> ds_id x \<noteq> ds_id d) (dy_senders dy)"
      by (simp add: e conj_commute)
    then show ?thesis using ok by (simp add: senders_ok_def sender_ids_iff distinct_filter_more)
  qed
  ultimately show ?thesis using ok room sound by (auto simp: senders_ok_def sender_ids_iff e)
qed

lemma removed_sender_ok:
  assumes ok: "senders_ok dy"
  shows "senders_ok (dy\<lparr>dy_senders := filter P (dy_senders dy)\<rparr>)"
  using ok distinct_filter_more [of ds_address ds_enabled "dy_senders dy" P]
  by (auto simp: senders_ok_def sender_ids_iff distinct_map_filter conj_commute intro: le_trans [OF length_filter_le])

lemma server_records_ok:
  assumes "radius_ok (radius c)"
  shows "radius_server_save q fresh c = Inr m \<Longrightarrow> radius_ok (radius (mk_cfg m))"
    and "radius_server_delete i c = Inr m \<Longrightarrow> radius_ok (radius (mk_cfg m))"
    and "accounting_target_save q fresh c = Inr m \<Longrightarrow> radius_ok (radius (mk_cfg m))"
    and "accounting_target_delete i c = Inr m \<Longrightarrow> radius_ok (radius (mk_cfg m))"
proof -
  have s: "servers_ok (servers (radius c))" and a: "servers_ok (ac_targets (accounting (radius c)))"
    using assms by (simp_all add: radius_ok_def)
  have other: "radius_ok ((radius c)\<lparr>servers := vs\<rparr>)" if "servers_ok vs" for vs
    using that assms by (simp add: radius_ok_def radius_ids_iff radius_options_def valid_radius_options_def servers_ok_def)
  have target: "radius_ok ((radius c)\<lparr>accounting := (accounting (radius c))\<lparr>ac_targets := vs\<rparr>\<rparr>)" if "servers_ok vs" for vs
    using that assms by (simp add: radius_ok_def radius_ids_iff radius_options_def valid_radius_options_def accounting_options_def)
  show "radius_server_save q fresh c = Inr m \<Longrightarrow> radius_ok (radius (mk_cfg m))"
    by (auto simp: radius_server_save_def bind_Inr_iff noted_def with_radius_def intro!: other dest: saved_servers_ok [OF s])
  show "radius_server_delete i c = Inr m \<Longrightarrow> radius_ok (radius (mk_cfg m))"
    by (auto simp: radius_server_delete_def bind_Inr_iff noted_def with_radius_def intro!: other dest: removed_servers_ok [OF s])
  show "accounting_target_save q fresh c = Inr m \<Longrightarrow> radius_ok (radius (mk_cfg m))"
    by (auto simp: accounting_target_save_def bind_Inr_iff noted_def with_radius_def with_targets_def
        intro!: target dest: saved_servers_ok [OF a])
  show "accounting_target_delete i c = Inr m \<Longrightarrow> radius_ok (radius (mk_cfg m))"
    by (auto simp: accounting_target_delete_def bind_Inr_iff noted_def with_radius_def with_targets_def
        intro!: target dest: removed_servers_ok [OF a])
qed

lemma dynamic_records_ok:
  assumes "radius_ok (radius c)"
  shows "dynamic_sender_save q fresh c = Inr m \<Longrightarrow> radius_ok (radius (mk_cfg m))"
    and "dynamic_sender_delete i c = Inr m \<Longrightarrow> radius_ok (radius (mk_cfg m))"
    and "dynamic_settings_edit y c = Inr m \<Longrightarrow> radius_ok (radius (mk_cfg m))"
proof -
  let ?dy = "dynamic_authorization (radius c)"
  have d: "senders_ok ?dy" "between 1 65535 (dy_port ?dy)" using assms by (simp_all add: radius_ok_def)
  have form: "radius_ok ((radius c)\<lparr>dynamic_authorization := e\<rparr>)" if "senders_ok e" "between 1 65535 (dy_port e)" for e
    using that assms by (simp add: radius_ok_def radius_ids_iff radius_options_def valid_radius_options_def)
  show "dynamic_sender_save q fresh c = Inr m \<Longrightarrow> radius_ok (radius (mk_cfg m))"
    using d(2) by (auto simp: dynamic_sender_save_def bind_Inr_iff Let_def noted_def with_radius_def with_dynamic_def
        within_limit_def intro!: form saved_sender_ok [OF d(1)] split: if_splits)
  show "dynamic_sender_delete i c = Inr m \<Longrightarrow> radius_ok (radius (mk_cfg m))"
    using d(2) by (auto simp: dynamic_sender_delete_def Let_def noted_def with_radius_def with_dynamic_def refuse_def
        intro!: form removed_sender_ok [OF d(1)] split: option.splits)
  show "dynamic_settings_edit y c = Inr m \<Longrightarrow> radius_ok (radius (mk_cfg m))"
    using d(1) by (auto simp: dynamic_settings_edit_def bind_Inr_iff Let_def announced_def with_radius_def with_dynamic_def
        senders_ok_def sender_ids_iff intro!: form)
qed

lemma option_records_ok:
  assumes "radius_ok (radius c)"
  shows "radius_settings_edit q c = Inr m \<Longrightarrow> radius_ok (radius (mk_cfg m))"
    and "accounting_settings_edit a c = Inr m \<Longrightarrow> radius_ok (radius (mk_cfg m))"
proof -
  have patched: "radius_ok (patched_radius q r)" if "radius_ok r" "radius_options (patched_radius q r) = Inr ()" for r
  proof -
    have "accounting (patched_radius q r) = accounting r" "dynamic_authorization (patched_radius q r) = dynamic_authorization r"
      "servers (patched_radius q r) = servers r" "materials (patched_radius q r) = materials r"
      "templates (patched_radius q r) = templates r"
      by (simp_all add: patched_radius_def)
    then show ?thesis using that unfolding radius_ok_def radius_ids_iff by simp
  qed
  show "radius_ok (radius (mk_cfg m))" if "radius_settings_edit q c = Inr m"
  proof -
    have "mk_cfg m = c\<lparr>radius := patched_radius q (radius c)\<rparr>" "radius_options (patched_radius q (radius c)) = Inr ()"
      using that by (auto simp: radius_settings_edit_def bind_Inr_iff Let_def announced_def with_radius_def)
    with patched [OF assms] show ?thesis by simp
  qed
  have form: "radius_ok ((radius c)\<lparr>accounting := b\<rparr>)"
    if "accounting_options b = Inr ()" "servers_ok (ac_targets b)" for b
    using that assms by (simp add: radius_ok_def radius_ids_iff radius_options_def valid_radius_options_def)
  show "radius_ok (radius (mk_cfg m))" if "accounting_settings_edit a c = Inr m"
  proof -
    let ?b = "patched_accounting a (accounting (radius c))"
    have "mk_cfg m = c\<lparr>radius := (radius c)\<lparr>accounting := ?b\<rparr>\<rparr>" "accounting_options ?b = Inr ()"
      using that by (auto simp: accounting_settings_edit_def bind_Inr_iff Let_def announced_def with_radius_def)
    moreover have "servers_ok (ac_targets ?b)" using assms by (simp add: patched_accounting_def radius_ok_def)
    ultimately show ?thesis using form by simp
  qed
qed

lemma put_keys: "(\<forall>(k, x) \<in> set d. k = f x) \<Longrightarrow> (\<forall>(k, x) \<in> set (put (f v) v d). k = f x)"
  using put_values by fastforce

lemma drop_keys: "(\<forall>(k, x) \<in> set d. k = f x) \<Longrightarrow> (\<forall>(k, x) \<in> set (drop_key i d). k = f x)"
  by (auto simp: drop_key_set)

lemma material_records_ok:
  assumes ok: "radius_ok (radius c)"
  shows "radius_material_save q fresh c = Inr m \<Longrightarrow> radius_ok (radius (mk_cfg m))"
    and "radius_material_delete i c = Inr m \<Longrightarrow> radius_ok (radius (mk_cfg m))"
    and "radius_template_save t fresh c = Inr m \<Longrightarrow> radius_ok (radius (mk_cfg m))"
    and "radius_template_delete i c = Inr m \<Longrightarrow> radius_ok (radius (mk_cfg m))"
proof -
  have form: "radius_ok ((radius c)\<lparr>materials := ms\<rparr>)" if "length ms \<le> 128" "\<forall>(k, x) \<in> set ms. k = m_id x" for ms
    using that ok by (simp add: radius_ok_def radius_ids_iff radius_options_def valid_radius_options_def)
  have form': "radius_ok ((radius c)\<lparr>templates := ts\<rparr>)" if "length ts \<le> 256" "\<forall>(k, x) \<in> set ts. k = t_id x" for ts
    using that ok by (simp add: radius_ok_def radius_ids_iff radius_options_def valid_radius_options_def)
  have keys: "\<forall>(k, x) \<in> set (materials (radius c)). k = m_id x" "\<forall>(k, x) \<in> set (templates (radius c)). k = t_id x"
    and few: "length (materials (radius c)) \<le> 128" "length (templates (radius c)) \<le> 256"
    using ok by (simp_all add: radius_ok_def radius_ids_iff)
  show "radius_ok (radius (mk_cfg m))" if saved: "radius_material_save q fresh c = Inr m"
  proof -
    obtain x where x: "mk_cfg m = with_radius ((radius c)\<lparr>materials := put (m_id x) x (materials (radius c))\<rparr>) c"
      "length (put (m_id x) x (materials (radius c))) \<le> 128"
      using saved unfolding radius_material_save_def Let_def
      by (clarsimp simp: bind_Inr_iff noted_def within_limit_def with_radius_def)
    show ?thesis using form [OF x(2) put_keys [OF keys(1)]] by (simp add: x(1) with_radius_def)
  qed
  show "radius_ok (radius (mk_cfg m))" if saved: "radius_template_save t fresh c = Inr m"
  proof -
    obtain x where x: "mk_cfg m = with_radius ((radius c)\<lparr>templates := put (t_id x) x (templates (radius c))\<rparr>) c"
      "length (put (t_id x) x (templates (radius c))) \<le> 256"
      using saved unfolding radius_template_save_def Let_def
      by (clarsimp simp: bind_Inr_iff noted_def within_limit_def with_radius_def simp del: required_Inr)
        (metis supplicant_template.select_convs(1))
    show ?thesis using form' [OF x(2) put_keys [OF keys(2)]] by (simp add: x(1) with_radius_def)
  qed
  show "radius_ok (radius (mk_cfg m))" if "radius_material_delete i c = Inr m"
    using that form [OF length_drop_key_short [OF few(1)] drop_keys [OF keys(1)]]
    by (auto simp: radius_material_delete_def bind_Inr_iff Let_def noted_def with_radius_def)
  show "radius_ok (radius (mk_cfg m))" if "radius_template_delete i c = Inr m"
    using that form' [OF length_drop_key_short [OF few(2)] drop_keys [OF keys(2)]]
    by (auto simp: radius_template_delete_def bind_Inr_iff noted_def with_radius_def)
qed

text \<open>C28: the record commands keep the RADIUS settings within the constraints of their model class,
  although a handler checks only the record it saves and the collection it enters: every option in its
  range, at most 16 servers, 16 accounting targets and 64 senders, 128 certificates and 256 templates,
  identifiers unique, secrets of an acceptable form, and no two enabled senders at one address.\<close>

theorem radius_settings_kept:
  assumes "radius_ok (radius (cfg s))" and "record_command e s = Inr (t, tc, r)"
  shows "radius_ok (radius (cfg t))"
proof -
  obtain m where m: "record_change e (\<lambda>i. fresh_ids s (drawn s + i)) (event_resource_label s) (cfg s) = Inr m"
    and t: "cfg t = mk_cfg m"
    using assms(2) by (auto simp: record_command_def bind_Inr_iff noted_apart)
  show ?thesis
  proof (cases "radius_edit e")
    case False
    then show ?thesis using snmp_change_apart [OF m] assms(1) by (simp add: t)
  next
    case True
    then show ?thesis
      using m t server_records_ok [OF assms(1)] dynamic_records_ok [OF assms(1)] option_records_ok [OF assms(1)]
        material_records_ok [OF assms(1)]
      by (cases e) simp_all
  qed
qed

subsection \<open>Deletions\<close>

lemma deleted_credential:
  "succeeds (credential_delete i c) \<longleftrightarrow> has (credentials c) i \<and> (\<forall>t \<in> set (vals (targets c)). tg_credential_id t \<noteq> i)"
  by (auto simp: credential_delete_def succeeds_iff bind_Inr_iff Let_def first_error_ok check_target_iff lookup_drop_key
      selects_credential_def has_def)

lemma deleted_group:
  "succeeds (group_delete i c) \<longleftrightarrow> has (groups c) i \<and> (\<forall>cr \<in> set (vals (credentials c)). c_access cr \<noteq> V3 (Some i))"
  by (auto simp: group_delete_def succeeds_iff bind_Inr_iff Let_def first_error_ok check_credential_iff lookup_drop_key
      in_group_def has_def)

definition uses_view :: "uid \<Rightarrow> polling_access \<times> writing_access \<Rightarrow> bool" where
  \<comment> \<open>an enabled use selects the view\<close>
  "uses_view i policy \<longleftrightarrow> (pl_enabled (fst policy) \<and> pl_view_id (fst policy) = i) \<or>
     (wr_enabled (snd policy) \<and> wr_view_id (snd policy) = Some i)"

lemma policies_refer:
  assumes "access_refs c" and "(pl, wr) \<in> set (access_policies c)"
  shows "check_policy c pl wr = Inr ()"
  using assms by (auto simp: access_refs_def access_policies_def List.map_filter_def check_credential_iff split: access.splits)

lemma deleted_view:
  assumes ok: "access_refs c"
  shows "succeeds (view_delete i c) \<longleftrightarrow> has (views c) i \<and> (\<forall>policy \<in> set (access_policies c). \<not> uses_view i policy)"
proof -
  let ?d = "c\<lparr>views := drop_key i (views c)\<rparr>"
  have same: "access_policies ?d = access_policies c" by (simp add: access_policies_def)
  have "(selects_view i (pl, wr) \<longrightarrow> check_policy ?d pl wr = Inr ()) \<longleftrightarrow> \<not> uses_view i (pl, wr)"
    if "(pl, wr) \<in> set (access_policies c)" for pl wr
    using policies_refer [OF ok that] by (auto simp: check_policy_iff has_drop_key selects_view_def uses_view_def)
  then have "first_error (map (\<lambda>(pl, wr). check_policy ?d pl wr) (filter (selects_view i) (access_policies c))) = Inr () \<longleftrightarrow>
      (\<forall>policy \<in> set (access_policies c). \<not> uses_view i policy)"
    unfolding first_error_ok by fastforce
  then show ?thesis
    by (auto simp: view_delete_def succeeds_iff bind_Inr_iff Let_def same has_def)
qed

lemma deleted_material:
  "succeeds (radius_material_delete i c) \<longleftrightarrow> has (materials (radius c)) i \<and>
     (\<forall>p \<in> set (supplicant_profiles c). trust_id p \<noteq> i \<and> client_identity_id p \<noteq> Some i)"
proof -
  let ?d = "with_radius ((radius c)\<lparr>materials := drop_key i (materials (radius c))\<rparr>) c"
  have same: "supplicant_profiles ?d = supplicant_profiles c" by (simp add: supplicant_profiles_def with_radius_def)
  have "kind_of ?d i = None" by (simp add: kind_of_def with_radius_def lookup_drop_key)
  then have "check_profile ?d (Some p) \<noteq> Inr ()" if "trust_id p = i \<or> client_identity_id p = Some i" for p
    using that by (auto simp: check_profile_iff)
  then have "check_material_dependents ?d i = Inr () \<longleftrightarrow>
      (\<forall>p \<in> set (supplicant_profiles c). trust_id p \<noteq> i \<and> client_identity_id p \<noteq> Some i)"
    unfolding check_material_dependents_def first_error_ok same by auto
  then show ?thesis
    by (auto simp: radius_material_delete_def succeeds_iff bind_Inr_iff Let_def has_def)
qed

text \<open>C27: a record can be deleted exactly when nothing relies on it. A credential is deleted if and only
  if it exists and no notification target uses it; a group if and only if no user, enabled or not, is a
  member; a certificate if and only if no source and no template refers to it; a view if and only if no
  enabled polling or writing of a community or group selects it.\<close>

theorem deletions_exact:
  assumes "references c = Inr ()"
  shows "(succeeds (credential_delete i c) \<longleftrightarrow> has (credentials c) i \<and> (\<forall>t \<in> set (vals (targets c)). tg_credential_id t \<noteq> i)) \<and>
    (succeeds (group_delete i c) \<longleftrightarrow> has (groups c) i \<and> (\<forall>cr \<in> set (vals (credentials c)). c_access cr \<noteq> V3 (Some i))) \<and>
    (succeeds (radius_material_delete i c) \<longleftrightarrow> has (materials (radius c)) i \<and>
       (\<forall>p \<in> set (supplicant_profiles c). trust_id p \<noteq> i \<and> client_identity_id p \<noteq> Some i)) \<and>
    (succeeds (view_delete i c) \<longleftrightarrow> has (views c) i \<and> (\<forall>policy \<in> set (access_policies c). \<not> uses_view i policy))"
  using deleted_credential deleted_group deleted_material deleted_view [of c i] assms
  by (simp add: references_split logical_split)

subsection \<open>Protocol conversion\<close>

lemma conversion_result:
  assumes old: "map_of (credentials c) i = Some old" and q: "cq_id q = Some i" "cq_protocol q = Some to" "to \<noteq> protocol_of old"
    and result: "credential_save q fresh c = Inr m"
  obtains d n a label on where "converted_access to q old (fresh 0) c = Inr (d, n, a)"
    "mk_cfg m = d\<lparr>credentials := put i (renewed_credential to q i label on a) (credentials d)\<rparr>"
proof -
  obtain d n cr where merged: "merge_credential q (Some old) (fresh 0) c = Inr (d, n, cr)"
    and m: "mk_cfg m = d\<lparr>credentials := put (c_id cr) cr (credentials d)\<rparr>"
    using result old q(1)
    by (auto simp: credential_save_def bind_Inr_iff add_credential_def Let_def noted_def optional_lookup_def)
  obtain a where a: "converted_access to q old (fresh 0) c = Inr (d, n, a)"
    "cr = renewed_credential to q i (given (cq_label q) (c_label old)) (given (cq_enabled q) (c_enabled old)) a"
    using merged q by (auto simp: merge_credential_def bind_Inr_iff given_def)
  have "c_id cr = i" by (simp add: a(2) renewed_credential_def Let_def)
  then show thesis using that [OF a(1)] m a(2) by simp
qed

lemma converted_groups:
  assumes "converted_access to q old fresh c = Inr (d, n, a)"
  shows "credentials d = credentials c \<and> (groups d = groups c \<or>
     groups d = put fresh (kept_group fresh q old c) (groups c) \<and> a = V3 (Some fresh) \<and> cq_transfer q = Some Keep_access)"
  using assms by (auto simp: converted_access_def bind_Inr_iff Let_def add_group_def kept_group_def
      split: protocol.splits if_splits prod.splits)

lemma converted_kind: "converted_access to q old fresh c = Inr (d, n, a) \<Longrightarrow> is_v3 a \<longleftrightarrow> to = User_based"
  by (auto simp: converted_access_def bind_Inr_iff Let_def split: protocol.splits if_splits prod.splits)

text \<open>C26: converting a credential between SNMPv2c and SNMPv3 changes nobody's access behind the
  administrator's back. With keep, the converted credential reads and writes under exactly the policy it
  had before (the switch's defaults, which allow nothing, where it had none); with none, it can neither
  read nor write. The secrets of the protocol it left are gone, and every other credential keeps its
  record and its policy.\<close>

theorem conversion_keeps_access:
  assumes "references c = Inr ()" and "map_of (credentials c) i = Some old"
    and "cq_id q = Some i \<and> cq_protocol q = Some to \<and> to \<noteq> protocol_of old"
    and "\<not> has (groups c) (fresh 0)" and "credential_save q fresh c = Inr m"
  shows "\<exists>new. map_of (credentials (mk_cfg m)) i = Some new \<and> protocol_of new = to \<and>
    (cq_transfer q = Some Keep_access \<longrightarrow> (\<exists>level. incoming_policy (mk_cfg m) new =
       Some (fst (access_before c old), snd (access_before c old), level))) \<and>
    (cq_transfer q = Some No_access \<longrightarrow> (case incoming_policy (mk_cfg m) new of None \<Rightarrow> True
       | Some (pl, wr, _) \<Rightarrow> \<not> pl_enabled pl \<and> \<not> wr_enabled wr)) \<and>
    (if to = User_based then c_community new = None else c_auth_key new = None \<and> c_priv_key new = None) \<and>
    (\<forall>j x. j \<noteq> i \<and> map_of (credentials c) j = Some x \<longrightarrow>
       map_of (credentials (mk_cfg m)) j = Some x \<and> incoming_policy (mk_cfg m) x = incoming_policy c x)"
proof -
  obtain d n a label on where a: "converted_access to q old (fresh 0) c = Inr (d, n, a)"
    and m: "mk_cfg m = d\<lparr>credentials := put i (renewed_credential to q i label on a) (credentials d)\<rparr>"
    using conversion_result [OF assms(2) _ _ _ assms(5)] assms(3) by blast
  let ?new = "renewed_credential to q i label on a"
  have groups: "credentials d = credentials c" "groups d = groups c \<or> groups d = put (fresh 0) (kept_group (fresh 0) q old c) (groups c) \<and>
      a = V3 (Some (fresh 0)) \<and> cq_transfer q = Some Keep_access"
    using converted_groups [OF a] by blast+
  have found: "map_of (credentials (mk_cfg m)) i = Some ?new" by (simp add: m lookup_put)
  have kind: "protocol_of ?new = to"
    using converted_kind [OF a] by (cases to) (simp_all add: protocol_of_def renewed_credential_def Let_def)
  have access: "c_access ?new = a" by (simp add: renewed_credential_def Let_def)
  have keep: "\<exists>level. incoming_policy (mk_cfg m) ?new = Some (fst (access_before c old), snd (access_before c old), level)"
    if "cq_transfer q = Some Keep_access"
    using a that by (auto simp: converted_access_def bind_Inr_iff Let_def incoming_policy_def access m add_group_def
        kept_group_def case_prod_unfold lookup_put split: protocol.splits)
  have none: "case incoming_policy (mk_cfg m) ?new of None \<Rightarrow> True | Some (pl, wr, _) \<Rightarrow> \<not> pl_enabled pl \<and> \<not> wr_enabled wr"
    if "cq_transfer q = Some No_access"
    using a that by (auto simp: converted_access_def bind_Inr_iff Let_def incoming_policy_def access
        default_polling_def default_writing_def split: protocol.splits)
  have "map_of (credentials (mk_cfg m)) j = Some x \<and> incoming_policy (mk_cfg m) x = incoming_policy c x"
    if j: "j \<noteq> i" and x: "map_of (credentials c) j = Some x" for j x
  proof -
    have "x \<in> set (vals (credentials c))" using lookup_in_set [OF x] by (force simp: vals_def)
    then have "check_credential c x False = Inr ()"
      using assms(1) by (simp add: references_split logical_def)
    then have "\<forall>g. c_access x = V3 (Some g) \<longrightarrow> g \<noteq> fresh 0" using assms(4) by (auto simp: check_credential_iff)
    then show ?thesis
      using j x groups by (auto simp: m lookup_put incoming_policy_def split: access.splits option.splits)
  qed
  with found kind keep none show ?thesis by (auto simp: renewed_credential_def Let_def)
qed

subsection \<open>Examples\<close>

definition example_server_patch :: server_patch where
  "example_server_patch = \<lparr>vq_id = None, vq_label = Some [97], vq_enabled = None, vq_address = Some (IPv4 [10, 0, 0, 1]),
     vq_port = None, vq_secret = Some [115], vq_source = None, vq_position = None\<rparr>"

lemma example_radius: "radius (cfg example_runtime) = default_radius"
  by (simp add: example_runtime_def new_runtime_def initial_configuration_def)

lemma default_radius_ok: "radius_ok default_radius"
  by code_simp

lemma radius_settings_kept_witness:
  "\<exists>t tc r. record_command (Rec_server example_server_patch) example_runtime = Inr (t, tc, r) \<and> radius_ok (radius (cfg t))"
proof -
  have secret: "secret_bytes [115] = Inr [115]" by code_simp
  have "\<exists>m. radius_server_save example_server_patch fresh c = Inr m" if "radius c = default_radius" for fresh c
    by (simp add: radius_server_save_def that default_radius_def save_server_def merged_server_def example_server_patch_def
        server_of_def server_ok_def label_ok_def between_def secret address_family_def within_limit_def
        placed_server_def insert_at_def validated_def given_def stored_or_def unless_blank_def required_def check_def
        Let_def)
  then obtain m where "record_change (Rec_server example_server_patch) (\<lambda>i. fresh_ids example_runtime (drawn example_runtime + i))
      (event_resource_label example_runtime) (cfg example_runtime) = Inr m"
    using example_radius by fastforce
  then obtain t tc r where t: "record_command (Rec_server example_server_patch) example_runtime = Inr (t, tc, r)"
    by (simp add: record_command_def)
  have "radius_ok (radius (cfg example_runtime))" by (simp add: example_radius default_radius_ok)
  from radius_settings_kept [OF this t] show ?thesis using t by blast
qed

lemma deletions_exact_witness:
  "succeeds (view_delete (str ''internet'') (initial_configuration [115] [[112]]))"
proof -
  have "references (initial_configuration [115] [[112]]) = Inr ()"
    using initial_configuration_valid [of "[[112]]" "[115]"] by simp
  then have "succeeds (view_delete (str ''internet'') (initial_configuration [115] [[112]])) \<longleftrightarrow>
      has (views (initial_configuration [115] [[112]])) (str ''internet'') \<and>
      (\<forall>policy \<in> set (access_policies (initial_configuration [115] [[112]])). \<not> uses_view (str ''internet'') policy)"
    using deletions_exact by blast
  then show ?thesis by (simp add: initial_configuration_def access_policies_def default_views_def has_def vals_def str_def)
qed

definition example_community :: credential where
  "example_community = \<lparr>c_id = [99], c_enabled = True, c_label = [99], c_username = [], c_security_level = NoAuthNoPriv,
     c_auth_protocol = Sha256, c_priv_protocol = Aes128, c_community = Some [112], c_auth_key = None, c_priv_key = None,
     c_access = V2c \<lparr>pl_enabled = True, pl_view_id = str ''all'', pl_networks = []\<rparr> default_writing\<rparr>"

definition example_managed :: configuration where
  "example_managed = (initial_configuration [115] [])\<lparr>credentials := [([99], example_community)]\<rparr>"

definition example_conversion :: credential_patch where
  "example_conversion = \<lparr>cq_id = Some [99], cq_protocol = Some User_based, cq_enabled = None, cq_label = None,
     cq_username = Some [117], cq_level = Some NoAuthNoPriv, cq_auth = None, cq_priv = None, cq_community = None,
     cq_auth_key = None, cq_priv_key = None, cq_polling = None, cq_writing = None, cq_group = None,
     cq_transfer = Some Keep_access\<rparr>"

lemma example_converted: "succeeds (credential_save example_conversion (\<lambda>_. [103]) example_managed)"
  by code_simp

lemma example_managed_valid: "references example_managed = Inr ()"
  by code_simp

lemma conversion_keeps_access_witness:
  "\<exists>m new level. credential_save example_conversion (\<lambda>_. [103]) example_managed = Inr m \<and>
     map_of (credentials (mk_cfg m)) [99] = Some new \<and>
     incoming_policy (mk_cfg m) new = Some (\<lparr>pl_enabled = True, pl_view_id = str ''all'', pl_networks = []\<rparr>, default_writing, level)"
proof -
  obtain m where m: "credential_save example_conversion (\<lambda>_. [103]) example_managed = Inr m"
    using example_converted by (auto simp: succeeds_iff)
  have old: "map_of (credentials example_managed) [99] = Some example_community"
    by (simp add: example_managed_def)
  have q: "cq_id example_conversion = Some [99] \<and> cq_protocol example_conversion = Some User_based \<and>
      User_based \<noteq> protocol_of example_community"
    by (simp add: example_conversion_def example_community_def protocol_of_def)
  have free: "\<not> has (groups example_managed) [103]"
    by (simp add: example_managed_def initial_configuration_def has_def)
  have policy: "access_before example_managed example_community =
      (\<lparr>pl_enabled = True, pl_view_id = str ''all'', pl_networks = []\<rparr>, default_writing)"
    by (simp add: access_before_def incoming_policy_def example_community_def)
  have keep: "cq_transfer example_conversion = Some Keep_access" by (simp add: example_conversion_def)
  show ?thesis
    using conversion_keeps_access [OF example_managed_valid old q free m] m keep policy by auto
qed

end
