(* ===== verification/Spec2Isabelle.thy ===== *)
theory Spec2Isabelle
  imports Radius_Packet Radius_Codec Radius_Reply Radius_Access Radius_Native Radius_Exchange
    Radius_Planner Identifiers Configuration Management Startup Storage Set_Plan Set_Plan_Valid
    Runtime_Steps Engine_Properties Snmp_Write Records_Properties
begin

text \<open>
  A verification library for \<open>switchlab\<close>, a generic SNMP switch emulator with 802.1X and MAB access
  control. The program is one process: a configuration (\<open>models.py\<close>), a runtime that evolves in
  simulated time (\<open>engine.py\<close>), a RADIUS client and dynamic authorization server (\<open>radius.py\<close>), the
  MIB with its projection of a runtime and its SET planner (\<open>mib.py\<close>), the SNMP responder on top of
  pysnmp (\<open>snmp.py\<close>, \<open>snmp_lifetime.py\<close>), management sessions (\<open>management.py\<close>) and an SQLite store
  (\<open>storage.py\<close>).

  How the parts meet. The engine holds one published runtime. A command (\<open>Engine.execute\<close>) works on a
  copy of it: a handler of \<open>_apply\<close> changes the copy, the commit settles what follows from the change
  (link counters, learned addresses, sessions, notifications, the revision), the store writes it, and
  only then the copy is published. Time, frames, RADIUS replies and SNMP SETs all reach the switch as
  such commands. SNMP reads are answered from a projection of the published runtime; a SET is planned
  against that projection, and its plan is one more command.

  Conventions. A Python exception is the left side of a sum, a dictionary is the list of its items in
  insertion order, octets are \<open>8 word\<close> lists, Python integers are \<open>int\<close> and text is the list of its
  code points. UUIDs, random draws, clocks, datagrams, blocks of the helper's channel, sights of the
  caches of pysnmp, whether \<open>cryptography\<close> accepts a certificate, and the outcome of an SQLite commit or
  rollback are arguments. MD5 and HMAC-MD5 are computed
  (theory Digest), so no property of them is assumed. MIB values are pairs of the syntax and the value
  the code passes to a constructor of pysnmp; \<open>bisect_right\<close> of the standard library is the position
  it documents.

  Theories of the data and the packets.

  \<^item> Prelude and Text hold the sums, dictionaries, octet slices and text codecs the others share,
    Digest the digests.
  \<^item> Identifiers and Configuration model \<open>models.py\<close>: MAC addresses and object identifiers, the
    configuration's records with their limits, every cross reference, the initial configuration.
    Validators collects what \<open>model_validate\<close> asks of every record, alone and over a whole configuration.
  \<^item> Radius_Packet, Radius_Codec and Radius_Reply model the packet codec of \<open>radius.py\<close>: the
    attribute parser and emitter, the authenticators, the Access, CoA, Disconnect and Accounting
    packets. The lemmas show that emitting and parsing are inverse, that the two independent scans of
    a packet agree, and which replies are accepted.
  \<^item> Radius_Access models authorization, summaries and subject attributes; Radius_Native the parser of
    the EAP helper's channel; Radius_Exchange the MAB exchange, with the datagrams it sends and the
    error of every socket call, and the helper's configuration file;
    Radius_Planner the decision on CoA and Disconnect requests.
  \<^item> Management models the login registry, Startup and Storage the division of the configuration into
    lab and startup parts, with the validation that composing them runs, and the transactional store:
    a connection with its open transaction beside the committed rows, and what statements, \<open>commit\<close>
    and \<open>rollback\<close> do to the two. A body of statements is arbitrary and may fail after any of them.

  Theories of the runtime (\<open>engine.py\<close> below the commands).

  \<^item> Runtime_State holds the record \<open>runtime\<close>, field by field that of the dataclass \<open>Runtime\<close>, and the
    queries; Runtime_Events the history and the outbox, Runtime_Accounting the accounting queue,
    Runtime_Access captures and the end of sessions, Runtime_Sessions attempts, renewals and
    reconciliation, Runtime_Traffic frames, aging and the clock, Runtime_Results the results of
    exchanges, grants and dynamic authorization.
  \<^item> Runtime_Invariant states the locale \<open>runtime_invariant\<close>: a property kept by the primitive updates
    of the runtime. Inside it every operation is shown to keep the property. Runtime_Steps adds the
    transition relation of a running switch, and Runtime_Safety interprets the locale on the
    invariants of the switch: bounded and consecutive history, numbering of events, accounting records, table
    limits, subjects of attempts and sessions, and who may be on a port.

  Theories of the commands.

  \<^item> Engine_Commands, Engine_Edits and Engine_Policy model the handlers: those that leave the
    configuration alone (\<open>operation\<close>), endpoints, attachments, ports and VLANs, and the policy of the
    switch together with a planned SET (\<open>edit\<close>). Records_Radius and Records_Snmp model the handlers of
    the records: RADIUS options, servers, accounting targets, senders, certificates and templates; SNMP
    settings, views, groups, credentials and targets; and the profile of a source. Engine_Commit is what follows a handler, Engine the
    execution of a command with idempotency keys, stale revisions and storage faults.
  \<^item> Engine_Invariant extends the interface to commands that change the configuration
    (\<open>configured_invariant\<close>), Engine_Safety bridges the moment between such a change and the end of its
    commit, Engine_Reachable closes the invariants under boots, commands and restarts (\<open>reachable\<close>),
    Engine_Valid shows that the handlers, which check only what they change, keep the whole
    configuration valid, and Engine_Properties what whole commands promise. Records_Valid is the part of
    that argument for the references between records, and Records_Properties adds the bounds of the
    RADIUS settings, when a record can be deleted, and what the conversion of a credential preserves.

  Theories of SNMP.

  \<^item> Mib_Views holds port lists and the inventory, Mib_Rows the objects \<open>Projection.build\<close> derives from a
    runtime, Mib_Projection the class \<open>Projection\<close> with its views, its tables on demand and its GET and
    GETNEXT. Set_Plan models \<open>plan_set\<close>, and Set_Plan_Valid shows that an accepted plan keeps every
    cross reference.
  \<^item> Snmp_Read models the authorization of a read and GET, GETNEXT and GETBULK, and shows what a station
    that repeats GETBULK receives; Snmp_Lifetime the
    ticket of a received SET; Snmp_Write its admission, run, commit and response, the retirement of
    the adapter and its notifications. The task of a SET runs as one step here; what pysnmp does
    between its awaits is the argument that gives the sights of the ticket.

  Bounds and fuel. The loops over a packet descend on the octets left, the loop over a helper channel
  on its length, the exchange loops on their arguments, GETBULK on its repetitions. Only the clock has
  fuel: \<open>advance\<close> steps from one due time to the next, and a step that runs out of fuel is None, never
  a result. Properties of an advance quantify over the fuel, so they hold for every amount that
  suffices.

  Not modelled: the asynchronous worker and the services of \<open>engine.py\<close> (timers, sockets, helper
  processes), which only call the commands; the receipts of dynamic requests; export and import; the
  transports and registrations of pysnmp and the BER size of a response; the HTTP routes (\<open>api.py\<close>); password
  hashing, certificate parsing and the migration of old schemas.
\<close>

end
